(* ===== verification/Archiver_Prelude.thy ===== *)
theory Archiver_Prelude
  imports
    Main
    "HOL-Library.Char_ord"
    "HOL-Library.List_Lexorder"
    "HOL-Library.Sublist"
    "HOL-Library.Signed_Division"
    "HOL-Library.Word"
begin

text \<open>
  What every component of the archiver shares: Go strings and byte slices as \<open>string\<close> (a
  \<open>char\<close> is a byte), the functions of the packages strings, strconv and errors that the
  source calls, fixed-width integer conversions, and the collections the proofs use.
  Strings are ordered lexicographically by byte (\<open>List_Lexorder\<close> over \<open>Char_ord\<close>), which is
  Go's \<open><\<close> on strings, the order of sort.Strings, and SQLite's BINARY collation.
\<close>

named_theorems str_simps \<open>evaluation of the string functions\<close>

section \<open>Machine integers\<close>

text \<open>The value an int64 operation leaves: the mathematical result wrapped to 64 signed bits.\<close>

definition int64 :: "int \<Rightarrow> int" where
  "int64 i = signed_take_bit 63 i"

lemma int64_id: "- (2 ^ 63) \<le> i \<Longrightarrow> i < 2 ^ 63 \<Longrightarrow> int64 i = i"
  unfolding int64_def by (rule signed_take_bit_int_eq_self) auto

lemma int64_nonneg: "0 \<le> i \<Longrightarrow> i < 2 ^ 63 \<Longrightarrow> int64 i = i"
  by (simp add: int64_id)

lemma int64_bounds: "- (2 ^ 63) \<le> int64 i" "int64 i < 2 ^ 63"
  unfolding int64_def
  using signed_take_bit_int_greater_eq_minus_exp [of 63 i] signed_take_bit_int_less_exp [of 63 i] by simp_all

lemma int64_mod: "int64 i = (i + 2 ^ 63) mod 2 ^ 64 - 2 ^ 63"
  by (simp add: int64_def signed_take_bit_eq_take_bit_shift take_bit_eq_mod)

lemma int64_over:
  assumes "2 ^ 63 \<le> i" "i < 2 ^ 63 + 2 ^ 64"
  shows "int64 i = i - 2 ^ 64"
proof -
  have "(i + 2 ^ 63) mod 2 ^ 64 = (i + 2 ^ 63 - 2 ^ 64) mod 2 ^ 64" by (rule minus_mod_self2 [symmetric])
  also have "\<dots> = i + 2 ^ 63 - 2 ^ 64" using assms by (intro mod_pos_pos_trivial) auto
  finally show ?thesis by (simp add: int64_mod)
qed

lemma int64_word: "int64 i = sint (of_int i :: 64 word)"
  by (simp add: int64_def signed_of_int)

section \<open>Strings and errors\<close>

type_synonym bytes = string

text \<open>The sentinels that \<open>errors.Is\<close> compares with, and an error as its message and the sentinels
  it wraps: \<open>fmt.Errorf\<close> with \<open>%w\<close> keeps them, \<open>errors.New\<close> has none.\<close>

datatype sentinel =
    ErrNotExist | ErrCanceled | ErrDeadlineExceeded | ErrNoRows
  | ErrBodyTooLarge | ErrCaptureHashMismatch | ErrDatasetInvalid | ErrStreamNotConfigured

datatype go_error = GoError (err_text: string) (err_wraps: "sentinel list")

type_synonym 'a result = "go_error + 'a"

definition errors_New :: "string \<Rightarrow> go_error" where
  "errors_New msg = GoError msg []"

definition errors_Is :: "go_error \<Rightarrow> sentinel \<Rightarrow> bool" where
  "errors_Is e s \<longleftrightarrow> s \<in> set (err_wraps e)"

definition err_wrap :: "string \<Rightarrow> go_error \<Rightarrow> go_error" where
  "err_wrap prefix_text e = GoError (prefix_text @ '': '' @ err_text e) (err_wraps e)"

lemma errors_Is_wrap [simp]: "errors_Is (err_wrap p e) s = errors_Is e s"
  by (simp add: errors_Is_def err_wrap_def)

lemma errors_Is_New [simp]: "\<not> errors_Is (errors_New m) s"
  by (simp add: errors_Is_def errors_New_def)

definition bind_res :: "'a result \<Rightarrow> ('a \<Rightarrow> 'b result) \<Rightarrow> 'b result" where
  "bind_res r f = (case r of Inl e \<Rightarrow> Inl e | Inr a \<Rightarrow> f a)"

lemma bind_res_simps [simp]:
  "bind_res (Inl e) f = Inl e"
  "bind_res (Inr a) f = f a"
  by (simp_all add: bind_res_def)

lemma bind_res_Inr: "bind_res r f = Inr b \<longleftrightarrow> (\<exists>a. r = Inr a \<and> f a = Inr b)"
  by (cases r) auto

definition is_ok :: "'a result \<Rightarrow> bool" where
  "is_ok r = (case r of Inl _ \<Rightarrow> False | Inr _ \<Rightarrow> True)"

lemma is_ok_simps [simp]: "is_ok (Inr a)" "\<not> is_ok (Inl e)"
  by (simp_all add: is_ok_def)

lemma is_ok_iff: "is_ok r \<longleftrightarrow> (\<exists>a. r = Inr a)"
  by (cases r) auto

subsection \<open>Package strings\<close>

definition has_prefix :: "string \<Rightarrow> string \<Rightarrow> bool" where
  "has_prefix s p = (take (length p) s = p)"

definition has_suffix :: "string \<Rightarrow> string \<Rightarrow> bool" where
  "has_suffix s p = has_prefix (rev s) (rev p)"

fun str_contains :: "string \<Rightarrow> string \<Rightarrow> bool" where
  "str_contains [] sub = (sub = [])"
| "str_contains (c # cs) sub = (has_prefix (c # cs) sub \<or> str_contains cs sub)"

definition contains_any :: "string \<Rightarrow> string \<Rightarrow> bool" where
  "contains_any s chars = list_ex (\<lambda>c. c \<in> set chars) s"

definition lower_char :: "char \<Rightarrow> char" where
  "lower_char c = (if CHR ''A'' \<le> c \<and> c \<le> CHR ''Z'' then char_of (of_char c + 32 :: nat) else c)"

definition to_lower :: "string \<Rightarrow> string" where
  "to_lower s = map lower_char s"

definition replace_char :: "char \<Rightarrow> char \<Rightarrow> string \<Rightarrow> string" where
  "replace_char a b s = map (\<lambda>c. if c = a then b else c) s"

definition trim_left :: "string \<Rightarrow> string \<Rightarrow> string" where
  "trim_left s cutset = dropWhile (\<lambda>c. c \<in> set cutset) s"

definition trim_right :: "string \<Rightarrow> string \<Rightarrow> string" where
  "trim_right s cutset = rev (trim_left (rev s) cutset)"

text \<open>The ASCII white space of strings.TrimSpace: tab, line feed, vertical tab, form feed, carriage
  return, space.\<close>

definition white_space :: string where
  "white_space = [char_of (9::nat), char_of (10::nat), char_of (11::nat), char_of (12::nat), char_of (13::nat), CHR '' '']"

definition trim_space :: "string \<Rightarrow> string" where
  "trim_space s = trim_right (trim_left s white_space) white_space"

definition newline_chars :: string where
  "newline_chars = [char_of (13::nat), char_of (10::nat)]"

definition newline_nul_chars :: string where
  "newline_nul_chars = newline_chars @ [char_of (0::nat)]"

fun split_on :: "char \<Rightarrow> string \<Rightarrow> string list" where
  "split_on d [] = [[]]"
| "split_on d (c # cs) =
     (if c = d then [] # split_on d cs
      else (case split_on d cs of [] \<Rightarrow> [[c]] | w # ws \<Rightarrow> (c # w) # ws))"

fun join_with :: "string \<Rightarrow> string list \<Rightarrow> string" where
  "join_with sep [] = []"
| "join_with sep [w] = w"
| "join_with sep (w # ws) = w @ sep @ join_with sep ws"

text \<open>The verb \<open>%q\<close> of package fmt, for texts without a quote, a backslash or a control character.\<close>

definition quote :: "string \<Rightarrow> string" where
  "quote s = [char_of (34::nat)] @ s @ [char_of (34::nat)]"

lemmas str_defs = has_prefix_def has_suffix_def contains_any_def to_lower_def lower_char_def
  trim_left_def trim_right_def trim_space_def white_space_def newline_chars_def newline_nul_chars_def

lemma has_prefix_append [simp]: "has_prefix (p @ s) p"
  by (simp add: has_prefix_def)

lemma has_prefix_iff: "has_prefix s p \<longleftrightarrow> (\<exists>t. s = p @ t)"
  unfolding has_prefix_def by (metis append_eq_conv_conj append_take_drop_id)

lemma has_suffix_iff: "has_suffix s p \<longleftrightarrow> (\<exists>t. s = t @ p)"
proof -
  have "has_suffix s p \<longleftrightarrow> (\<exists>t. rev s = rev p @ t)"
    by (simp add: has_suffix_def has_prefix_iff)
  also have "\<dots> \<longleftrightarrow> (\<exists>t. s = t @ p)"
    by (metis rev_append rev_rev_ident)
  finally show ?thesis .
qed

lemma str_contains_iff: "str_contains s sub \<longleftrightarrow> (\<exists>a b. s = a @ sub @ b)"
proof (induction s)
  case Nil
  then show ?case by auto
next
  case (Cons c cs)
  show ?case
  proof
    assume "str_contains (c # cs) sub"
    then consider "has_prefix (c # cs) sub" | "str_contains cs sub" by auto
    then show "\<exists>a b. c # cs = a @ sub @ b"
    proof cases
      case 1
      then show ?thesis unfolding has_prefix_iff by (metis append_Nil)
    next
      case 2
      with Cons.IH show ?thesis by (metis append_Cons)
    qed
  next
    assume "\<exists>a b. c # cs = a @ sub @ b"
    then obtain a b where eq: "c # cs = a @ sub @ b" by blast
    show "str_contains (c # cs) sub"
    proof (cases a)
      case Nil
      with eq have "has_prefix (c # cs) sub" by (auto simp: has_prefix_iff)
      then show ?thesis by simp
    next
      case (Cons x xs)
      with eq have "cs = xs @ sub @ b" by simp
      with Cons.IH show ?thesis by auto
    qed
  qed
qed

lemma str_contains_self [simp]: "str_contains s s"
  unfolding str_contains_iff by (metis append_Nil append_Nil2)

lemma split_on_ne [simp]: "split_on d s \<noteq> []"
  by (induction s) (auto split: list.splits)

lemma split_on_no_sep: "w \<in> set (split_on d s) \<Longrightarrow> d \<notin> set w"
proof (induction s arbitrary: w)
  case Nil
  then show ?case by simp
next
  case (Cons c cs)
  then show ?case by (cases "split_on d cs") (auto split: if_splits)
qed

lemma join_split: "join_with [d] (split_on d s) = s"
proof (induction s)
  case Nil
  then show ?case by simp
next
  case (Cons c cs)
  obtain w ws where sp: "split_on d cs = w # ws"
    by (cases "split_on d cs") auto
  with Cons.IH show ?case by (cases ws) auto
qed

lemma split_on_plain: "d \<notin> set w \<Longrightarrow> split_on d w = [w]"
  by (induction w) auto

lemma split_on_append: "d \<notin> set w \<Longrightarrow> split_on d (w @ d # s) = w # split_on d s"
  by (induction w) auto

lemma split_join:
  "ws \<noteq> [] \<Longrightarrow> \<forall>w \<in> set ws. d \<notin> set w \<Longrightarrow> split_on d (join_with [d] ws) = ws"
proof (induction ws rule: induct_list012)
  case (3 w v ws)
  then show ?case by (simp add: split_on_append)
qed (simp_all add: split_on_plain)

lemma join_with_inj:
  assumes "us \<noteq> []" "vs \<noteq> []" "\<forall>w \<in> set us. d \<notin> set w" "\<forall>w \<in> set vs. d \<notin> set w"
    and "join_with [d] us = join_with [d] vs"
  shows "us = vs"
  using assms split_join by metis

subsection \<open>Package strconv: decimal numbers\<close>

definition digit_char :: "nat \<Rightarrow> char" where
  "digit_char d = char_of (48 + d)"

definition digit_val :: "char \<Rightarrow> nat option" where
  "digit_val c = (if CHR ''0'' \<le> c \<and> c \<le> CHR ''9'' then Some (of_char c - 48) else None)"

fun nat_str :: "nat \<Rightarrow> string" where
  "nat_str n = (if n < 10 then [digit_char n] else nat_str (n div 10) @ [digit_char (n mod 10)])"

declare nat_str.simps [simp del]

definition itoa :: "int \<Rightarrow> string" where
  "itoa i = (if i < 0 then CHR ''-'' # nat_str (nat (- i)) else nat_str (nat i))"

text \<open>A number of exactly \<open>w\<close> decimal digits, with leading zeros (the low \<open>w\<close> digits).\<close>

fun pad_dec :: "nat \<Rightarrow> nat \<Rightarrow> string" where
  "pad_dec 0 n = []"
| "pad_dec (Suc w) n = pad_dec w (n div 10) @ [digit_char (n mod 10)]"

text \<open>Digits read from the left into an accumulator; \<open>None\<close> at the first character that is none.\<close>

fun read_digits :: "nat \<Rightarrow> string \<Rightarrow> nat option" where
  "read_digits acc [] = Some acc"
| "read_digits acc (c # cs) =
     (case digit_val c of None \<Rightarrow> None | Some d \<Rightarrow> read_digits (10 * acc + d) cs)"

definition parse_dec :: "string \<Rightarrow> nat option" where
  "parse_dec s = (if s = [] then None else read_digits 0 s)"

text \<open>strconv.ParseUint(s, 10, 64): an empty string, a character that is no digit and a value over
  64 bits are errors.\<close>

definition parse_uint64 :: "string \<Rightarrow> 64 word option" where
  "parse_uint64 s = (case parse_dec s of None \<Rightarrow> None
     | Some n \<Rightarrow> if n < 2 ^ 64 then Some (of_nat n) else None)"

definition format_uint64 :: "64 word \<Rightarrow> string" where
  "format_uint64 v = nat_str (unat v)"

lemma of_char_digit: "d < 10 \<Longrightarrow> of_char (digit_char d) = 48 + d"
  by (simp add: digit_char_def)

lemma digit_val_char [simp]: "d < 10 \<Longrightarrow> digit_val (digit_char d) = Some d"
  by (simp add: digit_val_def less_eq_char_def of_char_digit)

lemma digit_char_less: "a < 10 \<Longrightarrow> b < 10 \<Longrightarrow> digit_char a < digit_char b \<longleftrightarrow> a < b"
  by (simp add: less_char_def of_char_digit)

lemma digit_char_inj: "a < 10 \<Longrightarrow> b < 10 \<Longrightarrow> digit_char a = digit_char b \<longleftrightarrow> a = b"
  by (metis of_char_digit add_left_cancel)

lemma read_digits_append:
  "read_digits acc (s @ t) = (case read_digits acc s of None \<Rightarrow> None | Some a \<Rightarrow> read_digits a t)"
  by (induction s arbitrary: acc) (auto split: option.splits)

lemma read_digits_nat_str: "read_digits 0 (nat_str n) = Some n"
proof (induction n rule: nat_str.induct)
  case (1 n)
  then show ?case by (auto simp: nat_str.simps [of n] read_digits_append)
qed

lemma nat_str_ne [simp]: "nat_str n \<noteq> []"
  by (subst nat_str.simps) simp

lemma parse_dec_nat_str [simp]: "parse_dec (nat_str n) = Some n"
  by (simp add: parse_dec_def read_digits_nat_str)

lemma nat_str_inj: "nat_str m = nat_str n \<longleftrightarrow> m = n"
  by (metis parse_dec_nat_str option.inject)

lemma parse_format_uint64: "parse_uint64 (format_uint64 v) = Some v"
proof -
  have "unat v < 2 ^ 64" using unsigned_less [of v] by simp
  then show ?thesis by (simp add: parse_uint64_def format_uint64_def)
qed

lemma length_pad_dec [simp]: "length (pad_dec w n) = w"
  by (induction w arbitrary: n) auto

lemma read_pad_dec: "n < 10 ^ w \<Longrightarrow> read_digits 0 (pad_dec w n) = Some n"
proof (induction w arbitrary: n)
  case 0
  then show ?case by simp
next
  case (Suc w)
  then have "n div 10 < 10 ^ w" by (simp add: div_less_iff_less_mult mult.commute)
  with Suc.IH show ?case by (simp add: read_digits_append)
qed

lemma pad_dec_digit: "c \<in> set (pad_dec w n) \<Longrightarrow> \<exists>d < 10. c = digit_char d"
proof (induction w arbitrary: n)
  case (Suc w)
  have "n mod 10 < 10" by simp
  with Suc show ?case by fastforce
qed simp

lemma nat_str_digit: "c \<in> set (nat_str n) \<Longrightarrow> \<exists>d < 10. c = digit_char d"
proof (induction n rule: nat_str.induct)
  case (1 n)
  have lt: "n mod 10 < 10" by simp
  show ?case
  proof (cases "n < 10")
    case True
    with 1 show ?thesis by (auto simp: nat_str.simps [of n])
  next
    case False
    with "1.prems" have "c \<in> set (nat_str (n div 10)) \<or> c = digit_char (n mod 10)"
      by (subst (asm) nat_str.simps) auto
    with False "1.IH" lt show ?thesis by blast
  qed
qed

end
