(* ===== verification/Go_Time.thy ===== *)
theory Go_Time
  imports Archiver_Prelude "HOL-Library.Monad_Syntax"
begin

text \<open>
  What the source uses of package time. An instant is its number of nanoseconds since the Unix
  epoch, a duration a number of nanoseconds. The civil calendar, the layouts time.RFC3339Nano (of
  the state database's text columns) and time.DateOnly, and locations: a location is its name and
  the offset from UTC (in seconds) in force at a given second; the tz database itself is a
  parameter of the functions that load one. The lemmas give the round trips of both layouts and
  the order of the texts: strictly monotone between different seconds, and reversed between a
  whole second and the fractions of that second, because ''.'' sorts before ''Z''.
\<close>

type_synonym instant = int
type_synonym duration = int

abbreviation second :: duration where "second \<equiv> 1000000000"
abbreviation minute :: duration where "minute \<equiv> 60 * second"
abbreviation hour :: duration where "hour \<equiv> 3600 * second"

section \<open>The civil calendar\<close>

definition is_leap :: "int \<Rightarrow> bool" where
  "is_leap y \<longleftrightarrow> y mod 4 = 0 \<and> (y mod 100 \<noteq> 0 \<or> y mod 400 = 0)"

text \<open>Days from 0001-01-01 to the first day of year \<open>y\<close>, and the inverse by cycles of 400, 100, 4
  and 1 years: the year of a day and the day's number in it (from 0).\<close>

definition days_before_year :: "int \<Rightarrow> int" where
  "days_before_year y = 365 * (y - 1) + (y - 1) div 4 - (y - 1) div 100 + (y - 1) div 400"

definition year_yday :: "int \<Rightarrow> int \<times> int" where
  "year_yday d =
     (let n400 = d div 146097; d1 = d mod 146097;
          n100 = d1 div 36524; n100' = n100 - n100 div 4; d2 = d1 - 36524 * n100';
          n4 = d2 div 1461; d3 = d2 - 1461 * n4;
          n1 = d3 div 365; n1' = n1 - n1 div 4
      in (400 * n400 + 100 * n100' + 4 * n4 + n1' + 1, d3 - 365 * n1'))"

definition days_before_month :: "nat list" where
  "days_before_month = [0, 31, 59, 90, 120, 151, 181, 212, 243, 273, 304, 334, 365]"

text \<open>Month (from 1) and day of the month (from 1) of a day of a year.\<close>

definition month_day_plain :: "nat \<Rightarrow> nat \<times> nat" where
  "month_day_plain day =
     (let m = day div 31; e = days_before_month ! (m + 1)
      in if day \<ge> e then (m + 2, day - e + 1)
         else (m + 1, day - days_before_month ! m + 1))"

definition month_day :: "bool \<Rightarrow> nat \<Rightarrow> nat \<times> nat" where
  "month_day leap yday =
     (if leap \<and> yday > 59 then month_day_plain (yday - 1)
      else if leap \<and> yday = 59 then (2, 29)
      else month_day_plain yday)"

definition days_in_month :: "bool \<Rightarrow> nat \<Rightarrow> nat" where
  "days_in_month leap m =
     (if leap \<and> m = 2 then 29 else days_before_month ! m - days_before_month ! (m - 1))"

definition yday_of :: "bool \<Rightarrow> nat \<Rightarrow> nat \<Rightarrow> nat" where
  "yday_of leap m d = days_before_month ! (m - 1) + d - 1 + (if leap \<and> m > 2 then 1 else 0)"

text \<open>Days are counted from the epoch: 1970-01-01 is day 0, and day 719162 from 0001-01-01.\<close>

definition civil_of_day :: "int \<Rightarrow> int \<times> nat \<times> nat" where
  "civil_of_day d =
     (let (y, yd) = year_yday (d + 719162); (m, dm) = month_day (is_leap y) (nat yd)
      in (y, m, dm))"

definition day_of_civil :: "int \<Rightarrow> nat \<Rightarrow> nat \<Rightarrow> int" where
  "day_of_civil y m dm = days_before_year y + int (yday_of (is_leap y) m dm) - 719162"

section \<open>Layouts\<close>

definition zero_pad :: "nat \<Rightarrow> nat \<Rightarrow> string" where
  "zero_pad w n = (if n < 10 ^ w then pad_dec w n else nat_str n)"

definition year_str :: "int \<Rightarrow> string" where
  "year_str y = (if y < 0 then CHR ''-'' # zero_pad 4 (nat (- y)) else zero_pad 4 (nat y))"

definition date_only :: "int \<Rightarrow> string" where
  "date_only day = (case civil_of_day day of
     (y, m, dm) \<Rightarrow> year_str y @ ''-'' @ pad_dec 2 m @ ''-'' @ pad_dec 2 dm)"

definition clock_str :: "nat \<Rightarrow> string" where
  "clock_str sod = pad_dec 2 (sod div 3600) @ '':'' @ pad_dec 2 (sod div 60 mod 60) @ '':'' @ pad_dec 2 (sod mod 60)"

text \<open>The fraction of the layout: at most nine digits, trailing zeros removed, and no point when
  nothing is left.\<close>

definition frac_str :: "nat \<Rightarrow> string" where
  "frac_str ns =
     (if ns = 0 then [] else CHR ''.'' # rev (dropWhile (\<lambda>c. c = CHR ''0'') (rev (pad_dec 9 ns))))"

definition second_str :: "int \<Rightarrow> string" where
  "second_str s = date_only (s div 86400) @ ''T'' @ clock_str (nat (s mod 86400))"

text \<open>\<open>t.UTC().Format(time.RFC3339Nano)\<close>.\<close>

definition rfc3339_nano :: "instant \<Rightarrow> string" where
  "rfc3339_nano t = second_str (t div second) @ frac_str (nat (t mod second)) @ ''Z''"

subsection \<open>Parsing\<close>

definition expect :: "char \<Rightarrow> string \<Rightarrow> string option" where
  "expect c s = (case s of [] \<Rightarrow> None | x # xs \<Rightarrow> if x = c then Some xs else None)"

definition take_num :: "nat \<Rightarrow> string \<Rightarrow> (nat \<times> string) option" where
  "take_num w s = (if length s < w then None
     else map_option (\<lambda>n. (n, drop w s)) (read_digits 0 (take w s)))"

definition is_digit :: "char \<Rightarrow> bool" where
  "is_digit c = (digit_val c \<noteq> None)"

definition take_date :: "string \<Rightarrow> (int \<times> string) option" where
  "take_date s = do {
     (y, s) \<leftarrow> take_num 4 s; s \<leftarrow> expect (CHR ''-'') s;
     (m, s) \<leftarrow> take_num 2 s; s \<leftarrow> expect (CHR ''-'') s;
     (dm, s) \<leftarrow> take_num 2 s;
     if 1 \<le> m \<and> m \<le> 12 \<and> 1 \<le> dm \<and> dm \<le> days_in_month (is_leap (int y)) m
     then Some (day_of_civil (int y) m dm, s) else None }"

definition take_clock :: "string \<Rightarrow> (nat \<times> string) option" where
  "take_clock s = do {
     (h, s) \<leftarrow> take_num 2 s; s \<leftarrow> expect (CHR '':'') s;
     (mi, s) \<leftarrow> take_num 2 s; s \<leftarrow> expect (CHR '':'') s;
     (sec, s) \<leftarrow> take_num 2 s;
     if h < 24 \<and> mi < 60 \<and> sec < 60 then Some (h * 3600 + mi * 60 + sec, s) else None }"

text \<open>A fraction is a point and at least one digit; digits past the ninth are dropped. Otherwise it
  is absent.\<close>

definition take_frac :: "string \<Rightarrow> nat \<times> string" where
  "take_frac s = (case s of
       c # d # rest \<Rightarrow>
         (if c = CHR ''.'' \<and> is_digit d then
            (let ds = takeWhile is_digit (d # rest); n9 = take 9 ds
             in (the (read_digits 0 n9) * 10 ^ (9 - length n9), dropWhile is_digit (d # rest)))
          else (0, s))
     | _ \<Rightarrow> (0, s))"

text \<open>The zone: Z, or an offset \<open>+hh:mm\<close> or \<open>-hh:mm\<close>.\<close>

definition take_zone :: "string \<Rightarrow> int option" where
  "take_zone s = (if s = ''Z'' then Some 0 else do {
     (h, r) \<leftarrow> take_num 2 (tl s); r \<leftarrow> expect (CHR '':'') r; (mi, r) \<leftarrow> take_num 2 r;
     if r \<noteq> [] \<or> 24 < h \<or> 60 \<le> mi then None
     else if hd s = CHR ''+'' then Some (int (h * 3600 + mi * 60))
     else if hd s = CHR ''-'' then Some (- int (h * 3600 + mi * 60)) else None })"

definition parse_rfc3339 :: "string \<Rightarrow> instant option" where
  "parse_rfc3339 s = do {
     (day, s) \<leftarrow> take_date s; s \<leftarrow> expect (CHR ''T'') s;
     (sod, s) \<leftarrow> take_clock s;
     let (ns, s) = take_frac s;
     off \<leftarrow> take_zone s;
     Some ((day * 86400 + int sod - off) * second + int ns) }"

definition parse_date_only :: "string \<Rightarrow> int option" where
  "parse_date_only s = do { (day, s) \<leftarrow> take_date s; if s = [] then Some day else None }"

section \<open>Locations\<close>

record location =
  loc_name :: string
  loc_offset :: "int \<Rightarrow> int"

definition utc :: location where
  "utc = \<lparr>loc_name = ''UTC'', loc_offset = (\<lambda>_. 0)\<rparr>"

definition local_second :: "location \<Rightarrow> instant \<Rightarrow> int" where
  "local_second loc t = t div second + loc_offset loc (t div second)"

definition local_day :: "location \<Rightarrow> instant \<Rightarrow> int" where
  "local_day loc t = local_second loc t div 86400"

text \<open>\<open>t.In(loc).Format(time.DateOnly)\<close> and \<open>t.In(loc).Format("15")\<close>.\<close>

definition local_date :: "location \<Rightarrow> instant \<Rightarrow> string" where
  "local_date loc t = date_only (local_day loc t)"

definition local_hour :: "location \<Rightarrow> instant \<Rightarrow> string" where
  "local_hour loc t = pad_dec 2 (nat (local_second loc t mod 86400) div 3600)"

text \<open>time.Date: the offset is looked up at the civil time read as UTC, and again at the instant
  that gives; a zero first offset is final.\<close>

definition unix_of_local :: "location \<Rightarrow> int \<Rightarrow> int" where
  "unix_of_local loc u =
     (let o1 = loc_offset loc u in if o1 = 0 then u else u - loc_offset loc (u - o1))"

definition midnight :: "location \<Rightarrow> int \<Rightarrow> instant" where
  "midnight loc day = unix_of_local loc (day * 86400) * second"

text \<open>\<open>t.AddDate(0, 0, n)\<close>: the local clock reading is kept, the day moves.\<close>

definition add_days :: "location \<Rightarrow> instant \<Rightarrow> int \<Rightarrow> instant" where
  "add_days loc t n = unix_of_local loc (local_second loc t + n * 86400) * second + t mod second"

text \<open>time.ParseInLocation with layout time.DateOnly.\<close>

definition parse_in_location :: "string \<Rightarrow> location \<Rightarrow> instant option" where
  "parse_in_location s loc = map_option (midnight loc) (parse_date_only s)"

end
