(* ===== verification/Records.thy ===== *)
theory Records
  imports Go_Time
begin

text \<open>
  The data model of internal/model/model.go. A struct is a record with the source's fields in its
  order; a pointer field that may be nil is an \<open>option\<close>. Ticks, captures, compactions and
  uploads are rows of the state database too, where a time is its RFC 3339 text and a feed
  timestamp its decimal text, so those records take the type of a time (\<open>'t\<close>) and of a feed
  timestamp (\<open>'u\<close>) as parameters: \<open>capture\<close> is the Go struct, \<open>capture_row\<close> the row. A Go map
  is a partial function, a slice a list, int64 counters are \<open>int\<close>.
\<close>

text \<open>The layout versions of model.go and the test of a readable one.\<close>

definition SidecarFormatVersion :: int where "SidecarFormatVersion = 1"
definition ManifestFormatVersion :: int where "ManifestFormatVersion = 1"
definition ParquetFormatVersion :: int where "ParquetFormatVersion = 1"
definition ParquetSchemaVersionNested :: int where "ParquetSchemaVersionNested = 1"
definition ParquetSchemaVersionTripUpdatesFlattened :: int where
  "ParquetSchemaVersionTripUpdatesFlattened = 2"

definition SupportedParquetSchemaVersions :: "int list" where
  "SupportedParquetSchemaVersions = [ParquetSchemaVersionNested, ParquetSchemaVersionTripUpdatesFlattened]"

fun is_supported_in :: "int list \<Rightarrow> int \<Rightarrow> bool" where
  "is_supported_in [] v = False"
| "is_supported_in (version # vs) v = (if v = version then True else is_supported_in vs v)"

definition IsSupportedParquetSchemaVersion :: "int \<Rightarrow> bool" where
  "IsSupportedParquetSchemaVersion v = is_supported_in SupportedParquetSchemaVersions v"

lemmas version_defs = SidecarFormatVersion_def ManifestFormatVersion_def ParquetFormatVersion_def
  ParquetSchemaVersionNested_def ParquetSchemaVersionTripUpdatesFlattened_def

record 't tick_of =
  tick_id :: string
  tick_source :: string
  tick_stream :: string
  tick_scheduled :: 't
  tick_started :: "'t option"
  tick_finished :: "'t option"
  tick_result :: string
  tick_skip_reason :: string
  tick_error_category :: string
  tick_error_detail :: string
  tick_http_status :: int
  tick_attempts :: int
  tick_fingerprint :: string

type_synonym tick = "instant tick_of"
type_synonym tick_row = "string tick_of"

record ('t, 'u) capture_of =
  cap_format :: int
  cap_id :: string
  cap_tick_id :: string
  cap_source :: string
  cap_stream :: string
  cap_kind :: string
  cap_scheduled :: 't
  cap_started :: 't
  cap_completed :: 't
  cap_archive_date :: string
  cap_timezone :: string
  cap_url :: string
  cap_http_status :: int
  cap_headers :: "(string \<times> string) list"
  cap_duration_ms :: int
  cap_attempts :: int
  cap_advertised_length :: int
  cap_encoded_length :: int
  cap_decoded_length :: int
  cap_encoding :: string
  cap_sha256 :: string
  cap_raw_path :: string
  cap_sidecar_path :: string
  cap_transport_complete :: bool
  cap_parse_status :: string
  cap_parse_error :: string
  cap_feed_version :: string
  cap_incrementality :: "int option"
  cap_feed_timestamp :: "'u option"
  cap_entity_count :: "int option"
  cap_flags :: "string list"
  cap_fingerprint :: string
  cap_app_version :: string
  cap_protobuf_revision :: string

type_synonym capture = "(instant, 64 word) capture_of"
type_synonym capture_row = "(string, string) capture_of"

record artifact =
  art_path :: string
  art_part :: int
  art_bytes :: int
  art_sha256 :: string
  art_rows :: int
  art_entities :: int

record manifest_destination =
  md_id :: string
  md_required :: bool

record input_capture =
  ic_id :: string
  ic_sha256 :: string
  ic_bytes :: int

record excluded_capture =
  ex_id :: string
  ex_reason :: string

definition ExcludedCaptureRawMissing :: string where "ExcludedCaptureRawMissing = ''raw_missing''"
definition ExcludedCaptureHashMismatch :: string where "ExcludedCaptureHashMismatch = ''hash_mismatch''"
definition ExcludedCaptureReadError :: string where "ExcludedCaptureReadError = ''read_error''"

record manifest =
  man_version :: int
  man_dataset_status :: string
  man_source :: string
  man_stream :: string
  man_registry :: string
  man_kind :: string
  man_archive_date :: string
  man_timezone :: string
  man_url :: string
  man_day_start :: instant
  man_day_end :: instant
  man_format :: int
  man_schema :: int
  man_revision :: int
  man_predecessor :: "int option"
  man_app_version :: string
  man_protobuf_revision :: string
  man_fingerprint :: string
  man_created :: instant
  man_scheduled_ticks :: int
  man_skipped_ticks :: int
  man_captured_responses :: int
  man_valid_snapshots :: int
  man_invalid_payloads :: int
  man_http_failures :: int
  man_network_failures :: int
  man_failure_categories :: "string \<rightharpoonup> int"
  man_entity_total :: int
  man_stu_total :: "int option"
  man_earliest_capture :: "instant option"
  man_latest_capture :: "instant option"
  man_earliest_feed :: "64 word option"
  man_latest_feed :: "64 word option"
  man_largest_gap_ms :: int
  man_parse_status_counts :: "string \<rightharpoonup> int"
  man_flag_counts :: "string \<rightharpoonup> int"
  man_files :: "artifact list"
  man_inputs :: "input_capture list"
  man_excluded :: "excluded_capture list"
  man_license :: string
  man_attribution :: string
  man_required_destinations :: "string list"
  man_destinations :: "manifest_destination list"

record 't compaction_of =
  cp_id :: int
  cp_source :: string
  cp_stream :: string
  cp_archive_date :: string
  cp_revision :: int
  cp_status :: string
  cp_directory :: string
  cp_data_path :: string
  cp_manifest_path :: string
  cp_data_sha256 :: string
  cp_data_bytes :: int
  cp_rows :: int
  cp_entities :: int
  cp_excluded :: int
  cp_required :: "string list"
  cp_created :: 't
  cp_published :: "'t option"

type_synonym compaction = "instant compaction_of"
type_synonym compaction_row = "string compaction_of"

record 't upload_of =
  up_id :: int
  up_compaction :: int
  up_destination :: string
  up_required :: bool
  up_status :: string
  up_attempts :: int
  up_next :: 't
  up_error :: string
  up_remote :: string
  up_completed :: "'t option"

type_synonym upload = "instant upload_of"
type_synonym upload_row = "string upload_of"

text \<open>NewID: the time in the layout \<open>20060102T150405.000000000Z_\<close> and twelve random bytes in
  hexadecimal. The bytes are an argument; a failing generator is \<open>None\<close>.\<close>

definition hex_digit :: "nat \<Rightarrow> char" where
  "hex_digit d = (if d < 10 then char_of (48 + d) else char_of (87 + d))"

definition hex_encode :: "bytes \<Rightarrow> string" where
  "hex_encode bs = concat (map (\<lambda>c. [hex_digit (of_char c div 16), hex_digit (of_char c mod 16)]) bs)"

definition id_stamp :: "instant \<Rightarrow> string" where
  "id_stamp t = (let s = t div second; sod = nat (s mod 86400) in
     (case civil_of_day (s div 86400) of (y, m, dm) \<Rightarrow> year_str y @ pad_dec 2 m @ pad_dec 2 dm) @ ''T''
     @ pad_dec 2 (sod div 3600) @ pad_dec 2 (sod div 60 mod 60) @ pad_dec 2 (sod mod 60) @ ''.''
     @ pad_dec 9 (nat (t mod second)) @ ''Z_'')"

definition NewID :: "instant \<Rightarrow> bytes option \<Rightarrow> string result" where
  "NewID now random = (case random of
     None \<Rightarrow> Inl (errors_New ''generate id'')
   | Some bs \<Rightarrow> Inr (id_stamp now @ hex_encode bs))"

lemma length_hex_encode [simp]: "length (hex_encode bs) = 2 * length bs"
  by (induction bs) (simp_all add: hex_encode_def)

lemma IsSupported_iff: "IsSupportedParquetSchemaVersion v \<longleftrightarrow> v = 1 \<or> v = 2"
  by (auto simp: IsSupportedParquetSchemaVersion_def SupportedParquetSchemaVersions_def version_defs)

end
