(* ===== verification/Gtfs_Message.thy ===== *)
theory Gtfs_Message
  imports Records
begin

text \<open>
  Protocol buffer messages as the source reads them through protoreflect: a message value knows the
  field numbers of its descriptor and the fields that are set, by number. A typed nil pointer is
  \<open>NilMessage\<close>. \<open>Int()\<close> and \<open>Uint()\<close> read 64-bit values, \<open>Enum()\<close> a 32-bit one and
  \<open>Float()\<close> the bits of a float64. The typed getters of the pinned bindings are these accesses at
  the numbers that gtfs-realtime.proto, the published specification of the format, gives the fields.
\<close>

type_synonym int32 = "32 word"
type_synonym uint32 = "32 word"
type_synonym int64 = "64 word"
type_synonym uint64 = "64 word"
type_synonym float32 = "32 word"
type_synonym float64 = "64 word"

datatype pval =
    PString string | PBool bool | PInt int64 | PUint uint64 | PEnum int32 | PFloat float64
  | PMessage pmsg | PList "pmsg list"
and pmsg = NilMessage | Message "nat list" "(nat \<times> pval) list"

definition IsValid :: "pmsg \<Rightarrow> bool" where
  "IsValid m = (case m of NilMessage \<Rightarrow> False | Message _ _ \<Rightarrow> True)"

text \<open>\<open>m.Descriptor().Fields().ByNumber(n)\<close>: nil when the descriptor has no such field.\<close>

definition ByNumber :: "pmsg \<Rightarrow> nat \<Rightarrow> nat option" where
  "ByNumber m n = (case m of NilMessage \<Rightarrow> None
     | Message desc entries \<Rightarrow> if n \<in> set desc then Some n else None)"

definition field_of :: "pmsg \<Rightarrow> nat \<Rightarrow> pval option" where
  "field_of m n = (case m of NilMessage \<Rightarrow> None | Message desc entries \<Rightarrow> map_of entries n)"

definition Has :: "pmsg \<Rightarrow> nat \<Rightarrow> bool" where
  "Has m n \<longleftrightarrow> field_of m n \<noteq> None"

text \<open>The readers of a value; the kind of a field is fixed by its descriptor, so the other
  constructors do not occur at a reader.\<close>

definition StringValue :: "pval \<Rightarrow> string" where
  "StringValue v = (case v of PString s \<Rightarrow> s | _ \<Rightarrow> [])"

definition BoolValue :: "pval \<Rightarrow> bool" where
  "BoolValue v = (case v of PBool b \<Rightarrow> b | _ \<Rightarrow> False)"

definition IntValue :: "pval \<Rightarrow> int64" where
  "IntValue v = (case v of PInt i \<Rightarrow> i | _ \<Rightarrow> 0)"

definition UintValue :: "pval \<Rightarrow> uint64" where
  "UintValue v = (case v of PUint i \<Rightarrow> i | _ \<Rightarrow> 0)"

definition EnumValue :: "pval \<Rightarrow> int32" where
  "EnumValue v = (case v of PEnum e \<Rightarrow> e | _ \<Rightarrow> 0)"

definition FloatValue :: "pval \<Rightarrow> float64" where
  "FloatValue v = (case v of PFloat x \<Rightarrow> x | _ \<Rightarrow> 0)"

definition SubMessage :: "pval \<Rightarrow> pmsg" where
  "SubMessage v = (case v of PMessage m \<Rightarrow> m | _ \<Rightarrow> NilMessage)"

definition Elements :: "pval option \<Rightarrow> pmsg list" where
  "Elements v = (case v of Some (PList ms) \<Rightarrow> ms | _ \<Rightarrow> [])"

text \<open>The three shapes of a field in a mapper: \<open>if f != nil && m.Has(f)\<close> around a scalar, the same
  around a message, and the loop over a list.\<close>

definition optional :: "pmsg \<Rightarrow> nat \<Rightarrow> (pval \<Rightarrow> 'a) \<Rightarrow> 'a option" where
  "optional m n conv = (if ByNumber m n \<noteq> None \<and> Has m n then map_option conv (field_of m n) else None)"

definition optional_message :: "pmsg \<Rightarrow> nat \<Rightarrow> (pmsg \<Rightarrow> 'a option) \<Rightarrow> 'a option" where
  "optional_message m n proj =
     (if ByNumber m n \<noteq> None \<and> Has m n
      then (case field_of m n of None \<Rightarrow> None | Some v \<Rightarrow> proj (SubMessage v)) else None)"

fun append_projected :: "(pmsg \<Rightarrow> 'a option) \<Rightarrow> pmsg list \<Rightarrow> 'a option list \<Rightarrow> 'a option list" where
  "append_projected proj [] out = out"
| "append_projected proj (x # xs) out = append_projected proj xs (out @ [proj x])"

definition repeated_message :: "pmsg \<Rightarrow> nat \<Rightarrow> (pmsg \<Rightarrow> 'a option) \<Rightarrow> 'a option list" where
  "repeated_message m n proj =
     (if ByNumber m n \<noteq> None
      then (let elements = Elements (field_of m n) in
            if length elements > 0 then append_projected proj elements [] else [])
      else [])"

lemma append_projected_map: "append_projected proj xs out = out @ map proj xs"
  by (induction xs arbitrary: out) auto

lemma repeated_message_map:
  "repeated_message m n proj = (if ByNumber m n = None then [] else map proj (Elements (field_of m n)))"
  by (cases "Elements (field_of m n)") (auto simp: repeated_message_def append_projected_map Let_def)

lemma case_Some_map [simp]: "(case v of None \<Rightarrow> None | Some x \<Rightarrow> Some (f x)) = map_option f v"
  by (cases v) auto

lemma map_option_map_option [simp]: "map_option f (map_option g v) = map_option (\<lambda>x. f (g x)) v"
  by (cases v) auto

lemma map_option_id [simp]: "map_option (\<lambda>x. x) v = v"
  by (cases v) auto

lemma optional_Message [simp]:
  "optional (Message desc entries) n conv = (if n \<in> set desc then map_option conv (map_of entries n) else None)"
  by (auto simp: optional_def ByNumber_def Has_def field_of_def)

lemma optional_message_Message [simp]:
  "optional_message (Message desc entries) n proj =
     (if n \<in> set desc then (case map_of entries n of None \<Rightarrow> None | Some v \<Rightarrow> proj (SubMessage v)) else None)"
  by (auto simp: optional_message_def ByNumber_def Has_def field_of_def split: option.splits)

lemma repeated_message_Message [simp]:
  "repeated_message (Message desc entries) n proj =
     (if n \<in> set desc then map proj (Elements (map_of entries n)) else [])"
  by (simp add: repeated_message_map ByNumber_def field_of_def)

lemma IsValid_simps [simp]: "\<not> IsValid NilMessage" "IsValid (Message d f)"
  by (simp_all add: IsValid_def)

lemma value_simps [simp]:
  "StringValue (PString s) = s" "BoolValue (PBool b) = b" "IntValue (PInt i) = i" "UintValue (PUint u) = u"
  "EnumValue (PEnum e) = e" "FloatValue (PFloat x) = x" "SubMessage (PMessage m) = m"
  "Elements None = []" "Elements (Some (PList ms)) = ms"
  by (simp_all add: StringValue_def BoolValue_def IntValue_def UintValue_def EnumValue_def FloatValue_def SubMessage_def Elements_def)

end
