(* ===== verification/Projection.thy ===== *)
theory Projection
  imports Gtfs_Message
begin

text \<open>
  internal/projection/projection_generated.go: the structs of the nested Parquet layout and, for each
  message type of gtfs-realtime.proto, the mapper from the reflective message to the struct. A pointer
  is an \<open>option\<close>, a nil slice and an empty one are both the empty list. \<open>float32(x)\<close> of a float64 is
  the argument \<open>narrow\<close>.
\<close>

type_synonym float32_conv = "float64 \<Rightarrow> float32"

section \<open>The structs\<close>

record TimeRange =
  range_start :: "uint64 option"
  range_end :: "uint64 option"

record TripDescriptor =
  trip_trip_id :: "string option"
  trip_route_id :: "string option"
  trip_direction_id :: "uint32 option"
  trip_start_time :: "string option"
  trip_start_date :: "string option"
  trip_schedule_relationship :: "int32 option"

record EntitySelector =
  selector_agency_id :: "string option"
  selector_route_id :: "string option"
  selector_route_type :: "int32 option"
  selector_trip :: "TripDescriptor option"
  selector_stop_id :: "string option"
  selector_direction_id :: "uint32 option"

record TranslatedString_Translation =
  translation_text :: "string option"
  translation_language :: "string option"

record TranslatedString =
  translated_translation :: "TranslatedString_Translation option list"

record Alert =
  alert_active_period :: "TimeRange option list"
  alert_informed_entity :: "EntitySelector option list"
  alert_cause :: "int32 option"
  alert_effect :: "int32 option"
  alert_url :: "TranslatedString option"
  alert_header_text :: "TranslatedString option"
  alert_description_text :: "TranslatedString option"
  alert_tts_header_text :: "TranslatedString option"
  alert_tts_description_text :: "TranslatedString option"
  alert_severity_level :: "int32 option"

record VehicleDescriptor =
  vehicle_id :: "string option"
  vehicle_label :: "string option"
  vehicle_license_plate :: "string option"

record TripUpdate_StopTimeEvent =
  event_delay :: "int32 option"
  event_time :: "int64 option"
  event_uncertainty :: "int32 option"

record TripUpdate_StopTimeUpdate_StopTimeProperties =
  stopprop_assigned_stop_id :: "string option"

record TripUpdate_StopTimeUpdate =
  stop_stop_sequence :: "uint32 option"
  stop_stop_id :: "string option"
  stop_arrival :: "TripUpdate_StopTimeEvent option"
  stop_departure :: "TripUpdate_StopTimeEvent option"
  stop_schedule_relationship :: "int32 option"
  stop_stop_time_properties :: "TripUpdate_StopTimeUpdate_StopTimeProperties option"

record TripUpdate_TripProperties =
  tripprop_trip_id :: "string option"
  tripprop_start_date :: "string option"
  tripprop_start_time :: "string option"

record TripUpdate =
  update_trip :: "TripDescriptor option"
  update_vehicle :: "VehicleDescriptor option"
  update_stop_time_update :: "TripUpdate_StopTimeUpdate option list"
  update_timestamp :: "uint64 option"
  update_delay :: "int32 option"
  update_trip_properties :: "TripUpdate_TripProperties option"

record Position =
  position_latitude :: "float32 option"
  position_longitude :: "float32 option"
  position_bearing :: "float32 option"
  position_odometer :: "float64 option"
  position_speed :: "float32 option"

record VehiclePosition_CarriageDetails =
  carriage_id :: "string option"
  carriage_label :: "string option"
  carriage_occupancy_status :: "int32 option"
  carriage_occupancy_percentage :: "int32 option"
  carriage_carriage_sequence :: "uint32 option"

record VehiclePosition =
  vpos_trip :: "TripDescriptor option"
  vpos_vehicle :: "VehicleDescriptor option"
  vpos_position :: "Position option"
  vpos_current_stop_sequence :: "uint32 option"
  vpos_stop_id :: "string option"
  vpos_current_status :: "int32 option"
  vpos_timestamp :: "uint64 option"
  vpos_congestion_level :: "int32 option"
  vpos_occupancy_status :: "int32 option"
  vpos_occupancy_percentage :: "uint32 option"
  vpos_multi_carriage_details :: "VehiclePosition_CarriageDetails option list"

record FeedEntity =
  entity_id :: "string option"
  entity_is_deleted :: "bool option"
  entity_trip_update :: "TripUpdate option"
  entity_vehicle :: "VehiclePosition option"
  entity_alert :: "Alert option"

record FeedHeader =
  header_gtfs_realtime_version :: "string option"
  header_incrementality :: "int32 option"
  header_timestamp :: "uint64 option"

record FeedMessage =
  message_header :: "FeedHeader option"
  message_entity :: "FeedEntity option list"


section \<open>The mappers\<close>

definition projectTimeRange :: "pmsg \<Rightarrow> TimeRange option" where
  "projectTimeRange m = (if \<not> IsValid m then None else Some \<lparr>
    range_start = optional m 1 UintValue,
    range_end = optional m 2 UintValue \<rparr>)"

definition projectTripDescriptor :: "pmsg \<Rightarrow> TripDescriptor option" where
  "projectTripDescriptor m = (if \<not> IsValid m then None else Some \<lparr>
    trip_trip_id = optional m 1 StringValue,
    trip_route_id = optional m 5 StringValue,
    trip_direction_id = optional m 6 (\<lambda>v. ucast (UintValue v)),
    trip_start_time = optional m 2 StringValue,
    trip_start_date = optional m 3 StringValue,
    trip_schedule_relationship = optional m 4 EnumValue \<rparr>)"

definition projectEntitySelector :: "pmsg \<Rightarrow> EntitySelector option" where
  "projectEntitySelector m = (if \<not> IsValid m then None else Some \<lparr>
    selector_agency_id = optional m 1 StringValue,
    selector_route_id = optional m 2 StringValue,
    selector_route_type = optional m 3 (\<lambda>v. ucast (IntValue v)),
    selector_trip = optional_message m 4 projectTripDescriptor,
    selector_stop_id = optional m 5 StringValue,
    selector_direction_id = optional m 6 (\<lambda>v. ucast (UintValue v)) \<rparr>)"

definition projectTranslatedString_Translation :: "pmsg \<Rightarrow> TranslatedString_Translation option" where
  "projectTranslatedString_Translation m = (if \<not> IsValid m then None else Some \<lparr>
    translation_text = optional m 1 StringValue,
    translation_language = optional m 2 StringValue \<rparr>)"

definition projectTranslatedString :: "pmsg \<Rightarrow> TranslatedString option" where
  "projectTranslatedString m = (if \<not> IsValid m then None else Some \<lparr>
    translated_translation = repeated_message m 1 projectTranslatedString_Translation \<rparr>)"

definition projectAlert :: "pmsg \<Rightarrow> Alert option" where
  "projectAlert m = (if \<not> IsValid m then None else Some \<lparr>
    alert_active_period = repeated_message m 1 projectTimeRange,
    alert_informed_entity = repeated_message m 5 projectEntitySelector,
    alert_cause = optional m 6 EnumValue,
    alert_effect = optional m 7 EnumValue,
    alert_url = optional_message m 8 projectTranslatedString,
    alert_header_text = optional_message m 10 projectTranslatedString,
    alert_description_text = optional_message m 11 projectTranslatedString,
    alert_tts_header_text = optional_message m 12 projectTranslatedString,
    alert_tts_description_text = optional_message m 13 projectTranslatedString,
    alert_severity_level = optional m 14 EnumValue \<rparr>)"

definition projectVehicleDescriptor :: "pmsg \<Rightarrow> VehicleDescriptor option" where
  "projectVehicleDescriptor m = (if \<not> IsValid m then None else Some \<lparr>
    vehicle_id = optional m 1 StringValue,
    vehicle_label = optional m 2 StringValue,
    vehicle_license_plate = optional m 3 StringValue \<rparr>)"

definition projectTripUpdate_StopTimeEvent :: "pmsg \<Rightarrow> TripUpdate_StopTimeEvent option" where
  "projectTripUpdate_StopTimeEvent m = (if \<not> IsValid m then None else Some \<lparr>
    event_delay = optional m 1 (\<lambda>v. ucast (IntValue v)),
    event_time = optional m 2 IntValue,
    event_uncertainty = optional m 3 (\<lambda>v. ucast (IntValue v)) \<rparr>)"

definition projectTripUpdate_StopTimeUpdate_StopTimeProperties :: "pmsg \<Rightarrow> TripUpdate_StopTimeUpdate_StopTimeProperties option" where
  "projectTripUpdate_StopTimeUpdate_StopTimeProperties m = (if \<not> IsValid m then None else Some \<lparr>
    stopprop_assigned_stop_id = optional m 1 StringValue \<rparr>)"

definition projectTripUpdate_StopTimeUpdate :: "pmsg \<Rightarrow> TripUpdate_StopTimeUpdate option" where
  "projectTripUpdate_StopTimeUpdate m = (if \<not> IsValid m then None else Some \<lparr>
    stop_stop_sequence = optional m 1 (\<lambda>v. ucast (UintValue v)),
    stop_stop_id = optional m 4 StringValue,
    stop_arrival = optional_message m 2 projectTripUpdate_StopTimeEvent,
    stop_departure = optional_message m 3 projectTripUpdate_StopTimeEvent,
    stop_schedule_relationship = optional m 5 EnumValue,
    stop_stop_time_properties = optional_message m 6 projectTripUpdate_StopTimeUpdate_StopTimeProperties \<rparr>)"

definition projectTripUpdate_TripProperties :: "pmsg \<Rightarrow> TripUpdate_TripProperties option" where
  "projectTripUpdate_TripProperties m = (if \<not> IsValid m then None else Some \<lparr>
    tripprop_trip_id = optional m 1 StringValue,
    tripprop_start_date = optional m 2 StringValue,
    tripprop_start_time = optional m 3 StringValue \<rparr>)"

definition projectTripUpdate :: "pmsg \<Rightarrow> TripUpdate option" where
  "projectTripUpdate m = (if \<not> IsValid m then None else Some \<lparr>
    update_trip = optional_message m 1 projectTripDescriptor,
    update_vehicle = optional_message m 3 projectVehicleDescriptor,
    update_stop_time_update = repeated_message m 2 projectTripUpdate_StopTimeUpdate,
    update_timestamp = optional m 4 UintValue,
    update_delay = optional m 5 (\<lambda>v. ucast (IntValue v)),
    update_trip_properties = optional_message m 6 projectTripUpdate_TripProperties \<rparr>)"

definition projectPosition :: "float32_conv \<Rightarrow> pmsg \<Rightarrow> Position option" where
  "projectPosition narrow m = (if \<not> IsValid m then None else Some \<lparr>
    position_latitude = optional m 1 (\<lambda>v. narrow (FloatValue v)),
    position_longitude = optional m 2 (\<lambda>v. narrow (FloatValue v)),
    position_bearing = optional m 3 (\<lambda>v. narrow (FloatValue v)),
    position_odometer = optional m 4 FloatValue,
    position_speed = optional m 5 (\<lambda>v. narrow (FloatValue v)) \<rparr>)"

definition projectVehiclePosition_CarriageDetails :: "pmsg \<Rightarrow> VehiclePosition_CarriageDetails option" where
  "projectVehiclePosition_CarriageDetails m = (if \<not> IsValid m then None else Some \<lparr>
    carriage_id = optional m 1 StringValue,
    carriage_label = optional m 2 StringValue,
    carriage_occupancy_status = optional m 3 EnumValue,
    carriage_occupancy_percentage = optional m 4 (\<lambda>v. ucast (IntValue v)),
    carriage_carriage_sequence = optional m 5 (\<lambda>v. ucast (UintValue v)) \<rparr>)"

definition projectVehiclePosition :: "float32_conv \<Rightarrow> pmsg \<Rightarrow> VehiclePosition option" where
  "projectVehiclePosition narrow m = (if \<not> IsValid m then None else Some \<lparr>
    vpos_trip = optional_message m 1 projectTripDescriptor,
    vpos_vehicle = optional_message m 8 projectVehicleDescriptor,
    vpos_position = optional_message m 2 (projectPosition narrow),
    vpos_current_stop_sequence = optional m 3 (\<lambda>v. ucast (UintValue v)),
    vpos_stop_id = optional m 7 StringValue,
    vpos_current_status = optional m 4 EnumValue,
    vpos_timestamp = optional m 5 UintValue,
    vpos_congestion_level = optional m 6 EnumValue,
    vpos_occupancy_status = optional m 9 EnumValue,
    vpos_occupancy_percentage = optional m 10 (\<lambda>v. ucast (UintValue v)),
    vpos_multi_carriage_details = repeated_message m 11 projectVehiclePosition_CarriageDetails \<rparr>)"

definition projectFeedEntity :: "float32_conv \<Rightarrow> pmsg \<Rightarrow> FeedEntity option" where
  "projectFeedEntity narrow m = (if \<not> IsValid m then None else Some \<lparr>
    entity_id = optional m 1 StringValue,
    entity_is_deleted = optional m 2 BoolValue,
    entity_trip_update = optional_message m 3 projectTripUpdate,
    entity_vehicle = optional_message m 4 (projectVehiclePosition narrow),
    entity_alert = optional_message m 5 projectAlert \<rparr>)"

definition projectFeedHeader :: "pmsg \<Rightarrow> FeedHeader option" where
  "projectFeedHeader m = (if \<not> IsValid m then None else Some \<lparr>
    header_gtfs_realtime_version = optional m 1 StringValue,
    header_incrementality = optional m 2 EnumValue,
    header_timestamp = optional m 3 UintValue \<rparr>)"

definition projectFeedMessage :: "float32_conv \<Rightarrow> pmsg \<Rightarrow> FeedMessage option" where
  "projectFeedMessage narrow m = (if \<not> IsValid m then None else Some \<lparr>
    message_header = optional_message m 1 projectFeedHeader,
    message_entity = repeated_message m 2 (projectFeedEntity narrow) \<rparr>)"

definition ProjectFeedMessage :: "float32_conv \<Rightarrow> pmsg \<Rightarrow> FeedMessage option" where
  "ProjectFeedMessage narrow m = projectFeedMessage narrow m"

end
