(* ===== verification/Decode.thy ===== *)
theory Decode
  imports Projection
begin

text \<open>
  internal/gtfsrt/decode.go. \<open>proto.Unmarshal\<close> with AllowPartial and \<open>proto.CheckInitialized\<close> belong to
  the protobuf library and are the fields of the argument \<open>decoder\<close>; an error is the text that the
  verb \<open>%T\<close> prints of it, which is all that the source keeps. The typed getters are reads of the
  message by field number and are safe on a nil message, as in the generated bindings.
\<close>

record decoder =
  unmarshal :: "bytes \<Rightarrow> string + pmsg"
  check_initialized :: "pmsg \<Rightarrow> string option"

section \<open>Getters of the bindings\<close>

definition get_message :: "pmsg \<Rightarrow> nat \<Rightarrow> pmsg" where
  "get_message m n = (case field_of m n of None \<Rightarrow> NilMessage | Some v \<Rightarrow> SubMessage v)"

definition get_scalar :: "(pval \<Rightarrow> 'a) \<Rightarrow> 'a \<Rightarrow> pmsg \<Rightarrow> nat \<Rightarrow> 'a" where
  "get_scalar conv dflt m n = (case field_of m n of None \<Rightarrow> dflt | Some v \<Rightarrow> conv v)"

definition get_list :: "pmsg \<Rightarrow> nat \<Rightarrow> pmsg list" where
  "get_list m n = Elements (field_of m n)"

abbreviation GetHeader :: "pmsg \<Rightarrow> pmsg" where "GetHeader m \<equiv> get_message m 1"
abbreviation GetEntity :: "pmsg \<Rightarrow> pmsg list" where "GetEntity m \<equiv> get_list m 2"
abbreviation GetGtfsRealtimeVersion :: "pmsg \<Rightarrow> string" where
  "GetGtfsRealtimeVersion h \<equiv> get_scalar StringValue [] h 1"
abbreviation GetIncrementality :: "pmsg \<Rightarrow> int32" where
  "GetIncrementality h \<equiv> get_scalar EnumValue 0 h 2"
abbreviation GetTimestamp :: "pmsg \<Rightarrow> uint64" where
  "GetTimestamp h \<equiv> get_scalar UintValue 0 h 3"
abbreviation GetIsDeleted :: "pmsg \<Rightarrow> bool" where
  "GetIsDeleted e \<equiv> get_scalar BoolValue False e 2"
abbreviation GetTripUpdate :: "pmsg \<Rightarrow> pmsg" where "GetTripUpdate e \<equiv> get_message e 3"
abbreviation GetVehicle :: "pmsg \<Rightarrow> pmsg" where "GetVehicle e \<equiv> get_message e 4"
abbreviation GetAlert :: "pmsg \<Rightarrow> pmsg" where "GetAlert e \<equiv> get_message e 5"

definition DIFFERENTIAL :: int32 where "DIFFERENTIAL = 1"

text \<open>The message \<open>&gtfs.FeedMessage{}\<close>.\<close>

definition empty_feed :: pmsg where "empty_feed = Message [1, 2] []"

section \<open>Package time\<close>

text \<open>\<open>time.Unix(sec, 0)\<close> keeps the seconds since year 1 in an int64, so a second count near the upper
  end of int64 wraps to a time in the far past.\<close>

definition unix_to_internal :: int where "unix_to_internal = 62135596800"

definition time_Unix :: "int \<Rightarrow> instant" where
  "time_Unix sec = (int64 (sec + unix_to_internal) - unix_to_internal) * second"

section \<open>Decode\<close>

record metadata =
  meta_message :: "pmsg option"
  meta_parse_status :: string
  meta_parse_error :: string
  meta_feed_version :: string
  meta_incrementality :: "int32 option"
  meta_feed_timestamp :: "uint64 option"
  meta_entity_count :: "int32 option"
  meta_flags :: "string list"

definition boundedError :: "string \<Rightarrow> string" where
  "boundedError v = (if length v > 160 then take 160 v else v)"

fun unique_loop :: "string list \<Rightarrow> string list \<Rightarrow> string list" where
  "unique_loop out [] = out"
| "unique_loop out (v # vs) =
     (if length out = 0 \<or> last out \<noteq> v then unique_loop (out @ [v]) vs else unique_loop out vs)"

definition unique :: "string list \<Rightarrow> string list" where
  "unique values = (if length values = 0 then [] else unique_loop [] (sort values))"

definition decode_header :: "pmsg \<Rightarrow> instant \<Rightarrow> metadata \<Rightarrow> metadata" where
  "decode_header header observedAt meta =
     (if \<not> IsValid header \<or> GetGtfsRealtimeVersion header = []
      then meta\<lparr>meta_parse_status := ''protobuf_required_field'',
                meta_parse_error := ''feed header or gtfs_realtime_version is absent''\<rparr>
      else
        (let meta1 = meta\<lparr>meta_feed_version := GetGtfsRealtimeVersion header\<rparr>;
             meta2 = (if Has header 2
                      then meta1\<lparr>meta_incrementality := Some (GetIncrementality header),
                                 meta_flags := meta_flags meta1 @
                                   (if GetIncrementality header = DIFFERENTIAL
                                    then [''differential_incrementality''] else [])\<rparr>
                      else meta1)
         in if Has header 3
            then (let v = GetTimestamp header; feedTime = time_Unix (sint v)
                  in meta2\<lparr>meta_feed_timestamp := Some v,
                           meta_flags := meta_flags meta2 @
                             (if feedTime > observedAt + 5 * 60 * second
                              then [''feed_timestamp_future''] else []) @
                             (if feedTime < observedAt + - (24 * 3600 * second)
                              then [''feed_timestamp_stale''] else [])\<rparr>)
            else meta2\<lparr>meta_flags := meta_flags meta2 @ [''missing_feed_timestamp'']\<rparr>))"

definition payloads :: "pmsg \<Rightarrow> nat" where
  "payloads entity = (if IsValid (GetTripUpdate entity) then 1 else 0)
     + (if IsValid (GetVehicle entity) then 1 else 0) + (if IsValid (GetAlert entity) then 1 else 0)"

definition actual_kind :: "pmsg \<Rightarrow> string" where
  "actual_kind entity =
     (let a0 = ''unknown'';
          a1 = (if IsValid (GetTripUpdate entity) then ''trip_update'' else a0);
          a2 = (if IsValid (GetVehicle entity) then ''vehicle_position'' else a1)
      in if IsValid (GetAlert entity) then ''alert'' else a2)"

fun decode_entities :: "string \<Rightarrow> pmsg list \<Rightarrow> string list \<Rightarrow> string list" where
  "decode_entities expectedKind [] flags = flags"
| "decode_entities expectedKind (entity # es) flags =
     (let flags1 = (if payloads entity > 1 then flags @ [''multiple_entity_payloads''] else flags);
          flags2 = (if payloads entity = 0 \<and> \<not> GetIsDeleted entity
                    then flags1 @ [''entity_without_payload''] else flags1);
          flags3 = (if expectedKind \<noteq> ''mixed'' \<and> expectedKind \<noteq> ''auto'' \<and>
                       actual_kind entity \<noteq> ''unknown'' \<and> actual_kind entity \<noteq> expectedKind
                    then flags2 @ [''unexpected_entity_kind''] else flags2)
      in decode_entities expectedKind es flags3)"

definition Decode :: "decoder \<Rightarrow> bytes \<Rightarrow> string \<Rightarrow> instant \<Rightarrow> metadata" where
  "Decode dec body expectedKind observedAt =
     (let meta = \<lparr>meta_message = Some empty_feed, meta_parse_status = ''valid'', meta_parse_error = [],
                  meta_feed_version = [], meta_incrementality = None, meta_feed_timestamp = None,
                  meta_entity_count = None, meta_flags = []\<rparr>
      in if length body = 0
         then meta\<lparr>meta_parse_status := ''empty_body'', meta_parse_error := ''response body is empty''\<rparr>
         else (case unmarshal dec body of
           Inl err \<Rightarrow> meta\<lparr>meta_parse_status := ''protobuf_decode'',
                           meta_parse_error := boundedError err, meta_message := None\<rparr>
         | Inr message \<Rightarrow>
             (let meta1 = meta\<lparr>meta_message := Some message\<rparr>;
                  meta2 = (case check_initialized dec message of
                             Some err \<Rightarrow> meta1\<lparr>meta_parse_status := ''protobuf_required_field'',
                                               meta_parse_error := boundedError err\<rparr>
                           | None \<Rightarrow> meta1);
                  meta3 = decode_header (GetHeader message) observedAt meta2;
                  meta4 = meta3\<lparr>meta_entity_count := Some (word_of_nat (length (GetEntity message)))\<rparr>
              in meta4\<lparr>meta_flags :=
                   unique (decode_entities expectedKind (GetEntity message) (meta_flags meta4))\<rparr>)))"

end
