(* ===== verification/Flatten.thy ===== *)
theory Flatten
  imports Decode
begin

text \<open>
  internal/projection/trip_update_flatten.go: the flattened trip update layout, one row per
  stop_time_update or one base row for a trip update without any. Fields of the messages are read
  at their numbers in gtfs-realtime.proto; a pointer field copied from a message is \<open>pointer\<close>.
\<close>

record TripUpdateProvenance =
  prov_source_file :: string
  prov_feed_url :: string
  prov_fetch_timestamp :: instant
  prov_scheduled_at :: instant
  prov_source_id :: string
  prov_stream_id :: string
  prov_capture_id :: string
  prov_archive_date :: string
  prov_archive_timezone :: string
  prov_parse_status :: string
  prov_validation_flags :: "string list"

record TripUpdateStopRow =
  row_source_file :: "string"
  row_feed_url :: "string"
  row_feed_timestamp :: "uint64 option"
  row_fetch_timestamp :: "instant"
  row_entity_id :: "string"
  row_trip_id :: "string"
  row_route_id :: "string"
  row_direction_id :: "uint32 option"
  row_start_time :: "string"
  row_start_date :: "string"
  row_schedule_relationship :: "int32"
  row_vehicle_id :: "string"
  row_vehicle_label :: "string"
  row_trip_timestamp :: "uint64 option"
  row_trip_delay :: "int32 option"
  row_stop_sequence :: "uint32 option"
  row_stop_id :: "string option"
  row_arrival_delay :: "int32 option"
  row_arrival_time :: "int64 option"
  row_arrival_uncertainty :: "int32 option"
  row_departure_delay :: "int32 option"
  row_departure_time :: "int64 option"
  row_departure_uncertainty :: "int32 option"
  row_stop_schedule_relationship :: "int32 option"
  row_license_plate :: "string option"
  row_arrival_scheduled_time :: "int64 option"
  row_departure_scheduled_time :: "int64 option"
  row_departure_occupancy_status :: "int32 option"
  row_assigned_stop_id :: "string option"
  row_stop_headsign :: "string option"
  row_pickup_type :: "int32 option"
  row_drop_off_type :: "int32 option"
  row_trip_properties_trip_id :: "string option"
  row_trip_properties_start_date :: "string option"
  row_trip_properties_start_time :: "string option"
  row_trip_properties_shape_id :: "string option"
  row_trip_properties_trip_headsign :: "string option"
  row_trip_properties_trip_short_name :: "string option"
  row_modified_trip_modifications_id :: "string option"
  row_modified_trip_affected_trip_id :: "string option"
  row_modified_trip_start_date :: "string option"
  row_modified_trip_start_time :: "string option"
  row_wheelchair_accessible :: "int32 option"
  row_feed_version :: "string"
  row_incrementality :: "int32 option"
  row_is_deleted :: "bool"
  row_source_id :: "string"
  row_stream_id :: "string"
  row_capture_id :: "string"
  row_archive_date :: "string"
  row_archive_timezone :: "string"
  row_scheduled_at :: "instant"
  row_parse_status :: "string"
  row_validation_flags :: "string list"

definition pointer :: "(pval \<Rightarrow> 'a) \<Rightarrow> pmsg \<Rightarrow> nat \<Rightarrow> 'a option" where
  "pointer conv m n = map_option conv (field_of m n)"

abbreviation int32_value :: "pval \<Rightarrow> int32" where "int32_value v \<equiv> ucast (IntValue v)"
abbreviation uint32_value :: "pval \<Rightarrow> uint32" where "uint32_value v \<equiv> ucast (UintValue v)"
abbreviation GetStopTimeUpdate :: "pmsg \<Rightarrow> pmsg list" where "GetStopTimeUpdate tu \<equiv> get_list tu 2"

text \<open>The row built from the provenance and the entity, every other column at its zero value.\<close>

definition entity_row ::
    "TripUpdateProvenance \<Rightarrow> string \<Rightarrow> uint64 option \<Rightarrow> int32 option \<Rightarrow> pmsg \<Rightarrow> TripUpdateStopRow" where
  "entity_row prov feedVersion feedTimestamp incrementality entity = \<lparr>
    row_source_file = prov_source_file prov,
    row_feed_url = prov_feed_url prov,
    row_feed_timestamp = feedTimestamp,
    row_fetch_timestamp = prov_fetch_timestamp prov,
    row_entity_id = get_scalar StringValue [] entity 1,
    row_trip_id = [],
    row_route_id = [],
    row_direction_id = None,
    row_start_time = [],
    row_start_date = [],
    row_schedule_relationship = 0,
    row_vehicle_id = [],
    row_vehicle_label = [],
    row_trip_timestamp = None,
    row_trip_delay = None,
    row_stop_sequence = None,
    row_stop_id = None,
    row_arrival_delay = None,
    row_arrival_time = None,
    row_arrival_uncertainty = None,
    row_departure_delay = None,
    row_departure_time = None,
    row_departure_uncertainty = None,
    row_stop_schedule_relationship = None,
    row_license_plate = None,
    row_arrival_scheduled_time = None,
    row_departure_scheduled_time = None,
    row_departure_occupancy_status = None,
    row_assigned_stop_id = None,
    row_stop_headsign = None,
    row_pickup_type = None,
    row_drop_off_type = None,
    row_trip_properties_trip_id = None,
    row_trip_properties_start_date = None,
    row_trip_properties_start_time = None,
    row_trip_properties_shape_id = None,
    row_trip_properties_trip_headsign = None,
    row_trip_properties_trip_short_name = None,
    row_modified_trip_modifications_id = None,
    row_modified_trip_affected_trip_id = None,
    row_modified_trip_start_date = None,
    row_modified_trip_start_time = None,
    row_wheelchair_accessible = None,
    row_feed_version = feedVersion,
    row_incrementality = incrementality,
    row_is_deleted = GetIsDeleted entity,
    row_source_id = prov_source_id prov,
    row_stream_id = prov_stream_id prov,
    row_capture_id = prov_capture_id prov,
    row_archive_date = prov_archive_date prov,
    row_archive_timezone = prov_archive_timezone prov,
    row_scheduled_at = prov_scheduled_at prov,
    row_parse_status = prov_parse_status prov,
    row_validation_flags = prov_validation_flags prov \<rparr>"

text \<open>The columns of the trip update: its descriptor, vehicle, timestamp, delay and properties.\<close>

definition trip_row :: "pmsg \<Rightarrow> TripUpdateStopRow \<Rightarrow> TripUpdateStopRow" where
  "trip_row tu base0 =
     (let td = get_message tu 1;
          base1 = (if IsValid td
                   then base0\<lparr>row_trip_id := get_scalar StringValue [] td 1,
                              row_route_id := get_scalar StringValue [] td 5,
                              row_direction_id := pointer uint32_value td 6,
                              row_start_time := get_scalar StringValue [] td 2,
                              row_start_date := get_scalar StringValue [] td 3,
                              row_schedule_relationship := get_scalar EnumValue 0 td 4\<rparr>
                   else base0);
          vd = get_message tu 3;
          base2 = (if IsValid vd
                   then base1\<lparr>row_vehicle_id := get_scalar StringValue [] vd 1,
                              row_vehicle_label := get_scalar StringValue [] vd 2,
                              row_license_plate := pointer StringValue vd 3\<rparr>
                   else base1);
          base3 = base2\<lparr>row_trip_timestamp := pointer UintValue tu 4,
                        row_trip_delay := pointer int32_value tu 5\<rparr>;
          tp = get_message tu 6
      in if IsValid tp
         then base3\<lparr>row_trip_properties_trip_id := pointer StringValue tp 1,
                    row_trip_properties_start_date := pointer StringValue tp 2,
                    row_trip_properties_start_time := pointer StringValue tp 3\<rparr>
         else base3)"

text \<open>The columns of one stop_time_update, on a copy of the base row.\<close>

definition stop_row :: "TripUpdateStopRow \<Rightarrow> pmsg \<Rightarrow> TripUpdateStopRow" where
  "stop_row base0 stu =
     (let row1 = base0\<lparr>row_stop_sequence := pointer uint32_value stu 1,
                       row_stop_id := pointer StringValue stu 4\<rparr>;
          row2 = (if Has stu 5 then row1\<lparr>row_stop_schedule_relationship := Some (get_scalar EnumValue 0 stu 5)\<rparr>
                  else row1);
          arrival = get_message stu 2;
          row3 = (if IsValid arrival
                  then row2\<lparr>row_arrival_delay := pointer int32_value arrival 1,
                            row_arrival_time := pointer IntValue arrival 2,
                            row_arrival_uncertainty := pointer int32_value arrival 3\<rparr>
                  else row2);
          departure = get_message stu 3;
          row4 = (if IsValid departure
                  then row3\<lparr>row_departure_delay := pointer int32_value departure 1,
                            row_departure_time := pointer IntValue departure 2,
                            row_departure_uncertainty := pointer int32_value departure 3\<rparr>
                  else row3);
          props = get_message stu 6
      in if IsValid props then row4\<lparr>row_assigned_stop_id := pointer StringValue props 1\<rparr> else row4)"

fun append_stops :: "TripUpdateStopRow \<Rightarrow> pmsg list \<Rightarrow> TripUpdateStopRow list \<Rightarrow> TripUpdateStopRow list" where
  "append_stops base0 [] out = out"
| "append_stops base0 (stu # stus) out = append_stops base0 stus (out @ [stop_row base0 stu])"

fun project_entities ::
    "(pmsg \<Rightarrow> TripUpdateStopRow) \<Rightarrow> pmsg list \<Rightarrow> TripUpdateStopRow list \<Rightarrow> TripUpdateStopRow list" where
  "project_entities new_row [] out = out"
| "project_entities new_row (entity # es) out =
     (let tu = GetTripUpdate entity in
      if \<not> IsValid tu then project_entities new_row es out
      else (let base0 = trip_row tu (new_row entity); stus = GetStopTimeUpdate tu in
            if length stus = 0 then project_entities new_row es (out @ [base0])
            else project_entities new_row es (append_stops base0 stus out)))"

definition ProjectTripUpdateStops :: "pmsg \<Rightarrow> TripUpdateProvenance \<Rightarrow> TripUpdateStopRow list" where
  "ProjectTripUpdateStops message prov =
     (let header = GetHeader message;
          feedVersion = (if IsValid header then GetGtfsRealtimeVersion header else []);
          feedTimestamp = (if IsValid header then pointer UintValue header 3 else None);
          incrementality = (if IsValid header \<and> Has header 2 then Some (GetIncrementality header) else None)
      in project_entities (entity_row prov feedVersion feedTimestamp incrementality) (GetEntity message) [])"

fun count_rows :: "pmsg list \<Rightarrow> int \<Rightarrow> int" where
  "count_rows [] acc = acc"
| "count_rows (entity # es) acc =
     (let tu = GetTripUpdate entity in
      if \<not> IsValid tu then count_rows es acc
      else (let n = length (GetStopTimeUpdate tu) in
            if n > 0 then count_rows es (acc + int n) else count_rows es (acc + 1)))"

definition CountProjectedTripUpdateRows :: "pmsg option \<Rightarrow> int" where
  "CountProjectedTripUpdateRows message =
     (case message of None \<Rightarrow> 0 | Some m \<Rightarrow> count_rows (GetEntity m) 0)"

fun count_stops :: "pmsg list \<Rightarrow> int \<Rightarrow> int" where
  "count_stops [] acc = acc"
| "count_stops (entity # es) acc =
     (let tu = GetTripUpdate entity in
      if IsValid tu then count_stops es (acc + int (length (GetStopTimeUpdate tu)))
      else count_stops es acc)"

definition CountStopTimeUpdates :: "pmsg option \<Rightarrow> int" where
  "CountStopTimeUpdates message =
     (case message of None \<Rightarrow> 0 | Some m \<Rightarrow> count_stops (GetEntity m) 0)"

end
