(* ===== verification/Go_Float.thy ===== *)
theory Go_Float
  imports Complex_Main
begin

text \<open>
  A float64 as the source uses it: read from the configuration, compared, and shown. A finite value is
  its real number; there are two infinities and the NaN, of which YAML writes \<open>.inf\<close>, \<open>-.inf\<close> and
  \<open>.nan\<close>. Comparisons are those of IEEE 754: with a NaN on either side each of them is false, so \<open>\<le>\<close> is
  no order and \<open>\<not> x \<le> y\<close> does not give \<open>y < x\<close>. The rounding of arithmetic is left out.
\<close>

datatype float_value = Finite real | PlusInf | MinusInf | NaN

instantiation float_value :: ord
begin

fun less_eq_float_value :: "float_value \<Rightarrow> float_value \<Rightarrow> bool" where
  "less_eq_float_value NaN y = False"
| "less_eq_float_value MinusInf y = (y \<noteq> NaN)"
| "less_eq_float_value (Finite x) y = (case y of Finite y' \<Rightarrow> x \<le> y' | PlusInf \<Rightarrow> True | _ \<Rightarrow> False)"
| "less_eq_float_value PlusInf y = (y = PlusInf)"

definition less_float_value :: "float_value \<Rightarrow> float_value \<Rightarrow> bool" where
  "less_float_value x y \<longleftrightarrow> x \<le> y \<and> \<not> y \<le> x"

instance ..

end

lemma float_NaN [simp]: "\<not> x \<le> NaN" "\<not> NaN \<le> x" "\<not> x < NaN" "\<not> NaN < (x :: float_value)"
  by (cases x; simp add: less_float_value_def)+

lemma float_Finite [simp]: "Finite x < Finite y \<longleftrightarrow> x < y"
  by (auto simp: less_float_value_def)

lemma float_not_le: "\<not> x \<le> y \<longleftrightarrow> x = NaN \<or> y = NaN \<or> y < (x :: float_value)"
  by (cases x; cases y) (auto simp: less_float_value_def)

lemma float_not_less: "\<not> x < y \<longleftrightarrow> x = NaN \<or> y = NaN \<or> y \<le> (x :: float_value)"
  by (cases x; cases y) (auto simp: less_float_value_def)

lemma float_le_trans: "x \<le> y \<Longrightarrow> y \<le> z \<Longrightarrow> x \<le> (z :: float_value)"
  by (cases x; cases y; cases z) auto

end
