(* ===== verification/Go_Path.thy ===== *)
theory Go_Path
  imports Archiver_Prelude
begin

text \<open>
  What the source uses of package path/filepath (on Unix) and path: IsAbs, Clean, Join, Rel, Base,
  Dir, Ext. Clean works on the components between slashes: empty ones and \<open>.\<close> vanish, \<open>..\<close>
  removes the component before it, is dropped at the root, and is kept at the front of a
  relative path. The lemmas characterise the cleaned components and the relative path below a
  root, which the storage components use to confine every path they build.
\<close>

definition IsAbs :: "string \<Rightarrow> bool" where
  "IsAbs p = has_prefix p ''/''"

text \<open>The components kept so far are held in reverse.\<close>

fun clean_comps :: "bool \<Rightarrow> string list \<Rightarrow> string list \<Rightarrow> string list" where
  "clean_comps rooted acc [] = rev acc"
| "clean_comps rooted acc (c # cs) =
     (if c = [] \<or> c = ''.'' then clean_comps rooted acc cs
      else if c = ''..'' then
        (case acc of
           [] \<Rightarrow> if rooted then clean_comps rooted [] cs else clean_comps rooted [''..''] cs
         | a # as \<Rightarrow> if a = ''..'' then clean_comps rooted (''..'' # acc) cs
                    else clean_comps rooted as cs)
      else clean_comps rooted (c # acc) cs)"

definition comps :: "string \<Rightarrow> string list" where
  "comps p = clean_comps (IsAbs p) [] (split_on (CHR ''/'') p)"

definition unsplit :: "bool \<Rightarrow> string list \<Rightarrow> string" where
  "unsplit rooted cs = (if rooted then CHR ''/'' # join_with ''/'' cs
     else if cs = [] then ''.'' else join_with ''/'' cs)"

definition Clean :: "string \<Rightarrow> string" where
  "Clean p = (if p = [] then ''.'' else unsplit (IsAbs p) (comps p))"

fun Join :: "string list \<Rightarrow> string" where
  "Join [] = []"
| "Join (e # es) = (if e = [] then Join es else Clean (join_with ''/'' (e # es)))"

fun strip_common :: "string list \<Rightarrow> string list \<Rightarrow> string list \<times> string list" where
  "strip_common (b # bs) (t # ts) = (if b = t then strip_common bs ts else (b # bs, t # ts))"
| "strip_common bs ts = (bs, ts)"

text \<open>Rel: an error (\<open>None\<close>) when only one of the two is absolute, or when the base would have to be
  left through a \<open>..\<close> of its own.\<close>

definition Rel :: "string \<Rightarrow> string \<Rightarrow> string option" where
  "Rel base targ =
     (if IsAbs (Clean base) \<noteq> IsAbs (Clean targ) then None
      else (case strip_common (comps base) (comps targ) of
        (bs, ts) \<Rightarrow> if bs \<noteq> [] \<and> hd bs = ''..'' then None
          else Some (unsplit False (replicate (length bs) ''..'' @ ts))))"

definition Base :: "string \<Rightarrow> string" where
  "Base p = (if p = [] then ''.''
     else (let s = trim_right p ''/'' in if s = [] then ''/'' else last (split_on (CHR ''/'') s)))"

definition Dir :: "string \<Rightarrow> string" where
  "Dir p = (let parts = split_on (CHR ''/'') p in
     Clean (concat (map (\<lambda>w. w @ ''/'') (butlast parts))))"

definition Ext :: "string \<Rightarrow> string" where
  "Ext p = (let b = last (split_on (CHR ''/'') p) in
     if CHR ''.'' \<in> set b then CHR ''.'' # last (split_on (CHR ''.'') b) else [])"

section \<open>Cleaned components\<close>

text \<open>A plain component names one directory entry.\<close>

definition plain_comp :: "string \<Rightarrow> bool" where
  "plain_comp c \<longleftrightarrow> c \<noteq> [] \<and> c \<noteq> ''.'' \<and> c \<noteq> ''..'' \<and> CHR ''/'' \<notin> set c"

lemma clean_comps_plain:
  assumes "\<forall>c \<in> set cs. plain_comp c"
  shows "clean_comps r acc (cs @ ds) = clean_comps r (rev cs @ acc) ds"
  using assms by (induction cs arbitrary: acc) (auto simp: plain_comp_def)

text \<open>One component: skipped, going up, or kept.\<close>

lemma clean_comps_step:
  "c = [] \<or> c = ''.'' \<Longrightarrow> clean_comps r acc (c # cs) = clean_comps r acc cs"
  "plain_comp c \<Longrightarrow> clean_comps r acc (c # cs) = clean_comps r (c # acc) cs"
  "clean_comps True [] (''..'' # cs) = clean_comps True [] cs"
  "plain_comp a \<Longrightarrow> clean_comps r (a # acc) (''..'' # cs) = clean_comps r acc cs"
  "clean_comps False (replicate n ''..'') (''..'' # cs) = clean_comps False (replicate (Suc n) ''..'') cs"
  by (auto simp: plain_comp_def) (cases n; simp)

lemma comp_cases:
  assumes "CHR ''/'' \<notin> set c"
  obtains (skip) "c = [] \<or> c = ''.''" | (up) "c = ''..''" | (plain) "plain_comp c"
  using assms by (auto simp: plain_comp_def)

lemma clean_comps_rooted:
  assumes "\<forall>c \<in> set acc. plain_comp c" "\<forall>c \<in> set cs. CHR ''/'' \<notin> set c"
  shows "\<forall>c \<in> set (clean_comps True acc cs). plain_comp c"
  using assms
proof (induction cs arbitrary: acc)
  case (Cons c cs)
  have c: "CHR ''/'' \<notin> set c" and cs: "\<forall>c \<in> set cs. CHR ''/'' \<notin> set c"
    and acc: "\<forall>c \<in> set acc. plain_comp c" using Cons.prems by simp_all
  from c show ?case
  proof (cases rule: comp_cases)
    case skip
    show ?thesis unfolding clean_comps_step(1) [OF skip] by (rule Cons.IH [OF acc cs])
  next
    case plain
    have "\<forall>c \<in> set (c # acc). plain_comp c" using acc plain by simp
    then show ?thesis unfolding clean_comps_step(2) [OF plain] by (rule Cons.IH [OF _ cs])
  next
    case up
    show ?thesis
    proof (cases acc)
      case Nil
      show ?thesis unfolding up Nil clean_comps_step(3) by (rule Cons.IH [OF _ cs]) simp
    next
      case a: (Cons a as)
      have p: "plain_comp a" "\<forall>c \<in> set as. plain_comp c" using acc unfolding a by simp_all
      show ?thesis unfolding up a clean_comps_step(4) [OF p(1)] by (rule Cons.IH [OF p(2) cs])
    qed
  qed
qed simp

text \<open>A relative path cleans to some \<open>..\<close> followed by plain components.\<close>

lemma clean_comps_relative:
  assumes "acc = us @ replicate n ''..''" "\<forall>c \<in> set us. plain_comp c"
    and "\<forall>c \<in> set cs. CHR ''/'' \<notin> set c"
  shows "\<exists>m vs. clean_comps False acc cs = replicate m ''..'' @ vs \<and> (\<forall>c \<in> set vs. plain_comp c)"
  using assms
proof (induction cs arbitrary: acc us n)
  case Nil
  then have "clean_comps False acc [] = replicate n ''..'' @ rev us" by simp
  with Nil.prems(2) show ?case by (metis set_rev)
next
  case (Cons c cs)
  from Cons.prems(3) have cs: "\<forall>c \<in> set cs. CHR ''/'' \<notin> set c" and c: "CHR ''/'' \<notin> set c" by simp_all
  from c show ?case
  proof (cases rule: comp_cases)
    case skip
    show ?thesis unfolding clean_comps_step(1) [OF skip] by (rule Cons.IH [OF Cons.prems(1,2) cs])
  next
    case plain
    have "c # acc = (c # us) @ replicate n ''..''" "\<forall>c \<in> set (c # us). plain_comp c"
      using Cons.prems(1,2) plain by simp_all
    then show ?thesis unfolding clean_comps_step(2) [OF plain] by (rule Cons.IH [OF _ _ cs])
  next
    case up
    show ?thesis
    proof (cases us)
      case Nil
      have acc: "acc = replicate n ''..''" using Cons.prems(1) Nil by simp
      show ?thesis unfolding up acc clean_comps_step(5)
        by (rule Cons.IH [of _ "[]" "Suc n", OF _ _ cs]) simp_all
    next
      case us: (Cons u us')
      have acc: "acc = u # (us' @ replicate n ''..'')" and p: "plain_comp u" "\<forall>c \<in> set us'. plain_comp c"
        using Cons.prems(1,2) us by simp_all
      show ?thesis unfolding up acc clean_comps_step(4) [OF p(1)]
        by (rule Cons.IH [OF refl p(2) cs])
    qed
  qed
qed

lemma comps_rooted: "IsAbs p \<Longrightarrow> \<forall>c \<in> set (comps p). plain_comp c"
  unfolding comps_def
  using clean_comps_rooted [of "[]" "split_on (CHR ''/'') p"] split_on_no_sep [of _ "CHR ''/''" p] by simp

lemma comps_relative:
  assumes "\<not> IsAbs p"
  obtains m vs where "comps p = replicate m ''..'' @ vs" "\<forall>c \<in> set vs. plain_comp c"
  using clean_comps_relative [of "[]" "[]" 0 "split_on (CHR ''/'') p"] split_on_no_sep assms
  unfolding comps_def by auto

lemma plain_no_slash: "plain_comp c \<Longrightarrow> CHR ''/'' \<notin> set c"
  by (simp add: plain_comp_def)

lemma split_join_plain:
  "cs \<noteq> [] \<Longrightarrow> \<forall>c \<in> set cs. plain_comp c \<Longrightarrow> split_on (CHR ''/'') (join_with ''/'' cs) = cs"
  by (rule split_join) (auto simp: plain_no_slash)

lemma join_plain_ne: "cs \<noteq> [] \<Longrightarrow> \<forall>c \<in> set cs. plain_comp c \<Longrightarrow> join_with ''/'' cs \<noteq> []"
  by (cases cs; cases "tl cs") (auto simp: plain_comp_def)

lemma IsAbs_join_plain: "\<forall>c \<in> set cs. plain_comp c \<Longrightarrow> \<not> IsAbs (join_with ''/'' cs)"
  by (cases cs; cases "tl cs"; cases "hd cs") (auto simp: plain_comp_def IsAbs_def has_prefix_def)

lemma comps_join_plain:
  assumes "\<forall>c \<in> set cs. plain_comp c"
  shows "comps (join_with ''/'' cs) = cs"
proof (cases "cs = []")
  case True
  then show ?thesis by (simp add: comps_def)
next
  case False
  then show ?thesis
    using clean_comps_plain [OF assms, of False "[]" "[]"] IsAbs_join_plain [OF assms]
    by (simp add: comps_def split_join_plain [OF False assms])
qed

lemma Clean_join_plain:
  assumes "cs \<noteq> []" "\<forall>c \<in> set cs. plain_comp c"
  shows "Clean (join_with ''/'' cs) = join_with ''/'' cs"
  using assms by (simp add: Clean_def join_plain_ne IsAbs_join_plain comps_join_plain unsplit_def)

text \<open>An absolute clean path is a slash and its plain components.\<close>

definition abs_path :: "string list \<Rightarrow> string" where
  "abs_path cs = CHR ''/'' # join_with ''/'' cs"

lemma IsAbs_abs_path [simp]: "IsAbs (abs_path cs)"
  by (simp add: IsAbs_def abs_path_def has_prefix_def)

lemma comps_abs_path:
  assumes "\<forall>c \<in> set cs. plain_comp c"
  shows "comps (abs_path cs) = cs"
proof (cases "cs = []")
  case True
  then show ?thesis by (simp add: comps_def abs_path_def)
next
  case False
  then show ?thesis
    using clean_comps_plain [OF assms, of True "[]" "[]"]
    by (simp add: comps_def) (simp add: abs_path_def split_join_plain [OF False assms])
qed

lemma Clean_abs_path: "\<forall>c \<in> set cs. plain_comp c \<Longrightarrow> Clean (abs_path cs) = abs_path cs"
  by (simp add: Clean_def comps_abs_path unsplit_def) (simp add: abs_path_def)

lemma abs_path_inj:
  assumes "\<forall>c \<in> set cs. plain_comp c" "\<forall>c \<in> set ds. plain_comp c"
  shows "abs_path cs = abs_path ds \<longleftrightarrow> cs = ds"
  using assms comps_abs_path by metis

lemma split_on_append_slash:
  "split_on d (a @ d # b) = split_on d a @ split_on d b"
proof (induction a)
  case (Cons c a)
  then show ?case by (cases "split_on d a") auto
qed simp

lemma comps_append_slash:
  assumes "\<forall>c \<in> set cs. plain_comp c"
  shows "comps (abs_path cs @ ''/'' @ p) = clean_comps True (rev cs) (split_on (CHR ''/'') p)"
proof -
  have "IsAbs (abs_path cs @ ''/'' @ p)" by (simp add: abs_path_def IsAbs_def has_prefix_def)
  moreover have "split_on (CHR ''/'') (abs_path cs @ ''/'' @ p)
      = split_on (CHR ''/'') (abs_path cs) @ split_on (CHR ''/'') p"
    using split_on_append_slash by simp
  moreover have "split_on (CHR ''/'') (abs_path cs) = [] # (if cs = [] then [[]] else cs)"
    by (simp add: abs_path_def split_join_plain assms)
  ultimately show ?thesis
    using clean_comps_plain [OF assms, of True "[]"] by (auto simp: comps_def)
qed

text \<open>Joining plain components below an absolute clean root appends them.\<close>

lemma Join_root_plain:
  assumes "\<forall>c \<in> set cs. plain_comp c" "ds \<noteq> []" "\<forall>c \<in> set ds. plain_comp c"
  shows "Join [abs_path cs, join_with ''/'' ds] = abs_path (cs @ ds)"
proof -
  have "comps (abs_path cs @ ''/'' @ join_with ''/'' ds) = cs @ ds"
    using clean_comps_plain [OF assms(3), of True "rev cs" "[]"]
    by (simp only: comps_append_slash [OF assms(1)] split_join_plain [OF assms(2,3)]) simp
  then show ?thesis
    by (simp add: Clean_def unsplit_def abs_path_def IsAbs_def has_prefix_def)
qed

lemma strip_common_append [simp]: "strip_common xs (xs @ ys) = ([], ys)"
  by (induction xs) (cases ys, simp_all)

lemma Rel_root_plain:
  assumes "\<forall>c \<in> set cs. plain_comp c" "ds \<noteq> []" "\<forall>c \<in> set ds. plain_comp c"
  shows "Rel (abs_path cs) (abs_path (cs @ ds)) = Some (join_with ''/'' ds)"
  using assms by (simp add: Rel_def Clean_abs_path comps_abs_path ball_Un unsplit_def)

end
