(* ===== verification/File_System.thy ===== *)
theory File_System
  imports Go_Path
begin

text \<open>
  The calls of package os that the source makes, over a file system as an association list from the
  components of an absolute path to a node. Resolution follows symbolic links as the kernel does, up
  to forty of them. Contents are byte strings; permissions, time stamps and failing devices are left
  out, and a sync changes nothing that a process can see.
\<close>

datatype node = Reg bytes | Directory | Symlink "string list"

type_synonym fs = "(string list \<times> node) list"

definition fs_put :: "string list \<Rightarrow> node \<Rightarrow> fs \<Rightarrow> fs" where
  "fs_put p n fs = (p, n) # filter (\<lambda>e. fst e \<noteq> p) fs"

definition fs_del :: "string list \<Rightarrow> fs \<Rightarrow> fs" where
  "fs_del p fs = filter (\<lambda>e. fst e \<noteq> p) fs"

lemma map_of_filter_ne: "map_of (filter (\<lambda>e. fst e \<noteq> p) fs) = (map_of fs)(p := None)"
  by (induction fs) auto

lemma map_of_fs_put [simp]: "map_of (fs_put p n fs) = (map_of fs)(p \<mapsto> n)"
  by (simp add: fs_put_def map_of_filter_ne)

lemma map_of_fs_del [simp]: "map_of (fs_del p fs) = (map_of fs)(p := None)"
  by (simp add: fs_del_def map_of_filter_ne)

definition not_exist :: go_error where
  "not_exist = GoError ''no such file or directory'' [ErrNotExist]"

definition os_error :: "string \<Rightarrow> go_error" where
  "os_error what = errors_New what"

fun realpath :: "nat \<Rightarrow> fs \<Rightarrow> bool \<Rightarrow> string list \<Rightarrow> string list \<Rightarrow> string list result" where
  "realpath n fs follow cur [] = Inr cur"
| "realpath n fs follow cur (c # cs) =
     (let p = cur @ [c] in
      case map_of fs p of
        None \<Rightarrow> Inl not_exist
      | Some Directory \<Rightarrow> realpath n fs follow p cs
      | Some (Reg b) \<Rightarrow> if cs = [] then Inr p else Inl (os_error ''not a directory'')
      | Some (Symlink t) \<Rightarrow>
          if cs = [] \<and> \<not> follow then Inr p
          else (case n of 0 \<Rightarrow> Inl (os_error ''too many levels of symbolic links'')
                | Suc m \<Rightarrow> realpath m fs follow [] (t @ cs)))"

definition link_limit :: nat where "link_limit = 40"

definition node_at :: "fs \<Rightarrow> string list \<Rightarrow> node" where
  "node_at fs p = (case map_of fs p of None \<Rightarrow> Directory | Some n \<Rightarrow> n)"

definition os_lstat :: "fs \<Rightarrow> string \<Rightarrow> node result" where
  "os_lstat fs p = bind_res (realpath link_limit fs False [] (comps p)) (\<lambda>q. Inr (node_at fs q))"

definition os_stat :: "fs \<Rightarrow> string \<Rightarrow> node result" where
  "os_stat fs p = bind_res (realpath link_limit fs True [] (comps p)) (\<lambda>q. Inr (node_at fs q))"

definition os_readfile :: "fs \<Rightarrow> string \<Rightarrow> bytes result" where
  "os_readfile fs p = bind_res (os_stat fs p) (\<lambda>n. case n of Reg b \<Rightarrow> Inr b | _ \<Rightarrow> Inl (os_error ''is a directory''))"

text \<open>The place a new entry goes to: the resolved parent directory and the last component.\<close>

definition entry_place :: "fs \<Rightarrow> string \<Rightarrow> string list result" where
  "entry_place fs p = (let cs = comps p in
     if cs = [] then Inl (os_error ''file exists'')
     else bind_res (realpath link_limit fs True [] (butlast cs)) (\<lambda>d.
       if node_at fs d = Directory then Inr (d @ [last cs]) else Inl (os_error ''not a directory'')))"

definition has_children :: "fs \<Rightarrow> string list \<Rightarrow> bool" where
  "has_children fs p = list_ex (\<lambda>e. length p < length (fst e) \<and> take (length p) (fst e) = p) fs"

definition move_tree :: "string list \<Rightarrow> string list \<Rightarrow> fs \<Rightarrow> fs" where
  "move_tree old new fs = map (\<lambda>e. if take (length old) (fst e) = old then (new @ drop (length old) (fst e), snd e) else e)
     (filter (\<lambda>e. take (length new) (fst e) \<noteq> new) fs)"

definition os_rename :: "string \<Rightarrow> string \<Rightarrow> fs \<Rightarrow> fs result" where
  "os_rename old new fs =
     bind_res (realpath link_limit fs False [] (comps old)) (\<lambda>src.
     bind_res (entry_place fs new) (\<lambda>dst.
       (case node_at fs src of
          Directory \<Rightarrow>
            (case map_of fs dst of
               None \<Rightarrow> Inr (move_tree src dst fs)
             | Some Directory \<Rightarrow> if has_children fs dst then Inl (os_error ''directory not empty'') else Inr (move_tree src dst fs)
             | Some _ \<Rightarrow> Inl (os_error ''not a directory''))
        | n \<Rightarrow> if map_of fs dst = Some Directory then Inl (os_error ''file exists'')
               else if src = dst then Inr fs
               else Inr (fs_put dst n (fs_del src fs)))))"

definition os_remove :: "string \<Rightarrow> fs \<Rightarrow> fs result" where
  "os_remove p fs = bind_res (realpath link_limit fs False [] (comps p)) (\<lambda>q.
     if has_children fs q then Inl (os_error ''directory not empty'') else Inr (fs_del q fs))"

definition os_remove_all :: "string \<Rightarrow> fs \<Rightarrow> fs" where
  "os_remove_all p fs = (case realpath link_limit fs False [] (comps p) of
     Inl _ \<Rightarrow> fs | Inr q \<Rightarrow> filter (\<lambda>e. take (length q) (fst e) \<noteq> q) fs)"

definition os_create_excl :: "string \<Rightarrow> fs \<Rightarrow> fs result" where
  "os_create_excl p fs = bind_res (entry_place fs p) (\<lambda>q.
     case map_of fs q of None \<Rightarrow> Inr (fs_put q (Reg []) fs) | Some _ \<Rightarrow> Inl (os_error ''file exists''))"

text \<open>os.OpenFile with O_CREATE, O_RDWR and O_NOFOLLOW: the place of the file that is open then.\<close>

definition os_open_nofollow :: "string \<Rightarrow> fs \<Rightarrow> (string list \<times> fs) result" where
  "os_open_nofollow p fs = bind_res (entry_place fs p) (\<lambda>q.
     case map_of fs q of
       None \<Rightarrow> Inr (q, fs_put q (Reg []) fs)
     | Some Directory \<Rightarrow> Inl (os_error ''is a directory'')
     | Some (Symlink _) \<Rightarrow> Inl (os_error ''too many levels of symbolic links'')
     | Some (Reg _) \<Rightarrow> Inr (q, fs))"

definition os_write :: "string \<Rightarrow> bytes \<Rightarrow> fs \<Rightarrow> fs result" where
  "os_write p b fs = bind_res (realpath link_limit fs True [] (comps p)) (\<lambda>q.
     case node_at fs q of Reg _ \<Rightarrow> Inr (fs_put q (Reg b) fs) | _ \<Rightarrow> Inl (os_error ''is a directory''))"

fun mkdirs :: "string list \<Rightarrow> string list \<Rightarrow> fs \<Rightarrow> fs result" where
  "mkdirs cur [] fs = Inr fs"
| "mkdirs cur (c # cs) fs =
     bind_res (realpath link_limit fs True [] cur) (\<lambda>d.
     case map_of fs (d @ [c]) of
       None \<Rightarrow> mkdirs (d @ [c]) cs (fs_put (d @ [c]) Directory fs)
     | Some _ \<Rightarrow> bind_res (realpath link_limit fs True d [c]) (\<lambda>q.
         if node_at fs q = Directory then mkdirs q cs fs else Inl (os_error ''not a directory'')))"

definition os_mkdirall :: "string \<Rightarrow> fs \<Rightarrow> fs result" where
  "os_mkdirall p fs = mkdirs [] (comps p) fs"

text \<open>os.ReadDir: the entries of a directory by name. The paths below a directory in the order of
  filepath.WalkDir are their components in lexicographic order.\<close>

definition os_readdir :: "fs \<Rightarrow> string \<Rightarrow> (string \<times> node) list result" where
  "os_readdir fs p = bind_res (realpath link_limit fs True [] (comps p)) (\<lambda>d.
     if node_at fs d = Directory
     then Inr (map (\<lambda>n. (n, node_at fs (d @ [n])))
       (sort (remdups (map (\<lambda>e. last (fst e)) (filter (\<lambda>e. fst e \<noteq> [] \<and> butlast (fst e) = d) fs)))))
     else Inl (os_error ''not a directory''))"

definition walk_dir :: "fs \<Rightarrow> string list \<Rightarrow> (string list \<times> node) list" where
  "walk_dir fs d = map (\<lambda>p. (p, node_at fs p))
     (sort (remdups (map fst (filter (\<lambda>e. take (length d) (fst e) = d) fs))))"

section \<open>Resolution without links\<close>

text \<open>The directories on the way to a path.\<close>

definition real_dirs :: "fs \<Rightarrow> string list \<Rightarrow> bool" where
  "real_dirs fs p \<longleftrightarrow> (\<forall>k \<in> {1..length p}. map_of fs (take k p) = Some Directory)"

lemma real_dirs_Nil [simp]: "real_dirs fs []"
  by (simp add: real_dirs_def)

lemma real_dirs_snoc: "real_dirs fs (p @ [c]) \<longleftrightarrow> real_dirs fs p \<and> map_of fs (p @ [c]) = Some Directory"
proof -
  have "{1..length (p @ [c])} = insert (length (p @ [c])) {1..length p}" by auto
  then show ?thesis by (auto simp: real_dirs_def)
qed

lemma realpath_dirs:
  "real_dirs fs (cur @ p) \<Longrightarrow> real_dirs fs cur \<Longrightarrow> realpath n fs follow cur (p @ q) = realpath n fs follow (cur @ p) q"
proof (induction p arbitrary: cur)
  case (Cons c p)
  have "take (length cur + 1) (cur @ c # p) = cur @ [c]" by simp
  moreover have "length cur + 1 \<in> {1..length (cur @ c # p)}" by simp
  ultimately have d: "map_of fs (cur @ [c]) = Some Directory"
    using Cons.prems(1) unfolding real_dirs_def by (metis (no_types, lifting))
  then have "real_dirs fs (cur @ [c])" using Cons.prems(2) by (simp add: real_dirs_snoc)
  with Cons.IH [of "cur @ [c]"] Cons.prems(1) d show ?case by simp
qed simp

lemma realpath_real_dirs: "real_dirs fs p \<Longrightarrow> realpath n fs follow [] p = Inr p"
  using realpath_dirs [of fs "[]" p n follow "[]"] by simp

lemma realpath_entry:
  "real_dirs fs d \<Longrightarrow> realpath n fs follow [] (d @ [c]) =
    (case map_of fs (d @ [c]) of None \<Rightarrow> Inl not_exist | Some Directory \<Rightarrow> Inr (d @ [c]) | Some (Reg b) \<Rightarrow> Inr (d @ [c])
     | Some (Symlink t) \<Rightarrow> if \<not> follow then Inr (d @ [c])
         else (case n of 0 \<Rightarrow> Inl (os_error ''too many levels of symbolic links'') | Suc m \<Rightarrow> realpath m fs follow [] t))"
  using realpath_dirs [of fs "[]" d n follow "[c]"] by (auto split: option.splits node.splits nat.splits)

lemma node_at_real: "real_dirs fs d \<Longrightarrow> d = [] \<or> node_at fs d = Directory"
  by (cases d rule: rev_cases) (auto simp: real_dirs_snoc node_at_def)

lemma entry_place_real:
  assumes "comps p = d @ [c]" "real_dirs fs d" "map_of fs [] = None"
  shows "entry_place fs p = Inr (d @ [c])"
  using assms node_at_real [OF assms(2)] by (auto simp: entry_place_def realpath_real_dirs node_at_def)

lemma real_dirs_put: "real_dirs fs d \<Longrightarrow> n = Directory \<or> \<not> (\<exists>k \<in> {1..length d}. take k d = p) \<Longrightarrow> real_dirs (fs_put p n fs) d"
  by (auto simp: real_dirs_def)

end
