(* ===== verification/Go_Json.thy ===== *)
theory Go_Json
  imports Archiver_Prelude
begin

text \<open>
  What encoding/json keeps of a string. json.Marshal decodes the bytes as UTF-8 the way package
  unicode/utf8 does and writes the replacement character for every byte at which no rune starts;
  everything else, escaped or not, is read back as it was. \<open>json_text\<close> is the string that
  json.Unmarshal gives back, \<open>json_object\<close> the map: its keys are written in the order of the original
  keys, and of several that become equal the last one is kept.
\<close>

definition byte_of :: "char \<Rightarrow> nat" where
  "byte_of c = of_char c"

text \<open>For a first byte: the length of the rune and the range of its second byte.\<close>

definition rune_lead :: "nat \<Rightarrow> (nat \<times> nat \<times> nat) option" where
  "rune_lead b =
     (if b < 0x80 then Some (1, 0, 0)
      else if b < 0xC2 then None
      else if b < 0xE0 then Some (2, 0x80, 0xBF)
      else if b = 0xE0 then Some (3, 0xA0, 0xBF)
      else if b = 0xED then Some (3, 0x80, 0x9F)
      else if b < 0xF0 then Some (3, 0x80, 0xBF)
      else if b = 0xF0 then Some (4, 0x90, 0xBF)
      else if b < 0xF4 then Some (4, 0x80, 0xBF)
      else if b = 0xF4 then Some (4, 0x80, 0x8F)
      else None)"

text \<open>utf8.DecodeRuneInString: the number of bytes of the rune at the front, 0 for an invalid one.\<close>

definition rune_len :: "string \<Rightarrow> nat" where
  "rune_len s =
     (case s of [] \<Rightarrow> 0
      | a # rest \<Rightarrow>
          (case rune_lead (byte_of a) of
             None \<Rightarrow> 0
           | Some (n, lo, hi) \<Rightarrow>
               if n = 1 then 1
               else if n - 1 \<le> length rest \<and> lo \<le> byte_of (hd rest) \<and> byte_of (hd rest) \<le> hi \<and>
                  list_all (\<lambda>c. 0x80 \<le> byte_of c \<and> byte_of c \<le> 0xBF) (take (n - 2) (tl rest)) then n
               else 0))"

definition replacement :: string where
  "replacement = map (char_of :: nat \<Rightarrow> char) [0xEF, 0xBF, 0xBD]"

lemma rune_len_pos_drop: "s \<noteq> [] \<Longrightarrow> rune_len s \<noteq> 0 \<Longrightarrow> length (drop (rune_len s) s) < length s"
  by (cases s) auto

function json_text :: "string \<Rightarrow> string" where
  "json_text s =
     (if s = [] then []
      else if rune_len s = 0 then replacement @ json_text (tl s)
      else take (rune_len s) s @ json_text (drop (rune_len s) s))"
  by pat_completeness auto
termination by (relation "measure length") (auto simp: rune_len_pos_drop)

declare json_text.simps [simp del]

function valid_utf8 :: "string \<Rightarrow> bool" where
  "valid_utf8 s = (if s = [] then True else if rune_len s = 0 then False else valid_utf8 (drop (rune_len s) s))"
  by pat_completeness auto
termination by (relation "measure length") (auto simp: rune_len_pos_drop)

declare valid_utf8.simps [simp del]

lemma json_text_Nil [simp]: "json_text [] = []" and valid_utf8_Nil [simp]: "valid_utf8 []"
  by (simp_all add: json_text.simps valid_utf8.simps)

text \<open>Exactly the valid texts are kept.\<close>

lemma json_text_valid: "valid_utf8 s \<Longrightarrow> json_text s = s"
proof (induction s rule: json_text.induct)
  case (1 s)
  show ?case
  proof (cases "s = []")
    case False
    with 1 have "rune_len s \<noteq> 0" "valid_utf8 (drop (rune_len s) s)" using valid_utf8.simps [of s] by (auto split: if_splits)
    with 1 False show ?thesis by (subst json_text.simps) simp
  qed simp
qed

lemma byte_of_replacement: "map byte_of replacement = [0xEF, 0xBF, 0xBD]"
  by (simp add: replacement_def byte_of_def)

lemma rune_len_ascii: "byte_of c < 128 \<Longrightarrow> rune_len (c # s) = 1"
  by (simp add: rune_len_def rune_lead_def)

lemma valid_utf8_ascii: "list_all (\<lambda>c. byte_of c < 128) s \<Longrightarrow> valid_utf8 s"
proof (induction s)
  case (Cons c s)
  then show ?case by (subst valid_utf8.simps) (simp add: rune_len_ascii)
qed simp

text \<open>A byte that starts no rune is replaced.\<close>

lemma json_text_invalid: "s \<noteq> [] \<Longrightarrow> rune_len s = 0 \<Longrightarrow> json_text s = replacement @ json_text (tl s)"
  by (subst json_text.simps) simp

definition json_object :: "('a \<Rightarrow> 'b) \<Rightarrow> (string \<times> 'a) list \<Rightarrow> (string \<times> 'b) list" where
  "json_object conv kvs =
     map (\<lambda>(k, v). (json_text k, conv v))
       (filter (\<lambda>(k, v). list_all (\<lambda>(k', v'). json_text k' = json_text k \<longrightarrow> k' \<le> k) kvs) kvs)"

lemma json_object_valid:
  assumes "\<forall>(k, v) \<in> set kvs. valid_utf8 k \<and> conv v = v"
  shows "json_object conv kvs = kvs"
proof -
  have t: "json_text k = k" if "(k, v) \<in> set kvs" for k v using assms that json_text_valid by auto
  have "filter (\<lambda>(k, v). list_all (\<lambda>(k', v'). json_text k' = json_text k \<longrightarrow> k' \<le> k) kvs) kvs = kvs"
    by (rule filter_True) (auto simp: list_all_iff t)
  moreover have "map (\<lambda>(k, v). (json_text k, conv v)) kvs = kvs"
    by (rule map_idI) (use assms t in auto)
  ultimately show ?thesis by (simp add: json_object_def)
qed

lemma json_object_Nil [simp]: "json_object conv [] = []"
  by (simp add: json_object_def)

lemma map_json_valid: "\<forall>s \<in> set ss. valid_utf8 s \<Longrightarrow> map json_text ss = ss"
  by (rule map_idI) (simp add: json_text_valid)

end
