(* ===== verification/State_Rows.thy ===== *)
theory State_Rows
  imports Records Go_Json "HOL-Library.Product_Lexorder"
begin

text \<open>
  The tables of internal/state/store.go and the encoding of their rows. A time is its RFC 3339 text
  (encodeTime), so the comparisons and orders of the SQL are those of texts; a feed timestamp is its
  decimal text. Columns of JSON (response headers, validation flags, required destinations, parse
  status counts) hold the value that their text stands for, in which json.Marshal has replaced what is
  not UTF-8 (\<open>json_text\<close>); json.Unmarshal reads such a text without an error. The columns captures.created_at,
  compactions.format_version (a constant) and the primary key of repair_audit are written and never
  read, and left out, as are failures of the database itself.
\<close>

section \<open>Rows\<close>

definition encodeTime :: "instant \<Rightarrow> string" where
  "encodeTime t = rfc3339_nano t"

definition encodeTimePtr :: "instant option \<Rightarrow> string option" where
  "encodeTimePtr t = (case t of None \<Rightarrow> None | Some v \<Rightarrow> Some (encodeTime v))"

definition encodeUint64Ptr :: "64 word option \<Rightarrow> string option" where
  "encodeUint64Ptr v = (case v of None \<Rightarrow> None | Some x \<Rightarrow> Some (format_uint64 x))"

definition int32 :: "int \<Rightarrow> int" where
  "int32 i = signed_take_bit 31 i"

definition tick_to_row :: "tick \<Rightarrow> tick_row" where
  "tick_to_row t = \<lparr>tick_id = tick_id t, tick_source = tick_source t, tick_stream = tick_stream t,
     tick_scheduled = encodeTime (tick_scheduled t), tick_started = encodeTimePtr (tick_started t),
     tick_finished = encodeTimePtr (tick_finished t), tick_result = tick_result t,
     tick_skip_reason = tick_skip_reason t, tick_error_category = tick_error_category t,
     tick_error_detail = tick_error_detail t, tick_http_status = tick_http_status t,
     tick_attempts = tick_attempts t, tick_fingerprint = tick_fingerprint t\<rparr>"

definition capture_to_row :: "capture \<Rightarrow> capture_row" where
  "capture_to_row c = \<lparr>cap_format = cap_format c, cap_id = cap_id c, cap_tick_id = cap_tick_id c,
     cap_source = cap_source c, cap_stream = cap_stream c, cap_kind = cap_kind c,
     cap_scheduled = encodeTime (cap_scheduled c), cap_started = encodeTime (cap_started c),
     cap_completed = encodeTime (cap_completed c), cap_archive_date = cap_archive_date c,
     cap_timezone = cap_timezone c, cap_url = cap_url c, cap_http_status = cap_http_status c,
     cap_headers = json_object json_text (cap_headers c), cap_duration_ms = cap_duration_ms c, cap_attempts = cap_attempts c,
     cap_advertised_length = cap_advertised_length c, cap_encoded_length = cap_encoded_length c,
     cap_decoded_length = cap_decoded_length c, cap_encoding = cap_encoding c, cap_sha256 = cap_sha256 c,
     cap_raw_path = cap_raw_path c, cap_sidecar_path = cap_sidecar_path c,
     cap_transport_complete = cap_transport_complete c, cap_parse_status = cap_parse_status c,
     cap_parse_error = cap_parse_error c, cap_feed_version = cap_feed_version c,
     cap_incrementality = cap_incrementality c, cap_feed_timestamp = encodeUint64Ptr (cap_feed_timestamp c),
     cap_entity_count = cap_entity_count c, cap_flags = map json_text (cap_flags c), cap_fingerprint = cap_fingerprint c,
     cap_app_version = cap_app_version c, cap_protobuf_revision = cap_protobuf_revision c\<rparr>"

definition parse_field :: "string \<Rightarrow> 'a option \<Rightarrow> 'a result" where
  "parse_field what v = (case v of None \<Rightarrow> Inl (errors_New what) | Some x \<Rightarrow> Inr x)"

text \<open>The scan loop of CapturesForDay for one row. The format version is not a column.\<close>

definition capture_from_row :: "capture_row \<Rightarrow> capture result" where
  "capture_from_row c =
     bind_res (parse_field (''parse capture '' @ cap_id c @ '' scheduled time'') (parse_rfc3339 (cap_scheduled c))) (\<lambda>scheduled.
     bind_res (parse_field (''parse capture '' @ cap_id c @ '' start time'') (parse_rfc3339 (cap_started c))) (\<lambda>started.
     bind_res (parse_field (''parse capture '' @ cap_id c @ '' completion time'') (parse_rfc3339 (cap_completed c))) (\<lambda>completed.
     bind_res (case cap_feed_timestamp c of None \<Rightarrow> Inr None
       | Some s \<Rightarrow> bind_res (parse_field (''parse capture '' @ cap_id c @ '' feed timestamp'') (parse_uint64 s)) (\<lambda>v. Inr (Some v)))
       (\<lambda>feed. Inr
     \<lparr>cap_format = SidecarFormatVersion, cap_id = cap_id c, cap_tick_id = cap_tick_id c,
     cap_source = cap_source c, cap_stream = cap_stream c, cap_kind = cap_kind c,
     cap_scheduled = scheduled, cap_started = started, cap_completed = completed,
     cap_archive_date = cap_archive_date c,
     cap_timezone = cap_timezone c, cap_url = cap_url c, cap_http_status = cap_http_status c,
     cap_headers = cap_headers c, cap_duration_ms = cap_duration_ms c, cap_attempts = cap_attempts c,
     cap_advertised_length = cap_advertised_length c, cap_encoded_length = cap_encoded_length c,
     cap_decoded_length = cap_decoded_length c, cap_encoding = cap_encoding c, cap_sha256 = cap_sha256 c,
     cap_raw_path = cap_raw_path c, cap_sidecar_path = cap_sidecar_path c,
     cap_transport_complete = cap_transport_complete c, cap_parse_status = cap_parse_status c,
     cap_parse_error = cap_parse_error c, cap_feed_version = cap_feed_version c,
     cap_incrementality = map_option int32 (cap_incrementality c), cap_feed_timestamp = feed,
     cap_entity_count = map_option int32 (cap_entity_count c), cap_flags = cap_flags c,
     cap_fingerprint = cap_fingerprint c,
     cap_app_version = cap_app_version c, cap_protobuf_revision = cap_protobuf_revision c\<rparr>))))"

definition compaction_to_row :: "compaction \<Rightarrow> compaction_row" where
  "compaction_to_row c = \<lparr>cp_id = cp_id c, cp_source = cp_source c, cp_stream = cp_stream c,
     cp_archive_date = cp_archive_date c, cp_revision = cp_revision c, cp_status = cp_status c,
     cp_directory = cp_directory c, cp_data_path = cp_data_path c, cp_manifest_path = cp_manifest_path c,
     cp_data_sha256 = cp_data_sha256 c, cp_data_bytes = cp_data_bytes c, cp_rows = cp_rows c,
     cp_entities = cp_entities c, cp_excluded = 0, cp_required = map json_text (cp_required c),
     cp_created = encodeTime (cp_created c), cp_published = encodeTimePtr (cp_published c)\<rparr>"

text \<open>scanCompaction: errors of time.Parse are dropped, leaving the zero time (0001-01-01).\<close>

definition zero_time :: instant where
  "zero_time = - 719162 * 86400 * second"

definition parse_or_zero :: "string \<Rightarrow> instant" where
  "parse_or_zero s = (case parse_rfc3339 s of None \<Rightarrow> zero_time | Some t \<Rightarrow> t)"

definition scanCompaction :: "compaction_row \<Rightarrow> compaction" where
  "scanCompaction c = \<lparr>cp_id = cp_id c, cp_source = cp_source c, cp_stream = cp_stream c,
     cp_archive_date = cp_archive_date c, cp_revision = cp_revision c, cp_status = cp_status c,
     cp_directory = cp_directory c, cp_data_path = cp_data_path c, cp_manifest_path = cp_manifest_path c,
     cp_data_sha256 = cp_data_sha256 c, cp_data_bytes = cp_data_bytes c, cp_rows = cp_rows c,
     cp_entities = cp_entities c, cp_excluded = 0, cp_required = cp_required c,
     cp_created = parse_or_zero (cp_created c), cp_published = map_option parse_or_zero (cp_published c)\<rparr>"

definition upload_from_row :: "upload_row \<Rightarrow> upload" where
  "upload_from_row u = \<lparr>up_id = up_id u, up_compaction = up_compaction u, up_destination = up_destination u,
     up_required = up_required u, up_status = up_status u, up_attempts = up_attempts u,
     up_next = parse_or_zero (up_next u), up_error = up_error u, up_remote = up_remote u,
     up_completed = map_option parse_or_zero (up_completed u)\<rparr>"

record summary_row =
  ds_source :: string
  ds_stream :: string
  ds_archive_date :: string
  ds_ticks :: int
  ds_skipped :: int
  ds_captured :: int
  ds_valid :: int
  ds_invalid :: int
  ds_http_failures :: int
  ds_network_failures :: int
  ds_parse_counts :: "(string \<times> int) list"
  ds_summarized_at :: string

record audit_row =
  au_action :: string
  au_target :: string
  au_reason :: string
  au_created :: string

record db =
  db_ticks :: "tick_row list"
  db_captures :: "capture_row list"
  db_compactions :: "compaction_row list"
  db_inputs :: "(int \<times> string) list"
  db_uploads :: "upload_row list"
  db_summaries :: "summary_row list"
  db_audit :: "audit_row list"
  db_compaction_seq :: int
  db_upload_seq :: int

text \<open>The database after \<open>initialize\<close> on an empty file.\<close>

definition empty_db :: db where
  "empty_db = \<lparr>db_ticks = [], db_captures = [], db_compactions = [], db_inputs = [], db_uploads = [],
     db_summaries = [], db_audit = [], db_compaction_seq = 0, db_upload_seq = 0\<rparr>"

text \<open>The table schema_migrations, and what \<open>initialize\<close> does when a database is opened: a table that does not
  exist is an empty one here, so of the schema only the INSERT OR IGNORE of version 1 is seen.\<close>

type_synonym migrations = "(int \<times> string) list"

definition initialize :: "instant \<Rightarrow> migrations \<Rightarrow> migrations" where
  "initialize now rows = (if list_ex (\<lambda>r. fst r = 1) rows then rows else rows @ [(1, encodeTime now)])"

section \<open>Statements\<close>

text \<open>An INSERT into a table with a unique key, an UPDATE and an upsert.\<close>

definition unique_insert :: "('r \<Rightarrow> 'k) \<Rightarrow> 'r \<Rightarrow> 'r list \<Rightarrow> 'r list option" where
  "unique_insert key r rows = (if key r \<in> key ` set rows then None else Some (rows @ [r]))"

definition update_where :: "('r \<Rightarrow> bool) \<Rightarrow> ('r \<Rightarrow> 'r) \<Rightarrow> 'r list \<Rightarrow> 'r list" where
  "update_where P f rows = map (\<lambda>r. if P r then f r else r) rows"

definition delete_where :: "('r \<Rightarrow> bool) \<Rightarrow> 'r list \<Rightarrow> 'r list" where
  "delete_where P rows = filter (\<lambda>r. \<not> P r) rows"

definition upsert :: "('r \<Rightarrow> 'k) \<Rightarrow> ('r \<Rightarrow> 'r \<Rightarrow> 'r) \<Rightarrow> 'r \<Rightarrow> 'r list \<Rightarrow> 'r list" where
  "upsert key merge r rows =
     (if key r \<in> key ` set rows then update_where (\<lambda>x. key x = key r) (\<lambda>x. merge x r) rows else rows @ [r])"

definition constraint_error :: "string \<Rightarrow> go_error" where
  "constraint_error what = errors_New (''constraint failed: '' @ what)"

text \<open>What a client of a table with a unique key relies on.\<close>

locale keyed_table =
  fixes rows :: "'s \<Rightarrow> 'r list" and key :: "'r \<Rightarrow> 'k" and add :: "'r \<Rightarrow> 's \<Rightarrow> 's option"
  assumes add_Some: "add r s = Some s' \<Longrightarrow> rows s' = rows s @ [r] \<and> key r \<notin> key ` set (rows s)"
    and add_None: "add r s = None \<Longrightarrow> key r \<in> key ` set (rows s)"
begin

lemma add_distinct: "add r s = Some s' \<Longrightarrow> distinct (map key (rows s)) \<Longrightarrow> distinct (map key (rows s'))"
  using add_Some [of r s s'] by auto

lemma add_ok_iff: "(\<exists>s'. add r s = Some s') \<longleftrightarrow> key r \<notin> key ` set (rows s)"
  using add_Some [of r s] add_None [of r s] by (cases "add r s") auto

lemma add_twice: "add r s = Some s' \<Longrightarrow> key q = key r \<Longrightarrow> add q s' = None"
  using add_Some [of r s s'] add_Some [of q s'] by (cases "add q s'") auto

end

interpretation unique_rows: keyed_table "\<lambda>rs. rs" key "unique_insert key" for key :: "'r \<Rightarrow> 'k"
  by unfold_locales (auto simp: unique_insert_def split: if_splits)

lemma update_where_key:
  "(\<And>r. P r \<Longrightarrow> key (f r) = key r) \<Longrightarrow> map key (update_where P f rows) = map key rows"
  by (simp add: update_where_def comp_def)

lemma set_update_where: "set (update_where P f rows) = (\<lambda>r. if P r then f r else r) ` set rows"
  by (simp add: update_where_def)

lemma delete_where_distinct: "distinct (map key rows) \<Longrightarrow> distinct (map key (delete_where P rows))"
  by (simp add: delete_where_def distinct_map_filter)

lemma set_delete_where [simp]: "set (delete_where P rows) = {r \<in> set rows. \<not> P r}"
  by (auto simp: delete_where_def)

lemma upsert_keys:
  assumes "\<And>x r. key x = key r \<Longrightarrow> key (merge x r) = key x"
  shows "map key (upsert key merge r rows) = (if key r \<in> key ` set rows then map key rows else map key rows @ [key r])"
proof -
  have "map key (update_where (\<lambda>x. key x = key r) (\<lambda>x. merge x r) rows) = map key rows"
    by (rule update_where_key) (simp add: assms)
  then show ?thesis by (simp add: upsert_def)
qed

lemma upsert_distinct:
  assumes "\<And>x r. key x = key r \<Longrightarrow> key (merge x r) = key x" "distinct (map key rows)"
  shows "distinct (map key (upsert key merge r rows))"
  using upsert_keys [of key merge r rows] assms by auto

lemma upsert_key_set:
  assumes "\<And>x r. key x = key r \<Longrightarrow> key (merge x r) = key x"
  shows "key ` set (upsert key merge r rows) = insert (key r) (key ` set rows)"
proof -
  have m: "map key (upsert key merge r rows) = (if key r \<in> key ` set rows then map key rows else map key rows @ [key r])"
    by (rule upsert_keys) (rule assms)
  have "set (map key (upsert key merge r rows)) = insert (key r) (set (map key rows))"
    unfolding m by auto
  then show ?thesis unfolding set_map .
qed

end
