(* ===== verification/State_Store.thy ===== *)
theory State_Store
  imports State_Rows
begin

text \<open>
  The operations of internal/state/store.go on the tables. An operation that runs in a transaction
  gives the new database or an error; after an error the caller keeps the old database, which is the
  rollback. \<open>now\<close> stands for time.Now(). Constraints are checked as SQLite does with foreign_keys=ON:
  primary keys and UNIQUE columns on insert, references at the end of each statement.
\<close>

section \<open>Ticks and captures\<close>

definition merge_tick :: "tick_row \<Rightarrow> tick_row \<Rightarrow> tick_row" where
  "merge_tick old new = old\<lparr>tick_started := tick_started new, tick_finished := tick_finished new,
     tick_result := tick_result new, tick_skip_reason := tick_skip_reason new,
     tick_error_category := tick_error_category new, tick_error_detail := tick_error_detail new,
     tick_http_status := tick_http_status new, tick_attempts := tick_attempts new\<rparr>"

definition put_tick :: "tick \<Rightarrow> db \<Rightarrow> db" where
  "put_tick t db = db\<lparr>db_ticks := upsert tick_id merge_tick (tick_to_row t) (db_ticks db)\<rparr>"

definition RecordTick :: "tick \<Rightarrow> db \<Rightarrow> db result" where
  "RecordTick t db = Inr (put_tick t db)"

definition insert_capture :: "capture_row \<Rightarrow> db \<Rightarrow> db result" where
  "insert_capture c db =
     (case unique_insert cap_id c (db_captures db) of
        None \<Rightarrow> Inl (constraint_error ''captures.id'')
      | Some rows \<Rightarrow>
         if cap_tick_id c \<in> cap_tick_id ` set (db_captures db) then Inl (constraint_error ''captures.tick_id'')
         else if cap_raw_path c \<in> cap_raw_path ` set (db_captures db) then Inl (constraint_error ''captures.raw_path'')
         else if cap_sidecar_path c \<in> cap_sidecar_path ` set (db_captures db) then Inl (constraint_error ''captures.sidecar_path'')
         else if cap_tick_id c \<notin> tick_id ` set (db_ticks db) then Inl (constraint_error ''FOREIGN KEY'')
         else Inr (db\<lparr>db_captures := rows\<rparr>))"

definition SaveCapture :: "tick \<Rightarrow> capture \<Rightarrow> db \<Rightarrow> db result" where
  "SaveCapture t c db =
     (case insert_capture (capture_to_row c) (put_tick t db) of
        Inl e \<Rightarrow> Inl (err_wrap ''record capture'' e)
      | Inr db' \<Rightarrow> Inr db')"

definition HasCapture :: "string \<Rightarrow> db \<Rightarrow> bool" where
  "HasCapture i db = list_ex (\<lambda>c. cap_id c = i) (db_captures db)"

text \<open>\<open>LIKE '@retained/%'\<close> ignores the case of ASCII letters.\<close>

definition retained_path :: "string \<Rightarrow> bool" where
  "retained_path p = has_prefix (to_lower p) ''@retained/''"

record retention_capture =
  rc_id :: string
  rc_raw_path :: string
  rc_sidecar_path :: string

definition to_retention :: "capture_row \<Rightarrow> retention_capture" where
  "to_retention c = \<lparr>rc_id = cap_id c, rc_raw_path = cap_raw_path c, rc_sidecar_path = cap_sidecar_path c\<rparr>"

definition LiveCaptureFiles :: "db \<Rightarrow> retention_capture list" where
  "LiveCaptureFiles db =
     map to_retention (sort_key cap_id (filter (\<lambda>c. \<not> retained_path (cap_raw_path c)) (db_captures db)))"

definition in_day :: "string \<Rightarrow> string \<Rightarrow> string \<Rightarrow> capture_row \<Rightarrow> bool" where
  "in_day src sm date c \<longleftrightarrow> cap_source c = src \<and> cap_stream c = sm \<and> cap_archive_date c = date"

fun decode_rows :: "capture_row list \<Rightarrow> capture list result" where
  "decode_rows [] = Inr []"
| "decode_rows (r # rs) = bind_res (capture_from_row r) (\<lambda>c. bind_res (decode_rows rs) (\<lambda>cs. Inr (c # cs)))"

definition CapturesForDay :: "string \<Rightarrow> string \<Rightarrow> string \<Rightarrow> db \<Rightarrow> capture list result" where
  "CapturesForDay src sm date db =
     decode_rows (sort_key (\<lambda>c. (cap_scheduled c, cap_id c)) (filter (in_day src sm date) (db_captures db)))"

definition of_stream :: "string \<Rightarrow> string \<Rightarrow> tick_row \<Rightarrow> bool" where
  "of_stream src sm t \<longleftrightarrow> tick_source t = src \<and> tick_stream t = sm"

text \<open>The rows of \<open>scheduled_at>=start AND scheduled_at<end\<close>, a comparison of texts.\<close>

definition in_window :: "string \<Rightarrow> string \<Rightarrow> instant \<Rightarrow> instant \<Rightarrow> tick_row \<Rightarrow> bool" where
  "in_window src sm from to t \<longleftrightarrow> of_stream src sm t \<and>
     encodeTime from \<le> tick_scheduled t \<and> tick_scheduled t < encodeTime to"

definition EarliestTick :: "string \<Rightarrow> string \<Rightarrow> db \<Rightarrow> instant option result" where
  "EarliestTick src sm db =
     (let ts = map tick_scheduled (filter (of_stream src sm) (db_ticks db))
      in if ts = [] then Inr None
         else bind_res (parse_field ''parse time'' (parse_rfc3339 (Min (set ts)))) (\<lambda>t. Inr (Some t)))"

section \<open>Compactions\<close>

definition of_day :: "string \<Rightarrow> string \<Rightarrow> string \<Rightarrow> compaction_row \<Rightarrow> bool" where
  "of_day src sm date c \<longleftrightarrow> cp_source c = src \<and> cp_stream c = sm \<and> cp_archive_date c = date"

text \<open>\<open>ORDER BY revision DESC LIMIT 1\<close>.\<close>

fun highest_revision :: "compaction_row list \<Rightarrow> compaction_row option" where
  "highest_revision [] = None"
| "highest_revision (c # cs) = (case highest_revision cs of None \<Rightarrow> Some c
     | Some d \<Rightarrow> if cp_revision c \<ge> cp_revision d then Some c else Some d)"

definition day_compactions :: "string \<Rightarrow> string \<Rightarrow> string \<Rightarrow> db \<Rightarrow> compaction_row list" where
  "day_compactions src sm date db = filter (of_day src sm date) (db_compactions db)"

definition summarized :: "string \<Rightarrow> string \<Rightarrow> string \<Rightarrow> db \<Rightarrow> bool" where
  "summarized src sm date db =
     list_ex (\<lambda>d. ds_source d = src \<and> ds_stream d = sm \<and> ds_archive_date d = date) (db_summaries db)"

definition DayNeedsCompaction :: "string \<Rightarrow> string \<Rightarrow> location \<Rightarrow> instant \<Rightarrow> instant \<Rightarrow> db \<Rightarrow> bool" where
  "DayNeedsCompaction src sm loc from to db =
     (let date = local_date loc from in
      if summarized src sm date db then False
      else if filter (in_window src sm from to) (db_ticks db) = [] then False
      else (let captures = filter (in_day src sm date) (db_captures db) in
        case highest_revision (day_compactions src sm date db) of
          None \<Rightarrow> True
        | Some latest \<Rightarrow>
            if cp_rows latest \<noteq> int (length captures) then True
            else filter (\<lambda>c. (cp_id latest, cap_id c) \<notin> set (db_inputs db)) captures \<noteq> []))"

definition compactions_of_capture :: "string \<Rightarrow> db \<Rightarrow> compaction_row list" where
  "compactions_of_capture i db = filter (\<lambda>cp. (cp_id cp, i) \<in> set (db_inputs db)) (db_compactions db)"

text \<open>\<open>HAVING SUM(published_at IS NULL)=0 AND MAX(published_at)<=?\<close> for a group that is not empty.\<close>

definition all_published_by :: "string \<Rightarrow> compaction_row list \<Rightarrow> bool" where
  "all_published_by bound cps \<longleftrightarrow> cps \<noteq> [] \<and>
     list_all (\<lambda>cp. case cp_published cp of None \<Rightarrow> False | Some p \<Rightarrow> p \<le> bound) cps"

definition RawRetentionCandidates :: "instant \<Rightarrow> db \<Rightarrow> retention_capture list" where
  "RawRetentionCandidates publishedBefore db =
     map to_retention (filter (\<lambda>c. \<not> retained_path (cap_raw_path c) \<and>
       all_published_by (encodeTime publishedBefore) (compactions_of_capture (cap_id c) db)) (db_captures db))"

record retention_compaction =
  rp_id :: int
  rp_source :: string
  rp_stream :: string
  rp_archive_date :: string
  rp_data_path :: string
  rp_manifest_path :: string

definition ParquetRetentionCandidates :: "instant \<Rightarrow> db \<Rightarrow> retention_compaction list" where
  "ParquetRetentionCandidates publishedBefore db =
     map (\<lambda>c. \<lparr>rp_id = cp_id c, rp_source = cp_source c, rp_stream = cp_stream c,
            rp_archive_date = cp_archive_date c, rp_data_path = cp_data_path c, rp_manifest_path = cp_manifest_path c\<rparr>)
       (filter (\<lambda>c. (case cp_published c of None \<Rightarrow> False | Some p \<Rightarrow> p \<le> encodeTime publishedBefore) \<and>
          cp_manifest_path c \<noteq> '''') (db_compactions db))"

definition day_of_row :: "compaction_row \<Rightarrow> string \<times> string \<times> string" where
  "day_of_row c = (cp_source c, cp_stream c, cp_archive_date c)"

definition SummaryCandidates :: "instant \<Rightarrow> db \<Rightarrow> (string \<times> string \<times> string) list" where
  "SummaryCandidates publishedBefore db =
     filter (\<lambda>(src, sm, date). all_published_by (encodeTime publishedBefore) (day_compactions src sm date db))
       (remdups (map day_of_row
         (filter (\<lambda>c. \<not> summarized (cp_source c) (cp_stream c) (cp_archive_date c) db) (db_compactions db))))"

section \<open>Statistics and summaries\<close>

definition count_if :: "('a \<Rightarrow> bool) \<Rightarrow> 'a list \<Rightarrow> int" where
  "count_if P xs = int (length (filter P xs))"

definition network_category :: "string \<Rightarrow> bool" where
  "network_category c \<longleftrightarrow> c \<in> set [''dns'', ''connect'', ''tls'', ''timeout'', ''network'']"

definition group_counts :: "string list \<Rightarrow> (string \<times> int) list" where
  "group_counts xs = map (\<lambda>k. (k, count_if (\<lambda>x. x = k) xs)) (remdups xs)"

record day_stats =
  dy_scheduled :: int
  dy_skipped :: int
  dy_http_failures :: int
  dy_network_failures :: int
  dy_failure_categories :: "(string \<times> int) list"

definition DayStats :: "string \<Rightarrow> string \<Rightarrow> instant \<Rightarrow> instant \<Rightarrow> db \<Rightarrow> day_stats" where
  "DayStats src sm from to db =
     (let ts = filter (in_window src sm from to) (db_ticks db) in
      \<lparr>dy_scheduled = int (length ts), dy_skipped = count_if (\<lambda>t. tick_result t = ''skipped'') ts,
       dy_http_failures = count_if (\<lambda>t. tick_error_category t = ''http_status'') ts,
       dy_network_failures = count_if (\<lambda>t. network_category (tick_error_category t)) ts,
       dy_failure_categories = group_counts (filter (\<lambda>c. c \<noteq> '''') (map tick_error_category ts))\<rparr>)"

definition day_summary :: "string \<Rightarrow> string \<Rightarrow> string \<Rightarrow> instant \<Rightarrow> instant \<Rightarrow> instant \<Rightarrow> db \<Rightarrow> summary_row" where
  "day_summary src sm date from to now db =
     (let ts = filter (in_window src sm from to) (db_ticks db);
          cs = filter (in_day src sm date) (db_captures db);
          valid = count_if (\<lambda>c. cap_parse_status c = ''valid'' \<and> cap_transport_complete c) cs
      in \<lparr>ds_source = src, ds_stream = sm, ds_archive_date = date, ds_ticks = int (length ts),
          ds_skipped = count_if (\<lambda>t. tick_result t = ''skipped'') ts,
          ds_captured = int (length cs), ds_valid = valid, ds_invalid = int (length cs) - valid,
          ds_http_failures = count_if (\<lambda>t. tick_error_category t = ''http_status'') ts,
          ds_network_failures = count_if (\<lambda>t. network_category (tick_error_category t)) ts,
          ds_parse_counts = json_object id (group_counts (map cap_parse_status cs)), ds_summarized_at = encodeTime now\<rparr>)"

text \<open>The three DELETEs of SummarizeDay; the last one fails while a capture still refers to one of
  its ticks.\<close>

definition purge_day :: "string \<Rightarrow> string \<Rightarrow> string \<Rightarrow> instant \<Rightarrow> instant \<Rightarrow> db \<Rightarrow> db result" where
  "purge_day src sm date from to db =
     (let gone = cap_id ` set (filter (in_day src sm date) (db_captures db));
          captures = delete_where (in_day src sm date) (db_captures db);
          inputs = delete_where (\<lambda>(_, i). i \<in> gone) (db_inputs db)
      in if \<exists>c \<in> set captures. \<exists>t \<in> set (db_ticks db). in_window src sm from to t \<and> cap_tick_id c = tick_id t
         then Inl (constraint_error ''FOREIGN KEY'')
         else Inr (db\<lparr>db_inputs := inputs, db_captures := captures,
                db_ticks := delete_where (in_window src sm from to) (db_ticks db)\<rparr>))"

definition summary_key :: "summary_row \<Rightarrow> string \<times> string \<times> string" where
  "summary_key d = (ds_source d, ds_stream d, ds_archive_date d)"

definition SummarizeDay ::
  "string \<Rightarrow> string \<Rightarrow> string \<Rightarrow> instant \<Rightarrow> instant \<Rightarrow> instant \<Rightarrow> db \<Rightarrow> (bool \<times> db) result" where
  "SummarizeDay src sm date from to now db =
     (if filter (\<lambda>c. in_day src sm date c \<and> \<not> retained_path (cap_raw_path c)) (db_captures db) \<noteq> []
      then Inr (False, db)
      else (case unique_insert summary_key (day_summary src sm date from to now db) (db_summaries db) of
              None \<Rightarrow> Inl (constraint_error ''daily_summaries'')
            | Some ds \<Rightarrow>
                (case purge_day src sm date from to (db\<lparr>db_summaries := ds\<rparr>) of
                   Inl e \<Rightarrow> Inl e | Inr db' \<Rightarrow> Inr (True, db'))))"

definition retained_raw :: "string \<Rightarrow> string" where
  "retained_raw i = ''@retained/'' @ i @ ''.pb''"

definition retained_sidecar :: "string \<Rightarrow> string" where
  "retained_sidecar i = ''@retained/'' @ i @ ''.json''"

definition MarkCaptureRetained :: "string \<Rightarrow> db \<Rightarrow> db result" where
  "MarkCaptureRetained i db =
     (if \<exists>c \<in> set (db_captures db). cap_id c \<noteq> i \<and> HasCapture i db \<and>
           (cap_raw_path c = retained_raw i \<or> cap_sidecar_path c = retained_sidecar i)
      then Inl (constraint_error ''captures.raw_path'')
      else Inr (db\<lparr>db_captures := update_where (\<lambda>c. cap_id c = i)
             (\<lambda>c. c\<lparr>cap_raw_path := retained_raw i, cap_sidecar_path := retained_sidecar i\<rparr>) (db_captures db)\<rparr>))"

definition MarkParquetRetained :: "int \<Rightarrow> db \<Rightarrow> db" where
  "MarkParquetRetained i db =
     db\<lparr>db_uploads := update_where (\<lambda>u. up_compaction u = i \<and> \<not> up_required u \<and> up_status u \<noteq> ''verified'')
          (\<lambda>u. u\<lparr>up_status := ''expired'', up_error := ''local_retention_elapsed''\<rparr>) (db_uploads db),
        db_compactions := update_where (\<lambda>c. cp_id c = i)
          (\<lambda>c. c\<lparr>cp_data_path := '''', cp_manifest_path := '''', cp_data_bytes := 0\<rparr>) (db_compactions db)\<rparr>"

section \<open>Revisions\<close>

definition NextRevision :: "string \<Rightarrow> string \<Rightarrow> string \<Rightarrow> db \<Rightarrow> int" where
  "NextRevision src sm date db =
     (case highest_revision (day_compactions src sm date db) of None \<Rightarrow> 1 | Some c \<Rightarrow> cp_revision c + 1)"

definition revision_key :: "compaction_row \<Rightarrow> string \<times> string \<times> string \<times> int" where
  "revision_key c = (cp_source c, cp_stream c, cp_archive_date c, cp_revision c)"

text \<open>The INSERT of a compaction: its id is the next of the sequence.\<close>

definition insert_compaction :: "compaction \<Rightarrow> db \<Rightarrow> (int \<times> db) result" where
  "insert_compaction c db =
     (let i = db_compaction_seq db + 1 in
      case unique_insert revision_key (compaction_to_row (c\<lparr>cp_id := i\<rparr>)) (db_compactions db) of
        None \<Rightarrow> Inl (constraint_error ''compactions'')
      | Some rows \<Rightarrow> Inr (i, db\<lparr>db_compactions := rows, db_compaction_seq := i\<rparr>))"

definition insert_input :: "int \<Rightarrow> string \<Rightarrow> db \<Rightarrow> db result" where
  "insert_input cid i db =
     (case unique_insert (\<lambda>x. x) (cid, i) (db_inputs db) of
        None \<Rightarrow> Inl (constraint_error ''compaction_inputs'')
      | Some rows \<Rightarrow>
          if cid \<notin> cp_id ` set (db_compactions db) \<or> i \<notin> cap_id ` set (db_captures db)
          then Inl (constraint_error ''FOREIGN KEY'') else Inr (db\<lparr>db_inputs := rows\<rparr>))"

fun insert_inputs :: "int \<Rightarrow> string list \<Rightarrow> db \<Rightarrow> db result" where
  "insert_inputs cid [] db = Inr db"
| "insert_inputs cid (i # is) db = (case insert_input cid i db of
     Inl e \<Rightarrow> Inl (err_wrap ''record compaction input'' e) | Inr db' \<Rightarrow> insert_inputs cid is db')"

definition upload_key :: "upload_row \<Rightarrow> int \<times> string" where
  "upload_key u = (up_compaction u, up_destination u)"

definition new_upload :: "int \<Rightarrow> int \<Rightarrow> string \<Rightarrow> bool \<Rightarrow> instant \<Rightarrow> upload_row" where
  "new_upload i cid dest required now = \<lparr>up_id = i, up_compaction = cid, up_destination = dest,
     up_required = required, up_status = ''pending'', up_attempts = 0, up_next = encodeTime now,
     up_error = '''', up_remote = '''', up_completed = None\<rparr>"

definition insert_upload :: "int \<Rightarrow> string \<Rightarrow> bool \<Rightarrow> instant \<Rightarrow> db \<Rightarrow> db result" where
  "insert_upload cid dest required now db =
     (let i = db_upload_seq db + 1 in
      case unique_insert upload_key (new_upload i cid dest required now) (db_uploads db) of
        None \<Rightarrow> Inl (constraint_error ''uploads'')
      | Some rows \<Rightarrow>
          if cid \<notin> cp_id ` set (db_compactions db) then Inl (constraint_error ''FOREIGN KEY'')
          else Inr (db\<lparr>db_uploads := rows, db_upload_seq := i\<rparr>))"

fun insert_uploads :: "int \<Rightarrow> (string \<times> bool) list \<Rightarrow> instant \<Rightarrow> db \<Rightarrow> db result" where
  "insert_uploads cid [] now db = Inr db"
| "insert_uploads cid ((dest, required) # ds) now db = (case insert_upload cid dest required now db of
     Inl e \<Rightarrow> Inl (err_wrap ''record upload'' e) | Inr db' \<Rightarrow> insert_uploads cid ds now db')"

text \<open>\<open>destinations\<close> is the map from destination to its required flag, in the order of the iteration.\<close>

definition SaveCompaction ::
  "compaction \<Rightarrow> string list \<Rightarrow> (string \<times> bool) list \<Rightarrow> instant \<Rightarrow> db \<Rightarrow> (compaction \<times> db) result" where
  "SaveCompaction c inputs destinations now db =
     (case insert_compaction c db of
        Inl e \<Rightarrow> Inl (err_wrap ''record compaction'' e)
      | Inr (i, db1) \<Rightarrow>
         (case insert_inputs i inputs db1 of Inl e \<Rightarrow> Inl e
          | Inr db2 \<Rightarrow>
             (case insert_uploads i destinations now db2 of Inl e \<Rightarrow> Inl e
              | Inr db3 \<Rightarrow> Inr (c\<lparr>cp_id := i\<rparr>, db3))))"

definition HasCompaction :: "string \<Rightarrow> string \<Rightarrow> string \<Rightarrow> int \<Rightarrow> db \<Rightarrow> bool" where
  "HasCompaction src sm date revn db =
     list_ex (\<lambda>c. of_day src sm date c \<and> cp_revision c = revn) (db_compactions db)"

definition capture_hash :: "string \<Rightarrow> db \<Rightarrow> string option" where
  "capture_hash i db = map_option cap_sha256 (find (\<lambda>c. cap_id c = i) (db_captures db))"

fun adopt_inputs :: "int \<Rightarrow> input_capture list \<Rightarrow> (string \<Rightarrow> bool) \<Rightarrow> db \<Rightarrow> db result" where
  "adopt_inputs cid [] excluded db = Inr db"
| "adopt_inputs cid (ic # ics) excluded db =
     (case capture_hash (ic_id ic) db of
        None \<Rightarrow> if excluded (ic_id ic) then adopt_inputs cid ics excluded db
                else Inl (GoError (''adopt input '' @ ic_id ic) [ErrNoRows])
      | Some hash \<Rightarrow>
          if hash \<noteq> ic_sha256 ic then Inl (errors_New (''adopt input '' @ ic_id ic @ '' hash mismatch''))
          else (case insert_input cid (ic_id ic) db of
                  Inl e \<Rightarrow> Inl (err_wrap (''record adopted compaction input '' @ ic_id ic) e)
                | Inr db' \<Rightarrow> adopt_inputs cid ics excluded db'))"

definition AdoptCompaction ::
  "compaction \<Rightarrow> input_capture list \<Rightarrow> (string \<Rightarrow> bool) \<Rightarrow> (string \<times> bool) list \<Rightarrow> instant \<Rightarrow> db \<Rightarrow> (compaction \<times> db) result" where
  "AdoptCompaction c inputs excluded destinations now db =
     (case insert_compaction c db of
        Inl e \<Rightarrow> Inl e
      | Inr (i, db1) \<Rightarrow>
         (case adopt_inputs i inputs excluded db1 of Inl e \<Rightarrow> Inl e
          | Inr db2 \<Rightarrow>
             (case insert_uploads i destinations now db2 of Inl e \<Rightarrow> Inl e
              | Inr db3 \<Rightarrow> Inr (c\<lparr>cp_id := i\<rparr>, db3))))"

definition no_rows :: go_error where
  "no_rows = GoError ''sql: no rows in result set'' [ErrNoRows]"

definition LatestCompaction :: "string \<Rightarrow> string \<Rightarrow> string \<Rightarrow> db \<Rightarrow> compaction result" where
  "LatestCompaction src sm date db =
     (case highest_revision (day_compactions src sm date db) of
        None \<Rightarrow> Inl no_rows | Some c \<Rightarrow> Inr (scanCompaction c))"

definition CompactionByID :: "int \<Rightarrow> db \<Rightarrow> compaction result" where
  "CompactionByID i db =
     (case find (\<lambda>c. cp_id c = i) (db_compactions db) of None \<Rightarrow> Inl no_rows | Some c \<Rightarrow> Inr (scanCompaction c))"

definition CompactionForRevision :: "string \<Rightarrow> string \<Rightarrow> string \<Rightarrow> int \<Rightarrow> db \<Rightarrow> compaction result" where
  "CompactionForRevision src sm date revn db =
     (case find (\<lambda>c. of_day src sm date c \<and> cp_revision c = revn) (db_compactions db) of
        None \<Rightarrow> Inl no_rows | Some c \<Rightarrow> Inr (scanCompaction c))"

section \<open>Uploads\<close>

definition PendingUploads :: "string \<Rightarrow> instant \<Rightarrow> db \<Rightarrow> upload list" where
  "PendingUploads destination now db =
     map upload_from_row (sort_key (\<lambda>u. (up_next u, up_id u))
       (filter (\<lambda>u. up_status u \<in> set [''pending'', ''retry'', ''uploading''] \<and> up_next u \<le> encodeTime now \<and>
          (destination = '''' \<or> up_destination u = destination)) (db_uploads db)))"

definition MarkUploadAttempt :: "int \<Rightarrow> string \<Rightarrow> string \<Rightarrow> string \<Rightarrow> instant \<Rightarrow> db \<Rightarrow> db" where
  "MarkUploadAttempt i status detail remote next_at db =
     db\<lparr>db_uploads := update_where (\<lambda>u. up_id u = i)
       (\<lambda>u. u\<lparr>up_status := status, up_attempts := up_attempts u + 1, up_error := detail,
              up_remote := remote, up_next := encodeTime next_at\<rparr>) (db_uploads db)\<rparr>"

definition MarkUploadFailed :: "int \<Rightarrow> string \<Rightarrow> string \<Rightarrow> instant \<Rightarrow> db \<Rightarrow> db" where
  "MarkUploadFailed i status detail next_at db =
     db\<lparr>db_uploads := update_where (\<lambda>u. up_id u = i)
       (\<lambda>u. u\<lparr>up_status := status, up_error := detail, up_next := encodeTime next_at\<rparr>) (db_uploads db)\<rparr>"

definition settled :: "string \<Rightarrow> bool" where
  "settled status \<longleftrightarrow> status \<in> set [''verified'', ''retired'']"

definition blocking :: "int \<Rightarrow> upload_row \<Rightarrow> bool" where
  "blocking cid u \<longleftrightarrow> up_compaction u = cid \<and> up_required u \<and> \<not> settled (up_status u)"

definition MarkUploadVerified :: "int \<Rightarrow> string \<Rightarrow> instant \<Rightarrow> db \<Rightarrow> db result" where
  "MarkUploadVerified i remote now db =
     (case find (\<lambda>u. up_id u = i) (db_uploads db) of
        None \<Rightarrow> Inl no_rows
      | Some u \<Rightarrow>
         (let cid = up_compaction u;
              uploads = update_where (\<lambda>u. up_id u = i)
                (\<lambda>u. u\<lparr>up_status := ''verified'', up_error := '''', up_remote := remote,
                       up_completed := Some (encodeTime now)\<rparr>) (db_uploads db)
          in Inr (if filter (blocking cid) uploads = []
                  then db\<lparr>db_uploads := uploads, db_compactions := update_where (\<lambda>c. cp_id c = cid)
                         (\<lambda>c. c\<lparr>cp_status := ''published'', cp_published := Some (encodeTime now)\<rparr>) (db_compactions db)\<rparr>
                  else db\<lparr>db_uploads := uploads\<rparr>)))"

definition lacks_destination :: "string \<Rightarrow> db \<Rightarrow> compaction_row \<Rightarrow> bool" where
  "lacks_destination dest db c \<longleftrightarrow> cp_manifest_path c \<noteq> '''' \<and>
     \<not> list_ex (\<lambda>u. up_compaction u = cp_id c \<and> up_destination u = dest) (db_uploads db)"

fun backfill_rows :: "int \<Rightarrow> string \<Rightarrow> instant \<Rightarrow> compaction_row list \<Rightarrow> upload_row list" where
  "backfill_rows i dest now [] = []"
| "backfill_rows i dest now (c # cs) = new_upload (i + 1) (cp_id c) dest False now # backfill_rows (i + 1) dest now cs"

definition EnsureDestinationBackfill :: "string \<Rightarrow> instant \<Rightarrow> db \<Rightarrow> int \<times> db" where
  "EnsureDestinationBackfill dest now db =
     (let rows = backfill_rows (db_upload_seq db) dest now (filter (lacks_destination dest db) (db_compactions db))
      in (int (length rows), db\<lparr>db_uploads := db_uploads db @ rows, db_upload_seq := db_upload_seq db + int (length rows)\<rparr>))"

definition retirable :: "string \<Rightarrow> upload_row \<Rightarrow> bool" where
  "retirable dest u \<longleftrightarrow> up_destination u = dest \<and> up_required u \<and> \<not> settled (up_status u)"

definition RetireDestination :: "string \<Rightarrow> string \<Rightarrow> instant \<Rightarrow> db \<Rightarrow> int \<times> db" where
  "RetireDestination dest reason now db =
     (let uploads = update_where (retirable dest)
            (\<lambda>u. u\<lparr>up_status := ''retired'', up_error := ''retired: '' @ reason,
                   up_completed := Some (encodeTime now), up_next := encodeTime now\<rparr>) (db_uploads db);
          released = (\<lambda>c. cp_published c = None \<and>
            list_ex (\<lambda>u. up_compaction u = cp_id c \<and> up_destination u = dest \<and> up_status u = ''retired'') uploads \<and>
            filter (blocking (cp_id c)) uploads = [])
      in (count_if (retirable dest) (db_uploads db),
          db\<lparr>db_uploads := uploads,
             db_compactions := update_where released
               (\<lambda>c. c\<lparr>cp_status := ''published'', cp_published := Some (encodeTime now)\<rparr>) (db_compactions db),
             db_audit := db_audit db @ [\<lparr>au_action = ''retire_destination'', au_target = dest,
               au_reason = reason, au_created = encodeTime now\<rparr>]\<rparr>))"

record state_status =
  ss_ticks :: int
  ss_captures :: int
  ss_compactions :: int
  ss_pending :: int
  ss_failed :: int
  ss_verified :: int
  ss_retired :: int
  ss_summarized_days :: int

definition Status :: "db \<Rightarrow> state_status" where
  "Status db = \<lparr>ss_ticks = int (length (db_ticks db)), ss_captures = int (length (db_captures db)),
     ss_compactions = int (length (db_compactions db)),
     ss_pending = count_if (\<lambda>u. up_status u \<in> set [''pending'', ''uploading'']) (db_uploads db),
     ss_failed = count_if (\<lambda>u. up_status u \<in> set [''retry'', ''permanent_failure'']) (db_uploads db),
     ss_verified = count_if (\<lambda>u. up_status u = ''verified'') (db_uploads db),
     ss_retired = count_if (\<lambda>u. up_status u = ''retired'') (db_uploads db),
     ss_summarized_days = int (length (db_summaries db))\<rparr>"

definition RecordRepair :: "string \<Rightarrow> string \<Rightarrow> string \<Rightarrow> instant \<Rightarrow> db \<Rightarrow> db" where
  "RecordRepair action target reason now db =
     db\<lparr>db_audit := db_audit db @ [\<lparr>au_action = action, au_target = target, au_reason = reason, au_created = encodeTime now\<rparr>]\<rparr>"

definition IsNotFound :: "go_error \<Rightarrow> bool" where
  "IsNotFound e = errors_Is e ErrNoRows"

definition IsPermanentSQLiteError :: "go_error option \<Rightarrow> bool" where
  "IsPermanentSQLiteError err = (case err of None \<Rightarrow> False
     | Some e \<Rightarrow> (let v = to_lower (err_text e) in str_contains v ''malformed'' \<or> str_contains v ''corrupt''))"

end
