(* ===== verification/Raw_Store.thy ===== *)
theory Raw_Store
  imports Complex_Main Go_Float File_System State_Store
begin

text \<open>
  internal/rawstore/store.go: staging of a response body, the two-file commit of a capture, reading,
  the confinement of paths, the recovery of interrupted commits and the reconciliation of sidecars
  with the database. SHA-256 (in hexadecimal) and the JSON codec of a capture are parameters, as are
  the tz database, file times and the name of a temporary file. Operations on files give the new
  file system; a commit is a list of its writes, so that a crash is a prefix of the list.
\<close>

record raw_store =
  rs_root :: string
  rs_staging :: string

record staged =
  sg_path :: string
  sg_size :: int
  sg_sha256 :: string
  sg_too_large :: bool
  sg_read_err :: "go_error option"

section \<open>Paths\<close>

definition escapes :: "string \<Rightarrow> bool" where
  "escapes rel \<longleftrightarrow> rel = ''..'' \<or> has_prefix rel ''../''"

text \<open>The walk over the parts of the relative path: no existing part may be a symbolic link.\<close>

fun check_parts :: "fs \<Rightarrow> string \<Rightarrow> string list \<Rightarrow> unit result" where
  "check_parts fs current [] = Inr ()"
| "check_parts fs current (part # parts) =
     (let p = Join [current, part] in
      case os_lstat fs p of
        Inl e \<Rightarrow> if errors_Is e ErrNotExist then Inr () else Inl e
      | Inr (Symlink _) \<Rightarrow> Inl (errors_New ''storage path contains a symbolic link'')
      | Inr _ \<Rightarrow> check_parts fs p parts)"

definition safePath :: "fs \<Rightarrow> string \<Rightarrow> string \<Rightarrow> string result" where
  "safePath fs rdir relative =
     (if IsAbs relative then Inl (errors_New ''absolute storage path is forbidden'')
      else (let clean = Clean relative in
        if clean = ''.'' \<or> escapes clean then Inl (errors_New ''storage path escapes root'')
        else (let p = Join [rdir, clean] in
          case Rel rdir p of
            None \<Rightarrow> Inl (errors_New ''storage path escapes root'')
          | Some rel \<Rightarrow>
              if escapes rel then Inl (errors_New ''storage path escapes root'')
              else (case check_parts fs rdir (split_on (CHR ''/'') rel) of
                      Inl e \<Rightarrow> Inl e | Inr _ \<Rightarrow> Inr p))))"

text \<open>Open: \<open>canonical\<close> is the result of filepath.EvalSymlinks on the created root.\<close>

fun open_dirs :: "string \<Rightarrow> string list \<Rightarrow> fs \<Rightarrow> unit result \<times> fs" where
  "open_dirs rdir [] fs = (Inr (), fs)"
| "open_dirs rdir (name # names) fs =
     (let dir = Join [rdir, name] in
      case os_lstat fs dir of
        Inl e \<Rightarrow> if errors_Is e ErrNotExist
           then (case entry_place fs dir of
                   Inl e2 \<Rightarrow> (Inl (err_wrap ''create storage directory'' e2), fs)
                 | Inr q \<Rightarrow> open_dirs rdir names (fs_put q Directory fs))
           else (Inl (err_wrap ''inspect storage directory'' e), fs)
      | Inr Directory \<Rightarrow> open_dirs rdir names fs
      | Inr _ \<Rightarrow> (Inl (errors_New (''storage path '' @ name @ '' is not a real directory'')), fs))"

definition Open :: "(fs \<Rightarrow> string \<Rightarrow> string result) \<Rightarrow> string \<Rightarrow> fs \<Rightarrow> raw_store result \<times> fs" where
  "Open eval_symlinks rdir fs =
     (case os_mkdirall rdir fs of
        Inl e \<Rightarrow> (Inl (err_wrap ''create storage root'' e), fs)
      | Inr fs1 \<Rightarrow>
         (case eval_symlinks fs1 rdir of
            Inl e \<Rightarrow> (Inl (err_wrap ''resolve storage root'' e), fs1)
          | Inr canonical \<Rightarrow>
             (case open_dirs canonical [''staging'', ''raw'', ''parquet''] fs1 of
                (Inl e, fs2) \<Rightarrow> (Inl e, fs2)
              | (Inr _, fs2) \<Rightarrow> (Inr \<lparr>rs_root = canonical, rs_staging = Join [canonical, ''staging'']\<rparr>, fs2))))"

text \<open>The lock of a root is a flock on its file \<open>lock\<close>. A held lock is the place of that file, so roots that
  reach the same file exclude each other and others do not; flock does not wait (LOCK_NB). The result is the
  handle, the locks held afterwards, and the file system, in which the root and the file were created when
  they were missing.\<close>

type_synonym lock_place = "string list"

definition AcquireLock :: "string \<Rightarrow> lock_place list \<Rightarrow> fs \<Rightarrow> lock_place result \<times> lock_place list \<times> fs" where
  "AcquireLock rdir locks fs =
     (case os_mkdirall rdir fs of
        Inl e \<Rightarrow> (Inl e, locks, fs)
      | Inr fs1 \<Rightarrow>
         (case os_open_nofollow (Join [rdir, ''lock'']) fs1 of
            Inl e \<Rightarrow> (Inl (err_wrap ''open storage lock'' e), locks, fs1)
          | Inr (f, fs2) \<Rightarrow>
             (if \<not> (case node_at fs2 f of Reg _ \<Rightarrow> True | _ \<Rightarrow> False)
              then (Inl (errors_New ''storage lock is not a regular file''), locks, fs2)
              else if f \<in> set locks then (Inl (errors_New ''storage is already locked by another archiver''), locks, fs2)
              else (Inr f, f # locks, fs2))))"

definition Lock_Close :: "lock_place \<Rightarrow> lock_place list \<Rightarrow> lock_place list" where
  "Lock_Close f locks = removeAll f locks"

text \<open>Another process holds the lock of a root: the root exists, and its lock file is one of the locked.\<close>

definition lock_held :: "fs \<Rightarrow> lock_place list \<Rightarrow> string \<Rightarrow> bool" where
  "lock_held fs locks rdir \<longleftrightarrow> os_mkdirall rdir fs = Inr fs \<and>
     (case entry_place fs (Join [rdir, ''lock'']) of
        Inl _ \<Rightarrow> False | Inr f \<Rightarrow> (case map_of fs f of Some (Reg _) \<Rightarrow> f \<in> set locks | _ \<Rightarrow> False))"

lemma AcquireLock_held:
  "lock_held fs locks rdir \<Longrightarrow>
    AcquireLock rdir locks fs = (Inl (errors_New ''storage is already locked by another archiver''), locks, fs)"
  by (auto simp: lock_held_def AcquireLock_def os_open_nofollow_def node_at_def bind_res_def simp del: Join.simps
      split: sum.splits option.splits node.splits)

lemma AcquireLock_got:
  assumes "AcquireLock rdir locks fs = (Inr f, locks', fs')"
  shows "f \<notin> set locks" "locks' = f # locks" "\<exists>fs1. os_mkdirall rdir fs = Inr fs1 \<and> os_open_nofollow (Join [rdir, ''lock'']) fs1 = Inr (f, fs')"
  using assms by (auto simp: AcquireLock_def simp del: Join.simps split: sum.splits if_splits)

lemma AcquireLock_failed: "AcquireLock rdir locks fs = (Inl e, locks', fs') \<Longrightarrow> locks' = locks"
  by (auto simp: AcquireLock_def simp del: Join.simps split: sum.splits if_splits)

section \<open>Stage and commit\<close>

text \<open>\<open>body\<close> and \<open>read_err\<close> are what the reader delivers; at most \<open>maxBytes + 1\<close> bytes are copied.\<close>

definition Stage ::
  "(bytes \<Rightarrow> string) \<Rightarrow> raw_store \<Rightarrow> string \<Rightarrow> bytes \<Rightarrow> go_error option \<Rightarrow> int \<Rightarrow> fs \<Rightarrow> (staged \<times> fs) result" where
  "Stage sha s temp_name body read_err maxBytes fs =
     (let path = Join [rs_staging s, temp_name] in
      case os_create_excl path fs of
        Inl e \<Rightarrow> Inl (err_wrap ''create staging file'' e)
      | Inr fs1 \<Rightarrow>
         (let limit = nat (maxBytes + 1); data = take limit body; n = int (length data);
              err = (if length body \<ge> limit then None else read_err) in
          case os_write path data fs1 of
            Inl e \<Rightarrow> Inl (err_wrap ''sync staged body'' e)
          | Inr fs2 \<Rightarrow>
             if n > maxBytes
             then Inr (\<lparr>sg_path = '''', sg_size = n, sg_sha256 = '''', sg_too_large = True, sg_read_err = err\<rparr>,
                       (case os_remove path fs2 of Inl _ \<Rightarrow> fs2 | Inr fs3 \<Rightarrow> fs3))
             else Inr (\<lparr>sg_path = path, sg_size = n, sg_sha256 = sha data, sg_too_large = False, sg_read_err = err\<rparr>, fs2)))"

definition capture_dir :: "string \<Rightarrow> string \<Rightarrow> string \<Rightarrow> string \<Rightarrow> string" where
  "capture_dir src sm date hr = Join [''raw'', ''source='' @ src, ''stream='' @ sm, ''date='' @ date, ''hour='' @ hr]"

definition capture_base :: "string \<Rightarrow> string \<Rightarrow> string" where
  "capture_base i sha256 = i @ ''_'' @ take 12 sha256"

text \<open>One write of a commit and its effect.\<close>

datatype commit_write = RenameFile string string | CreateFile string | WriteFile string bytes

fun do_write :: "commit_write \<Rightarrow> fs \<Rightarrow> fs result" where
  "do_write (RenameFile old new) fs = os_rename old new fs"
| "do_write (CreateFile p) fs = os_create_excl p fs"
| "do_write (WriteFile p b) fs = os_write p b fs"

fun do_writes :: "commit_write list \<Rightarrow> fs \<Rightarrow> fs result" where
  "do_writes [] fs = Inr fs"
| "do_writes (w # ws) fs = bind_res (do_write w fs) (do_writes ws)"

text \<open>Commit up to its first write: the checks, the completed capture, and the writes that follow.
  \<open>encode\<close> is json.MarshalIndent with the final newline.\<close>

record commit_plan =
  pl_capture :: capture
  pl_raw :: string
  pl_sidecar :: string
  pl_sidecar_staged :: string
  pl_writes :: "commit_write list"

definition plan_commit ::
  "(capture \<Rightarrow> bytes) \<Rightarrow> raw_store \<Rightarrow> staged \<Rightarrow> capture \<Rightarrow> location \<Rightarrow> fs \<Rightarrow> commit_plan result \<times> fs" where
  "plan_commit encode s sg c loc fs =
     (if sg_path sg = '''' \<or> sg_too_large sg then (Inl (errors_New ''invalid staged capture''), fs)
      else if length (sg_sha256 sg) < 12 then (Inl (errors_New ''invalid staged hash''), fs)
      else (let relDir = capture_dir (cap_source c) (cap_stream c) (cap_archive_date c) (local_hour loc (cap_scheduled c)) in
       case safePath fs (rs_root s) relDir of
         Inl e \<Rightarrow> (Inl e, fs)
       | Inr absDir \<Rightarrow>
          (case os_mkdirall absDir fs of
             Inl e \<Rightarrow> (Inl (err_wrap ''create raw directory'' e), fs)
           | Inr fs1 \<Rightarrow>
              (let base = capture_base (cap_id c) (sg_sha256 sg);
                   rawRel = Join [relDir, base @ ''.pb'']; sidecarRel = Join [relDir, base @ ''.json''];
                   rawAbs = (case safePath fs1 (rs_root s) rawRel of Inl _ \<Rightarrow> '''' | Inr p \<Rightarrow> p);
                   sidecarAbs = (case safePath fs1 (rs_root s) sidecarRel of Inl _ \<Rightarrow> '''' | Inr p \<Rightarrow> p);
                   c' = c\<lparr>cap_raw_path := rawRel, cap_sidecar_path := sidecarRel,
                          cap_sha256 := sg_sha256 sg, cap_decoded_length := sg_size sg\<rparr>;
                   rawStaged = Join [rs_staging s, cap_id c @ ''.pb.tmp''];
                   sidecarStaged = Join [rs_staging s, cap_id c @ ''.json.tmp'']
               in if is_ok (os_lstat fs1 rawAbs) then (Inl (errors_New (''raw capture already exists: '' @ rawRel)), fs1)
                  else if contains_any (cap_id c) [CHR ''/'', char_of (92::nat), char_of (92::nat)]
                  then (Inl (errors_New ''capture id is not safe for staging''), fs1)
                  else (Inr \<lparr>pl_capture = c', pl_raw = rawAbs, pl_sidecar = sidecarAbs, pl_sidecar_staged = sidecarStaged,
                         pl_writes = [RenameFile (sg_path sg) rawStaged, CreateFile sidecarStaged,
                           WriteFile sidecarStaged (encode c'), RenameFile rawStaged rawAbs, RenameFile sidecarStaged sidecarAbs]\<rparr>, fs1)))))"

text \<open>The writes, and the deferred removal of the staged sidecar when an error comes after its
  creation and before the payload is in place. The file system after an error is a result too.\<close>

fun run_commit :: "string \<Rightarrow> nat \<Rightarrow> commit_write list \<Rightarrow> fs \<Rightarrow> fs \<times> go_error option" where
  "run_commit sidecarStaged done_writes [] fs = (fs, None)"
| "run_commit sidecarStaged done_writes (w # ws) fs =
     (case do_write w fs of
        Inr fs' \<Rightarrow> run_commit sidecarStaged (Suc done_writes) ws fs'
      | Inl e \<Rightarrow> ((if done_writes = 2 \<or> done_writes = 3
                  then (case os_remove sidecarStaged fs of Inl _ \<Rightarrow> fs | Inr fs' \<Rightarrow> fs') else fs), Some e))"

definition Commit ::
  "(capture \<Rightarrow> bytes) \<Rightarrow> raw_store \<Rightarrow> staged \<Rightarrow> capture \<Rightarrow> location \<Rightarrow> fs \<Rightarrow> capture result \<times> fs" where
  "Commit encode s sg c loc fs =
     (case plan_commit encode s sg c loc fs of
        (Inl e, fs1) \<Rightarrow> (Inl e, fs1)
      | (Inr plan, fs1) \<Rightarrow>
         (case run_commit (pl_sidecar_staged plan) 0 (pl_writes plan) fs1 of
            (fs2, None) \<Rightarrow> (Inr (pl_capture plan), fs2)
          | (fs2, Some e) \<Rightarrow> (Inl e, fs2)))"

definition Abort :: "staged \<Rightarrow> fs \<Rightarrow> staged \<times> fs" where
  "Abort sg fs = (if sg_path sg = '''' then (sg, fs)
     else (sg\<lparr>sg_path := ''''\<rparr>, (case os_remove (sg_path sg) fs of Inl _ \<Rightarrow> fs | Inr fs' \<Rightarrow> fs')))"

definition Read :: "raw_store \<Rightarrow> string \<Rightarrow> fs \<Rightarrow> bytes result" where
  "Read s relative fs =
     (case safePath fs (rs_root s) relative of Inl e \<Rightarrow> Inl e
      | Inr p \<Rightarrow>
         (case os_lstat fs p of Inl e \<Rightarrow> Inl e
          | Inr (Reg b) \<Rightarrow> os_readfile fs p
          | Inr _ \<Rightarrow> Inl (errors_New ''capture path is not a regular file'')))"

definition Absolute :: "raw_store \<Rightarrow> string \<Rightarrow> fs \<Rightarrow> string result" where
  "Absolute s relative fs = safePath fs (rs_root s) relative"

section \<open>Recovery\<close>

definition is_hex :: "string \<Rightarrow> bool" where
  "is_hex s \<longleftrightarrow> even (length s) \<and>
     list_all (\<lambda>c. (CHR ''0'' \<le> c \<and> c \<le> CHR ''9'') \<or> (CHR ''a'' \<le> c \<and> c \<le> CHR ''f'') \<or> (CHR ''A'' \<le> c \<and> c \<le> CHR ''F'')) s"

text \<open>The cut set of validateCapturePaths. It is a raw string literal, so its seven bytes are the
  slash, three backslashes, the letter x and two zeros.\<close>

definition identity_cutset :: string where
  "identity_cutset = [CHR ''/'', char_of (92::nat), char_of (92::nat), char_of (92::nat), CHR ''x'', CHR ''0'', CHR ''0'']"

definition validateCapturePaths :: "(string \<Rightarrow> location result) \<Rightarrow> capture \<Rightarrow> unit result" where
  "validateCapturePaths load_location c =
     (if cap_format c \<noteq> SidecarFormatVersion \<or> cap_id c = '''' \<or> cap_source c = '''' \<or> cap_stream c = '''' \<or>
         contains_any (cap_id c @ cap_source c @ cap_stream c) identity_cutset \<or> length (cap_sha256 c) \<noteq> 64
      then Inl (errors_New ''capture identity is invalid'')
      else if \<not> is_hex (cap_sha256 c) then Inl (errors_New ''capture hash is invalid'')
      else (case load_location (cap_timezone c) of
              Inl _ \<Rightarrow> Inl (errors_New ''capture timezone or scheduled time is invalid'')
            | Inr location \<Rightarrow>
                if cap_scheduled c = zero_time then Inl (errors_New ''capture timezone or scheduled time is invalid'')
                else if local_date location (cap_scheduled c) \<noteq> cap_archive_date c
                then Inl (errors_New ''capture archive date is inconsistent'')
                else (let directory = capture_dir (cap_source c) (cap_stream c) (cap_archive_date c)
                            (local_hour location (cap_scheduled c));
                          base = capture_base (cap_id c) (cap_sha256 c)
                      in if cap_raw_path c \<noteq> Join [directory, base @ ''.pb''] \<or>
                            cap_sidecar_path c \<noteq> Join [directory, base @ ''.json'']
                         then Inl (errors_New ''capture paths are inconsistent'') else Inr ())))"

definition hashFile :: "(bytes \<Rightarrow> string) \<Rightarrow> fs \<Rightarrow> string \<Rightarrow> string result" where
  "hashFile sha fs p = bind_res (os_readfile fs p) (\<lambda>b. Inr (sha b))"

text \<open>One entry of the staging directory. \<open>Corrupt\<close> and \<open>Passed\<close> go on with the next entry, a
  failure ends the loop.\<close>

datatype recovery = Passed fs | Corrupt fs | Failed fs go_error

definition remove_ignoring :: "string \<Rightarrow> fs \<Rightarrow> fs" where
  "remove_ignoring p fs = (case os_remove p fs of Inl _ \<Rightarrow> fs | Inr fs' \<Rightarrow> fs')"

definition place_pair :: "string \<Rightarrow> string \<Rightarrow> string \<Rightarrow> string \<Rightarrow> fs \<Rightarrow> recovery" where
  "place_pair rawSource rawFinal sidecarStaged sidecarFinal fs =
     (case os_mkdirall (Dir rawFinal) fs of
        Inl e \<Rightarrow> Failed fs e
      | Inr fs1 \<Rightarrow>
         (case (if rawSource \<noteq> rawFinal then os_rename rawSource rawFinal fs1 else Inr fs1) of
            Inl e \<Rightarrow> Failed fs1 e
          | Inr fs2 \<Rightarrow>
             (case os_rename sidecarStaged sidecarFinal fs2 of
                Inl e \<Rightarrow> Failed fs2 e
              | Inr fs3 \<Rightarrow> Passed fs3)))"

definition finish_entry ::
  "(bytes \<Rightarrow> string) \<Rightarrow> (bytes \<Rightarrow> capture option) \<Rightarrow> (string \<Rightarrow> location result) \<Rightarrow> raw_store \<Rightarrow> string \<times> node \<Rightarrow> fs \<Rightarrow> recovery" where
  "finish_entry sha decode load_location s entry fs =
     (let name = fst entry; sidecarStaged = Join [rs_staging s, name] in
      if snd entry = Directory \<or> \<not> has_suffix name ''.json.tmp'' then Passed fs
      else (case os_readfile fs sidecarStaged of
        Inl _ \<Rightarrow> Corrupt fs
      | Inr b \<Rightarrow>
        (case decode b of
           None \<Rightarrow> Corrupt fs
         | Some c \<Rightarrow>
            if \<not> is_ok (validateCapturePaths load_location c) \<or> name \<noteq> cap_id c @ ''.json.tmp'' then Corrupt fs
            else (case safePath fs (rs_root s) (cap_raw_path c) of
                Inl _ \<Rightarrow> Corrupt fs
              | Inr rawFinal \<Rightarrow>
                (case safePath fs (rs_root s) (cap_sidecar_path c) of
                   Inl _ \<Rightarrow> Corrupt fs
                 | Inr sidecarFinal \<Rightarrow>
                   (case os_lstat fs sidecarFinal of
                      Inr info \<Rightarrow>
                        if (case info of Reg _ \<Rightarrow> hashFile sha fs rawFinal = Inr (cap_sha256 c) | _ \<Rightarrow> False)
                        then Passed (remove_ignoring (Join [rs_staging s, cap_id c @ ''.pb.tmp'']) (remove_ignoring sidecarStaged fs))
                        else Corrupt fs
                    | Inl _ \<Rightarrow>
                        (let rawSource = (case os_stat fs rawFinal of
                               Inl e \<Rightarrow> if errors_Is e ErrNotExist then Join [rs_staging s, cap_id c @ ''.pb.tmp''] else rawFinal
                             | Inr _ \<Rightarrow> rawFinal)
                         in if hashFile sha fs rawSource = Inr (cap_sha256 c)
                            then place_pair rawSource rawFinal sidecarStaged sidecarFinal fs else Corrupt fs)))))))"

text \<open>The loop: the number of corrupt entries, the file system, and the error that ended it.\<close>

fun finish_entries ::
  "(bytes \<Rightarrow> string) \<Rightarrow> (bytes \<Rightarrow> capture option) \<Rightarrow> (string \<Rightarrow> location result) \<Rightarrow> raw_store \<Rightarrow> (string \<times> node) list \<Rightarrow> fs
    \<Rightarrow> nat \<times> fs \<times> go_error option" where
  "finish_entries sha decode ll s [] fs = (0, fs, None)"
| "finish_entries sha decode ll s (e # es) fs =
     (case finish_entry sha decode ll s e fs of
        Failed fs' err \<Rightarrow> (0, fs', Some err)
      | Passed fs' \<Rightarrow> finish_entries sha decode ll s es fs'
      | Corrupt fs' \<Rightarrow> (case finish_entries sha decode ll s es fs' of (n, r) \<Rightarrow> (Suc n, r)))"

definition finishInterruptedCommits ::
  "(bytes \<Rightarrow> string) \<Rightarrow> (bytes \<Rightarrow> capture option) \<Rightarrow> (string \<Rightarrow> location result) \<Rightarrow> raw_store \<Rightarrow> fs \<Rightarrow> nat \<times> fs \<times> go_error option" where
  "finishInterruptedCommits sha decode ll s fs =
     (case os_readdir fs (rs_staging s) of
        Inl e \<Rightarrow> (0, fs, Some e)
      | Inr entries \<Rightarrow> finish_entries sha decode ll s entries fs)"

section \<open>Reconciliation with the database\<close>

definition trim_suffix :: "string \<Rightarrow> string \<Rightarrow> string" where
  "trim_suffix s suf = (if has_suffix s suf then take (length s - length suf) s else s)"

datatype walk_outcome = Ignored | CorruptFile | Registered db | WalkError go_error

definition sidecar_tick :: "capture \<Rightarrow> tick" where
  "sidecar_tick c = \<lparr>tick_id = cap_tick_id c, tick_source = cap_source c, tick_stream = cap_stream c,
     tick_scheduled = cap_scheduled c, tick_started = Some (cap_started c), tick_finished = Some (cap_completed c),
     tick_result = ''captured'', tick_skip_reason = '''', tick_error_category = '''', tick_error_detail = '''',
     tick_http_status = cap_http_status c, tick_attempts = cap_attempts c, tick_fingerprint = cap_fingerprint c\<rparr>"

text \<open>The visit of one entry below raw.\<close>

definition visit_raw ::
  "(bytes \<Rightarrow> string) \<Rightarrow> (bytes \<Rightarrow> capture option) \<Rightarrow> (string \<Rightarrow> location result) \<Rightarrow> raw_store \<Rightarrow> fs \<Rightarrow> string list \<times> node \<Rightarrow> db
    \<Rightarrow> walk_outcome" where
  "visit_raw sha decode ll s fs entry db =
     (let path = abs_path (fst entry) in
      case snd entry of
        Symlink _ \<Rightarrow> CorruptFile
      | Directory \<Rightarrow> Ignored
      | Reg _ \<Rightarrow>
         if Ext path = ''.pb'' then
           (case os_stat fs (trim_suffix path ''.pb'' @ ''.json'') of
              Inl e \<Rightarrow> if errors_Is e ErrNotExist then CorruptFile else Ignored
            | Inr _ \<Rightarrow> Ignored)
         else if Ext path \<noteq> ''.json'' then Ignored
         else (case os_readfile fs path of
           Inl _ \<Rightarrow> CorruptFile
         | Inr b \<Rightarrow>
           (case decode b of
              None \<Rightarrow> CorruptFile
            | Some c \<Rightarrow>
               if \<not> is_ok (validateCapturePaths ll c) then CorruptFile
               else if Rel (rs_root s) path \<noteq> Some (cap_sidecar_path c) then CorruptFile
               else if safePath fs (rs_root s) (cap_raw_path c) \<noteq> Inr (trim_suffix path ''.json'' @ ''.pb'') then CorruptFile
               else if hashFile sha fs (trim_suffix path ''.json'' @ ''.pb'') \<noteq> Inr (cap_sha256 c) then CorruptFile
               else if HasCapture (cap_id c) db then Ignored
               else (case SaveCapture (sidecar_tick c) c db of
                       Inl e \<Rightarrow> WalkError e | Inr db' \<Rightarrow> Registered db'))))"

record reconciled =
  rec_registered :: nat
  rec_corrupt :: nat
  rec_db :: db
  rec_error :: "go_error option"

fun walk_raw ::
  "(bytes \<Rightarrow> string) \<Rightarrow> (bytes \<Rightarrow> capture option) \<Rightarrow> (string \<Rightarrow> location result) \<Rightarrow> raw_store \<Rightarrow> fs \<Rightarrow> (string list \<times> node) list
    \<Rightarrow> db \<Rightarrow> reconciled" where
  "walk_raw sha decode ll s fs [] db = \<lparr>rec_registered = 0, rec_corrupt = 0, rec_db = db, rec_error = None\<rparr>"
| "walk_raw sha decode ll s fs (e # es) db =
     (case visit_raw sha decode ll s fs e db of
        Ignored \<Rightarrow> walk_raw sha decode ll s fs es db
      | CorruptFile \<Rightarrow> (let r = walk_raw sha decode ll s fs es db in r\<lparr>rec_corrupt := Suc (rec_corrupt r)\<rparr>)
      | Registered db' \<Rightarrow> (let r = walk_raw sha decode ll s fs es db' in r\<lparr>rec_registered := Suc (rec_registered r)\<rparr>)
      | WalkError err \<Rightarrow> \<lparr>rec_registered = 0, rec_corrupt = 0, rec_db = db, rec_error = Some err\<rparr>)"

definition live_file_ok :: "raw_store \<Rightarrow> fs \<Rightarrow> string \<Rightarrow> bool" where
  "live_file_ok s fs relative =
     (case safePath fs (rs_root s) relative of Inl _ \<Rightarrow> False
      | Inr p \<Rightarrow> (case os_lstat fs p of Inr (Reg _) \<Rightarrow> True | _ \<Rightarrow> False))"

definition missing_pairs :: "raw_store \<Rightarrow> fs \<Rightarrow> db \<Rightarrow> retention_capture list" where
  "missing_pairs s fs db = filter (\<lambda>c. \<not> (live_file_ok s fs (rc_raw_path c) \<and> live_file_ok s fs (rc_sidecar_path c)))
     (LiveCaptureFiles db)"

definition Reconcile ::
  "(bytes \<Rightarrow> string) \<Rightarrow> (bytes \<Rightarrow> capture option) \<Rightarrow> (string \<Rightarrow> location result) \<Rightarrow> raw_store \<Rightarrow> db \<Rightarrow> fs \<Rightarrow> reconciled \<times> fs" where
  "Reconcile sha decode ll s db fs =
     (case finishInterruptedCommits sha decode ll s fs of
        (n, fs1, Some e) \<Rightarrow> (\<lparr>rec_registered = 0, rec_corrupt = n, rec_db = db, rec_error = Some e\<rparr>, fs1)
      | (n, fs1, None) \<Rightarrow>
         (let rawRoot = Join [rs_root s, ''raw''];
              r = (case os_lstat fs1 rawRoot of
                Inl e \<Rightarrow> \<lparr>rec_registered = 0, rec_corrupt = 0, rec_db = db, rec_error = Some e\<rparr>
              | Inr _ \<Rightarrow> walk_raw sha decode ll s fs1 (walk_dir fs1 (comps rawRoot)) db);
              r1 = r\<lparr>rec_corrupt := n + rec_corrupt r\<rparr>
          in if rec_error r1 \<noteq> None then (r1, fs1)
             else (r1\<lparr>rec_corrupt := rec_corrupt r1 + length (missing_pairs s fs1 (rec_db r1))\<rparr>, fs1)))"

section \<open>Staging leftovers and disk usage\<close>

fun remove_expired :: "(string \<Rightarrow> instant option) \<Rightarrow> raw_store \<Rightarrow> instant \<Rightarrow> (string \<times> node) list \<Rightarrow> fs \<Rightarrow> nat \<times> fs" where
  "remove_expired mtime s olderThan [] fs = (0, fs)"
| "remove_expired mtime s olderThan ((name, node) # es) fs =
     (let path = Join [rs_staging s, name] in
      case node of
        Symlink _ \<Rightarrow> remove_expired mtime s olderThan es fs
      | Reg _ \<Rightarrow>
         (case mtime name of
            None \<Rightarrow> remove_expired mtime s olderThan es fs
          | Some t \<Rightarrow>
             if t < olderThan then
               (case os_remove path fs of
                  Inl _ \<Rightarrow> remove_expired mtime s olderThan es fs
                | Inr fs' \<Rightarrow> (case remove_expired mtime s olderThan es fs' of (n, r) \<Rightarrow> (Suc n, r)))
             else remove_expired mtime s olderThan es fs)
      | Directory \<Rightarrow>
         (case mtime name of
            None \<Rightarrow> remove_expired mtime s olderThan es fs
          | Some t \<Rightarrow>
             if t < olderThan \<and> has_prefix name ''.compaction-'' then
               (case remove_expired mtime s olderThan es (os_remove_all path fs) of (n, r) \<Rightarrow> (Suc n, r))
             else remove_expired mtime s olderThan es fs))"

definition RemoveExpiredStaging :: "(string \<Rightarrow> instant option) \<Rightarrow> raw_store \<Rightarrow> instant \<Rightarrow> fs \<Rightarrow> (nat \<times> fs) result" where
  "RemoveExpiredStaging mtime s olderThan fs =
     (case os_readdir fs (rs_staging s) of
        Inl e \<Rightarrow> Inl e
      | Inr entries \<Rightarrow> Inr (remove_expired mtime s olderThan entries fs))"

record disk_usage =
  du_total :: "64 word"
  du_free :: "64 word"
  du_used :: "64 word"
  du_percent :: float_value

text \<open>\<open>blocks\<close>, \<open>bavail\<close> and \<open>bsize\<close> are the fields of Statfs; the percentage is exact here and
  rounded to a float64 in the code.\<close>

definition DiskUsage :: "64 word \<Rightarrow> 64 word \<Rightarrow> 64 word \<Rightarrow> disk_usage" where
  "DiskUsage blocks bavail bsize =
     (let total = blocks * bsize; free = bavail * bsize; used = total - free
      in \<lparr>du_total = total, du_free = free, du_used = used,
          du_percent = (if total \<noteq> 0 then Finite (of_nat (unat used) * 100 / of_nat (unat total)) else Finite 0)\<rparr>)"

end
