(* ===== verification/Go_Time_Facts.thy ===== *)
theory Go_Time_Facts
  imports Go_Time
begin

text \<open>
  Facts on the calendar and the two layouts: the year algorithm is the inverse of the day count,
  dates and times of day format to texts of fixed width whose byte order is the order of time, and
  both layouts read back what they wrote.
\<close>

section \<open>Texts of fixed width\<close>

lemma append_less_append:
  fixes xs ys us vs :: "'a::order list"
  assumes "length xs = length ys"
  shows "xs @ us < ys @ vs \<longleftrightarrow> xs < ys \<or> xs = ys \<and> us < vs"
  using assms by (induction xs ys rule: list_induct2) auto

lemma less_append_same:
  fixes xs us vs :: "'a::order list"
  shows "xs @ us < xs @ vs \<longleftrightarrow> us < vs"
  using append_less_append [of xs xs us vs] by simp

lemma pad_dec_inj:
  assumes "a < 10 ^ w" "b < 10 ^ w" shows "pad_dec w a = pad_dec w b \<longleftrightarrow> a = b"
  using assms read_pad_dec by (metis option.inject)

lemma pad_dec_less:
  "a < 10 ^ w \<Longrightarrow> b < 10 ^ w \<Longrightarrow> pad_dec w a < pad_dec w b \<longleftrightarrow> a < b"
proof (induction w arbitrary: a b)
  case 0
  then show ?case by simp
next
  case (Suc w)
  have lt: "a div 10 < 10 ^ w" "b div 10 < 10 ^ w"
    using Suc.prems by (simp_all add: div_less_iff_less_mult mult.commute)
  have dm: "a mod 10 < 10" "b mod 10 < 10" by simp_all
  have "pad_dec (Suc w) a < pad_dec (Suc w) b \<longleftrightarrow>
      pad_dec w (a div 10) < pad_dec w (b div 10) \<or>
      pad_dec w (a div 10) = pad_dec w (b div 10) \<and> [digit_char (a mod 10)] < [digit_char (b mod 10)]"
    unfolding pad_dec.simps by (rule append_less_append) (simp only: length_pad_dec)
  also have "\<dots> \<longleftrightarrow> a div 10 < b div 10 \<or> a div 10 = b div 10 \<and> a mod 10 < b mod 10"
    unfolding Suc.IH [OF lt] pad_dec_inj [OF lt] Cons_less_Cons digit_char_less [OF dm] by simp
  also have "\<dots> \<longleftrightarrow> a < b"
    using div_mult_mod_eq [of a 10] div_mult_mod_eq [of b 10] dm by linarith
  finally show ?case .
qed

lemma take_num_pad: "n < 10 ^ w \<Longrightarrow> take_num w (pad_dec w n @ s) = Some (n, s)"
  by (simp add: take_num_def read_pad_dec)

lemma expect_Cons [simp]: "expect c (c # s) = Some s"
  by (simp add: expect_def)

section \<open>The calendar\<close>

lemma cycle_split:
  fixes n l q q' :: int
  assumes "0 \<le> n" "n \<le> 4 * l" "0 < l" and q: "q = n div l" and q': "q' = q - q div 4"
  shows "0 \<le> q'" "q' \<le> 3" "0 \<le> n - l * q'" "n - l * q' \<le> l" "q' < 3 \<Longrightarrow> n - l * q' < l"
proof -
  define r where "r = n mod l"
  have n: "n = l * q + r" "0 \<le> r" "r < l"
    using assms by (simp_all add: q r_def)
  have q0: "0 \<le> q" using assms by (simp add: q pos_imp_zdiv_nonneg_iff)
  have "q \<le> 4"
  proof (rule ccontr)
    assume "\<not> q \<le> 4"
    then have "l * 5 \<le> l * q" using assms(3) by (intro mult_left_mono) auto
    with n assms(2,3) show False by linarith
  qed
  then have "0 \<le> q' \<and> q' \<le> 3 \<and> 0 \<le> n - l * q' \<and> n - l * q' \<le> l \<and> (q' < 3 \<longrightarrow> n - l * q' < l)"
  proof -
    assume "q \<le> 4"
    with q0 consider "q = 0" | "q = 1" | "q = 2" | "q = 3" | "q = 4" by linarith
    then show ?thesis using n assms(2,3) q' by cases auto
  qed
  then show "0 \<le> q'" "q' \<le> 3" "0 \<le> n - l * q'" "n - l * q' \<le> l" "q' < 3 \<Longrightarrow> n - l * q' < l"
    by auto
qed

lemma year_yday_days:
  assumes "year_yday d = (y, yd)"
  shows "d = days_before_year y + yd \<and> 0 \<le> yd \<and> yd < days_before_year (y + 1) - days_before_year y"
proof -
  define a where "a = d div 146097"
  define d1 where "d1 = d mod 146097"
  define b where "b = d1 div 36524 - d1 div 36524 div 4"
  define d2 where "d2 = d1 - 36524 * b"
  define c where "c = d2 div 1461"
  define d3 where "d3 = d2 - 1461 * c"
  define e where "e = d3 div 365 - d3 div 365 div 4"
  have "year_yday d = (400 * a + 100 * b + 4 * c + e + 1, d3 - 365 * e)"
    unfolding year_yday_def Let_def e_def d3_def c_def d2_def b_def d1_def a_def by (rule refl)
  then have y: "y = 400 * a + 100 * b + 4 * c + e + 1" and yd: "yd = d3 - 365 * e"
    unfolding assms by (simp_all only: prod.inject)
  have d: "d = 146097 * a + d1" and d1: "0 \<le> d1" "d1 < 146097"
    by (simp_all add: a_def d1_def)
  have b: "0 \<le> b" "b \<le> 3" "0 \<le> d2" "d2 < 36525" "b < 3 \<longrightarrow> d2 < 36524"
    using cycle_split [OF d1(1) _ _ refl b_def] d1(2) by (simp_all add: d2_def)
  have c: "0 \<le> c" "c \<le> 24" "0 \<le> d3" "d3 < 1461" "c = 24 \<longrightarrow> b < 3 \<longrightarrow> d3 < 1460"
  proof -
    have d2: "d2 = 1461 * c + d3" "0 \<le> d3" "d3 < 1461"
      by (simp_all add: c_def d3_def minus_mult_div_eq_mod)
    show "0 \<le> c" using b(3) by (simp add: c_def pos_imp_zdiv_nonneg_iff)
    show "c \<le> 24" "0 \<le> d3" "d3 < 1461" "c = 24 \<longrightarrow> b < 3 \<longrightarrow> d3 < 1460"
      using d2 b(4,5) by linarith+
  qed
  have e: "0 \<le> e" "e \<le> 3" "0 \<le> yd" "yd < 366" "e < 3 \<longrightarrow> yd < 365"
    "e = 3 \<longrightarrow> c = 24 \<longrightarrow> b < 3 \<longrightarrow> yd < 365"
    using cycle_split [OF c(3) _ _ refl e_def] c by (auto simp: yd)
  define n where "n = 400 * a + 100 * b + 4 * c + e"
  have yn: "y = n + 1" by (simp add: y n_def)
  have q: "n div 4 = 100 * a + 25 * b + c"
    by (rule int_div_pos_eq [where r = e]) (use e(1,2) in \<open>auto simp: n_def\<close>)
  have r100: "n div 100 = 4 * a + b"
    by (rule int_div_pos_eq [where r = "4 * c + e"]) (use c(1,2) e(1,2) in \<open>auto simp: n_def\<close>)
  have r400: "n div 400 = a"
    by (rule int_div_pos_eq [where r = "100 * b + 4 * c + e"])
      (use b(1,2) c(1,2) e(1,2) in \<open>auto simp: n_def\<close>)
  have q': "(n + 1) div 4 = 100 * a + 25 * b + c + (if e = 3 then 1 else 0)"
    by (rule int_div_pos_eq [where r = "if e = 3 then 0 else e + 1"])
      (use e(1,2) in \<open>auto simp: n_def\<close>)
  have q100: "(n + 1) div 100 = 4 * a + b + (if e = 3 \<and> c = 24 then 1 else 0)"
    by (rule int_div_pos_eq [where r = "if e = 3 \<and> c = 24 then 0 else 4 * c + e + 1"])
      (use c(1,2) e(1,2) in \<open>auto simp: n_def\<close>)
  have q400: "(n + 1) div 400 = a + (if e = 3 \<and> c = 24 \<and> b = 3 then 1 else 0)"
    by (rule int_div_pos_eq [where r = "if e = 3 \<and> c = 24 \<and> b = 3 then 0 else 100 * b + 4 * c + e + 1"])
      (use b(1,2) c(1,2) e(1,2) in \<open>auto simp: n_def\<close>)
  have dby: "days_before_year y = 146097 * a + 36524 * b + 1461 * c + 365 * e"
    by (simp add: days_before_year_def yn q r100 r400) (simp add: n_def)
  have dby1: "days_before_year (y + 1) - days_before_year y =
      365 + (if e = 3 then 1 else 0) - (if e = 3 \<and> c = 24 then 1 else 0)
        + (if e = 3 \<and> c = 24 \<and> b = 3 then 1 else 0)"
    using q' q100 q400 by (simp add: days_before_year_def yn q r100 r400 add.commute [of 1 n])
  have "d = days_before_year y + yd"
    by (simp add: dby d yd d3_def d2_def)
  moreover have "yd < days_before_year (y + 1) - days_before_year y"
    unfolding dby1 using e b(2) c(2) by auto
  ultimately show ?thesis using e by simp
qed

lemma div_Suc_int:
  fixes n k :: int
  assumes "0 < k"
  shows "(n + 1) div k = n div k + (if (n + 1) mod k = 0 then 1 else 0)"
proof (cases "n mod k = k - 1")
  case True
  then have e: "n + 1 = k * (n div k + 1)"
    using mult_div_mod_eq [of k n] by (simp add: distrib_left)
  then have "(n + 1) mod k = 0" by simp
  moreover from e have "(n + 1) div k = n div k + 1"
    using assms by (metis less_irrefl nonzero_mult_div_cancel_left)
  ultimately show ?thesis by simp
next
  case False
  have r: "0 \<le> n mod k" "n mod k < k" using assms by simp_all
  with False have lt: "n mod k + 1 < k" by linarith
  have e: "n + 1 = k * (n div k) + (n mod k + 1)" by simp
  have "(n + 1) div k = n div k"
    by (rule int_div_pos_eq [OF e]) (use r lt in auto)
  moreover have "(n + 1) mod k = n mod k + 1"
    by (rule int_mod_pos_eq [OF e]) (use r lt in auto)
  ultimately show ?thesis using r by simp
qed

lemma leap_count:
  fixes a b c y :: int
  assumes "p100 \<longrightarrow> p4" "p400 \<longrightarrow> p100"
  shows "365 * y + (a + (if p4 then 1 else 0)) - (b + (if p100 then 1 else 0)) + (c + (if p400 then 1 else 0))
      = 365 * (y - 1) + a - b + c + (if p4 \<and> (\<not> p100 \<or> p400) then 366 else 365)"
proof -
  have e: "365 * (y - 1) = 365 * y - 365" by (simp add: right_diff_distrib)
  show ?thesis using assms unfolding e by (cases p4; cases p100; cases p400) simp_all
qed

lemma days_before_year_Suc:
  "days_before_year (y + 1) = days_before_year y + (if is_leap y then 366 else 365)"
proof -
  have m: "y div 4 = (y - 1) div 4 + (if y mod 4 = 0 then 1 else 0)"
    "y div 100 = (y - 1) div 100 + (if y mod 100 = 0 then 1 else 0)"
    "y div 400 = (y - 1) div 400 + (if y mod 400 = 0 then 1 else 0)"
    using div_Suc_int [of 4 "y - 1"] div_Suc_int [of 100 "y - 1"] div_Suc_int [of 400 "y - 1"]
    by (simp_all only: diff_add_cancel zero_less_numeral)
  have p: "y mod 100 = 0 \<longrightarrow> y mod 4 = 0" "y mod 400 = 0 \<longrightarrow> y mod 100 = 0"
    using mod_mod_cancel [of 4 100 y] mod_mod_cancel [of 100 400 y] by auto
  show ?thesis
    unfolding days_before_year_def is_leap_def add_diff_cancel_right' m
    by (rule leap_count [OF p])
qed

lemma days_before_year_mono: "y \<le> z \<Longrightarrow> days_before_year y \<le> days_before_year z"
proof (induction rule: int_ge_induct)
  case (step i)
  then show ?case by (simp add: days_before_year_Suc)
qed simp

lemma days_before_year_less: "y < z \<Longrightarrow> days_before_year (y + 1) \<le> days_before_year z"
  by (rule days_before_year_mono) simp

lemma year_yday_bound:
  assumes "year_yday d = (y, yd)"
  shows "0 \<le> yd" "yd < (if is_leap y then 366 else 365)"
  using year_yday_days [OF assms] by (auto simp: days_before_year_Suc)

text \<open>The decomposition is unique, so the year algorithm inverts the day count.\<close>

lemma year_yday_unique:
  assumes "0 \<le> yd" "yd < (if is_leap y then 366 else 365)"
  shows "year_yday (days_before_year y + yd) = (y, yd)"
proof -
  obtain y' yd' where e: "year_yday (days_before_year y + yd) = (y', yd')" by force
  note d = year_yday_days [OF e]
  have "\<not> y < y'" "\<not> y' < y"
    using d assms days_before_year_less [of y y'] days_before_year_less [of y' y]
    by (auto simp: days_before_year_Suc split: if_splits)
  then have "y' = y" by simp
  with d e show ?thesis by simp
qed

lemma year_yday_less:
  assumes "c < d" "year_yday c = (y1, k1)" "year_yday d = (y2, k2)"
  shows "y1 < y2 \<or> y1 = y2 \<and> k1 < k2"
  using year_yday_days [OF assms(2)] year_yday_days [OF assms(3)] assms(1)
    days_before_year_less [of y2 y1] by (cases y1 y2 rule: linorder_cases) auto

text \<open>Months: the table lists the first days, so each fact is a check of the twelve months.\<close>

lemma days_before_month_nth [simp]:
  "days_before_month ! 0 = 0" "days_before_month ! Suc 0 = 31" "days_before_month ! Suc (Suc 0) = 59"
  "days_before_month ! Suc (Suc (Suc 0)) = 90" "days_before_month ! 2 = 59"
  "days_before_month ! 3 = 90" "days_before_month ! 4 = 120" "days_before_month ! 5 = 151"
  "days_before_month ! 6 = 181" "days_before_month ! 7 = 212" "days_before_month ! 8 = 243"
  "days_before_month ! 9 = 273" "days_before_month ! 10 = 304" "days_before_month ! 11 = 334"
  "days_before_month ! 12 = 365"
  by (simp_all add: days_before_month_def)

lemma month_day_plain_inv:
  assumes "day < 365" and "month_day_plain day = (m, dm)"
  shows "1 \<le> m" "m \<le> 12" "1 \<le> dm" "days_before_month ! (m - 1) + dm - 1 = day"
    "dm \<le> days_before_month ! m - days_before_month ! (m - 1)"
proof -
  define k r where "k = day div 31" and "r = day mod 31"
  have md: "(m, dm) = (if days_before_month ! (k + 1) \<le> day
      then (k + 2, day - days_before_month ! (k + 1) + 1)
      else (k + 1, day - days_before_month ! k + 1))"
    unfolding assms(2) [symmetric] month_day_plain_def Let_def k_def [symmetric] by (rule refl)
  have day: "day = 31 * k + r" "r < 31" by (simp_all add: k_def r_def)
  with assms(1) have "k < 12" by simp
  then have "k \<in> {0, 1, 2, 3, 4, 5, 6, 7, 8, 9, 10, 11}" by simp arith
  then have "1 \<le> m \<and> m \<le> 12 \<and> 1 \<le> dm \<and> days_before_month ! (m - 1) + dm - 1 = day \<and>
      dm \<le> days_before_month ! m - days_before_month ! (m - 1)"
    using md day assms(1) by (elim insertE emptyE) (simp_all split: if_splits)
  then show "1 \<le> m" "m \<le> 12" "1 \<le> dm" "days_before_month ! (m - 1) + dm - 1 = day"
    "dm \<le> days_before_month ! m - days_before_month ! (m - 1)" by auto
qed

lemma month_day_inv:
  assumes "yd < (if leap then 366 else 365)" and "month_day leap yd = (m, dm)"
  shows "1 \<le> m \<and> m \<le> 12 \<and> 1 \<le> dm \<and> dm \<le> 31 \<and> dm \<le> days_in_month leap m \<and> yday_of leap m dm = yd"
proof -
  have month_cases: "m \<in> {1, 2, 3, 4, 5, 6, 7, 8, 9, 10, 11, 12}" if "1 \<le> m" "m \<le> 12"
    using that by simp arith
  consider (after) "leap" "yd > 59" | (feb29) "leap" "yd = 59" | (plain) "\<not> leap \<or> yd < 59"
    by linarith
  then show ?thesis
  proof cases
    case after
    with assms have p: "yd - 1 < 365" "month_day_plain (yd - 1) = (m, dm)"
      by (simp_all add: month_day_def)
    note inv = month_day_plain_inv [OF p]
    show ?thesis using inv month_cases [OF inv(1,2)] after
      by (elim insertE emptyE)
        (auto simp: yday_of_def days_in_month_def)
  next
    case feb29
    with assms show ?thesis
      by (auto simp: month_day_def yday_of_def days_in_month_def)
  next
    case plain
    with assms have p: "yd < 365" "month_day_plain yd = (m, dm)"
      by (auto simp: month_day_def split: if_splits)
    note inv = month_day_plain_inv [OF p]
    show ?thesis using inv month_cases [OF inv(1,2)] plain
      by (elim insertE emptyE)
        (auto simp: yday_of_def days_in_month_def)
  qed
qed

lemma month_day_less:
  assumes "c < d" "d < (if leap then 366 else 365)"
    and "month_day leap c = (m1, d1)" "month_day leap d = (m2, d2)"
  shows "m1 < m2 \<or> m1 = m2 \<and> d1 < d2"
proof -
  have c: "c < (if leap then 366 else 365)" using assms(1,2) by (rule less_trans)
  note i1 = month_day_inv [OF c assms(3)] and i2 = month_day_inv [OF assms(2,4)]
  have "\<not> m2 < m1"
  proof
    assume lt: "m2 < m1"
    have "m1 \<in> {1, 2, 3, 4, 5, 6, 7, 8, 9, 10, 11, 12}" using i1 by simp arith
    moreover have "m2 \<in> {1, 2, 3, 4, 5, 6, 7, 8, 9, 10, 11, 12}" using i2 by simp arith
    ultimately show False using i1 i2 assms(1) lt
      by (elim insertE emptyE)
        (auto simp: yday_of_def days_in_month_def split: if_splits)
  qed
  moreover have "d1 < d2" if "m1 = m2"
    using i1 i2 assms(1) that by (auto simp: yday_of_def)
  ultimately show ?thesis by linarith
qed

section \<open>Dates\<close>

text \<open>Four-digit years, the range of both layouts.\<close>

definition year_ok :: "int \<Rightarrow> bool" where
  "year_ok day \<longleftrightarrow> 0 \<le> fst (civil_of_day day) \<and> fst (civil_of_day day) \<le> 9999"

lemma civil_of_day_inv:
  assumes "civil_of_day day = (y, m, dm)"
  shows "1 \<le> m" "m \<le> 12" "1 \<le> dm" "dm \<le> 31" "dm \<le> days_in_month (is_leap y) m"
    "day_of_civil y m dm = day"
proof -
  obtain yd where yd: "year_yday (day + 719162) = (y, yd)" and md: "month_day (is_leap y) (nat yd) = (m, dm)"
    using assms by (auto simp: civil_of_day_def split: prod.splits)
  have b: "0 \<le> yd" "nat yd < (if is_leap y then 366 else 365)"
    using year_yday_bound [OF yd] by (auto split: if_splits)
  note inv = month_day_inv [OF b(2) md]
  show "1 \<le> m" "m \<le> 12" "1 \<le> dm" "dm \<le> 31" "dm \<le> days_in_month (is_leap y) m"
    using inv by auto
  show "day_of_civil y m dm = day"
    using inv year_yday_days [OF yd] b by (simp add: day_of_civil_def)
qed

lemma civil_of_day_less:
  assumes "c < d" "civil_of_day c = (y1, m1, d1)" "civil_of_day d = (y2, m2, d2)"
  shows "y1 < y2 \<or> y1 = y2 \<and> (m1 < m2 \<or> m1 = m2 \<and> d1 < d2)"
proof -
  obtain k1 where k1: "year_yday (c + 719162) = (y1, k1)" and md1: "month_day (is_leap y1) (nat k1) = (m1, d1)"
    using assms(2) by (auto simp: civil_of_day_def split: prod.splits)
  obtain k2 where k2: "year_yday (d + 719162) = (y2, k2)" and md2: "month_day (is_leap y2) (nat k2) = (m2, d2)"
    using assms(3) by (auto simp: civil_of_day_def split: prod.splits)
  have "y1 < y2 \<or> y1 = y2 \<and> k1 < k2"
    using year_yday_less [OF _ k1 k2] assms(1) by simp
  moreover have "m1 < m2 \<or> m1 = m2 \<and> d1 < d2" if "y1 = y2" "k1 < k2"
  proof (rule month_day_less)
    show "month_day (is_leap y2) (nat k1) = (m1, d1)" using md1 that(1) by simp
    show "month_day (is_leap y2) (nat k2) = (m2, d2)" by (rule md2)
    show "nat k1 < nat k2" using that(2) year_yday_bound(1) [OF k1] by simp
    show "nat k2 < (if is_leap y2 then 366 else 365)"
      using year_yday_bound [OF k2] by (auto split: if_splits)
  qed
  ultimately show ?thesis by blast
qed

lemma date_only_eq:
  assumes "year_ok day" "civil_of_day day = (y, m, dm)"
  shows "date_only day = pad_dec 4 (nat y) @ ''-'' @ pad_dec 2 m @ ''-'' @ pad_dec 2 dm"
    and "nat y < 10 ^ 4" "m < 10 ^ 2" "dm < 10 ^ 2"
  using assms civil_of_day_inv [OF assms(2)]
  by (auto simp: date_only_def year_ok_def year_str_def zero_pad_def)

lemma length_date_only [simp]: "year_ok day \<Longrightarrow> length (date_only day) = 10"
  by (cases "civil_of_day day") (simp add: date_only_eq(1))

lemma date_only_less_mono:
  assumes "c < d" "year_ok c" "year_ok d"
  shows "date_only c < date_only d"
proof -
  obtain y1 m1 d1 where c1: "civil_of_day c = (y1, m1, d1)" by (cases "civil_of_day c")
  obtain y2 m2 d2 where c2: "civil_of_day d = (y2, m2, d2)" by (cases "civil_of_day d")
  note e1 = date_only_eq [OF assms(2) c1] and e2 = date_only_eq [OF assms(3) c2]
  have "0 \<le> y1" using assms(2) by (simp add: year_ok_def c1)
  then have "nat y1 < nat y2 \<or> y1 = y2 \<and> (m1 < m2 \<or> m1 = m2 \<and> d1 < d2)"
    using civil_of_day_less [OF assms(1) c1 c2] by auto
  then show ?thesis
    unfolding e1(1) e2(1)
    using e1(2-4) e2(2-4)
    by (auto simp: append_less_append less_append_same pad_dec_less simp del: pad_dec.simps)
qed

lemma date_only_less_iff:
  "year_ok c \<Longrightarrow> year_ok d \<Longrightarrow> date_only c < date_only d \<longleftrightarrow> c < d"
  using date_only_less_mono [of c d] date_only_less_mono [of d c]
  by (cases c d rule: linorder_cases) auto

lemma date_only_inj: "year_ok c \<Longrightarrow> year_ok d \<Longrightarrow> date_only c = date_only d \<longleftrightarrow> c = d"
  using date_only_less_mono [of c d] date_only_less_mono [of d c]
  by (cases c d rule: linorder_cases) auto

lemma take_date_date_only:
  assumes "year_ok day"
  shows "take_date (date_only day @ s) = Some (day, s)"
proof -
  obtain y m dm where c: "civil_of_day day = (y, m, dm)" by (cases "civil_of_day day")
  note e = date_only_eq [OF assms c] and i = civil_of_day_inv [OF c]
  have y: "int (nat y) = y" "0 \<le> y" using assms by (simp_all add: year_ok_def c)
  show ?thesis
    unfolding e(1) take_date_def append_assoc
    using i by (simp add: take_num_pad [OF e(2)] take_num_pad [OF e(3)] take_num_pad [OF e(4)] y
        del: pad_dec.simps nat_0_le)
qed

lemma parse_date_only_date [simp]: "year_ok day \<Longrightarrow> parse_date_only (date_only day) = Some day"
  using take_date_date_only [of day "[]"] by (simp add: parse_date_only_def)

section \<open>Times of day and instants\<close>

lemma length_clock_str [simp]: "length (clock_str sod) = 8"
  by (simp add: clock_str_def)

lemma hms_split:
  fixes x :: nat
  shows "x = 3600 * (x div 3600) + 60 * (x div 60 mod 60) + x mod 60"
proof -
  have "x div 3600 = x div 60 div 60" by (simp add: div_mult2_eq [symmetric])
  then show ?thesis
    using mult_div_mod_eq [of 60 "x div 60"] mult_div_mod_eq [of 60 x] by linarith
qed

lemma hms_bounds:
  fixes x :: nat
  assumes "x < 86400"
  shows "x div 3600 < 24" "x div 60 mod 60 < 60" "x mod 60 < 60"
  using assms by (simp_all add: less_mult_imp_div_less)

lemma hms_pad:
  fixes x :: nat
  assumes "x < 86400"
  shows "x div 3600 < 10 ^ 2" "x div 60 mod 60 < 10 ^ 2" "x mod 60 < 10 ^ 2"
  using hms_bounds [OF assms] by simp_all

lemma clock_str_less:
  assumes "a < 86400" "b < 86400" "a < b"
  shows "clock_str a < clock_str b"
proof -
  have "a div 3600 < b div 3600 \<or> a div 3600 = b div 3600 \<and>
      (a div 60 mod 60 < b div 60 mod 60 \<or> a div 60 mod 60 = b div 60 mod 60 \<and> a mod 60 < b mod 60)"
    using hms_split [of a] hms_split [of b] assms(3)
      hms_bounds [OF assms(1)] hms_bounds [OF assms(2)] by linarith
  then show ?thesis
    unfolding clock_str_def
    using hms_pad [OF assms(1)] hms_pad [OF assms(2)]
    by (auto simp: append_less_append less_append_same pad_dec_less simp del: pad_dec.simps)
qed

lemma take_clock_clock:
  assumes "sod < 86400"
  shows "take_clock (clock_str sod @ s) = Some (sod, s)"
  using hms_pad [OF assms] hms_bounds [OF assms] hms_split [of sod]
  by (simp add: take_clock_def clock_str_def take_num_pad del: pad_dec.simps)

lemma frac_str_cases:
  assumes "0 < ns"
  obtains ds where "frac_str ns = CHR ''.'' # ds"
  using assms by (simp add: frac_str_def)

text \<open>The range of instants whose year has four digits.\<close>

definition stamp_ok :: "instant \<Rightarrow> bool" where
  "stamp_ok t \<longleftrightarrow> year_ok (t div second div 86400)"

lemma second_str_less:
  assumes "s < u" "year_ok (s div 86400)" "year_ok (u div 86400)"
  shows "second_str s < second_str u"
proof (cases "s div 86400 = u div 86400")
  case True
  with assms(1) have "s mod 86400 < u mod 86400"
    using mult_div_mod_eq [of 86400 s] mult_div_mod_eq [of 86400 u] by linarith
  then have "clock_str (nat (s mod 86400)) < clock_str (nat (u mod 86400))"
    by (intro clock_str_less) (simp_all add: nat_less_iff)
  with True show ?thesis by (simp add: second_str_def less_append_same)
next
  case False
  with assms(1) have "s div 86400 < u div 86400"
    using zdiv_mono1 [of s u 86400] by simp
  with assms have "date_only (s div 86400) < date_only (u div 86400)"
    by (intro date_only_less_mono)
  with assms(2,3) show ?thesis by (simp add: second_str_def append_less_append)
qed

lemma length_second_str: "year_ok (s div 86400) \<Longrightarrow> length (second_str s) = 19"
  by (simp add: second_str_def)

text \<open>Between different seconds, the text order is the order of time.\<close>

lemma rfc3339_less_seconds:
  assumes "stamp_ok s" "stamp_ok t" "s div second < t div second"
  shows "rfc3339_nano s < rfc3339_nano t"
proof -
  have "second_str (s div second) < second_str (t div second)"
    using assms by (intro second_str_less) (simp_all add: stamp_ok_def)
  moreover have "length (second_str (s div second)) = length (second_str (t div second))"
    using assms by (simp add: length_second_str stamp_ok_def)
  ultimately show ?thesis by (simp add: rfc3339_nano_def append_less_append)
qed

text \<open>Inside a second, the whole second sorts after all its fractions: ''.'' is below ''Z''.\<close>

lemma rfc3339_fraction_below_whole:
  assumes "t mod second \<noteq> 0"
  shows "rfc3339_nano t < rfc3339_nano (t div second * second)"
proof -
  have "0 < nat (t mod second)"
    using assms by (simp add: order_less_le [of 0 "t mod second"])
  then obtain ds where "frac_str (nat (t mod second)) = CHR ''.'' # ds"
    by (rule frac_str_cases)
  then show ?thesis
    by (simp add: rfc3339_nano_def less_append_same frac_str_def less_char_def)
qed

subsection \<open>Reading back\<close>

lemma read_digits_zeros: "read_digits acc (replicate k (CHR ''0'')) = Some (acc * 10 ^ k)"
proof (induction k arbitrary: acc)
  case (Suc k)
  have "digit_val (CHR ''0'') = Some 0" by (simp add: digit_val_def)
  with Suc show ?case by (simp add: mult.commute)
qed simp

lemma is_digit_digit_char [simp]: "d < 10 \<Longrightarrow> is_digit (digit_char d)"
  by (simp add: is_digit_def)

lemma is_digit_pad_dec: "c \<in> set (pad_dec w n) \<Longrightarrow> is_digit c"
  using pad_dec_digit by fastforce

lemma read_digits_all:
  assumes "\<forall>c \<in> set s. is_digit c"
  shows "\<exists>n. read_digits acc s = Some n"
  using assms by (induction s arbitrary: acc) (auto simp: is_digit_def)

lemma trailing_zeros:
  "\<exists>k. s = rev (dropWhile (\<lambda>c. c = CHR ''0'') (rev s)) @ replicate k (CHR ''0'')"
proof -
  let ?z = "\<lambda>c. c = CHR ''0''"
  have "rev s = takeWhile ?z (rev s) @ dropWhile ?z (rev s)" by simp
  then have "s = rev (dropWhile ?z (rev s)) @ rev (takeWhile ?z (rev s))"
    by (metis rev_append rev_rev_ident)
  moreover have "takeWhile ?z (rev s) = replicate (length (takeWhile ?z (rev s))) (CHR ''0'')"
    by (rule replicate_length_same [symmetric]) (auto dest: set_takeWhileD)
  ultimately have "s = rev (dropWhile ?z (rev s)) @
      rev (replicate (length (takeWhile ?z (rev s))) (CHR ''0''))" by simp
  then show ?thesis unfolding rev_replicate by blast
qed

lemma take_frac_frac:
  assumes "ns < 10 ^ 9"
  shows "take_frac (frac_str ns @ ''Z'') = (ns, ''Z'')"
proof (cases "ns = 0")
  case True
  then show ?thesis by (simp add: frac_str_def take_frac_def)
next
  case False
  define q where "q = rev (dropWhile (\<lambda>c. c = CHR ''0'') (rev (pad_dec 9 ns)))"
  obtain k where k: "pad_dec 9 ns = q @ replicate k (CHR ''0'')"
    using trailing_zeros [of "pad_dec 9 ns"] unfolding q_def by blast
  have len: "length q + k = 9"
    using arg_cong [OF k, of length] by (simp del: pad_dec.simps)
  have digits: "\<forall>c \<in> set q. is_digit c"
    using is_digit_pad_dec [of _ 9 ns] unfolding k by auto
  obtain v where v: "read_digits 0 q = Some v" using read_digits_all [OF digits] by blast
  have "Some ns = read_digits 0 (pad_dec 9 ns)" using read_pad_dec [OF assms] by simp
  also have "\<dots> = Some (v * 10 ^ k)" by (simp add: k read_digits_append v read_digits_zeros)
  finally have ns: "ns = v * 10 ^ k" by simp
  have "q \<noteq> []" using False ns v by auto
  then obtain d ds where q: "q = d # ds" by (cases q) auto
  have "\<not> is_digit (CHR ''Z'')" by (simp add: is_digit_def digit_val_def less_eq_char_def)
  with digits have tw: "takeWhile is_digit (d # ds @ ''Z'') = q" "dropWhile is_digit (d # ds @ ''Z'') = ''Z''"
    by (simp_all add: q del: append.simps(1))
  have d: "is_digit d" using digits q by simp
  have "frac_str ns @ ''Z'' = CHR ''.'' # q @ ''Z''"
    using False by (simp add: frac_str_def q_def)
  then have "take_frac (frac_str ns @ ''Z'') =
      (the (read_digits 0 (take 9 q)) * 10 ^ (9 - length (take 9 q)), ''Z'')"
    unfolding take_frac_def by (simp only: q append_Cons list.case Let_def tw [unfolded q] d) simp
  also have "\<dots> = (ns, ''Z'')"
  proof -
    from len have "9 - length q = k" "take 9 q = q" by simp_all
    then show ?thesis by (simp add: v ns)
  qed
  finally show ?thesis .
qed

lemma parse_parts:
  assumes "year_ok day" "sod < 86400" "ns < 10 ^ 9"
  shows "parse_rfc3339 (date_only day @ ''T'' @ clock_str sod @ frac_str ns @ ''Z'') =
    Some ((day * 86400 + int sod) * second + int ns)"
  using take_date_date_only [OF assms(1)] take_clock_clock [OF assms(2)] take_frac_frac [OF assms(3)]
  by (simp add: parse_rfc3339_def take_zone_def)

lemma parse_rfc3339_nano:
  assumes "stamp_ok t"
  shows "parse_rfc3339 (rfc3339_nano t) = Some t"
proof -
  let ?s = "t div second"
  have "parse_rfc3339 (rfc3339_nano t) =
      Some ((?s div 86400 * 86400 + int (nat (?s mod 86400))) * second + int (nat (t mod second)))"
    unfolding rfc3339_nano_def second_str_def append_assoc
    using assms by (intro parse_parts) (simp_all add: nat_less_iff stamp_ok_def)
  also have "?s div 86400 * 86400 + int (nat (?s mod 86400)) = ?s"
    by simp
  also have "?s * second + int (nat (t mod second)) = t"
    by simp
  finally show ?thesis .
qed

lemma rfc3339_nano_inj: "stamp_ok s \<Longrightarrow> stamp_ok t \<Longrightarrow> rfc3339_nano s = rfc3339_nano t \<longleftrightarrow> s = t"
  by (metis option.inject parse_rfc3339_nano)

end
