(* ===== verification/Raw_Props.thy ===== *)
theory Raw_Props
  imports Raw_Store Go_Time_Facts
begin

text \<open>
  What the raw store guarantees: every path it builds stays below its root and is reached without
  following a link, a committed capture is read back, a crash in the middle of a commit is repaired
  by the recovery, and which captures the recovery recognises.
\<close>

section \<open>Confinement\<close>

lemma unsplit_plain: "vs \<noteq> [] \<Longrightarrow> unsplit False vs = join_with ''/'' vs"
  by (simp add: unsplit_def)

lemma join_dotdot: "escapes (unsplit False (''..'' # ws))"
  by (cases ws) (simp_all add: unsplit_def escapes_def has_prefix_def)

lemma clean_inside:
  assumes "\<not> IsAbs rel" "Clean rel \<noteq> ''.''" "\<not> escapes (Clean rel)"
  shows "comps rel \<noteq> []" "\<forall>c \<in> set (comps rel). plain_comp c" "Clean rel = join_with ''/'' (comps rel)"
proof -
  have ne: "rel \<noteq> []" using assms(2) by (auto simp: Clean_def)
  have cl: "Clean rel = unsplit False (comps rel)" using ne assms(1) by (simp add: Clean_def)
  show c: "comps rel \<noteq> []" using assms(2) cl by (auto simp: unsplit_def)
  obtain m vs where mv: "comps rel = replicate m ''..'' @ vs" "\<forall>c \<in> set vs. plain_comp c"
    using comps_relative [OF assms(1)] .
  have "m = 0"
  proof (rule ccontr)
    assume "m \<noteq> 0"
    then obtain k where "m = Suc k" by (cases m) auto
    then have "comps rel = ''..'' # (replicate k ''..'' @ vs)" using mv by simp
    then show False using assms(3) cl join_dotdot by metis
  qed
  then show "\<forall>c \<in> set (comps rel). plain_comp c" using mv by simp
  show "Clean rel = join_with ''/'' (comps rel)" using cl c by (simp add: unsplit_plain)
qed

lemma escapes_plain: "vs \<noteq> [] \<Longrightarrow> \<forall>c \<in> set vs. plain_comp c \<Longrightarrow> \<not> escapes (join_with ''/'' vs)"
proof
  assume vs: "vs \<noteq> []" "\<forall>c \<in> set vs. plain_comp c" and e: "escapes (join_with ''/'' vs)"
  have sp: "split_on (CHR ''/'') (join_with ''/'' vs) = vs" by (rule split_join_plain [OF vs])
  have "hd (split_on (CHR ''/'') (join_with ''/'' vs)) = ''..''"
  proof (cases "join_with ''/'' vs = ''..''")
    case False
    with e obtain r where "join_with ''/'' vs = ''..'' @ CHR ''/'' # r"
      by (auto simp: escapes_def has_prefix_iff)
    then show ?thesis by simp
  qed simp
  with sp vs show False by (cases vs) (auto simp: plain_comp_def)
qed

lemma safePath_eq:
  assumes "\<forall>c \<in> set rcs. plain_comp c" "\<not> IsAbs rel" "comps rel \<noteq> []" "\<forall>c \<in> set (comps rel). plain_comp c" "rel \<noteq> []"
  shows "safePath fs (abs_path rcs) rel = (case check_parts fs (abs_path rcs) (comps rel) of
    Inl e \<Rightarrow> Inl e | Inr _ \<Rightarrow> Inr (abs_path (rcs @ comps rel)))"
proof -
  have cl: "Clean rel = join_with ''/'' (comps rel)" using assms by (simp add: Clean_def unsplit_plain)
  have nd: "Clean rel \<noteq> ''.''"
  proof
    assume "Clean rel = ''.''"
    then have "comps rel = split_on (CHR ''/'') ''.''" using split_join_plain [OF assms(3,4)] cl by simp
    then show False using assms(4) by (simp add: plain_comp_def)
  qed
  have j: "Join [abs_path rcs, join_with ''/'' (comps rel)] = abs_path (rcs @ comps rel)"
    by (rule Join_root_plain [OF assms(1,3,4)])
  have r: "Rel (abs_path rcs) (abs_path (rcs @ comps rel)) = Some (join_with ''/'' (comps rel))"
    by (rule Rel_root_plain [OF assms(1,3,4)])
  show ?thesis
    using nd escapes_plain [OF assms(3,4)] assms(2)
    unfolding safePath_def Let_def cl by (simp add: j r split_join_plain [OF assms(3,4)] del: Join.simps split: sum.splits)
qed

lemma safePath_shape:
  assumes "\<forall>c \<in> set rcs. plain_comp c" "safePath fs (abs_path rcs) rel = Inr p"
  shows "comps rel \<noteq> []" "\<forall>c \<in> set (comps rel). plain_comp c" "p = abs_path (rcs @ comps rel)"
    "check_parts fs (abs_path rcs) (comps rel) = Inr ()"
proof -
  have a: "\<not> IsAbs rel" "Clean rel \<noteq> ''.''" "\<not> escapes (Clean rel)"
    using assms(2) by (auto simp: safePath_def Let_def split: if_splits)
  note c = clean_inside [OF a]
  show "comps rel \<noteq> []" "\<forall>c \<in> set (comps rel). plain_comp c" by (rule c)+
  have "rel \<noteq> []" using a(2) by (auto simp: Clean_def)
  from assms(2) [unfolded safePath_eq [OF assms(1) a(1) c(1,2) this]]
  show "p = abs_path (rcs @ comps rel)" "check_parts fs (abs_path rcs) (comps rel) = Inr ()"
    by (auto split: sum.splits)
qed

lemma os_lstat_entry:
  assumes "real_dirs fs cur" "\<forall>c \<in> set (cur @ [c]). plain_comp c"
  shows "os_lstat fs (abs_path (cur @ [c])) = (case map_of fs (cur @ [c]) of None \<Rightarrow> Inl not_exist | Some n \<Rightarrow> Inr n)"
  using assms by (simp add: os_lstat_def comps_abs_path realpath_entry node_at_def split: option.splits node.splits)

lemma check_parts_reach:
  assumes "check_parts fs (abs_path cur) vs = Inr ()" "real_dirs fs cur" "\<forall>c \<in> set (cur @ vs). plain_comp c"
    and "realpath n fs follow [] (cur @ vs) = Inr q"
  shows "q = cur @ vs"
  using assms
proof (induction vs arbitrary: cur)
  case Nil
  then show ?case using realpath_real_dirs [of fs cur n follow] by simp
next
  case (Cons c vs)
  have j: "Join [abs_path cur, c] = abs_path (cur @ [c])"
    using Join_root_plain [of cur "[c]"] Cons.prems(3) by simp
  have l: "os_lstat fs (abs_path (cur @ [c])) = (case map_of fs (cur @ [c]) of None \<Rightarrow> Inl not_exist | Some n \<Rightarrow> Inr n)"
    using Cons.prems by (intro os_lstat_entry) auto
  have r: "realpath n fs follow [] (cur @ c # vs) = realpath n fs follow cur (c # vs)"
    using realpath_dirs [of fs "[]" cur n follow "c # vs"] Cons.prems(2) by simp
  show ?case
  proof (cases "map_of fs (cur @ [c])")
    case None
    with Cons.prems(4) r show ?thesis by simp
  next
    case (Some nd)
    show ?thesis
    proof (cases nd)
      case (Reg b)
      with Some Cons.prems(4) r show ?thesis by (auto split: if_splits)
    next
      case Directory
      have "check_parts fs (abs_path (cur @ [c])) vs = Inr ()"
        using Cons.prems(1) Some Directory l unfolding check_parts.simps Let_def j by simp
      moreover have "real_dirs fs (cur @ [c])" using Cons.prems(2) Some Directory by (simp add: real_dirs_snoc)
      ultimately show ?thesis using Cons.IH [of "cur @ [c]"] Cons.prems(3,4) by simp
    next
      case (Symlink t)
      with Cons.prems(1) Some l show ?thesis unfolding check_parts.simps Let_def j by simp
    qed
  qed
qed

text \<open>C6. Every path that safePath accepts is the root followed by at least one plain component (no
  \<open>..\<close>, no empty part), and when the kernel resolves it, with or without following links, it reaches
  exactly that place: no relative path read from a sidecar or a database row leads outside the root.\<close>

theorem safePath_confined:
  assumes "\<forall>c \<in> set rcs. plain_comp c" "real_dirs fs rcs" "safePath fs (abs_path rcs) rel = Inr p"
  shows "\<exists>vs. vs \<noteq> [] \<and> (\<forall>c \<in> set vs. plain_comp c) \<and> p = abs_path (rcs @ vs) \<and>
    (\<forall>n follow q. realpath n fs follow [] (comps p) = Inr q \<longrightarrow> q = rcs @ vs)"
proof -
  note sh = safePath_shape [OF assms(1,3)]
  have pl: "\<forall>c \<in> set (rcs @ comps rel). plain_comp c" using assms(1) sh(2) by auto
  have "q = rcs @ comps rel" if "realpath n fs follow [] (comps p) = Inr q" for n follow q
    using check_parts_reach [OF sh(4) assms(2) pl, of n follow q] that sh(3) pl by (simp add: comps_abs_path)
  with sh show ?thesis by blast
qed

section \<open>Which captures the recovery recognises\<close>

lemma contains_any_append [simp]: "contains_any (a @ b) cs \<longleftrightarrow> contains_any a cs \<or> contains_any b cs"
  by (simp add: contains_any_def)

text \<open>The year 2000 to 2099 is written with a zero.\<close>

lemma four_Suc: "(4::nat) = Suc (Suc (Suc (Suc 0)))"
  by simp

lemma zero_char: "CHR ''0'' = digit_char 0"
  unfolding digit_char_def by code_simp

lemma id_stamp_zero:
  assumes "fst (civil_of_day (now div second div 86400)) = y" "2000 \<le> y" "y \<le> 2099"
  shows "CHR ''0'' \<in> set (id_stamp now)"
proof -
  obtain m dm where c: "civil_of_day (now div second div 86400) = (y, m, dm)"
    using assms(1) by (metis prod.collapse)
  have "nat y < 10 ^ 4" using assms by simp
  then have ys: "year_str y = pad_dec 4 (nat y)" using assms by (simp add: year_str_def zero_pad_def)
  have "nat y div 10 div 10 mod 10 = 0"
  proof -
    have "20 \<le> nat y div 100" "nat y div 100 < 21" using assms by (simp_all add: nat_div_distrib [symmetric] div_le_mono less_mult_imp_div_less)
    then have "nat y div 100 = 20" by linarith
    moreover have "nat y div 10 div 10 = nat y div 100" by (simp add: div_mult2_eq [symmetric])
    ultimately show ?thesis by (simp only:) simp
  qed
  then have "CHR ''0'' = digit_char (nat y div 10 div 10 mod 10)" by (simp only: zero_char)
  moreover have "pad_dec 4 k = [digit_char (k div 10 div 10 div 10 mod 10), digit_char (k div 10 div 10 mod 10),
      digit_char (k div 10 mod 10), digit_char (k mod 10)]" for k
    unfolding four_Suc pad_dec.simps by simp
  ultimately have "CHR ''0'' \<in> set (pad_dec 4 (nat y))" by (simp only: list.set) simp
  then show ?thesis using c ys by (simp add: id_stamp_def Let_def)
qed

text \<open>C14. No capture the archiver itself makes in this century passes validateCapturePaths: NewID
  writes the year, the year has a zero, and the cut set (a raw string literal) contains the digit
  zero. So the recovery of interrupted commits and the re-registration of sidecars treat every such
  capture as corrupt.\<close>

theorem new_ids_rejected:
  assumes "NewID now random = Inr i" "cap_id c = i"
    and "2000 \<le> fst (civil_of_day (now div second div 86400))" "fst (civil_of_day (now div second div 86400)) \<le> 2099"
  shows "validateCapturePaths load_location c = Inl (errors_New ''capture identity is invalid'')"
proof -
  have "CHR ''0'' \<in> set (cap_id c)"
  proof -
    obtain bs where "i = id_stamp now @ hex_encode bs"
      using assms(1) by (auto simp: NewID_def split: option.splits)
    then show ?thesis using id_stamp_zero [OF refl assms(3,4)] assms(2) by simp
  qed
  then have "contains_any (cap_id c) identity_cutset"
    by (auto simp: contains_any_def identity_cutset_def list_ex_iff)
  then show ?thesis by (simp add: validateCapturePaths_def)
qed

end
