(* ===== verification/Raw_Recovery.thy ===== *)
theory Raw_Recovery
  imports Raw_Props
begin

text \<open>
  A crash in the middle of Commit, that is after some of its writes, and what finishInterruptedCommits
  makes of it. The lemmas on single writes say what each does to a file whose directories are real.
\<close>

section \<open>Writes on files in real directories\<close>

definition dirs_kept :: "fs \<Rightarrow> fs \<Rightarrow> bool" where
  "dirs_kept fs fs' \<longleftrightarrow> (\<forall>q. map_of fs q = Some Directory \<longrightarrow> map_of fs' q = Some Directory)"

lemma real_dirs_kept: "dirs_kept fs fs' \<Longrightarrow> real_dirs fs d \<Longrightarrow> real_dirs fs' d"
  by (simp add: dirs_kept_def real_dirs_def)

lemma dirs_kept_put: "map_of fs p \<noteq> Some Directory \<Longrightarrow> dirs_kept fs (fs_put p n fs)"
  by (auto simp: dirs_kept_def)

lemma dirs_kept_del: "map_of fs p \<noteq> Some Directory \<Longrightarrow> dirs_kept fs (fs_del p fs)"
  by (auto simp: dirs_kept_def)

lemma dirs_kept_trans: "dirs_kept a b \<Longrightarrow> dirs_kept b c \<Longrightarrow> dirs_kept a c"
  by (simp add: dirs_kept_def)

lemma realpath_file:
  "real_dirs fs d \<Longrightarrow> map_of fs (d @ [x]) = Some (Reg b) \<Longrightarrow> realpath n fs follow [] (d @ [x]) = Inr (d @ [x])"
  by (simp add: realpath_entry)

lemma realpath_absent:
  "real_dirs fs d \<Longrightarrow> map_of fs (d @ [x]) = None \<Longrightarrow> realpath n fs follow [] (d @ [x]) = Inl not_exist"
  by (simp add: realpath_entry)

lemma rename_file:
  assumes "comps old = d @ [x]" "comps new = e @ [y]" "real_dirs fs d" "real_dirs fs e" "map_of fs [] = None"
    and "map_of fs (d @ [x]) = Some (Reg b)" "map_of fs (e @ [y]) = None"
  shows "os_rename old new fs = Inr (fs_put (e @ [y]) (Reg b) (fs_del (d @ [x]) fs))"
  using assms entry_place_real [OF assms(2,4,5)]
  by (auto simp: os_rename_def realpath_file node_at_def)

lemma create_file:
  assumes "comps p = d @ [x]" "real_dirs fs d" "map_of fs [] = None" "map_of fs (d @ [x]) = None"
  shows "os_create_excl p fs = Inr (fs_put (d @ [x]) (Reg []) fs)"
  using assms entry_place_real [OF assms(1-3)] by (simp add: os_create_excl_def)

lemma write_file:
  assumes "comps p = d @ [x]" "real_dirs fs d" "map_of fs (d @ [x]) = Some (Reg a)"
  shows "os_write p b fs = Inr (fs_put (d @ [x]) (Reg b) fs)"
  using assms by (simp add: os_write_def realpath_file node_at_def)

lemma read_file:
  "comps p = d @ [x] \<Longrightarrow> real_dirs fs d \<Longrightarrow> map_of fs (d @ [x]) = Some (Reg b) \<Longrightarrow> os_readfile fs p = Inr b"
  by (simp add: os_readfile_def os_stat_def realpath_file node_at_def)

lemma lstat_file:
  "comps p = d @ [x] \<Longrightarrow> real_dirs fs d \<Longrightarrow> map_of fs (d @ [x]) = Some (Reg b) \<Longrightarrow>
    os_lstat fs p = Inr (Reg b) \<and> os_stat fs p = Inr (Reg b)"
  by (simp add: os_lstat_def os_stat_def realpath_file node_at_def)

lemma lstat_absent:
  "comps p = d @ [x] \<Longrightarrow> real_dirs fs d \<Longrightarrow> map_of fs (d @ [x]) = None \<Longrightarrow>
    os_lstat fs p = Inl not_exist \<and> os_stat fs p = Inl not_exist"
  by (simp add: os_lstat_def os_stat_def realpath_absent)

lemma real_dirs_append:
  assumes "real_dirs fs (a @ b)" shows "real_dirs fs a"
  unfolding real_dirs_def
proof
  fix k assume k: "k \<in> {1..length a}"
  then have "k \<in> {1..length (a @ b)}" by simp
  with assms have "map_of fs (take k (a @ b)) = Some Directory" unfolding real_dirs_def by blast
  with k show "map_of fs (take k a) = Some Directory" by simp
qed

lemma mkdirs_real: "real_dirs fs (cur @ cs) \<Longrightarrow> real_dirs fs cur \<Longrightarrow> mkdirs cur cs fs = Inr fs"
proof (induction cs arbitrary: cur)
  case (Cons c cs)
  have d: "real_dirs fs (cur @ [c])" using real_dirs_append [of fs "cur @ [c]" cs] Cons.prems(1) by simp
  then have n: "map_of fs (cur @ [c]) = Some Directory" by (simp add: real_dirs_snoc)
  show ?case using Cons.IH [of "cur @ [c]"] Cons.prems d n
    by (simp add: realpath_real_dirs node_at_def)
qed simp

lemma mkdirall_real: "comps p = cs \<Longrightarrow> real_dirs fs cs \<Longrightarrow> os_mkdirall p fs = Inr fs"
  using mkdirs_real [of fs "[]" cs] by (simp add: os_mkdirall_def)

section \<open>Paths of a capture\<close>

lemma join_with_snoc: "cs \<noteq> [] \<Longrightarrow> join_with sep (cs @ [x]) = join_with sep cs @ sep @ x"
proof (induction cs rule: induct_list012)
  case (2 w)
  then show ?case by simp
next
  case (3 w v cs)
  then show ?case by simp
qed simp

lemma Join_plain: "cs \<noteq> [] \<Longrightarrow> \<forall>c \<in> set cs. plain_comp c \<Longrightarrow> Join cs = join_with ''/'' cs"
  using Clean_join_plain [of cs] by (cases cs) (auto simp: plain_comp_def)

lemma Join_below:
  assumes "cs \<noteq> []" "\<forall>c \<in> set cs. plain_comp c" "plain_comp x"
  shows "Join [join_with ''/'' cs, x] = join_with ''/'' (cs @ [x])"
proof -
  have "join_with ''/'' [join_with ''/'' cs, x] = join_with ''/'' (cs @ [x])" using assms(1) by (simp add: join_with_snoc)
  moreover have "join_with ''/'' cs \<noteq> []" by (rule join_plain_ne [OF assms(1,2)])
  ultimately show ?thesis using Clean_join_plain [of "cs @ [x]"] assms by simp
qed

lemma Dir_abs_path_eq:
  assumes "\<forall>c \<in> set (cs @ [x]). plain_comp c" "cs \<noteq> []"
  shows "Dir (abs_path (cs @ [x])) = abs_path cs"
proof -
  have sp: "split_on (CHR ''/'') (abs_path (cs @ [x])) = [] # cs @ [x]"
    using assms split_join_plain [of "cs @ [x]"] by (simp add: abs_path_def)
  have c: "concat (map (\<lambda>w. w @ ''/'') cs) = join_with ''/'' cs @ ''/''" if "cs \<noteq> []" for cs :: "string list"
    using that by (induction cs rule: induct_list012) auto
  have p: "concat (map (\<lambda>w. w @ ''/'') ([] # cs)) = abs_path cs @ ''/'' @ []"
    using c [OF assms(2)] by (simp add: abs_path_def)
  have "comps (abs_path cs @ ''/'' @ []) = cs" using comps_append_slash [of cs "[]"] assms(1) by simp
  moreover have "IsAbs (abs_path cs @ ''/'' @ [])" by (simp add: IsAbs_def abs_path_def has_prefix_def)
  ultimately have "Clean (abs_path cs @ ''/'' @ []) = abs_path cs"
    by (simp add: Clean_def unsplit_def) (simp add: abs_path_def)
  then show ?thesis
    using p unfolding Dir_def sp Let_def by (simp add: butlast_append)
qed

lemma Dir_abs_path:
  assumes "\<forall>c \<in> set (cs @ [x]). plain_comp c" "cs \<noteq> []"
  shows "comps (Dir (abs_path (cs @ [x]))) = cs"
  using assms by (simp add: Dir_abs_path_eq comps_abs_path)

lemma plain_with_tail:
  assumes "CHR ''/'' \<notin> set a" "CHR ''/'' \<notin> set suf" "3 \<le> length suf" shows "plain_comp (a @ suf)" "plain_comp (suf @ a)"
  using assms by (auto simp: plain_comp_def append_eq_Cons_conv)


lemma slash_digit: "d < 10 \<Longrightarrow> CHR ''/'' \<noteq> digit_char d"
proof
  assume d: "d < 10" and e: "CHR ''/'' = digit_char d"
  have "of_char (CHR ''/'') = (48 + d :: nat)" using of_char_digit [OF d] e by simp
  then show False by simp
qed

lemma slash_pad_dec: "CHR ''/'' \<notin> set (pad_dec w n)"
  using pad_dec_digit slash_digit by metis

lemma slash_nat_str: "CHR ''/'' \<notin> set (nat_str n)"
  using nat_str_digit slash_digit by metis

lemma slash_date_only: "CHR ''/'' \<notin> set (date_only d)"
proof -
  obtain y m dm where "civil_of_day d = (y, m, dm)" by (metis prod.collapse)
  then show ?thesis using slash_pad_dec slash_nat_str by (simp add: date_only_def year_str_def zero_pad_def)
qed

lemma slash_hex: "is_hex s \<Longrightarrow> CHR ''/'' \<notin> set s"
  by (auto simp: is_hex_def list_all_iff less_eq_char_def)

section \<open>The files of a commit\<close>

text \<open>The places of a capture's files: the directory of the capture below the root, the two final
  names, and the two names in the staging directory.\<close>

definition dir_comps :: "capture \<Rightarrow> string \<Rightarrow> string list" where
  "dir_comps c hr = [''raw'', ''source='' @ cap_source c, ''stream='' @ cap_stream c, ''date='' @ cap_archive_date c, ''hour='' @ hr]"

definition raw_name :: "capture \<Rightarrow> string" where
  "raw_name c = capture_base (cap_id c) (cap_sha256 c) @ ''.pb''"

definition sidecar_name :: "capture \<Rightarrow> string" where
  "sidecar_name c = capture_base (cap_id c) (cap_sha256 c) @ ''.json''"

lemma valid_capture:
  assumes "validateCapturePaths ll c = Inr ()"
  shows "\<exists>loc. ll (cap_timezone c) = Inr loc \<and>
      (\<forall>x \<in> set (dir_comps c (local_hour loc (cap_scheduled c))). plain_comp x) \<and>
      cap_raw_path c = join_with ''/'' (dir_comps c (local_hour loc (cap_scheduled c)) @ [raw_name c]) \<and>
      cap_sidecar_path c = join_with ''/'' (dir_comps c (local_hour loc (cap_scheduled c)) @ [sidecar_name c])"
    "plain_comp (raw_name c)" "plain_comp (sidecar_name c)" "plain_comp (cap_id c @ ''.pb.tmp'')"
    "plain_comp (cap_id c @ ''.json.tmp'')" "raw_name c \<noteq> sidecar_name c"
proof -
  note v = assms [unfolded validateCapturePaths_def]
  have nc: "\<not> contains_any (cap_id c @ cap_source c @ cap_stream c) identity_cutset" and hx: "is_hex (cap_sha256 c)"
    using v by (auto split: if_splits)
  have ns: "CHR ''/'' \<notin> set (cap_id c)" "CHR ''/'' \<notin> set (cap_source c)" "CHR ''/'' \<notin> set (cap_stream c)"
    using nc by (auto simp: contains_any_def identity_cutset_def list_ex_iff)
  have nb: "CHR ''/'' \<notin> set (capture_base (cap_id c) (cap_sha256 c))"
    using ns slash_hex [OF hx] set_take_subset [of 12 "cap_sha256 c"] by (auto simp: capture_base_def)
  show "plain_comp (cap_id c @ ''.pb.tmp'')" "plain_comp (cap_id c @ ''.json.tmp'')"
    using ns by (auto intro: plain_with_tail)
  show pr: "plain_comp (raw_name c)" and ps: "plain_comp (sidecar_name c)"
    using nb by (auto simp: raw_name_def sidecar_name_def intro: plain_with_tail)
  show "raw_name c \<noteq> sidecar_name c" by (simp add: raw_name_def sidecar_name_def)
  obtain loc where loc: "ll (cap_timezone c) = Inr loc"
    using v by (cases "ll (cap_timezone c)") (auto split: if_splits)
  let ?hr = "local_hour loc (cap_scheduled c)"
  have date: "local_date loc (cap_scheduled c) = cap_archive_date c"
    and paths: "cap_raw_path c = Join [capture_dir (cap_source c) (cap_stream c) (cap_archive_date c) ?hr, raw_name c]"
      "cap_sidecar_path c = Join [capture_dir (cap_source c) (cap_stream c) (cap_archive_date c) ?hr, sidecar_name c]"
    using v loc by (auto simp: Let_def raw_name_def sidecar_name_def split: if_splits)
  have nd: "CHR ''/'' \<notin> set (cap_archive_date c)" unfolding date [symmetric] local_date_def by (rule slash_date_only)
  have nh: "CHR ''/'' \<notin> set ?hr" unfolding local_hour_def by (rule slash_pad_dec)
  have pl: "\<forall>x \<in> set (dir_comps c ?hr). plain_comp x"
    using ns nd nh plain_with_tail(2) by (simp add: dir_comps_def) (simp add: plain_comp_def)
  have dir: "capture_dir (cap_source c) (cap_stream c) (cap_archive_date c) ?hr = join_with ''/'' (dir_comps c ?hr)"
    unfolding capture_dir_def dir_comps_def [symmetric] by (rule Join_plain [OF _ pl]) (simp add: dir_comps_def)
  have ne: "dir_comps c ?hr \<noteq> []" by (simp add: dir_comps_def)
  show "\<exists>loc. ll (cap_timezone c) = Inr loc \<and>
      (\<forall>x \<in> set (dir_comps c (local_hour loc (cap_scheduled c))). plain_comp x) \<and>
      cap_raw_path c = join_with ''/'' (dir_comps c (local_hour loc (cap_scheduled c)) @ [raw_name c]) \<and>
      cap_sidecar_path c = join_with ''/'' (dir_comps c (local_hour loc (cap_scheduled c)) @ [sidecar_name c])"
    using loc pl Join_below [OF ne pl pr] Join_below [OF ne pl ps] unfolding paths dir by blast
qed

text \<open>The shape of a store whose root and staging directory are real.\<close>

definition store_at :: "raw_store \<Rightarrow> string list \<Rightarrow> fs \<Rightarrow> bool" where
  "store_at s rcs fs \<longleftrightarrow> rs_root s = abs_path rcs \<and> rs_staging s = abs_path (rcs @ [''staging'']) \<and>
     (\<forall>c \<in> set rcs. plain_comp c) \<and> real_dirs fs (rcs @ [''staging'']) \<and> map_of fs [] = None"

lemma staging_path:
  assumes "store_at s rcs fs" "plain_comp x"
  shows "Join [rs_staging s, x] = abs_path (rcs @ [''staging'', x])" "comps (Join [rs_staging s, x]) = (rcs @ [''staging'']) @ [x]"
proof -
  have pl: "\<forall>c \<in> set (rcs @ [''staging'']). plain_comp c" using assms(1) by (auto simp: store_at_def plain_comp_def)
  have j: "Join [rs_staging s, x] = abs_path ((rcs @ [''staging'']) @ [x])"
    using Join_root_plain [OF pl, of "[x]"] assms by (simp add: store_at_def)
  then show "Join [rs_staging s, x] = abs_path (rcs @ [''staging'', x])" by simp
  show "comps (Join [rs_staging s, x]) = (rcs @ [''staging'']) @ [x]"
    unfolding j by (rule comps_abs_path) (use pl assms(2) in auto)
qed

lemma check_parts_real:
  assumes "real_dirs fs (cur @ vs)" "real_dirs fs cur" "\<forall>c \<in> set (cur @ vs @ [x]). plain_comp c"
    and "case map_of fs (cur @ vs @ [x]) of Some (Symlink t) \<Rightarrow> False | _ \<Rightarrow> True"
  shows "check_parts fs (abs_path cur) (vs @ [x]) = Inr ()"
  using assms
proof (induction vs arbitrary: cur)
  case Nil
  have j: "Join [abs_path cur, x] = abs_path (cur @ [x])" using Join_root_plain [of cur "[x]"] Nil by simp
  have l: "os_lstat fs (abs_path (cur @ [x])) = (case map_of fs (cur @ [x]) of None \<Rightarrow> Inl not_exist | Some n \<Rightarrow> Inr n)"
    using Nil by (intro os_lstat_entry) auto
  show ?case using Nil(4) unfolding append_Nil check_parts.simps Let_def j l
    by (auto simp: not_exist_def errors_Is_def split: option.splits node.splits)
next
  case (Cons c vs)
  have d: "real_dirs fs (cur @ [c])" using real_dirs_append [of fs "cur @ [c]" vs] Cons.prems(1) by simp
  then have n: "map_of fs (cur @ [c]) = Some Directory" by (simp add: real_dirs_snoc)
  have j: "Join [abs_path cur, c] = abs_path (cur @ [c])" using Join_root_plain [of cur "[c]"] Cons.prems(3) by simp
  have l: "os_lstat fs (abs_path (cur @ [c])) = Inr Directory"
    using os_lstat_entry [of fs cur c] Cons.prems n by simp
  have "check_parts fs (abs_path (cur @ [c])) (vs @ [x]) = Inr ()"
    by (rule Cons.IH) (use Cons.prems d in auto)
  then show ?case unfolding append_Cons check_parts.simps Let_def j l by simp
qed

lemma safePath_real:
  assumes "store_at s rcs fs" "real_dirs fs (rcs @ ds)" "\<forall>c \<in> set (ds @ [x]). plain_comp c"
    and "case map_of fs (rcs @ ds @ [x]) of Some (Symlink t) \<Rightarrow> False | _ \<Rightarrow> True"
  shows "safePath fs (rs_root s) (join_with ''/'' (ds @ [x])) = Inr (abs_path (rcs @ ds @ [x]))"
proof -
  have pr: "\<forall>c \<in> set rcs. plain_comp c" using assms(1) by (simp add: store_at_def)
  have c: "comps (join_with ''/'' (ds @ [x])) = ds @ [x]" by (rule comps_join_plain [OF assms(3)])
  have ck: "check_parts fs (abs_path rcs) (ds @ [x]) = Inr ()"
    by (rule check_parts_real [OF assms(2) real_dirs_append [OF assms(2)]]) (use pr assms(3,4) in auto)
  have "safePath fs (abs_path rcs) (join_with ''/'' (ds @ [x])) = Inr (abs_path (rcs @ comps (join_with ''/'' (ds @ [x]))))"
    using safePath_eq [OF pr IsAbs_join_plain [OF assms(3)], of fs] c ck assms(3) join_plain_ne [of "ds @ [x]"] by simp
  then show ?thesis using assms(1) c by (simp add: store_at_def)
qed


section \<open>Recovery of one interrupted commit\<close>

text \<open>The writes of a commit in components: \<open>sg\<close> is the name of the staged body.\<close>

definition at_raw :: "string list \<Rightarrow> capture \<Rightarrow> string \<Rightarrow> string list" where
  "at_raw rcs c hr = (rcs @ dir_comps c hr) @ [raw_name c]"

definition at_sidecar :: "string list \<Rightarrow> capture \<Rightarrow> string \<Rightarrow> string list" where
  "at_sidecar rcs c hr = (rcs @ dir_comps c hr) @ [sidecar_name c]"

definition at_raw_tmp :: "string list \<Rightarrow> capture \<Rightarrow> string list" where
  "at_raw_tmp rcs c = (rcs @ [''staging'']) @ [cap_id c @ ''.pb.tmp'']"

definition at_sidecar_tmp :: "string list \<Rightarrow> capture \<Rightarrow> string list" where
  "at_sidecar_tmp rcs c = (rcs @ [''staging'']) @ [cap_id c @ ''.json.tmp'']"

lemmas at_defs = at_raw_def at_sidecar_def at_raw_tmp_def at_sidecar_tmp_def

lemma at_distinct:
  "at_raw rcs c hr \<noteq> at_sidecar rcs c hr" "at_raw rcs c hr \<noteq> at_raw_tmp rcs c" "at_raw rcs c hr \<noteq> at_sidecar_tmp rcs c"
  "at_sidecar rcs c hr \<noteq> at_raw_tmp rcs c" "at_sidecar rcs c hr \<noteq> at_sidecar_tmp rcs c" "at_raw_tmp rcs c \<noteq> at_sidecar_tmp rcs c"
  by (auto simp: at_defs raw_name_def sidecar_name_def dir_comps_def)

text \<open>A state in which the pair can be completed: the sidecar is staged in full, the final sidecar is
  absent, and the payload is either still staged or already in place.\<close>

definition recoverable :: "raw_store \<Rightarrow> string list \<Rightarrow> capture \<Rightarrow> string \<Rightarrow> bytes \<Rightarrow> bytes \<Rightarrow> fs \<Rightarrow> bool" where
  "recoverable s rcs c hr body js fs \<longleftrightarrow> store_at s rcs fs \<and> real_dirs fs (rcs @ dir_comps c hr) \<and>
     map_of fs (at_sidecar_tmp rcs c) = Some (Reg js) \<and> map_of fs (at_sidecar rcs c hr) = None \<and>
     (map_of fs (at_raw rcs c hr) = Some (Reg body) \<or>
      map_of fs (at_raw rcs c hr) = None \<and> map_of fs (at_raw_tmp rcs c) = Some (Reg body))"

definition pair_in_place :: "string list \<Rightarrow> capture \<Rightarrow> string \<Rightarrow> bytes \<Rightarrow> bytes \<Rightarrow> fs \<Rightarrow> bool" where
  "pair_in_place rcs c hr body js fs \<longleftrightarrow> map_of fs (at_raw rcs c hr) = Some (Reg body) \<and>
     map_of fs (at_sidecar rcs c hr) = Some (Reg js) \<and> map_of fs (at_sidecar_tmp rcs c) = None"

lemma finish_recoverable:
  assumes rec: "recoverable s rcs c hr body js fs" and valid: "validateCapturePaths ll c = Inr ()"
    and loc: "ll (cap_timezone c) = Inr loc" "hr = local_hour loc (cap_scheduled c)"
    and codec: "decode js = Some c" and hash: "sha body = cap_sha256 c"
  shows "\<exists>fs'. finish_entry sha decode ll s (cap_id c @ ''.json.tmp'', Reg js) fs = Passed fs' \<and> pair_in_place rcs c hr body js fs'"
proof -
  have st: "store_at s rcs fs" and dirs: "real_dirs fs (rcs @ dir_comps c hr)" and nil: "map_of fs [] = None"
    and sdirs: "real_dirs fs (rcs @ [''staging''])"
    using rec by (simp_all add: recoverable_def store_at_def)
  note v = valid_capture [OF valid]
  have pl: "\<forall>x \<in> set (dir_comps c hr). plain_comp x"
    and paths: "cap_raw_path c = join_with ''/'' (dir_comps c hr @ [raw_name c])"
      "cap_sidecar_path c = join_with ''/'' (dir_comps c hr @ [sidecar_name c])"
    using v(1) loc by auto
  have pr: "\<forall>x \<in> set rcs. plain_comp x" using st by (simp add: store_at_def)
  let ?raw = "abs_path (rcs @ dir_comps c hr @ [raw_name c])" and ?sc = "abs_path (rcs @ dir_comps c hr @ [sidecar_name c])"
  have cr: "comps ?raw = (rcs @ dir_comps c hr) @ [raw_name c]" and cs: "comps ?sc = (rcs @ dir_comps c hr) @ [sidecar_name c]"
    using comps_abs_path [of "rcs @ dir_comps c hr @ [raw_name c]"] comps_abs_path [of "rcs @ dir_comps c hr @ [sidecar_name c]"] pr pl v(2,3) by auto
  let ?st = "Join [rs_staging s, cap_id c @ ''.json.tmp'']" and ?rt = "Join [rs_staging s, cap_id c @ ''.pb.tmp'']"
  note ct = staging_path(2) [OF st v(5)] and crt = staging_path(2) [OF st v(4)]
  have m: "map_of fs ((rcs @ [''staging'']) @ [cap_id c @ ''.json.tmp'']) = Some (Reg js)"
    "map_of fs ((rcs @ dir_comps c hr) @ [sidecar_name c]) = None"
    using rec by (simp_all add: recoverable_def at_defs)
  have rd: "os_readfile fs ?st = Inr js" by (rule read_file [OF ct sdirs m(1)])
  have sp1: "safePath fs (rs_root s) (cap_raw_path c) = Inr ?raw"
    unfolding paths using rec by (intro safePath_real [OF st dirs]) (use pl v(2) in \<open>auto simp: recoverable_def at_defs\<close>)
  have sp2: "safePath fs (rs_root s) (cap_sidecar_path c) = Inr ?sc"
    unfolding paths using m(2) by (intro safePath_real [OF st dirs]) (use pl v(3) in auto)
  have ls: "os_lstat fs ?sc = Inl not_exist" using lstat_absent [OF cs dirs m(2)] by simp
  have mk: "os_mkdirall (Dir ?raw) fs = Inr fs"
    using Dir_abs_path [of "rcs @ dir_comps c hr" "raw_name c"] pr pl v(2) dirs
    by (intro mkdirall_real) (auto simp: dir_comps_def)
  have sfx: "has_suffix (cap_id c @ ''.json.tmp'') ''.json.tmp''" by (simp add: has_suffix_iff)
  have go: "finish_entry sha decode ll s (cap_id c @ ''.json.tmp'', Reg js) fs =
      (let rawSource = (case os_stat fs ?raw of Inl e \<Rightarrow> if errors_Is e ErrNotExist then ?rt else ?raw | Inr _ \<Rightarrow> ?raw)
       in if hashFile sha fs rawSource = Inr (cap_sha256 c) then place_pair rawSource ?raw ?st ?sc fs else Corrupt fs)"
    unfolding finish_entry_def Let_def using rd codec valid sp1 sp2 ls sfx by (simp del: Join.simps)
  show ?thesis
  proof (cases "map_of fs (at_raw rcs c hr) = Some (Reg body)")
    case True
    then have mr: "map_of fs ((rcs @ dir_comps c hr) @ [raw_name c]) = Some (Reg body)" by (simp add: at_defs)
    have h: "hashFile sha fs ?raw = Inr (cap_sha256 c)" using read_file [OF cr dirs mr] hash by (simp add: hashFile_def)
    have rn: "os_rename ?st ?sc fs = Inr (fs_put (at_sidecar rcs c hr) (Reg js) (fs_del (at_sidecar_tmp rcs c) fs))"
      unfolding at_defs by (rule rename_file [OF ct cs sdirs dirs nil m])
    have "finish_entry sha decode ll s (cap_id c @ ''.json.tmp'', Reg js) fs =
        Passed (fs_put (at_sidecar rcs c hr) (Reg js) (fs_del (at_sidecar_tmp rcs c) fs))"
      unfolding go Let_def using lstat_file [OF cr dirs mr] h rn mk by (simp add: place_pair_def del: Join.simps)
    moreover have "pair_in_place rcs c hr body js (fs_put (at_sidecar rcs c hr) (Reg js) (fs_del (at_sidecar_tmp rcs c) fs))"
      using True at_distinct(1-5) [of rcs c hr] at_distinct(6) [of rcs c] by (auto simp: pair_in_place_def)
    ultimately show ?thesis by blast
  next
    case False
    then have mr: "map_of fs ((rcs @ dir_comps c hr) @ [raw_name c]) = None"
      and mt: "map_of fs ((rcs @ [''staging'']) @ [cap_id c @ ''.pb.tmp'']) = Some (Reg body)"
      using rec by (simp_all add: recoverable_def at_defs)
    have os: "os_stat fs ?raw = Inl not_exist" using lstat_absent [OF cr dirs mr] by simp
    have h: "hashFile sha fs ?rt = Inr (cap_sha256 c)" using read_file [OF crt sdirs mt] hash by (simp add: hashFile_def del: Join.simps)
    have ne: "?rt \<noteq> ?raw"
    proof
      assume "?rt = ?raw"
      then have "(rcs @ [''staging'']) @ [cap_id c @ ''.pb.tmp''] = (rcs @ dir_comps c hr) @ [raw_name c]" using crt cr by simp
      then show False by (simp add: dir_comps_def)
    qed
    define fs1 where "fs1 = fs_put (at_raw rcs c hr) (Reg body) (fs_del (at_raw_tmp rcs c) fs)"
    have rn1: "os_rename ?rt ?raw fs = Inr fs1"
      unfolding fs1_def at_defs by (rule rename_file [OF crt cr sdirs dirs nil mt mr])
    have k: "dirs_kept fs fs1"
      using mt mr dirs_kept_trans [OF dirs_kept_del dirs_kept_put] unfolding fs1_def at_defs by (auto simp: dirs_kept_def)
    have m1: "map_of fs1 ((rcs @ [''staging'']) @ [cap_id c @ ''.json.tmp'']) = Some (Reg js)"
      "map_of fs1 ((rcs @ dir_comps c hr) @ [sidecar_name c]) = None" "map_of fs1 [] = None"
      using m nil at_distinct(1-5) [of rcs c hr] at_distinct(6) [of rcs c] by (auto simp: fs1_def at_defs)
    have rn2: "os_rename ?st ?sc fs1 = Inr (fs_put (at_sidecar rcs c hr) (Reg js) (fs_del (at_sidecar_tmp rcs c) fs1))"
      unfolding at_defs by (rule rename_file [OF ct cs real_dirs_kept [OF k sdirs] real_dirs_kept [OF k dirs] m1(3,1,2)])
    have "finish_entry sha decode ll s (cap_id c @ ''.json.tmp'', Reg js) fs =
        Passed (fs_put (at_sidecar rcs c hr) (Reg js) (fs_del (at_sidecar_tmp rcs c) fs1))"
      unfolding go Let_def using os h rn1 rn2 mk ne
      by (simp add: place_pair_def not_exist_def errors_Is_def del: Join.simps)
    moreover have "pair_in_place rcs c hr body js (fs_put (at_sidecar rcs c hr) (Reg js) (fs_del (at_sidecar_tmp rcs c) fs1))"
      using at_distinct(1-5) [of rcs c hr] at_distinct(6) [of rcs c] by (auto simp: pair_in_place_def fs1_def)
    ultimately show ?thesis by blast
  qed
qed


section \<open>A crash during Commit\<close>

text \<open>The circumstances of a commit after its directory was made: the store and the capture's directory
  are real directories, the staged body is there, and no earlier attempt left files of this capture.\<close>

definition commit_setting :: "raw_store \<Rightarrow> string list \<Rightarrow> staged \<Rightarrow> string \<Rightarrow> capture \<Rightarrow> string \<Rightarrow> bytes \<Rightarrow> fs \<Rightarrow> bool" where
  "commit_setting s rcs sg tmp c hr body fs \<longleftrightarrow> store_at s rcs fs \<and> real_dirs fs (rcs @ dir_comps c hr) \<and>
     sg_path sg = abs_path (rcs @ [''staging'', tmp]) \<and> plain_comp tmp \<and>
     tmp \<noteq> cap_id c @ ''.pb.tmp'' \<and> tmp \<noteq> cap_id c @ ''.json.tmp'' \<and>
     map_of fs ((rcs @ [''staging'']) @ [tmp]) = Some (Reg body) \<and>
     map_of fs (at_raw rcs c hr) = None \<and> map_of fs (at_sidecar rcs c hr) = None \<and>
     map_of fs (at_raw_tmp rcs c) = None \<and> map_of fs (at_sidecar_tmp rcs c) = None"

lemma plan_commit_ok:
  assumes "plan_commit encode s sg c loc fs = (Inr plan, fs1)"
  shows "let c' = pl_capture plan; rel = capture_dir (cap_source c) (cap_stream c) (cap_archive_date c) (local_hour loc (cap_scheduled c)) in
    cap_id c' = cap_id c \<and> cap_source c' = cap_source c \<and> cap_stream c' = cap_stream c \<and> cap_archive_date c' = cap_archive_date c \<and>
    cap_scheduled c' = cap_scheduled c \<and> cap_sha256 c' = sg_sha256 sg \<and> cap_timezone c' = cap_timezone c \<and>
    cap_raw_path c' = Join [rel, raw_name c'] \<and> cap_sidecar_path c' = Join [rel, sidecar_name c'] \<and>
    pl_raw plan = (case safePath fs1 (rs_root s) (cap_raw_path c') of Inl _ \<Rightarrow> '''' | Inr p \<Rightarrow> p) \<and>
    pl_sidecar plan = (case safePath fs1 (rs_root s) (cap_sidecar_path c') of Inl _ \<Rightarrow> '''' | Inr p \<Rightarrow> p) \<and>
    pl_writes plan = [RenameFile (sg_path sg) (Join [rs_staging s, cap_id c @ ''.pb.tmp'']),
      CreateFile (Join [rs_staging s, cap_id c @ ''.json.tmp'']),
      WriteFile (Join [rs_staging s, cap_id c @ ''.json.tmp'']) (encode c'),
      RenameFile (Join [rs_staging s, cap_id c @ ''.pb.tmp'']) (pl_raw plan),
      RenameFile (Join [rs_staging s, cap_id c @ ''.json.tmp'']) (pl_sidecar plan)]"
proof -
  let ?rel = "capture_dir (cap_source c) (cap_stream c) (cap_archive_date c) (local_hour loc (cap_scheduled c))"
  obtain d where d: "safePath fs (rs_root s) ?rel = Inr d"
    using assms by (cases "safePath fs (rs_root s) ?rel") (auto simp: plan_commit_def Let_def split: if_splits)
  obtain f where f: "os_mkdirall d fs = Inr f"
    using assms d by (cases "os_mkdirall d fs") (auto simp: plan_commit_def Let_def split: if_splits)
  show ?thesis
    using assms
    by (simp add: plan_commit_def Let_def d f raw_name_def sidecar_name_def del: Join.simps split: if_split_asm)
      (auto simp del: Join.simps)
qed

text \<open>The states between the writes.\<close>

definition after1 :: "string list \<Rightarrow> string \<Rightarrow> capture \<Rightarrow> bytes \<Rightarrow> fs \<Rightarrow> fs" where
  "after1 rcs tmp c body fs = fs_put (at_raw_tmp rcs c) (Reg body) (fs_del ((rcs @ [''staging'']) @ [tmp]) fs)"

definition after2 :: "string list \<Rightarrow> string \<Rightarrow> capture \<Rightarrow> bytes \<Rightarrow> fs \<Rightarrow> fs" where
  "after2 rcs tmp c body fs = fs_put (at_sidecar_tmp rcs c) (Reg []) (after1 rcs tmp c body fs)"

definition after3 :: "string list \<Rightarrow> string \<Rightarrow> capture \<Rightarrow> bytes \<Rightarrow> bytes \<Rightarrow> fs \<Rightarrow> fs" where
  "after3 rcs tmp c body js fs = fs_put (at_sidecar_tmp rcs c) (Reg js) (after2 rcs tmp c body fs)"

definition after4 :: "string list \<Rightarrow> string \<Rightarrow> capture \<Rightarrow> string \<Rightarrow> bytes \<Rightarrow> bytes \<Rightarrow> fs \<Rightarrow> fs" where
  "after4 rcs tmp c hr body js fs = fs_put (at_raw rcs c hr) (Reg body) (fs_del (at_raw_tmp rcs c) (after3 rcs tmp c body js fs))"

definition after5 :: "string list \<Rightarrow> string \<Rightarrow> capture \<Rightarrow> string \<Rightarrow> bytes \<Rightarrow> bytes \<Rightarrow> fs \<Rightarrow> fs" where
  "after5 rcs tmp c hr body js fs = fs_put (at_sidecar rcs c hr) (Reg js) (fs_del (at_sidecar_tmp rcs c) (after4 rcs tmp c hr body js fs))"

lemmas after_defs = after1_def after2_def after3_def after4_def after5_def

lemma tmp_distinct:
  assumes "tmp \<noteq> cap_id c @ ''.pb.tmp''" "tmp \<noteq> cap_id c @ ''.json.tmp''"
  shows "(rcs @ [''staging'']) @ [tmp] \<noteq> at_raw_tmp rcs c" "(rcs @ [''staging'']) @ [tmp] \<noteq> at_sidecar_tmp rcs c"
    "(rcs @ [''staging'']) @ [tmp] \<noteq> at_raw rcs c hr" "(rcs @ [''staging'']) @ [tmp] \<noteq> at_sidecar rcs c hr"
  using assms by (auto simp: at_defs dir_comps_def)

lemma after_lookups:
  assumes "commit_setting s rcs sg tmp c hr body fs"
  shows "map_of (after1 rcs tmp c body fs) (at_sidecar_tmp rcs c) = None"
    "map_of (after2 rcs tmp c body fs) (at_sidecar_tmp rcs c) = Some (Reg [])"
    "map_of (after3 rcs tmp c body js fs) (at_raw_tmp rcs c) = Some (Reg body)"
    "map_of (after3 rcs tmp c body js fs) (at_sidecar_tmp rcs c) = Some (Reg js)"
    "map_of (after3 rcs tmp c body js fs) (at_raw rcs c hr) = None"
    "map_of (after3 rcs tmp c body js fs) (at_sidecar rcs c hr) = None"
    "map_of (after4 rcs tmp c hr body js fs) (at_sidecar_tmp rcs c) = Some (Reg js)"
    "map_of (after4 rcs tmp c hr body js fs) (at_raw rcs c hr) = Some (Reg body)"
    "map_of (after4 rcs tmp c hr body js fs) (at_sidecar rcs c hr) = None"
    "map_of (after2 rcs tmp c body fs) (at_sidecar rcs c hr) = None" "map_of (after2 rcs tmp c body fs) (at_raw rcs c hr) = None"
    "map_of (after1 rcs tmp c body fs) (at_sidecar rcs c hr) = None" "map_of (after1 rcs tmp c body fs) (at_raw rcs c hr) = None"
    "pair_in_place rcs c hr body js (after5 rcs tmp c hr body js fs)"
  using assms at_distinct(1-5) [of rcs c hr] at_distinct(6) [of rcs c] tmp_distinct(1,2) [of tmp c rcs] tmp_distinct(3,4) [of tmp c rcs hr]
  unfolding commit_setting_def by (auto simp: after_defs pair_in_place_def)

lemma after_kept:
  assumes "commit_setting s rcs sg tmp c hr body fs"
  shows "dirs_kept fs (after1 rcs tmp c body fs)" "dirs_kept fs (after2 rcs tmp c body fs)"
    "dirs_kept fs (after3 rcs tmp c body js fs)" "dirs_kept fs (after4 rcs tmp c hr body js fs)"
proof -
  have n: "map_of fs ((rcs @ [''staging'']) @ [tmp]) \<noteq> Some Directory" "map_of fs (at_raw rcs c hr) \<noteq> Some Directory"
    "map_of fs (at_raw_tmp rcs c) \<noteq> Some Directory" "map_of fs (at_sidecar_tmp rcs c) \<noteq> Some Directory"
    using assms unfolding commit_setting_def by auto
  then show "dirs_kept fs (after1 rcs tmp c body fs)" "dirs_kept fs (after2 rcs tmp c body fs)"
    "dirs_kept fs (after3 rcs tmp c body js fs)" "dirs_kept fs (after4 rcs tmp c hr body js fs)"
    by (auto simp: dirs_kept_def after_defs)
qed

lemma store_at_kept: "store_at s rcs fs \<Longrightarrow> dirs_kept fs fs' \<Longrightarrow> map_of fs' [] = None \<Longrightarrow> store_at s rcs fs'"
  using real_dirs_kept by (auto simp: store_at_def)

lemma after_nil:
  "map_of fs [] = None \<Longrightarrow> map_of (after1 rcs tmp c body fs) [] = None" "map_of fs [] = None \<Longrightarrow> map_of (after2 rcs tmp c body fs) [] = None"
  "map_of fs [] = None \<Longrightarrow> map_of (after3 rcs tmp c body js fs) [] = None" "map_of fs [] = None \<Longrightarrow> map_of (after4 rcs tmp c hr body js fs) [] = None"
  by (simp_all add: after_defs at_defs)

text \<open>The five writes and the states they lead to, for a capture whose files have plain names.\<close>

definition plain_capture :: "capture \<Rightarrow> string \<Rightarrow> bool" where
  "plain_capture c hr \<longleftrightarrow> (\<forall>x \<in> set (dir_comps c hr). plain_comp x) \<and> plain_comp (raw_name c) \<and> plain_comp (sidecar_name c) \<and>
     plain_comp (cap_id c @ ''.pb.tmp'') \<and> plain_comp (cap_id c @ ''.json.tmp'')"

lemma valid_plain: "validateCapturePaths ll c = Inr () \<Longrightarrow> ll (cap_timezone c) = Inr loc \<Longrightarrow> plain_capture c (local_hour loc (cap_scheduled c))"
  using valid_capture [of ll c] by (auto simp: plain_capture_def)

lemma plain_paths:
  assumes "plain_capture c hr"
  shows "Join [capture_dir (cap_source c) (cap_stream c) (cap_archive_date c) hr, raw_name c] = join_with ''/'' (dir_comps c hr @ [raw_name c])"
    "Join [capture_dir (cap_source c) (cap_stream c) (cap_archive_date c) hr, sidecar_name c] = join_with ''/'' (dir_comps c hr @ [sidecar_name c])"
proof -
  have pl: "\<forall>x \<in> set (dir_comps c hr). plain_comp x" "plain_comp (raw_name c)" "plain_comp (sidecar_name c)"
    using assms by (simp_all add: plain_capture_def)
  have ne: "dir_comps c hr \<noteq> []" by (simp add: dir_comps_def)
  have dir: "capture_dir (cap_source c) (cap_stream c) (cap_archive_date c) hr = join_with ''/'' (dir_comps c hr)"
    unfolding capture_dir_def dir_comps_def [symmetric] by (rule Join_plain [OF ne pl(1)])
  show "Join [capture_dir (cap_source c) (cap_stream c) (cap_archive_date c) hr, raw_name c] = join_with ''/'' (dir_comps c hr @ [raw_name c])"
    "Join [capture_dir (cap_source c) (cap_stream c) (cap_archive_date c) hr, sidecar_name c] = join_with ''/'' (dir_comps c hr @ [sidecar_name c])"
    unfolding dir by (rule Join_below [OF ne pl(1) pl(2)], rule Join_below [OF ne pl(1) pl(3)])
qed

lemma commit_states:
  assumes plan: "plan_commit encode s sg c loc fs0 = (Inr plan, fs)" and c': "c' = pl_capture plan"
    and plain: "plain_capture c' hr"
    and hr: "hr = local_hour loc (cap_scheduled c')" and set: "commit_setting s rcs sg tmp c' hr body fs"
    and ws: "pl_writes plan = [w1, w2, w3, w4, w5]"
  shows "do_write w1 fs = Inr (after1 rcs tmp c' body fs)"
    "do_write w2 (after1 rcs tmp c' body fs) = Inr (after2 rcs tmp c' body fs)"
    "do_write w3 (after2 rcs tmp c' body fs) = Inr (after3 rcs tmp c' body (encode c') fs)"
    "do_write w4 (after3 rcs tmp c' body (encode c') fs) = Inr (after4 rcs tmp c' hr body (encode c') fs)"
    "do_write w5 (after4 rcs tmp c' hr body (encode c') fs) = Inr (after5 rcs tmp c' hr body (encode c') fs)"
proof -
  note p = plan_commit_ok [OF plan, unfolded Let_def, folded c']
  have pl: "\<forall>x \<in> set (dir_comps c' hr). plain_comp x" and v: "plain_comp (raw_name c')" "plain_comp (sidecar_name c')"
      "plain_comp (cap_id c' @ ''.pb.tmp'')" "plain_comp (cap_id c' @ ''.json.tmp'')"
    using plain by (simp_all add: plain_capture_def)
  note lk = after_lookups [OF set] and kept = after_kept [OF set]
  have st: "store_at s rcs fs" and dirs: "real_dirs fs (rcs @ dir_comps c' hr)" and tp: "plain_comp tmp"
    and sgp: "sg_path sg = abs_path (rcs @ [''staging'', tmp])" and body: "map_of fs ((rcs @ [''staging'']) @ [tmp]) = Some (Reg body)"
    using set by (simp_all add: commit_setting_def)
  have sd: "real_dirs fs (rcs @ [''staging''])" and nil: "map_of fs [] = None" and pr: "\<forall>x \<in> set rcs. plain_comp x"
    using st by (simp_all add: store_at_def)
  have i: "cap_id c = cap_id c'" "cap_source c = cap_source c'" "cap_stream c = cap_stream c'" "cap_archive_date c = cap_archive_date c'"
      "cap_scheduled c = cap_scheduled c'" using p by simp_all
  have paths: "cap_raw_path c' = join_with ''/'' (dir_comps c' hr @ [raw_name c'])"
      "cap_sidecar_path c' = join_with ''/'' (dir_comps c' hr @ [sidecar_name c'])"
    using p plain_paths [OF plain] by (simp_all add: i hr del: Join.simps)
  have raw: "pl_raw plan = abs_path ((rcs @ dir_comps c' hr) @ [raw_name c'])"
    using p safePath_real [OF st dirs, of "raw_name c'"] pl v(1) set unfolding paths by (simp add: commit_setting_def at_defs)
  have sc: "pl_sidecar plan = abs_path ((rcs @ dir_comps c' hr) @ [sidecar_name c'])"
    using p safePath_real [OF st dirs, of "sidecar_name c'"] pl v(2) set unfolding paths by (simp add: commit_setting_def at_defs)
  have w: "w1 = RenameFile (sg_path sg) (Join [rs_staging s, cap_id c' @ ''.pb.tmp''])"
      "w2 = CreateFile (Join [rs_staging s, cap_id c' @ ''.json.tmp''])"
      "w3 = WriteFile (Join [rs_staging s, cap_id c' @ ''.json.tmp'']) (encode c')"
      "w4 = RenameFile (Join [rs_staging s, cap_id c' @ ''.pb.tmp'']) (pl_raw plan)"
      "w5 = RenameFile (Join [rs_staging s, cap_id c' @ ''.json.tmp'']) (pl_sidecar plan)"
    using p ws i by (simp_all del: Join.simps)
  have cg: "comps (sg_path sg) = (rcs @ [''staging'']) @ [tmp]"
    unfolding sgp by (subst comps_abs_path) (use pr tp in \<open>auto simp: plain_comp_def\<close>)
  have cr: "comps (pl_raw plan) = (rcs @ dir_comps c' hr) @ [raw_name c']" and cs: "comps (pl_sidecar plan) = (rcs @ dir_comps c' hr) @ [sidecar_name c']"
    unfolding raw sc by (subst comps_abs_path; use pr pl v(1,2) in auto)+
  note crt = staging_path(2) [OF st v(3)] and cst = staging_path(2) [OF st v(4)]
  have rt0: "map_of fs ((rcs @ [''staging'']) @ [cap_id c' @ ''.pb.tmp'']) = None" using set by (simp add: commit_setting_def at_defs)
  show "do_write w1 fs = Inr (after1 rcs tmp c' body fs)"
    unfolding w do_write.simps after1_def at_defs by (rule rename_file [OF cg crt sd sd nil body rt0])
  show "do_write w2 (after1 rcs tmp c' body fs) = Inr (after2 rcs tmp c' body fs)"
    unfolding w do_write.simps after2_def at_defs
    by (rule create_file [OF cst real_dirs_kept [OF kept(1) sd] after_nil(1) [OF nil] lk(1) [unfolded at_defs]])
  show "do_write w3 (after2 rcs tmp c' body fs) = Inr (after3 rcs tmp c' body (encode c') fs)"
    unfolding w do_write.simps after3_def at_defs
    by (rule write_file [OF cst real_dirs_kept [OF kept(2) sd] lk(2) [unfolded at_defs]])
  show "do_write w4 (after3 rcs tmp c' body (encode c') fs) = Inr (after4 rcs tmp c' hr body (encode c') fs)"
    unfolding w do_write.simps after4_def at_defs
    by (rule rename_file [OF crt cr real_dirs_kept [OF kept(3) sd] real_dirs_kept [OF kept(3) dirs] after_nil(3) [OF nil]
        lk(3) [unfolded at_defs] lk(5) [unfolded at_defs]])
  show "do_write w5 (after4 rcs tmp c' hr body (encode c') fs) = Inr (after5 rcs tmp c' hr body (encode c') fs)"
    unfolding w do_write.simps after5_def at_defs
    by (rule rename_file [OF cst cs real_dirs_kept [OF kept(4) sd] real_dirs_kept [OF kept(4) dirs] after_nil(4) [OF nil]
        lk(7) [unfolded at_defs] lk(9) [unfolded at_defs]])
qed

lemma plan_has_five: "plan_commit encode s sg c loc fs = (Inr plan, fs1) \<Longrightarrow> \<exists>w1 w2 w3 w4 w5. pl_writes plan = [w1, w2, w3, w4, w5]"
  using plan_commit_ok [of encode s sg c loc fs plan fs1] unfolding Let_def by blast

section \<open>What the recovery reads of a sidecar\<close>

text \<open>The fields of a capture by which the recovery identifies it and finds its files.\<close>

definition capture_identity :: "capture \<Rightarrow> capture" where
  "capture_identity c = c\<lparr>cap_tick_id := '''', cap_kind := '''', cap_started := 0, cap_completed := 0, cap_url := '''',
     cap_http_status := 0, cap_headers := [], cap_duration_ms := 0, cap_attempts := 0, cap_advertised_length := 0,
     cap_encoded_length := 0, cap_decoded_length := 0, cap_encoding := '''', cap_transport_complete := True,
     cap_parse_status := '''', cap_parse_error := '''', cap_feed_version := '''', cap_incrementality := None,
     cap_feed_timestamp := None, cap_entity_count := None, cap_flags := [], cap_fingerprint := '''',
     cap_app_version := '''', cap_protobuf_revision := ''''\<rparr>"

lemma identity_fields:
  assumes "capture_identity d = capture_identity c"
  shows "cap_format d = cap_format c" "cap_id d = cap_id c" "cap_source d = cap_source c" "cap_stream d = cap_stream c"
    "cap_scheduled d = cap_scheduled c" "cap_archive_date d = cap_archive_date c" "cap_timezone d = cap_timezone c"
    "cap_sha256 d = cap_sha256 c" "cap_raw_path d = cap_raw_path c" "cap_sidecar_path d = cap_sidecar_path c"
proof -
  have "cap_format (capture_identity x) = cap_format x" "cap_id (capture_identity x) = cap_id x"
    "cap_source (capture_identity x) = cap_source x" "cap_stream (capture_identity x) = cap_stream x"
    "cap_scheduled (capture_identity x) = cap_scheduled x" "cap_archive_date (capture_identity x) = cap_archive_date x"
    "cap_timezone (capture_identity x) = cap_timezone x" "cap_sha256 (capture_identity x) = cap_sha256 x"
    "cap_raw_path (capture_identity x) = cap_raw_path x" "cap_sidecar_path (capture_identity x) = cap_sidecar_path x" for x
    by (simp_all add: capture_identity_def)
  then show "cap_format d = cap_format c" "cap_id d = cap_id c" "cap_source d = cap_source c" "cap_stream d = cap_stream c"
    "cap_scheduled d = cap_scheduled c" "cap_archive_date d = cap_archive_date c" "cap_timezone d = cap_timezone c"
    "cap_sha256 d = cap_sha256 c" "cap_raw_path d = cap_raw_path c" "cap_sidecar_path d = cap_sidecar_path c"
    using assms by metis+
qed

lemma validate_identity:
  assumes "capture_identity d = capture_identity c"
  shows "validateCapturePaths ll d = validateCapturePaths ll c"
  unfolding validateCapturePaths_def identity_fields [OF assms] ..

lemma finish_entry_identity:
  assumes "decode js = Some d" "decode' js = Some c" "capture_identity d = capture_identity c"
    and "os_readfile fs (Join [rs_staging s, name]) = Inr js"
  shows "finish_entry sha decode ll s (name, n) fs = finish_entry sha decode' ll s (name, n) fs"
  by (simp add: finish_entry_def Let_def assms(1,2,4) validate_identity [OF assms(3)] del: Join.simps)
    (unfold identity_fields [OF assms(3)], simp)

text \<open>A commit that validateCapturePaths does not accept: the recovery counts the staged sidecar as corrupt
  and touches nothing.\<close>

lemma finish_refused:
  assumes "store_at s rcs fs" "plain_comp (cap_id c @ ''.json.tmp'')" "map_of fs (at_sidecar_tmp rcs c) = Some (Reg js)"
    and "decode js = Some d" "capture_identity d = capture_identity c" "validateCapturePaths ll c = Inl e"
  shows "finish_entry sha decode ll s (cap_id c @ ''.json.tmp'', Reg js) fs = Corrupt fs"
proof -
  have "real_dirs fs (rcs @ [''staging''])" using assms(1) by (simp add: store_at_def)
  then have rd: "os_readfile fs (Join [rs_staging s, cap_id c @ ''.json.tmp'']) = Inr js"
    using read_file [OF staging_path(2) [OF assms(1,2)]] assms(3) by (simp add: at_defs)
  have "validateCapturePaths ll d = Inl e"
    using assms(6) validate_identity [OF assms(5)] by simp
  moreover have "has_suffix (cap_id c @ ''.json.tmp'') ''.json.tmp''" by (simp add: has_suffix_iff)
  ultimately show ?thesis using rd assms(4) by (simp add: finish_entry_def is_ok_iff del: Join.simps)
qed

lemma finish_accepted:
  assumes "recoverable s rcs c hr body js fs" "plain_comp (cap_id c @ ''.json.tmp'')" "validateCapturePaths ll c = Inr ()"
    and "ll (cap_timezone c) = Inr loc" "hr = local_hour loc (cap_scheduled c)"
    and "decode js = Some d" "capture_identity d = capture_identity c" "sha body = cap_sha256 c"
  shows "\<exists>fs'. finish_entry sha decode ll s (cap_id c @ ''.json.tmp'', Reg js) fs = Passed fs' \<and> pair_in_place rcs c hr body js fs'"
proof -
  have "store_at s rcs fs" "real_dirs fs (rcs @ [''staging''])" "map_of fs (at_sidecar_tmp rcs c) = Some (Reg js)"
    using assms(1) by (simp_all add: recoverable_def store_at_def)
  then have rd: "os_readfile fs (Join [rs_staging s, cap_id c @ ''.json.tmp'']) = Inr js"
    using read_file [OF staging_path(2) [OF _ assms(2)]] by (simp add: at_defs)
  have "finish_entry sha decode ll s (cap_id c @ ''.json.tmp'', Reg js) fs =
      finish_entry sha (\<lambda>_. Some c) ll s (cap_id c @ ''.json.tmp'', Reg js) fs"
    by (rule finish_entry_identity [where decode = decode and decode' = "\<lambda>_. Some c", OF assms(6) _ assms(7) rd]) simp
  with finish_recoverable [where decode = "\<lambda>_. Some c" and sha = sha, OF assms(1,3-5) _ assms(8)] show ?thesis by simp
qed

text \<open>C5. A crash after any number \<open>k\<close> of the five writes of a commit leaves a state the recovery
  handles: before the sidecar is written in full neither final file exists, and after the last write both
  are in place. In between the staged sidecar decides. If validateCapturePaths accepts the capture, the
  recovery puts payload and sidecar in place with the contents of the commit. If not, which is so for every
  identifier that NewID makes in this century, it counts the commit as corrupt and changes nothing: the
  sidecar stays staged, the payload stays whole, staged or in place, and no final sidecar appears. Of the
  sidecar's codec it is only used that the identity of the capture is read back.\<close>

theorem crash_recovery:
  assumes "plan_commit encode s sg c loc fs0 = (Inr plan, fs)" "c' = pl_capture plan"
    and "plain_capture c' hr" "ll (cap_timezone c') = Inr loc" "hr = local_hour loc (cap_scheduled c')"
    and "commit_setting s rcs sg tmp c' hr body fs"
    and "decode (encode c') = Some d" "capture_identity d = capture_identity c'" "sha body = cap_sha256 c'"
  shows "\<exists>fs'. do_writes (take k (pl_writes plan)) fs = Inr fs' \<and>
    (k \<le> 2 \<longrightarrow> map_of fs' (at_raw rcs c' hr) = None \<and> map_of fs' (at_sidecar rcs c' hr) = None) \<and>
    ((k = 3 \<or> k = 4) \<and> is_ok (validateCapturePaths ll c') \<longrightarrow>
       (\<exists>fs''. finish_entry sha decode ll s (cap_id c' @ ''.json.tmp'', Reg (encode c')) fs' = Passed fs'' \<and>
          pair_in_place rcs c' hr body (encode c') fs'')) \<and>
    ((k = 3 \<or> k = 4) \<and> \<not> is_ok (validateCapturePaths ll c') \<longrightarrow>
       finish_entry sha decode ll s (cap_id c' @ ''.json.tmp'', Reg (encode c')) fs' = Corrupt fs' \<and>
       map_of fs' (at_sidecar_tmp rcs c') = Some (Reg (encode c')) \<and> map_of fs' (at_sidecar rcs c' hr) = None \<and>
       map_of fs' (if k = 3 then at_raw_tmp rcs c' else at_raw rcs c' hr) = Some (Reg body)) \<and>
    (5 \<le> k \<longrightarrow> pair_in_place rcs c' hr body (encode c') fs')"
proof -
  obtain w1 w2 w3 w4 w5 where ws: "pl_writes plan = [w1, w2, w3, w4, w5]" using plan_has_five [OF assms(1)] by blast
  note cs = commit_states [OF assms(1,2,3,5,6) ws] and lk = after_lookups [OF assms(6)] and kept = after_kept [OF assms(6)]
  have tmp: "plain_comp (cap_id c' @ ''.json.tmp'')" using assms(3) by (simp add: plain_capture_def)
  have st: "store_at s rcs fs" "real_dirs fs (rcs @ dir_comps c' hr)" "map_of fs [] = None"
    using assms(6) by (auto simp: commit_setting_def store_at_def)
  define fs3 where "fs3 = after3 rcs tmp c' body (encode c') fs"
  define fs4 where "fs4 = after4 rcs tmp c' hr body (encode c') fs"
  have r: "recoverable s rcs c' hr body (encode c') fs3" "recoverable s rcs c' hr body (encode c') fs4"
    unfolding recoverable_def fs3_def fs4_def using lk(3-9) store_at_kept [OF st(1) kept(3) after_nil(3) [OF st(3)]]
      store_at_kept [OF st(1) kept(4) after_nil(4) [OF st(3)]] real_dirs_kept [OF kept(3) st(2)] real_dirs_kept [OF kept(4) st(2)] by simp_all
  have accepted: "\<exists>fs''. finish_entry sha decode ll s (cap_id c' @ ''.json.tmp'', Reg (encode c')) fsk = Passed fs'' \<and>
      pair_in_place rcs c' hr body (encode c') fs''"
    if "recoverable s rcs c' hr body (encode c') fsk" "is_ok (validateCapturePaths ll c')" for fsk
    using finish_accepted [where decode = decode and sha = sha and ll = ll, OF that(1) tmp _ assms(4,5,7,8,9)] that(2) by (auto simp: is_ok_iff)
  have refused: "finish_entry sha decode ll s (cap_id c' @ ''.json.tmp'', Reg (encode c')) fsk = Corrupt fsk"
    if "recoverable s rcs c' hr body (encode c') fsk" "\<not> is_ok (validateCapturePaths ll c')" for fsk
    using that finish_refused [where decode = decode and sha = sha and ll = ll and s = s and rcs = rcs and fs = fsk, OF _ tmp _ assms(7,8)]
    by (cases "validateCapturePaths ll c'") (auto simp: recoverable_def is_ok_iff)
  have z: "map_of fs (at_raw rcs c' hr) = None" "map_of fs (at_sidecar rcs c' hr) = None" using assms(6) by (simp_all add: commit_setting_def)
  consider "k = 0" | "k = 1" | "k = 2" | "k = 3" | "k = 4" | "5 \<le> k" by linarith
  then show ?thesis
  proof cases
    case 4
    with accepted [OF r(1)] refused [OF r(1)] lk(3,4,6) show ?thesis by (simp add: ws cs eval_nat_numeral fs3_def)
  next
    case 5
    with accepted [OF r(2)] refused [OF r(2)] lk(7-9) show ?thesis by (simp add: ws cs eval_nat_numeral fs4_def)
  next
    case 6
    then show ?thesis using lk(14) by (simp add: ws cs)
  qed (use z lk(10-13) in \<open>simp_all add: ws cs eval_nat_numeral\<close>)
qed

end
