(* ===== verification/Config_Model.thy ===== *)
theory Config_Model
  imports Complex_Main Go_Float Go_Time Go_Path
begin

text \<open>
  internal/config/config.go: the configuration structs, durations, Validate and the accessors the
  other components call. Maps of the YAML (headers, secrets) are association lists with distinct
  keys; Go iterates over them in any order and Validate sorts what it finds. Parameters: net/url's
  Parse (\<open>parse_url\<close>), the tz database (\<open>load_location\<close>), time.ParseDuration, the
  environment and the file system. A nil URL that is dereferenced is a panic, the value \<open>None\<close> of
  the validation of a stream.
\<close>

section \<open>Structs\<close>

record storage_cfg =
  st_root :: string
  st_state_db :: string
  st_close_delay :: duration
  st_raw_retention :: duration
  st_parquet_retention :: duration
  st_metadata_retention :: duration
  st_local_only_cleanup :: bool
  st_pause_percent :: float_value
  st_resume_percent :: float_value

record runtime_cfg =
  rt_http_address :: string
  rt_shutdown_timeout :: duration
  rt_fetch_concurrency :: int
  rt_per_host_concurrency :: int
  rt_compaction_concurrency :: int
  rt_upload_concurrency :: int

record retry_cfg =
  re_attempts :: int
  re_initial_backoff :: duration
  re_max_backoff :: duration

record http_cfg =
  ht_user_agent :: string
  ht_request_timeout :: duration
  ht_max_response_bytes :: int
  ht_max_start_lateness :: duration
  ht_allow_http :: bool
  ht_retry :: retry_cfg

record parquet_cfg =
  pq_compression :: string
  pq_target_row_group_bytes :: int

record rclone_cfg =
  rc_binary :: string
  rc_config_file :: string
  rc_process_timeout :: duration

record secret_ref =
  sec_env :: string
  sec_file :: string

record stream_cfg =
  sm_id :: string
  sm_kind :: string
  sm_url :: string
  sm_interval :: duration
  sm_timezone :: string
  sm_headers :: "(string \<times> string) list"
  sm_auth_query :: "(string \<times> secret_ref) list"
  sm_auth_headers :: "(string \<times> secret_ref) list"
  sm_enabled :: "bool option"
  sm_request_timeout :: duration
  sm_max_response_bytes :: int
  sm_max_start_lateness :: duration

record source_cfg =
  src_id :: string
  src_timezone :: string
  src_registry :: string
  src_license :: string
  src_attribution :: string
  src_streams :: "stream_cfg list"
  src_location :: "location option"

record destination_cfg =
  dst_id :: string
  dst_remote :: string
  dst_required :: "bool option"

record config =
  cf_version :: int
  cf_storage :: storage_cfg
  cf_runtime :: runtime_cfg
  cf_http :: http_cfg
  cf_parquet :: parquet_cfg
  cf_rclone :: rclone_cfg
  cf_sources :: "source_cfg list"
  cf_destinations :: "destination_cfg list"

text \<open>What the source reads of a \<open>*url.URL\<close>.\<close>

record url =
  url_scheme :: string
  url_host :: string
  url_hostname :: string
  url_path :: string
  url_has_user :: bool
  url_fragment :: string
  url_query :: "(string \<times> string list) list"

definition CurrentVersion :: int where "CurrentVersion = 1"

definition Defaults :: config where
  "Defaults = \<lparr>
     cf_version = CurrentVersion,
     cf_storage = \<lparr>st_root = ''/data'', st_state_db = '''', st_close_delay = 15 * minute,
       st_raw_retention = 7 * 24 * hour, st_parquet_retention = 7 * 24 * hour,
       st_metadata_retention = 30 * 24 * hour, st_local_only_cleanup = False,
       st_pause_percent = Finite 90, st_resume_percent = Finite 80\<rparr>,
     cf_runtime = \<lparr>rt_http_address = '':8080'', rt_shutdown_timeout = 60 * second,
       rt_fetch_concurrency = 16, rt_per_host_concurrency = 4,
       rt_compaction_concurrency = 1, rt_upload_concurrency = 2\<rparr>,
     cf_http = \<lparr>ht_user_agent = ''gtfs-rt-archiver/dev'', ht_request_timeout = 20 * second,
       ht_max_response_bytes = 32 * 2 ^ 20, ht_max_start_lateness = 5 * second, ht_allow_http = False,
       ht_retry = \<lparr>re_attempts = 2, re_initial_backoff = second, re_max_backoff = 5 * second\<rparr>\<rparr>,
     cf_parquet = \<lparr>pq_compression = ''zstd'', pq_target_row_group_bytes = 128 * 2 ^ 20\<rparr>,
     cf_rclone = \<lparr>rc_binary = ''rclone'', rc_config_file = '''', rc_process_timeout = 2 * hour\<rparr>,
     cf_sources = [], cf_destinations = []\<rparr>"

section \<open>Identifiers, names and durations\<close>

definition lower_alnum :: "char \<Rightarrow> bool" where
  "lower_alnum c \<longleftrightarrow> (CHR ''a'' \<le> c \<and> c \<le> CHR ''z'') \<or> (CHR ''0'' \<le> c \<and> c \<le> CHR ''9'')"

text \<open>The pattern \<open>^[a-z0-9][a-z0-9_-]{0,62}$\<close>.\<close>

definition ValidID :: "string \<Rightarrow> bool" where
  "ValidID s = (case s of [] \<Rightarrow> False
     | c # cs \<Rightarrow> lower_alnum c \<and> length cs \<le> 62 \<and>
         list_all (\<lambda>d. lower_alnum d \<or> d = CHR ''_'' \<or> d = CHR ''-'') cs)"

definition validKind :: "string \<Rightarrow> bool" where
  "validKind v \<longleftrightarrow> v \<in> set [''vehicle_position'', ''trip_update'', ''alert'', ''mixed'', ''auto'']"

definition ascii_letter :: "char \<Rightarrow> bool" where
  "ascii_letter c \<longleftrightarrow> (CHR ''a'' \<le> c \<and> c \<le> CHR ''z'') \<or> (CHR ''A'' \<le> c \<and> c \<le> CHR ''Z'')"

definition ascii_digit :: "char \<Rightarrow> bool" where
  "ascii_digit c \<longleftrightarrow> CHR ''0'' \<le> c \<and> c \<le> CHR ''9''"

definition header_punct :: string where
  "header_punct = ''!#$%&'' @ [char_of (39::nat)] @ ''*+-.^_'' @ [char_of (96::nat)] @ ''|~''"

definition httpgutsValidHeaderName :: "string \<Rightarrow> bool" where
  "httpgutsValidHeaderName name = (name \<noteq> [] \<and>
     list_all (\<lambda>c. ascii_letter c \<or> ascii_digit c \<or> c \<in> set header_punct) name)"

definition validHeader :: "string \<Rightarrow> bool" where
  "validHeader name =
     (if \<not> httpgutsValidHeaderName name then False
      else to_lower name \<notin> set [''connection'', ''proxy-connection'', ''keep-alive'',
        ''proxy-authenticate'', ''proxy-authorization'', ''te'', ''trailer'', ''transfer-encoding'',
        ''upgrade'', ''host'', ''content-length''])"

definition sensitiveName :: "string \<Rightarrow> bool" where
  "sensitiveName name =
     (let normalized = to_lower (replace_char (CHR ''.'') (CHR ''_'') (replace_char (CHR ''-'') (CHR ''_'') name))
      in if normalized \<in> set [''authorization'', ''proxy_authorization'', ''cookie'', ''x_api_key'',
             ''apikey'', ''api_key'', ''access_token'', ''token'', ''key'']
         then True
         else str_contains normalized ''secret'' \<or> str_contains normalized ''password'')"

text \<open>The pattern \<open>^[A-Za-z_][A-Za-z0-9_]*$\<close> of environment variables.\<close>

definition valid_env_name :: "string \<Rightarrow> bool" where
  "valid_env_name s = (case s of [] \<Rightarrow> False
     | c # cs \<Rightarrow> (ascii_letter c \<or> c = CHR ''_'') \<and>
         list_all (\<lambda>d. ascii_letter d \<or> ascii_digit d \<or> d = CHR ''_'') cs)"

text \<open>The pattern \<open>^[A-Za-z0-9_-]+:\<close> of a named rclone remote.\<close>

definition named_remote :: "string \<Rightarrow> bool" where
  "named_remote s =
     (let name = takeWhile (\<lambda>c. ascii_letter c \<or> ascii_digit c \<or> c = CHR ''_'' \<or> c = CHR ''-'') s
      in name \<noteq> [] \<and> has_prefix (drop (length name) s) '':'')"

text \<open>The pattern \<open>^([0-9]+)d$\<close>: its digits.\<close>

definition whole_days :: "string \<Rightarrow> string option" where
  "whole_days s = (if length s \<ge> 2 \<and> last s = CHR ''d'' \<and> list_all ascii_digit (butlast s)
     then Some (butlast s) else None)"

definition parseDuration :: "(string \<Rightarrow> duration result) \<Rightarrow> string \<Rightarrow> duration result" where
  "parseDuration std_parse value =
     (case whole_days value of
        Some digits \<Rightarrow>
          (case parse_uint64 digits of
             None \<Rightarrow> Inl (errors_New ''day duration overflows time.Duration'')
           | Some days \<Rightarrow>
               (let day = (of_int (24 * hour) :: 64 word)
                in if days > (of_int (2 ^ 63 - 1)) div day
                   then Inl (errors_New ''day duration overflows time.Duration'')
                   else Inr (sint (days * day))))
      | None \<Rightarrow> std_parse value)"

text \<open>A YAML node as its kind and value.\<close>

datatype yaml_node = ScalarNode string | OtherNode

definition UnmarshalYAML :: "(string \<Rightarrow> duration result) \<Rightarrow> yaml_node \<Rightarrow> duration result" where
  "UnmarshalYAML std_parse node =
     (case node of
        OtherNode \<Rightarrow> Inl (errors_New ''duration must be a string'')
      | ScalarNode v \<Rightarrow>
          (case parseDuration std_parse v of
             Inl e \<Rightarrow> Inl (err_wrap (''invalid duration '' @ quote v) e)
           | Inr d \<Rightarrow> Inr d))"

section \<open>Accessors\<close>

definition IsEnabled :: "stream_cfg \<Rightarrow> bool" where
  "IsEnabled s = (case sm_enabled s of None \<Rightarrow> True | Some b \<Rightarrow> b)"

definition EffectiveTimeout :: "stream_cfg \<Rightarrow> http_cfg \<Rightarrow> duration" where
  "EffectiveTimeout s g = (if sm_request_timeout s > 0 then sm_request_timeout s else ht_request_timeout g)"

definition EffectiveMaxBytes :: "stream_cfg \<Rightarrow> http_cfg \<Rightarrow> int" where
  "EffectiveMaxBytes s g = (if sm_max_response_bytes s > 0 then sm_max_response_bytes s else ht_max_response_bytes g)"

definition EffectiveLateness :: "stream_cfg \<Rightarrow> http_cfg \<Rightarrow> duration" where
  "EffectiveLateness s g = (if sm_max_start_lateness s > 0 then sm_max_start_lateness s else ht_max_start_lateness g)"

definition EffectiveLocation ::
  "(string \<Rightarrow> location result) \<Rightarrow> stream_cfg \<Rightarrow> source_cfg \<Rightarrow> location option result" where
  "EffectiveLocation load_location s source =
     (if sm_timezone s = '''' then Inr (src_location source)
      else (case load_location (sm_timezone s) of Inl e \<Rightarrow> Inl e | Inr l \<Rightarrow> Inr (Some l)))"

definition IsRequired :: "destination_cfg \<Rightarrow> bool" where
  "IsRequired d = (case dst_required d of None \<Rightarrow> True | Some b \<Rightarrow> b)"

definition SecretRef_Validate :: "secret_ref \<Rightarrow> unit result" where
  "SecretRef_Validate r =
     (if (sec_env r = '''') = (sec_file r = '''') then Inl (errors_New ''exactly one of env or file is required'')
      else if sec_env r \<noteq> '''' \<and> \<not> valid_env_name (sec_env r) then Inl (errors_New ''invalid environment variable name'')
      else if sec_file r \<noteq> '''' \<and> \<not> IsAbs (sec_file r) then Inl (errors_New ''secret file path must be absolute'')
      else Inr ())"

definition SecretRef_Resolve ::
  "(string \<Rightarrow> string option) \<Rightarrow> (string \<Rightarrow> bytes result) \<Rightarrow> secret_ref \<Rightarrow> string result" where
  "SecretRef_Resolve lookup_env read_file r =
     (case SecretRef_Validate r of Inl e \<Rightarrow> Inl e
      | Inr _ \<Rightarrow>
         if sec_env r \<noteq> '''' then
           (case lookup_env (sec_env r) of
              None \<Rightarrow> Inl (errors_New (''environment variable '' @ sec_env r @ '' is empty or unset''))
            | Some v \<Rightarrow> if v = '''' then Inl (errors_New (''environment variable '' @ sec_env r @ '' is empty or unset''))
                       else Inr v)
         else
           (case read_file (sec_file r) of
              Inl e \<Rightarrow> Inl (err_wrap ''read secret file'' e)
            | Inr b \<Rightarrow>
                (let v = trim_right b newline_chars
                 in if v = '''' then Inl (errors_New ''secret file is empty'') else Inr v)))"

text \<open>All pairs of a source and a stream that match; an empty identifier matches anything.\<close>

definition all_streams :: "config \<Rightarrow> (source_cfg \<times> stream_cfg) list" where
  "all_streams cfg = concat (map (\<lambda>src. map (\<lambda>sm. (src, sm)) (src_streams src)) (cf_sources cfg))"

definition FindSourceStream :: "config \<Rightarrow> string \<Rightarrow> string \<Rightarrow> (source_cfg \<times> stream_cfg) result" where
  "FindSourceStream cfg sourceID streamID =
     (let matches = filter (\<lambda>(src, sm). (sourceID = '''' \<or> src_id src = sourceID) \<and>
                                        (streamID = '''' \<or> sm_id sm = streamID)) (all_streams cfg)
      in if matches = [] then Inl (errors_New ''no matching stream'')
         else if length matches > 1
         then Inl (errors_New ''selection matches multiple streams; specify --source and --stream'')
         else Inr (hd matches))"

end
