(* ===== verification/Config_Validate.thy ===== *)
theory Config_Validate
  imports Config_Model
begin

text \<open>
  Config.Validate, Load, ResolveSecrets and SanitizedStreamURL of internal/config/config.go.
  Validate collects problems in the order of the source and sorts them. The reading of a stream
  URL that net/url rejects dereferences the nil URL before the error is tested, so the check of a
  stream is \<open>None\<close> (a panic) there.
\<close>

section \<open>Validate\<close>

definition problem_if :: "bool \<Rightarrow> string \<Rightarrow> string list" where
  "problem_if b msg = (if b then [msg] else [])"

definition escapes_parent :: "string \<Rightarrow> bool" where
  "escapes_parent rel \<longleftrightarrow> rel = ''..'' \<or> has_prefix rel ''../''"

definition global_problems :: "config \<Rightarrow> string list" where
  "global_problems c =
     (let st = cf_storage c; rt = cf_runtime c; ht = cf_http c; re = ht_retry ht; rc = cf_rclone c;
          cleanRoot = Clean (st_root st)
      in problem_if (cf_version c \<noteq> CurrentVersion) ''version must be 1''
       @ problem_if (\<not> IsAbs (st_root st) \<or> \<not> IsAbs (st_state_db st))
           ''storage.root and storage.state_db must be absolute paths''
       @ problem_if (cleanRoot = ''/'') ''storage.root cannot be the filesystem root''
       @ problem_if (case Rel cleanRoot (Clean (st_state_db st)) of
             None \<Rightarrow> True | Some rel \<Rightarrow> rel = ''.'' \<or> escapes_parent rel)
           ''storage.state_db must be beneath storage.root''
       @ problem_if (st_close_delay st < 0 \<or> st_raw_retention st < 0 \<or> st_parquet_retention st < 0 \<or> st_metadata_retention st < 0)
           ''storage durations cannot be negative''
       @ problem_if (st_resume_percent st \<le> Finite 0 \<or> st_pause_percent st > Finite 100 \<or> st_resume_percent st \<ge> st_pause_percent st)
           ''storage watermarks must satisfy 0 < resume < pause <= 100''
       @ problem_if (rt_fetch_concurrency rt < 1 \<or> rt_per_host_concurrency rt < 1 \<or> rt_compaction_concurrency rt < 1 \<or> rt_upload_concurrency rt < 1)
           ''runtime concurrency values must be positive''
       @ problem_if (rt_shutdown_timeout rt \<le> 0) ''runtime.shutdown_timeout must be positive''
       @ problem_if (rt_http_address rt = '''') ''runtime.http_address is required''
       @ problem_if (ht_request_timeout ht \<le> 0 \<or> ht_max_response_bytes ht \<le> 0 \<or> ht_max_start_lateness ht \<le> 0)
           ''http timeout, size, and max_start_lateness must be positive''
       @ problem_if (ht_user_agent ht = '''' \<or> contains_any (ht_user_agent ht) newline_chars)
           ''http.user_agent is required and cannot contain newlines''
       @ problem_if (re_attempts re < 1 \<or> re_initial_backoff re < 0 \<or> re_max_backoff re < re_initial_backoff re)
           ''invalid http.retry settings''
       @ problem_if (pq_compression (cf_parquet c) \<noteq> ''zstd'' \<and> pq_compression (cf_parquet c) \<noteq> ''snappy'' \<and> pq_compression (cf_parquet c) \<noteq> ''uncompressed'')
           ''parquet.compression must be zstd, snappy, or uncompressed''
       @ problem_if (pq_target_row_group_bytes (cf_parquet c) \<le> 0)
           ''parquet.target_row_group_bytes must be positive''
       @ problem_if (rc_binary rc = '''' \<or> rc_process_timeout rc \<le> 0)
           ''rclone.binary and a positive rclone.process_timeout are required''
       @ problem_if (rc_config_file rc \<noteq> '''' \<and> \<not> IsAbs (rc_config_file rc))
           ''rclone.config_file must be an absolute path'')"

definition header_problems :: "string \<Rightarrow> string \<times> string \<Rightarrow> string list" where
  "header_problems key hv = (case hv of (h, v) \<Rightarrow>
     problem_if (\<not> validHeader h) (''stream '' @ quote key @ '' has forbidden header '' @ quote h)
   @ problem_if (sensitiveName h)
       (''stream '' @ quote key @ '' must put sensitive header '' @ quote h @ '' under auth.headers'')
   @ problem_if (contains_any v newline_chars)
       (''stream '' @ quote key @ '' header '' @ quote h @ '' contains a newline''))"

definition ref_problems :: "string \<Rightarrow> secret_ref \<Rightarrow> string list" where
  "ref_problems what ref = (case SecretRef_Validate ref of
     Inl e \<Rightarrow> [what @ '': '' @ err_text e] | Inr _ \<Rightarrow> [])"

definition auth_header_problems :: "string \<Rightarrow> string \<times> secret_ref \<Rightarrow> string list" where
  "auth_header_problems key hr = (case hr of (h, ref) \<Rightarrow>
     problem_if (\<not> validHeader h) (''stream '' @ quote key @ '' has forbidden secret header '' @ quote h)
   @ ref_problems (''stream '' @ quote key @ '' secret header '' @ quote h) ref)"

definition auth_query_problems :: "string \<Rightarrow> string \<times> secret_ref \<Rightarrow> string list" where
  "auth_query_problems key nr = (case nr of (name, ref) \<Rightarrow>
     problem_if (name = '''' \<or> contains_any name newline_nul_chars)
       (''stream '' @ quote key @ '' has an invalid auth query key'')
   @ ref_problems (''stream '' @ quote key @ '' auth query '' @ quote name) ref)"

text \<open>The body of the loop over the streams of a source; \<open>seen\<close> is the map seenStreams.\<close>

definition stream_problems ::
  "(string \<Rightarrow> url option) \<Rightarrow> (string \<Rightarrow> location result) \<Rightarrow> bool \<Rightarrow> string \<Rightarrow> string set \<Rightarrow> stream_cfg
    \<Rightarrow> string list option" where
  "stream_problems parse_url load_location allow_http srcID seen sm =
     (let key = srcID @ ''/'' @ sm_id sm;
          before =
            problem_if (\<not> ValidID (sm_id sm)) (''stream '' @ quote key @ '' has an unsafe id'')
          @ problem_if (key \<in> seen) (''duplicate stream id '' @ quote key)
          @ problem_if (sm_interval sm < second) (''stream '' @ quote key @ '' interval must be at least 1s'')
          @ problem_if (sm_request_timeout sm < 0 \<or> sm_max_response_bytes sm < 0 \<or> sm_max_start_lateness sm < 0)
              (''stream '' @ quote key @ '' timeout, size, and lateness overrides cannot be negative'')
          @ problem_if (\<not> validKind (sm_kind sm))
              (''stream '' @ quote key @ '' has invalid expected_kind '' @ quote (sm_kind sm))
      in case parse_url (sm_url sm) of
           None \<Rightarrow> None
         | Some u \<Rightarrow>
            (let schemeOK = (url_scheme u = ''https'' \<or> (allow_http \<and> url_scheme u = ''http''))
             in Some (before
               @ problem_if (\<not> schemeOK \<or> url_host u = '''' \<or> url_has_user u \<or> url_fragment u \<noteq> '''')
                   (if allow_http
                    then ''stream '' @ quote key @ '' must have an HTTPS or HTTP URL without userinfo or fragment''
                    else ''stream '' @ quote key @ '' must have an HTTPS URL without userinfo or fragment'')
               @ concat (map (\<lambda>(name, _). problem_if (sensitiveName name)
                   (''stream '' @ quote key @ '' places a likely secret query parameter '' @ quote name @ '' directly in its URL''))
                   (url_query u))
               @ concat (map (header_problems key) (sm_headers sm))
               @ concat (map (auth_header_problems key) (sm_auth_headers sm))
               @ concat (map (auth_query_problems key) (sm_auth_query sm))
               @ (if sm_timezone sm = '''' then []
                  else case load_location (sm_timezone sm) of
                    Inl e \<Rightarrow> [''stream '' @ quote key @ '' timezone: '' @ err_text e] | Inr _ \<Rightarrow> []))))"

fun streams_problems ::
  "(string \<Rightarrow> url option) \<Rightarrow> (string \<Rightarrow> location result) \<Rightarrow> bool \<Rightarrow> string \<Rightarrow> string set \<Rightarrow> stream_cfg list
    \<Rightarrow> (string list \<times> string set) option" where
  "streams_problems pu ll ah srcID seen [] = Some ([], seen)"
| "streams_problems pu ll ah srcID seen (sm # sms) =
     (case stream_problems pu ll ah srcID seen sm of
        None \<Rightarrow> None
      | Some ps \<Rightarrow>
         (case streams_problems pu ll ah srcID (insert (srcID @ ''/'' @ sm_id sm) seen) sms of
            None \<Rightarrow> None
          | Some (qs, seen') \<Rightarrow> Some (ps @ qs, seen')))"

definition source_problems ::
  "(string \<Rightarrow> url option) \<Rightarrow> (string \<Rightarrow> location result) \<Rightarrow> string set \<Rightarrow> source_cfg \<Rightarrow> string list" where
  "source_problems parse_url load_location seen src =
     problem_if (\<not> ValidID (src_id src)) (''source '' @ quote (src_id src) @ '' has an unsafe id'')
   @ problem_if (src_id src \<in> seen) (''duplicate source id '' @ quote (src_id src))
   @ (case load_location (src_timezone src) of
        Inl e \<Rightarrow> [''source '' @ quote (src_id src) @ '' timezone: '' @ err_text e] | Inr _ \<Rightarrow> [])
   @ problem_if (src_streams src = []) (''source '' @ quote (src_id src) @ '' must contain at least one stream'')
   @ problem_if (src_attribution src \<noteq> '''' \<and> \<not> IsAbs (src_attribution src))
       (''source '' @ quote (src_id src) @ '' attribution_text_file must be absolute'')
   @ (if src_license src = '''' then []
      else problem_if (case parse_url (src_license src) of None \<Rightarrow> True
             | Some u \<Rightarrow> url_scheme u \<noteq> ''https'' \<or> url_host u = '''')
           (''source '' @ quote (src_id src) @ '' license_url must be an absolute HTTPS URL''))"

text \<open>The loop over the sources: problems, and the sources with their locations set.\<close>

definition with_location :: "(string \<Rightarrow> location result) \<Rightarrow> source_cfg \<Rightarrow> source_cfg" where
  "with_location load_location src =
     (case load_location (src_timezone src) of Inl _ \<Rightarrow> src | Inr l \<Rightarrow> src\<lparr>src_location := Some l\<rparr>)"

fun sources_problems ::
  "(string \<Rightarrow> url option) \<Rightarrow> (string \<Rightarrow> location result) \<Rightarrow> bool \<Rightarrow> string set \<Rightarrow> string set \<Rightarrow> source_cfg list
    \<Rightarrow> (string list \<times> source_cfg list) option" where
  "sources_problems pu ll ah seenSrc seenStr [] = Some ([], [])"
| "sources_problems pu ll ah seenSrc seenStr (src # srcs) =
     (case streams_problems pu ll ah (src_id src) seenStr (src_streams src) of
        None \<Rightarrow> None
      | Some (ps, seenStr') \<Rightarrow>
         (case sources_problems pu ll ah (insert (src_id src) seenSrc) seenStr' srcs of
            None \<Rightarrow> None
          | Some (qs, srcs') \<Rightarrow>
              Some (source_problems pu ll seenSrc src @ ps @ qs, with_location ll src # srcs')))"

fun destination_problems :: "string set \<Rightarrow> destination_cfg list \<Rightarrow> string list" where
  "destination_problems seen [] = []"
| "destination_problems seen (d # ds) =
     problem_if (\<not> ValidID (dst_id d) \<or> dst_id d \<in> seen)
       (''destination '' @ quote (dst_id d) @ '' has an unsafe or duplicate id'')
   @ problem_if (dst_remote d = '''' \<or> contains_any (dst_remote d) newline_nul_chars)
       (''destination '' @ quote (dst_id d) @ '' has an invalid remote'')
   @ problem_if (\<not> named_remote (dst_remote d))
       (''destination '' @ quote (dst_id d) @ '' must use a named rclone remote'')
   @ destination_problems (insert (dst_id d) seen) ds"

datatype validation = Panicked | Invalid "string list" | Accepted config

definition Validate ::
  "(string \<Rightarrow> url option) \<Rightarrow> (string \<Rightarrow> location result) \<Rightarrow> config \<Rightarrow> validation" where
  "Validate parse_url load_location c =
     (case sources_problems parse_url load_location (ht_allow_http (cf_http c)) {} {} (cf_sources c) of
        None \<Rightarrow> Panicked
      | Some (sps, srcs) \<Rightarrow>
         (let problems = global_problems c @ sps
            @ problem_if (cf_sources c = []) ''at least one source is required''
            @ destination_problems {} (cf_destinations c)
            @ problem_if (cf_destinations c \<noteq> [] \<and> rc_config_file (cf_rclone c) = '''')
                ''rclone.config_file is required when destinations are configured''
          in if problems \<noteq> [] then Invalid (sort problems)
             else Accepted (c\<lparr>cf_sources := srcs\<rparr>)))"

text \<open>Load: the decoder (\<open>decode\<close>, gopkg.in/yaml.v3 over the defaults) gives the configuration, and
  \<open>decode_next\<close> what a second call of the decoder finds: the end of the file, a second document, or
  an error.\<close>

datatype next_document = AtEOF | SecondDocument | NextError go_error

definition invalid_text :: "string list \<Rightarrow> string" where
  "invalid_text ps = (let sep = char_of (10::nat) # '' - '' in
     ''invalid configuration:'' @ sep @ join_with sep ps)"

datatype load_outcome = LoadPanicked | LoadFailed go_error | Loaded config

definition Load ::
  "(string \<Rightarrow> bytes result) \<Rightarrow> (config \<Rightarrow> bytes \<Rightarrow> config result) \<Rightarrow> (bytes \<Rightarrow> next_document) \<Rightarrow>
   (string \<Rightarrow> url option) \<Rightarrow> (string \<Rightarrow> location result) \<Rightarrow> string \<Rightarrow> load_outcome" where
  "Load read_file decode decode_next parse_url load_location path =
     (case read_file path of
        Inl e \<Rightarrow> LoadFailed (err_wrap ''read config'' e)
      | Inr b \<Rightarrow>
        (case decode Defaults b of
           Inl e \<Rightarrow> LoadFailed (err_wrap ''decode config'' e)
         | Inr cfg \<Rightarrow>
            (case decode_next b of
               SecondDocument \<Rightarrow> LoadFailed (errors_New ''decode config: multiple YAML documents are not allowed'')
             | NextError e \<Rightarrow> LoadFailed (err_wrap ''decode config'' e)
             | AtEOF \<Rightarrow>
              (let st = cf_storage cfg;
                   cfg' = (if st_state_db st = ''''
                     then cfg\<lparr>cf_storage := st\<lparr>st_state_db := Join [st_root st, ''state.sqlite'']\<rparr>\<rparr>
                     else cfg)
               in case Validate parse_url load_location cfg' of
                    Panicked \<Rightarrow> LoadPanicked
                  | Invalid ps \<Rightarrow> LoadFailed (errors_New (invalid_text ps))
                  | Accepted cfg'' \<Rightarrow> Loaded cfg''))))"

section \<open>Secrets and the sanitized URL\<close>

fun resolve_all ::
  "(secret_ref \<Rightarrow> string result) \<Rightarrow> (string \<Rightarrow> string result \<Rightarrow> unit result) \<Rightarrow> (string \<times> secret_ref) list \<Rightarrow> unit result" where
  "resolve_all resolve judge [] = Inr ()"
| "resolve_all resolve judge ((name, ref) # rs) =
     (case judge name (resolve ref) of Inl e \<Rightarrow> Inl e | Inr _ \<Rightarrow> resolve_all resolve judge rs)"

definition judge_query :: "string \<Rightarrow> string \<Rightarrow> string \<Rightarrow> string result \<Rightarrow> unit result" where
  "judge_query srcID smID name r = (case r of
     Inl e \<Rightarrow> Inl (err_wrap (''source '' @ srcID @ '' stream '' @ smID @ '' query secret '' @ name) e)
   | Inr _ \<Rightarrow> Inr ())"

definition judge_header :: "string \<Rightarrow> string \<Rightarrow> string \<Rightarrow> string result \<Rightarrow> unit result" where
  "judge_header srcID smID name r = (case r of
     Inl e \<Rightarrow> Inl (err_wrap (''source '' @ srcID @ '' stream '' @ smID @ '' header secret '' @ name) e)
   | Inr v \<Rightarrow> if contains_any v newline_chars
       then Inl (errors_New (''source '' @ srcID @ '' stream '' @ smID @ '' header secret '' @ name @ '' contains a newline''))
       else Inr ())"

fun resolve_streams :: "(secret_ref \<Rightarrow> string result) \<Rightarrow> string \<Rightarrow> stream_cfg list \<Rightarrow> unit result" where
  "resolve_streams resolve srcID [] = Inr ()"
| "resolve_streams resolve srcID (sm # sms) =
     (case resolve_all resolve (judge_query srcID (sm_id sm)) (sm_auth_query sm) of
        Inl e \<Rightarrow> Inl e
      | Inr _ \<Rightarrow>
        (case resolve_all resolve (judge_header srcID (sm_id sm)) (sm_auth_headers sm) of
           Inl e \<Rightarrow> Inl e
         | Inr _ \<Rightarrow> resolve_streams resolve srcID sms))"

definition attribution_check :: "(string \<Rightarrow> bytes result) \<Rightarrow> source_cfg \<Rightarrow> unit result" where
  "attribution_check read_file src =
     (if src_attribution src = '''' then Inr ()
      else (case read_file (src_attribution src) of
              Inl e \<Rightarrow> Inl (err_wrap (''source '' @ src_id src @ '' attribution text'') e)
            | Inr b \<Rightarrow> if trim_space b = ''''
                then Inl (errors_New (''source '' @ src_id src @ '' attribution text is empty'')) else Inr ()))"

fun ResolveSecrets ::
  "(string \<Rightarrow> string option) \<Rightarrow> (string \<Rightarrow> bytes result) \<Rightarrow> source_cfg list \<Rightarrow> unit result" where
  "ResolveSecrets env read_file [] = Inr ()"
| "ResolveSecrets env read_file (src # srcs) =
     (case attribution_check read_file src of Inl e \<Rightarrow> Inl e
      | Inr _ \<Rightarrow>
        (case resolve_streams (SecretRef_Resolve env read_file) (src_id src) (src_streams src) of
           Inl e \<Rightarrow> Inl e
         | Inr _ \<Rightarrow> ResolveSecrets env read_file srcs))"

text \<open>\<open>(&url.URL{Scheme, Host, Path}).String()\<close>: the bytes of the path that may not stand in a path
  are percent-encoded.\<close>

definition path_byte_ok :: "char \<Rightarrow> bool" where
  "path_byte_ok c \<longleftrightarrow> ascii_letter c \<or> ascii_digit c \<or> c \<in> set ''-_.~$&+,/:;=@''"

definition upper_hex :: "nat \<Rightarrow> char" where
  "upper_hex d = (if d < 10 then char_of (48 + d) else char_of (55 + d))"

definition escape_path :: "string \<Rightarrow> string" where
  "escape_path p = concat (map (\<lambda>c. if path_byte_ok c then [c]
     else [CHR ''%'', upper_hex (of_char c div 16), upper_hex (of_char c mod 16)]) p)"

definition url_string :: "string \<Rightarrow> string \<Rightarrow> string \<Rightarrow> string" where
  "url_string scheme host p =
     scheme @ ''://'' @ host @
     (let e = (if p = ''*'' then ''*'' else escape_path p)
      in if e \<noteq> [] \<and> \<not> has_prefix e ''/'' then CHR ''/'' # e else e)"

definition SanitizedStreamURL :: "(string \<Rightarrow> url option) \<Rightarrow> string \<Rightarrow> string result" where
  "SanitizedStreamURL parse_url rawURL =
     (case parse_url rawURL of
        None \<Rightarrow> Inl (errors_New ''parse stream URL'')
      | Some u \<Rightarrow>
         if url_scheme u = '''' \<or> url_host u = ''''
         then Inl (errors_New (''stream URL '' @ quote rawURL @ '' lacks scheme or host''))
         else Inr (url_string (url_scheme u) (url_host u) (url_path u)))"

end
