(* ===== verification/Compact_Parquet.thy ===== *)
theory Compact_Parquet
  imports Flatten Raw_Recovery Config_Validate
begin

text \<open>
  The Parquet half of internal/compact/compact.go: the nested row, the two writers, the two
  validators that read a staged file back, and the exclusion of captures whose payload is gone or
  altered. The Parquet library is a pair of arguments per layout: \<open>write\<close> gives the bytes of a file
  for the options and the row groups (or an error of Write, Flush or Close), \<open>read\<close> the rows that
  its reader delivers and the error that ends it, \<open>None\<close> being io.EOF. SHA-256, the protobuf decoder
  and encoding/json are arguments too. Counters of type int64 are integers.
\<close>

section \<open>Arguments\<close>

record Row =
  nr_source_id :: "string"
  nr_stream_id :: "string"
  nr_expected_kind :: "string"
  nr_capture_id :: "string"
  nr_archive_date :: "string"
  nr_archive_timezone :: "string"
  nr_sanitized_url :: "string"
  nr_raw_path :: "string"
  nr_config_fingerprint :: "string"
  nr_application_version :: "string"
  nr_protobuf_revision :: "string"
  nr_scheduled_at :: "instant"
  nr_started_at :: "instant"
  nr_observed_at :: "instant"
  nr_http_status :: "int"
  nr_response_headers_json :: "string"
  nr_duration_ms :: "int"
  nr_attempt_count :: "int"
  nr_advertised_length :: "int"
  nr_encoded_length :: "int"
  nr_decoded_length :: "int"
  nr_content_encoding :: "string"
  nr_transport_complete :: "bool"
  nr_parse_status :: "string"
  nr_parse_error :: "string option"
  nr_body_sha256 :: "string"
  nr_entity_count :: "int option"
  nr_validation_flags :: "string list"
  nr_header :: "FeedHeader option"
  nr_entities :: "FeedEntity option list"
  nr_feed_message_pb :: "bytes"

record pq_options =
  po_max_rows_per_group :: int
  po_compression :: string
  po_metadata :: "(string \<times> string) list"

record compact_env =
  ce_sha :: "bytes \<Rightarrow> string"
  ce_decoder :: decoder
  ce_narrow :: float32_conv
  ce_headers_json :: "(string \<times> string) list \<Rightarrow> string"
  ce_write_nested :: "pq_options \<Rightarrow> Row list list \<Rightarrow> bytes result"
  ce_read_nested :: "bytes \<Rightarrow> Row list \<times> go_error option"
  ce_write_flat :: "pq_options \<Rightarrow> TripUpdateStopRow list list \<Rightarrow> bytes result"
  ce_read_flat :: "bytes \<Rightarrow> TripUpdateStopRow list \<times> go_error option"
  ce_encode_manifest :: "manifest \<Rightarrow> bytes"
  ce_decode_manifest :: "bytes \<Rightarrow> manifest result"

text \<open>The writer between two calls: the row groups closed by Flush and the open one.\<close>

record 'r pq_writer =
  pw_groups :: "'r list list"
  pw_open :: "'r list"

definition pw_new :: "'r pq_writer" where
  "pw_new = \<lparr>pw_groups = [], pw_open = []\<rparr>"

definition pw_write :: "'r list \<Rightarrow> 'r pq_writer \<Rightarrow> 'r pq_writer" where
  "pw_write rows w = w\<lparr>pw_open := pw_open w @ rows\<rparr>"

definition pw_flush :: "'r pq_writer \<Rightarrow> 'r pq_writer" where
  "pw_flush w = (if pw_open w = [] then w else \<lparr>pw_groups = pw_groups w @ [pw_open w], pw_open = []\<rparr>)"

definition pw_rows :: "'r pq_writer \<Rightarrow> 'r list" where
  "pw_rows w = concat (pw_groups w) @ pw_open w"

section \<open>Reading captures\<close>

definition readVerifiedCapture :: "compact_env \<Rightarrow> raw_store \<Rightarrow> fs \<Rightarrow> capture \<Rightarrow> bytes result" where
  "readVerifiedCapture env raw fs c =
     (case Read raw (cap_raw_path c) fs of
        Inl e \<Rightarrow> Inl (err_wrap (''read capture '' @ cap_id c) e)
      | Inr body \<Rightarrow>
          if ce_sha env body \<noteq> cap_sha256 c
          then Inl (GoError (''capture hash mismatch: '' @ cap_id c) [ErrCaptureHashMismatch])
          else Inr body)"

definition exclusionReason :: "go_error \<Rightarrow> string" where
  "exclusionReason e =
     (if errors_Is e ErrNotExist then ExcludedCaptureRawMissing
      else if errors_Is e ErrCaptureHashMismatch then ExcludedCaptureHashMismatch
      else ExcludedCaptureReadError)"

definition exclusionSummary :: "excluded_capture list \<Rightarrow> string" where
  "exclusionSummary excluded =
     (let reasons = sort (remdups (map ex_reason excluded))
      in join_with '', '' (map (\<lambda>r. r @ ''='' @ itoa (int (length (filter (\<lambda>x. ex_reason x = r) excluded)))) reasons))"

section \<open>Writers\<close>

definition parquetWriterOptions :: "parquet_cfg \<Rightarrow> pq_options result" where
  "parquetWriterOptions cfg =
     (if pq_compression cfg = ''zstd'' \<or> pq_compression cfg = ''snappy'' \<or> pq_compression cfg = ''uncompressed''
      then Inr \<lparr>po_max_rows_per_group = 100000, po_compression = pq_compression cfg, po_metadata = []\<rparr>
      else Inl (errors_New (''unsupported parquet compression '' @ quote (pq_compression cfg))))"

definition setManifestKeyValueMetadata :: "manifest \<Rightarrow> pq_options \<Rightarrow> pq_options" where
  "setManifestKeyValueMetadata m o1 = o1\<lparr>po_metadata := po_metadata o1 @
     [(''gtfsrt.format_version'', itoa ParquetFormatVersion), (''gtfsrt.schema_version'', itoa (man_schema m)),
      (''gtfsrt.application_version'', man_app_version m), (''gtfsrt.protobuf_revision'', man_protobuf_revision m),
      (''gtfsrt.config_fingerprint'', man_fingerprint m), (''gtfsrt.source_id'', man_source m),
      (''gtfsrt.stream_id'', man_stream m), (''gtfsrt.archive_date'', man_archive_date m),
      (''gtfsrt.timezone'', man_timezone m), (''gtfsrt.generated_at'', rfc3339_nano (man_created m)),
      (''gtfsrt.license_url'', man_license m), (''gtfsrt.attribution'', man_attribution m)]\<rparr>"

definition nested_row :: "compact_env \<Rightarrow> capture \<Rightarrow> bytes \<Rightarrow> metadata \<Rightarrow> Row" where
  "nested_row env c body meta =
     (let projected = (case meta_message meta of None \<Rightarrow> None | Some m \<Rightarrow> ProjectFeedMessage (ce_narrow env) m)
      in \<lparr>nr_source_id = cap_source c, nr_stream_id = cap_stream c, nr_expected_kind = cap_kind c,
          nr_capture_id = cap_id c, nr_archive_date = cap_archive_date c, nr_archive_timezone = cap_timezone c,
          nr_sanitized_url = cap_url c, nr_raw_path = cap_raw_path c, nr_config_fingerprint = cap_fingerprint c,
          nr_application_version = cap_app_version c, nr_protobuf_revision = cap_protobuf_revision c,
          nr_scheduled_at = cap_scheduled c, nr_started_at = cap_started c, nr_observed_at = cap_completed c,
          nr_http_status = State_Rows.int32 (cap_http_status c), nr_response_headers_json = ce_headers_json env (cap_headers c),
          nr_duration_ms = cap_duration_ms c, nr_attempt_count = State_Rows.int32 (cap_attempts c),
          nr_advertised_length = cap_advertised_length c, nr_encoded_length = cap_encoded_length c,
          nr_decoded_length = cap_decoded_length c, nr_content_encoding = cap_encoding c,
          nr_transport_complete = cap_transport_complete c, nr_parse_status = cap_parse_status c,
          nr_parse_error = (if cap_parse_error c \<noteq> '''' then Some (cap_parse_error c) else None),
          nr_body_sha256 = cap_sha256 c,
          nr_entity_count = (case cap_entity_count c of None \<Rightarrow> None | Some v \<Rightarrow> Some v),
          nr_validation_flags = cap_flags c,
          nr_header = (case projected of None \<Rightarrow> None | Some f \<Rightarrow> message_header f),
          nr_entities = (case projected of None \<Rightarrow> [] | Some f \<Rightarrow> message_entity f),
          nr_feed_message_pb = body\<rparr>)"

text \<open>What the writers keep while they go through the captures. \<open>ctx k\<close> is the result of the
  \<open>k\<close>-th call of ctx.Err().\<close>

record 'r write_state =
  ws_writer :: "'r pq_writer"
  ws_group :: int
  ws_entities :: int
  ws_stops :: int
  ws_included :: "capture list"
  ws_excluded :: "excluded_capture list"

definition ws_new :: "'r write_state" where
  "ws_new = \<lparr>ws_writer = pw_new, ws_group = 0, ws_entities = 0, ws_stops = 0, ws_included = [], ws_excluded = []\<rparr>"

definition add_entities :: "capture \<Rightarrow> 'r write_state \<Rightarrow> 'r write_state" where
  "add_entities c st = (case cap_entity_count c of None \<Rightarrow> st | Some n \<Rightarrow> st\<lparr>ws_entities := ws_entities st + n\<rparr>)"

definition exclude :: "capture \<Rightarrow> go_error \<Rightarrow> 'r write_state \<Rightarrow> 'r write_state" where
  "exclude c e st = st\<lparr>ws_excluded := ws_excluded st @ [\<lparr>ex_id = cap_id c, ex_reason = exclusionReason e\<rparr>]\<rparr>"

text \<open>Rows written and their weight (bytes or rows) added to the open group, which is flushed when
  it reaches the bound.\<close>

definition grow_group :: "int \<Rightarrow> int \<Rightarrow> 'r list \<Rightarrow> 'r write_state \<Rightarrow> 'r write_state" where
  "grow_group bound weight rows st =
     (let w = pw_write rows (ws_writer st); g = ws_group st + weight
      in if g \<ge> bound then st\<lparr>ws_writer := pw_flush w, ws_group := 0\<rparr> else st\<lparr>ws_writer := w, ws_group := g\<rparr>)"

definition write_nested ::
  "compact_env \<Rightarrow> parquet_cfg \<Rightarrow> capture \<Rightarrow> bytes \<Rightarrow> Row write_state \<Rightarrow> Row write_state" where
  "write_nested env cfg c body st =
     (let meta = Decode (ce_decoder env) body (cap_kind c) (cap_completed c);
          st1 = add_entities c (st\<lparr>ws_included := ws_included st @ [c]\<rparr>)
      in grow_group (pq_target_row_group_bytes cfg) (cap_decoded_length c) [nested_row env c body meta] st1)"

definition tripUpdateRowGroupRows :: int where "tripUpdateRowGroupRows = 100000"

definition tripUpdateProvenanceFromCapture :: "capture \<Rightarrow> TripUpdateProvenance" where
  "tripUpdateProvenanceFromCapture c = \<lparr>prov_source_file = cap_raw_path c, prov_feed_url = cap_url c,
     prov_fetch_timestamp = cap_completed c, prov_scheduled_at = cap_scheduled c, prov_source_id = cap_source c,
     prov_stream_id = cap_stream c, prov_capture_id = cap_id c, prov_archive_date = cap_archive_date c,
     prov_archive_timezone = cap_timezone c, prov_parse_status = cap_parse_status c, prov_validation_flags = cap_flags c\<rparr>"

definition write_flat ::
  "compact_env \<Rightarrow> capture \<Rightarrow> bytes \<Rightarrow> TripUpdateStopRow write_state \<Rightarrow> TripUpdateStopRow write_state" where
  "write_flat env c body st =
     (let meta = Decode (ce_decoder env) body (cap_kind c) (cap_completed c);
          st1 = add_entities c (st\<lparr>ws_included := ws_included st @ [c]\<rparr>)
      in case meta_message meta of
           None \<Rightarrow> st1
         | Some m \<Rightarrow>
            (let rows = ProjectTripUpdateStops m (tripUpdateProvenanceFromCapture c);
                 st2 = st1\<lparr>ws_stops := ws_stops st1 + CountStopTimeUpdates (meta_message meta)\<rparr>
             in if length rows = 0 then st2
                else grow_group tripUpdateRowGroupRows (int (length rows)) rows st2))"

text \<open>The loop over the captures, common to both writers up to the treatment of a body.\<close>

fun write_captures ::
  "compact_env \<Rightarrow> raw_store \<Rightarrow> fs \<Rightarrow> (nat \<Rightarrow> go_error option) \<Rightarrow> (capture \<Rightarrow> bytes \<Rightarrow> 'r write_state \<Rightarrow> 'r write_state) \<Rightarrow>
   nat \<Rightarrow> capture list \<Rightarrow> 'r write_state \<Rightarrow> 'r write_state result" where
  "write_captures env raw fs ctx put k [] st = Inr st"
| "write_captures env raw fs ctx put k (c # cs) st =
     (case ctx k of
        Some e \<Rightarrow> Inl e
      | None \<Rightarrow>
         (case readVerifiedCapture env raw fs c of
            Inl e \<Rightarrow> (case ctx (Suc k) of Some e' \<Rightarrow> Inl e'
               | None \<Rightarrow> write_captures env raw fs ctx put (k + 2) cs (exclude c e st))
          | Inr body \<Rightarrow> write_captures env raw fs ctx put (k + 2) cs (put c body st)))"

text \<open>The file around the loop: created new, written as a whole when the writer is closed.\<close>

definition write_file ::
  "(pq_options \<Rightarrow> 'r list list \<Rightarrow> bytes result) \<Rightarrow> pq_options result \<Rightarrow> string \<Rightarrow> (fs \<Rightarrow> 'r write_state result) \<Rightarrow> fs \<Rightarrow>
   'r write_state result \<times> fs" where
  "write_file write options path loop fs =
     (case os_create_excl path fs of
        Inl e \<Rightarrow> (Inl (err_wrap ''create parquet'' e), fs)
      | Inr fs1 \<Rightarrow>
         (case options of
            Inl e \<Rightarrow> (Inl e, fs1)
          | Inr opts \<Rightarrow>
             (case loop fs1 of
                Inl e \<Rightarrow> (Inl e, fs1)
              | Inr st \<Rightarrow>
                 (case write opts (pw_groups (pw_flush (ws_writer st))) of
                    Inl e \<Rightarrow> (Inl (err_wrap ''close parquet writer'' e), fs1)
                  | Inr content \<Rightarrow>
                     (case os_write path content fs1 of
                        Inl e \<Rightarrow> (Inl (err_wrap ''sync parquet'' e), fs1)
                      | Inr fs2 \<Rightarrow> (Inr st, fs2))))))"

definition with_metadata :: "manifest \<Rightarrow> pq_options result \<Rightarrow> pq_options result" where
  "with_metadata m r = bind_res r (\<lambda>o1. Inr (setManifestKeyValueMetadata m o1))"

definition writeParquet ::
  "compact_env \<Rightarrow> parquet_cfg \<Rightarrow> raw_store \<Rightarrow> (nat \<Rightarrow> go_error option) \<Rightarrow> string \<Rightarrow> capture list \<Rightarrow> manifest \<Rightarrow> fs \<Rightarrow>
   Row write_state result \<times> fs" where
  "writeParquet env cfg raw ctx path captures m fs =
     write_file (ce_write_nested env) (with_metadata m (parquetWriterOptions cfg)) path
       (\<lambda>fs1. write_captures env raw fs1 ctx (write_nested env cfg) 0 captures ws_new) fs"

definition writeTripUpdateParquet ::
  "compact_env \<Rightarrow> parquet_cfg \<Rightarrow> raw_store \<Rightarrow> (nat \<Rightarrow> go_error option) \<Rightarrow> string \<Rightarrow> capture list \<Rightarrow> manifest \<Rightarrow> fs \<Rightarrow>
   TripUpdateStopRow write_state result \<times> fs" where
  "writeTripUpdateParquet env cfg raw ctx path captures m fs =
     write_file (ce_write_flat env)
       (bind_res (with_metadata m (parquetWriterOptions cfg))
          (\<lambda>o1. Inr (o1\<lparr>po_max_rows_per_group := tripUpdateRowGroupRows\<rparr>))) path
       (\<lambda>fs1. write_captures env raw fs1 ctx (write_flat env) 0 captures ws_new) fs"

section \<open>Validators\<close>

text \<open>Phase A of validateTripUpdateParquet: the row count expected of each capture.\<close>

fun expected_rows :: "compact_env \<Rightarrow> raw_store \<Rightarrow> fs \<Rightarrow> capture list \<Rightarrow> int list result" where
  "expected_rows env raw fs [] = Inr []"
| "expected_rows env raw fs (c # cs) =
     (case readVerifiedCapture env raw fs c of
        Inl e \<Rightarrow> Inl (err_wrap ''validate parquet'' e)
      | Inr body \<Rightarrow>
         (let meta = Decode (ce_decoder env) body (cap_kind c) (cap_completed c);
              n = (case meta_message meta of None \<Rightarrow> 0 | Some m \<Rightarrow> CountProjectedTripUpdateRows (Some m))
          in bind_res (expected_rows env raw fs cs) (\<lambda>ns. Inr (n # ns))))"

text \<open>The inner loop: skip to the next capture of which rows are left; \<open>None\<close> when there is none.\<close>

function advance :: "int list \<Rightarrow> nat \<Rightarrow> int \<Rightarrow> (nat \<times> int) option" where
  "advance expected captureIdx rowsLeft =
     (if rowsLeft \<noteq> 0 then Some (captureIdx, rowsLeft)
      else if captureIdx \<ge> length expected then None
      else advance expected (Suc captureIdx) (expected ! captureIdx))"
  by pat_completeness auto

termination
  by (relation "measure (\<lambda>(expected, captureIdx, _). length expected - captureIdx)") auto

declare advance.simps [simp del]

fun scan_rows :: "int list \<Rightarrow> capture list \<Rightarrow> TripUpdateStopRow list \<Rightarrow> nat \<Rightarrow> int \<Rightarrow> int \<Rightarrow> int result" where
  "scan_rows expected captures [] captureIdx rowsLeft seen = Inr seen"
| "scan_rows expected captures (row # rows) captureIdx rowsLeft seen =
     (case advance expected captureIdx rowsLeft of
        None \<Rightarrow> Inl (errors_New ''parquet contains extra rows'')
      | Some (idx, left) \<Rightarrow>
          if row_capture_id row \<noteq> cap_id (captures ! (idx - 1))
          then Inl (errors_New (''row '' @ itoa seen @ '' provenance mismatch: capture '' @ cap_id (captures ! (idx - 1)) @
               '' rows carry capture '' @ row_capture_id row))
          else scan_rows expected captures rows idx (left - 1) (seen + 1))"

definition validateTripUpdateParquet ::
  "compact_env \<Rightarrow> raw_store \<Rightarrow> fs \<Rightarrow> string \<Rightarrow> capture list \<Rightarrow> unit result" where
  "validateTripUpdateParquet env raw fs path captures =
     bind_res (expected_rows env raw fs captures) (\<lambda>expected.
     bind_res (os_readfile fs path) (\<lambda>content.
       (case ce_read_flat env content of (rows, readErr) \<Rightarrow>
         bind_res (scan_rows expected captures rows 0 0 0) (\<lambda>seen.
           (case readErr of
              Some e \<Rightarrow> Inl e
            | None \<Rightarrow> if seen \<noteq> sum_list expected
                then Inl (errors_New (''parquet row count '' @ itoa seen @ '' does not match '' @ itoa (sum_list expected) @ '' expected from inputs''))
                else Inr ())))))"

definition entity_value :: "int option \<Rightarrow> int" where
  "entity_value n = (case n of None \<Rightarrow> 0 | Some v \<Rightarrow> v)"

fun scan_nested :: "compact_env \<Rightarrow> capture list \<Rightarrow> Row list \<Rightarrow> nat \<Rightarrow> int \<Rightarrow> (nat \<times> int) result" where
  "scan_nested env expected [] index entityTotal = Inr (index, entityTotal)"
| "scan_nested env expected (row # rows) index entityTotal =
     (if index \<ge> length expected then Inl (errors_New ''parquet contains extra rows'')
      else (let c = expected ! index in
        if nr_capture_id row \<noteq> cap_id c \<or> nr_body_sha256 row \<noteq> cap_sha256 c
        then Inl (errors_New (''row '' @ itoa (int index) @ '' provenance mismatch''))
        else if ce_sha env (nr_feed_message_pb row) \<noteq> cap_sha256 c
        then Inl (errors_New (''row '' @ itoa (int index) @ '' protobuf hash mismatch''))
        else if (nr_entity_count row = None \<and> cap_entity_count c \<noteq> None) \<or>
                (nr_entity_count row \<noteq> None \<and> cap_entity_count c = None) \<or>
                (nr_entity_count row \<noteq> None \<and> cap_entity_count c \<noteq> None \<and>
                 entity_value (nr_entity_count row) \<noteq> entity_value (cap_entity_count c))
        then Inl (errors_New (''row '' @ itoa (int index) @ '' entity count mismatch''))
        else scan_nested env expected rows (Suc index) (entityTotal + entity_value (nr_entity_count row))))"

definition validateParquet :: "compact_env \<Rightarrow> fs \<Rightarrow> string \<Rightarrow> capture list \<Rightarrow> unit result" where
  "validateParquet env fs path expected =
     bind_res (os_readfile fs path) (\<lambda>content.
       (case ce_read_nested env content of (rows, readErr) \<Rightarrow>
         bind_res (scan_nested env expected rows 0 0) (\<lambda>(index, entityTotal).
           (case readErr of
              Some e \<Rightarrow> Inl e
            | None \<Rightarrow>
               if index \<noteq> length expected
               then Inl (errors_New (''parquet row count '' @ itoa (int index) @ '' does not match '' @ itoa (int (length expected)) @ '' inputs''))
               else if entityTotal \<noteq> sum_list (map (\<lambda>c. entity_value (cap_entity_count c)) expected)
               then Inl (errors_New (''parquet entity count '' @ itoa entityTotal @ '' does not match '' @
                 itoa (sum_list (map (\<lambda>c. entity_value (cap_entity_count c)) expected)) @ '' inputs''))
               else Inr ()))))"

end
