(* ===== verification/Compact_Verify.thy ===== *)
theory Compact_Verify
  imports Compact_Parquet
begin

text \<open>
  VerifyDirectory of internal/compact/compact.go: the integrity check of a revision on disk against
  its row of the database, which every later consumer of a revision runs first, and the helpers that
  the compactor shares with it.
\<close>

definition hash_file :: "compact_env \<Rightarrow> fs \<Rightarrow> string \<Rightarrow> (string \<times> int) result" where
  "hash_file env fs path = bind_res (os_readfile fs path) (\<lambda>b. Inr (ce_sha env b, int (length b)))"

definition safeRootPath :: "string \<Rightarrow> string \<Rightarrow> string result" where
  "safeRootPath rdir relative =
     (if IsAbs relative then Inl (errors_New ''artifact path must be relative'')
      else (let base = Clean rdir; artifactPath = Join [base, relative] in
        case Rel base artifactPath of
          None \<Rightarrow> Inl (errors_New ''artifact path escapes storage root'')
        | Some rel \<Rightarrow>
            if rel = ''..'' \<or> has_prefix rel ''../''
            then Inl (errors_New ''artifact path escapes storage root'') else Inr artifactPath))"

definition schemaVersionForKind :: "string \<Rightarrow> int" where
  "schemaVersionForKind expectedKind =
     (if expectedKind = ''trip_update'' then ParquetSchemaVersionTripUpdatesFlattened
      else ParquetSchemaVersionNested)"

definition requiredDestinationIDs :: "destination_cfg list \<Rightarrow> string list" where
  "requiredDestinationIDs destinations = sort (map dst_id (filter IsRequired destinations))"

definition manifestDestinations :: "destination_cfg list \<Rightarrow> manifest_destination list" where
  "manifestDestinations destinations =
     sort_key md_id (map (\<lambda>d. \<lparr>md_id = dst_id d, md_required = IsRequired d\<rparr>) destinations)"

definition expectedArtifactRows :: "manifest \<Rightarrow> int result" where
  "expectedArtifactRows m =
     (if man_schema m = ParquetSchemaVersionTripUpdatesFlattened then
        (if man_kind m \<noteq> ''trip_update''
         then Inl (errors_New (''schema version '' @ itoa ParquetSchemaVersionTripUpdatesFlattened @
                     '' is only valid for trip_update streams, got '' @ quote (man_kind m)))
         else (case man_stu_total m of
                 None \<Rightarrow> Inl (errors_New ''flattened trip_update manifest lacks stop_time_update_total'')
               | Some n \<Rightarrow> Inr n))
      else Inr (man_captured_responses m - int (length (man_excluded m))))"

text \<open>The loop over the excluded captures; \<open>seen\<close> is the map \<open>excluded\<close> so far.\<close>

fun check_excluded :: "string list \<Rightarrow> excluded_capture list \<Rightarrow> string list \<Rightarrow> unit result" where
  "check_excluded inputs [] seen = Inr ()"
| "check_excluded inputs (x # xs) seen =
     (if ex_id x = '''' \<or> ex_reason x = '''' \<or> ex_id x \<in> set seen \<or> ex_id x \<notin> set inputs
      then Inl (errors_New ''manifest has an invalid excluded capture'')
      else if ex_reason x \<noteq> ExcludedCaptureRawMissing \<and> ex_reason x \<noteq> ExcludedCaptureHashMismatch \<and>
              ex_reason x \<noteq> ExcludedCaptureReadError
      then Inl (errors_New ''manifest has an invalid excluded capture reason'')
      else check_excluded inputs xs (ex_id x # seen))"

fun check_snapshot :: "manifest_destination list \<Rightarrow> string list \<Rightarrow> string list \<Rightarrow> string list result" where
  "check_snapshot [] seen required = Inr required"
| "check_snapshot (d # ds) seen required =
     (if md_id d = '''' \<or> md_id d \<in> set seen
      then Inl (errors_New ''manifest has an invalid destination snapshot'')
      else check_snapshot ds (md_id d # seen) (if md_required d then required @ [md_id d] else required))"

definition check_destinations :: "manifest \<Rightarrow> unit result" where
  "check_destinations m =
     (if length (man_destinations m) = 0 then Inr ()
      else bind_res (check_snapshot (man_destinations m) [] []) (\<lambda>required.
        if join_with [char_of (0::nat)] (sort required) \<noteq> join_with [char_of (0::nat)] (sort (man_required_destinations m))
        then Inl (errors_New ''manifest destination snapshot is inconsistent'') else Inr ()))"

definition check_status :: "manifest \<Rightarrow> unit result" where
  "check_status m =
     (let includedCaptures = man_captured_responses m - int (length (man_excluded m)) in
      if man_dataset_status m = ''ready'' then
        (if includedCaptures \<le> 0 \<or> length (man_files m) \<noteq> 1
         then Inl (errors_New ''ready manifest must contain one non-empty capture artifact'') else Inr ())
      else if man_dataset_status m = ''no_captured_responses'' then
        (if man_captured_responses m \<noteq> 0 \<or> length (man_files m) \<noteq> 0 \<or> length (man_excluded m) \<noteq> 0
         then Inl (errors_New ''empty manifest contains capture data'') else Inr ())
      else Inl (errors_New ''manifest has an invalid dataset status''))"

text \<open>Format, schema, identity and counts, in the order of the code.\<close>

definition check_header :: "manifest \<Rightarrow> 't compaction_of \<Rightarrow> unit result" where
  "check_header m c =
     (if man_version m \<noteq> ManifestFormatVersion \<or> man_format m \<noteq> ParquetFormatVersion
      then Inl (errors_New ''manifest uses an unsupported format version'')
      else if \<not> IsSupportedParquetSchemaVersion (man_schema m)
      then Inl (errors_New ''manifest uses an unsupported schema version'')
      else if man_source m \<noteq> cp_source c \<or> man_stream m \<noteq> cp_stream c \<or> man_archive_date m \<noteq> cp_archive_date c \<or>
              man_revision m \<noteq> cp_revision c
      then Inl (errors_New ''manifest identity does not match state'')
      else if int (length (man_inputs m)) \<noteq> man_captured_responses m \<or> man_captured_responses m \<noteq> cp_rows c \<or>
              man_entity_total m \<noteq> cp_entities c
      then Inl (errors_New ''manifest aggregate counts do not match state'')
      else Inr ())"

definition check_artifact ::
  "compact_env \<Rightarrow> fs \<Rightarrow> string \<Rightarrow> manifest \<Rightarrow> int \<Rightarrow> 't compaction_of \<Rightarrow> artifact \<Rightarrow> unit result" where
  "check_artifact env fs manifestPath m expectedRows c a =
     (if Base (art_path a) \<noteq> art_path a then Inl (errors_New ''manifest artifact path is not a basename'')
      else (let path = Join [Dir manifestPath, art_path a] in
        case os_lstat fs path of
          Inl e \<Rightarrow> Inl e
        | Inr info \<Rightarrow>
            if (case info of Reg _ \<Rightarrow> False | _ \<Rightarrow> True)
            then Inl (errors_New ''manifest artifact is not a regular file'')
            else (case hash_file env fs path of
                Inl e \<Rightarrow> Inl e
              | Inr (hash, n) \<Rightarrow>
                  if hash \<noteq> art_sha256 a \<or> n \<noteq> art_bytes a
                  then Inl (errors_New (''artifact '' @ art_path a @ '' integrity mismatch''))
                  else if art_path a \<noteq> ''data-'' @ art_sha256 a @ ''.parquet'' \<or> art_rows a \<noteq> expectedRows \<or>
                          art_entities a \<noteq> man_entity_total m
                  then Inl (errors_New (''artifact '' @ art_path a @ '' metadata mismatch''))
                  else if cp_data_path c \<noteq> Join [cp_directory c, art_path a] \<or> cp_data_sha256 c \<noteq> art_sha256 a \<or>
                          cp_data_bytes c \<noteq> art_bytes a
                  then Inl (errors_New ''manifest artifact does not match compaction state'')
                  else Inr ())))"

fun check_artifacts ::
  "compact_env \<Rightarrow> fs \<Rightarrow> string \<Rightarrow> manifest \<Rightarrow> int \<Rightarrow> 't compaction_of \<Rightarrow> artifact list \<Rightarrow> unit result" where
  "check_artifacts env fs manifestPath m expectedRows c [] = Inr ()"
| "check_artifacts env fs manifestPath m expectedRows c (a # as) =
     bind_res (check_artifact env fs manifestPath m expectedRows c a)
       (\<lambda>_. check_artifacts env fs manifestPath m expectedRows c as)"

definition VerifyDirectory :: "compact_env \<Rightarrow> fs \<Rightarrow> string \<Rightarrow> 't compaction_of \<Rightarrow> unit result" where
  "VerifyDirectory env fs rdir c =
     bind_res (safeRootPath rdir (cp_manifest_path c)) (\<lambda>manifestPath.
       (case os_readfile fs manifestPath of
          Inl e \<Rightarrow> Inl (err_wrap ''read manifest'' e)
        | Inr b \<Rightarrow>
           (case ce_decode_manifest env b of
              Inl e \<Rightarrow> Inl (err_wrap ''decode manifest'' e)
            | Inr m \<Rightarrow>
               bind_res (check_header m c) (\<lambda>_.
               bind_res (check_excluded (map ic_id (man_inputs m)) (man_excluded m) []) (\<lambda>_.
               bind_res (check_status m) (\<lambda>_.
               bind_res (check_destinations m) (\<lambda>_.
               bind_res (expectedArtifactRows m) (\<lambda>expectedRows.
                 check_artifacts env fs manifestPath m expectedRows c (man_files m)))))))))"

end
