(* ===== verification/Compact.thy ===== *)
theory Compact
  imports Compact_Verify
begin

text \<open>
  Compactor.Compact of internal/compact/compact.go: selecting the revision, writing and validating
  the Parquet file in a work directory, the manifest, the rename that commits the revision
  directory, and the row of the database. The work directory is removed on every way out. The
  version, the fingerprint of the configuration, the clock and the name that MkdirTemp picks are
  fields of the argument \<open>compactor\<close>.
\<close>

record compactor =
  co_cfg :: config
  co_raw :: raw_store
  co_env :: compact_env
  co_now :: instant
  co_save_time :: instant
  co_temp_name :: string
  co_version :: string
  co_protobuf :: string
  co_fingerprint :: "config \<Rightarrow> string"
  co_load_location :: "string \<Rightarrow> location result"
  co_parse_url :: "string \<Rightarrow> url option"

record compact_request =
  cr_source :: string
  cr_stream :: string
  cr_date :: string
  cr_revision :: int

section \<open>The manifest\<close>

definition manifestSanitizedURL :: "(string \<Rightarrow> url option) \<Rightarrow> capture list \<Rightarrow> stream_cfg \<Rightarrow> string result" where
  "manifestSanitizedURL parse_url captures stream =
     (case captures of
        [] \<Rightarrow> SanitizedStreamURL parse_url (sm_url stream)
      | c # cs \<Rightarrow>
         (case find (\<lambda>d. cap_url d \<noteq> cap_url c) cs of
            Some d \<Rightarrow> Inl (errors_New (''captures disagree on sanitized URL: '' @ quote (cap_url c) @ '' vs '' @ quote (cap_url d)))
          | None \<Rightarrow> Inr (cap_url c)))"

definition initial_manifest ::
  "compactor \<Rightarrow> source_cfg \<Rightarrow> stream_cfg \<Rightarrow> location \<Rightarrow> string \<Rightarrow> int \<Rightarrow> instant \<Rightarrow> instant \<Rightarrow> capture list \<Rightarrow> day_stats \<Rightarrow> manifest" where
  "initial_manifest co source stream loc date revision day dayEnd captures stats =
     \<lparr>man_version = ManifestFormatVersion, man_dataset_status = ''ready'',
      man_source = src_id source, man_stream = sm_id stream, man_registry = src_registry source,
      man_kind = sm_kind stream, man_archive_date = date, man_timezone = loc_name loc, man_url = '''',
      man_day_start = day, man_day_end = dayEnd, man_format = ParquetFormatVersion,
      man_schema = schemaVersionForKind (sm_kind stream), man_revision = revision,
      man_predecessor = (if revision > 1 then Some (revision - 1) else None),
      man_app_version = co_version co, man_protobuf_revision = co_protobuf co,
      man_fingerprint = co_fingerprint co (co_cfg co), man_created = co_now co,
      man_scheduled_ticks = dy_scheduled stats, man_skipped_ticks = dy_skipped stats,
      man_captured_responses = int (length captures), man_valid_snapshots = 0, man_invalid_payloads = 0,
      man_http_failures = dy_http_failures stats, man_network_failures = dy_network_failures stats,
      man_failure_categories = map_of (dy_failure_categories stats), man_entity_total = 0, man_stu_total = None,
      man_earliest_capture = None, man_latest_capture = None, man_earliest_feed = None, man_latest_feed = None,
      man_largest_gap_ms = 0, man_parse_status_counts = Map.empty, man_flag_counts = Map.empty,
      man_files = [], man_inputs = [], man_excluded = [], man_license = src_license source, man_attribution = '''',
      man_required_destinations = requiredDestinationIDs (cf_destinations (co_cfg co)),
      man_destinations = manifestDestinations (cf_destinations (co_cfg co))\<rparr>"

definition bump :: "string \<Rightarrow> (string \<rightharpoonup> int) \<Rightarrow> (string \<rightharpoonup> int)" where
  "bump k m = m(k \<mapsto> (case m k of None \<Rightarrow> 0 | Some n \<Rightarrow> n) + 1)"

text \<open>\<open>t.Sub(u).Milliseconds()\<close>: the difference saturates at int64, the division truncates.\<close>

definition gap_milliseconds :: "instant \<Rightarrow> instant \<Rightarrow> int" where
  "gap_milliseconds t u = max (- (2 ^ 63)) (min (2 ^ 63 - 1) (t - u)) sdiv 1000000"

definition count_validity :: "capture \<Rightarrow> manifest \<Rightarrow> manifest" where
  "count_validity c m =
     (if cap_parse_status c = ''valid'' \<and> cap_transport_complete c then
        (let m1 = m\<lparr>man_valid_snapshots := man_valid_snapshots m + 1\<rparr> in
         case cap_feed_timestamp c of
           None \<Rightarrow> m1
         | Some v \<Rightarrow>
            (let m2 = (if man_earliest_feed m1 = None \<or> v < the (man_earliest_feed m1)
                       then m1\<lparr>man_earliest_feed := Some v\<rparr> else m1)
             in if man_latest_feed m2 = None \<or> v > the (man_latest_feed m2)
                then m2\<lparr>man_latest_feed := Some v\<rparr> else m2))
      else m\<lparr>man_invalid_payloads := man_invalid_payloads m + 1\<rparr>)"

definition add_input :: "capture \<Rightarrow> manifest \<Rightarrow> manifest" where
  "add_input c m =
     (let m1 = m\<lparr>man_inputs := man_inputs m @ [\<lparr>ic_id = cap_id c, ic_sha256 = cap_sha256 c, ic_bytes = cap_decoded_length c\<rparr>],
                 man_parse_status_counts := bump (cap_parse_status c) (man_parse_status_counts m)\<rparr>;
          m2 = count_validity c m1;
          m3 = m2\<lparr>man_flag_counts := fold bump (cap_flags c) (man_flag_counts m2)\<rparr>;
          observed = cap_completed c;
          m4 = (if man_earliest_capture m3 = None then m3\<lparr>man_earliest_capture := Some observed\<rparr> else m3);
          m5 = (case man_latest_capture m4 of
                  None \<Rightarrow> m4
                | Some l \<Rightarrow> (let gap = gap_milliseconds observed l in
                    if gap > man_largest_gap_ms m4 then m4\<lparr>man_largest_gap_ms := gap\<rparr> else m4))
      in m5\<lparr>man_latest_capture := Some observed\<rparr>)"

section \<open>The data set\<close>

text \<open>What the branch of the stream's kind leaves: the stop_time_update total, the artifact's row and
  entity counts, and the captures included and excluded.\<close>

record dataset =
  da_stops :: "int option"
  da_rows :: int
  da_entities :: int
  da_included :: "capture list"
  da_excluded :: "excluded_capture list"

definition write_dataset ::
  "compactor \<Rightarrow> (nat \<Rightarrow> go_error option) \<Rightarrow> string \<Rightarrow> string \<Rightarrow> capture list \<Rightarrow> manifest \<Rightarrow> fs \<Rightarrow> dataset result \<times> fs" where
  "write_dataset co ctx kind dataStaged captures m fs =
     (if kind = ''trip_update'' then
        (case writeTripUpdateParquet (co_env co) (cf_parquet (co_cfg co)) (co_raw co) ctx dataStaged captures m fs of
           (Inl e, fs1) \<Rightarrow> (Inl e, fs1)
         | (Inr st, fs1) \<Rightarrow>
            (case validateTripUpdateParquet (co_env co) (co_raw co) fs1 dataStaged (ws_included st) of
               Inl e \<Rightarrow> (Inl (err_wrap ''validate parquet'' e), fs1)
             | Inr _ \<Rightarrow> (Inr \<lparr>da_stops = Some (ws_stops st), da_rows = ws_stops st, da_entities = ws_entities st,
                              da_included = ws_included st, da_excluded = ws_excluded st\<rparr>, fs1)))
      else
        (case writeParquet (co_env co) (cf_parquet (co_cfg co)) (co_raw co) ctx dataStaged captures m fs of
           (Inl e, fs1) \<Rightarrow> (Inl e, fs1)
         | (Inr st, fs1) \<Rightarrow>
            (case validateParquet (co_env co) fs1 dataStaged (ws_included st) of
               Inl e \<Rightarrow> (Inl (err_wrap ''validate parquet'' e), fs1)
             | Inr _ \<Rightarrow> (Inr \<lparr>da_stops = man_stu_total m, da_rows = int (length (ws_included st)), da_entities = ws_entities st,
                              da_included = ws_included st, da_excluded = ws_excluded st\<rparr>, fs1))))"

definition build_dataset ::
  "compactor \<Rightarrow> (nat \<Rightarrow> go_error option) \<Rightarrow> string \<Rightarrow> string \<Rightarrow> capture list \<Rightarrow> manifest \<Rightarrow> fs \<Rightarrow>
   (manifest \<times> excluded_capture list) result \<times> fs" where
  "build_dataset co ctx kind workDir captures m fs =
     (if length captures = 0
      then (Inr (m\<lparr>man_dataset_status := ''no_captured_responses'',
                  man_stu_total := (if kind = ''trip_update'' then Some 0 else man_stu_total m)\<rparr>, []), fs)
      else (let dataStaged = Join [workDir, ''data.parquet''] in
        case write_dataset co ctx kind dataStaged captures m fs of
          (Inl e, fs1) \<Rightarrow> (Inl e, fs1)
        | (Inr d, fs1) \<Rightarrow>
           if length (da_included d) = 0
           then (Inl (errors_New (''all '' @ itoa (int (length captures)) @ '' captures failed verification: '' @
                        exclusionSummary (da_excluded d))), fs1)
           else (case hash_file (co_env co) fs1 dataStaged of
               Inl e \<Rightarrow> (Inl (err_wrap ''hash parquet'' e), fs1)
             | Inr (hash, n) \<Rightarrow>
                (let name = ''data-'' @ hash @ ''.parquet'' in
                 case os_rename dataStaged (Join [workDir, name]) fs1 of
                   Inl e \<Rightarrow> (Inl (err_wrap ''name content-addressed parquet'' e), fs1)
                 | Inr fs2 \<Rightarrow>
                    (Inr (m\<lparr>man_stu_total := da_stops d, man_excluded := da_excluded d, man_entity_total := da_entities d,
                           man_files := man_files m @ [\<lparr>art_path = name, art_part = 0, art_bytes = n, art_sha256 = hash,
                             art_rows = da_rows d, art_entities = da_entities d\<rparr>]\<rparr>, da_excluded d), fs2)))))"

section \<open>Committing the revision\<close>

definition os_mkdir :: "string \<Rightarrow> fs \<Rightarrow> fs result" where
  "os_mkdir p fs = bind_res (entry_place fs p) (\<lambda>q.
     case map_of fs q of None \<Rightarrow> Inr (fs_put q Directory fs) | Some _ \<Rightarrow> Inl (os_error ''file exists''))"

definition writeJSONFile :: "string \<Rightarrow> bytes \<Rightarrow> fs \<Rightarrow> fs result" where
  "writeJSONFile path content fs = bind_res (os_create_excl path fs) (os_write path content)"

definition revision_dir :: "string \<Rightarrow> string \<Rightarrow> string \<Rightarrow> int \<Rightarrow> string" where
  "revision_dir src sm date revision =
     Join [''parquet'', ''format=v1'', ''source='' @ src, ''stream='' @ sm, ''date='' @ date, ''revision='' @ itoa revision]"

text \<open>The map from destination to its required flag; a later entry with the same id replaces the
  earlier one.\<close>

fun put_destination :: "string \<Rightarrow> bool \<Rightarrow> (string \<times> bool) list \<Rightarrow> (string \<times> bool) list" where
  "put_destination k v [] = [(k, v)]"
| "put_destination k v ((k', v') # ds) = (if k = k' then (k, v) # ds else (k', v') # put_destination k v ds)"

definition destination_map :: "destination_cfg list \<Rightarrow> (string \<times> bool) list" where
  "destination_map ds = fold (\<lambda>d. put_destination (dst_id d) (IsRequired d)) ds []"

definition compaction_record ::
  "compactor \<Rightarrow> string \<Rightarrow> capture list \<Rightarrow> excluded_capture list \<Rightarrow> manifest \<Rightarrow> compaction" where
  "compaction_record co relDir captures excluded m =
     (let c = \<lparr>cp_id = 0, cp_source = man_source m, cp_stream = man_stream m, cp_archive_date = man_archive_date m,
               cp_revision = man_revision m, cp_status = ''ready'', cp_directory = relDir,
               cp_data_path = (case man_files m of [] \<Rightarrow> '''' | a # _ \<Rightarrow> Join [relDir, art_path a]),
               cp_manifest_path = Join [relDir, ''manifest.json''],
               cp_data_sha256 = (case man_files m of [] \<Rightarrow> '''' | a # _ \<Rightarrow> art_sha256 a),
               cp_data_bytes = (case man_files m of [] \<Rightarrow> 0 | a # _ \<Rightarrow> art_bytes a),
               cp_rows = int (length captures), cp_entities = man_entity_total m,
               cp_excluded = int (length excluded), cp_required = man_required_destinations m,
               cp_created = co_now co, cp_published = None\<rparr>
      in if length (man_required_destinations m) = 0 \<and> st_local_only_cleanup (cf_storage (co_cfg co))
         then c\<lparr>cp_status := ''published'', cp_published := Some (co_now co)\<rparr> else c)"

text \<open>From the work directory on: the manifest before the data set, its completion, the JSON file, the
  rename and the row.\<close>

definition compact_in ::
  "compactor \<Rightarrow> (nat \<Rightarrow> go_error option) \<Rightarrow> source_cfg \<Rightarrow> stream_cfg \<Rightarrow> string \<Rightarrow> string \<Rightarrow> string \<Rightarrow> capture list \<Rightarrow> manifest \<Rightarrow>
   fs \<Rightarrow> db \<Rightarrow> compaction result \<times> fs \<times> db" where
  "compact_in co ctx source stream relDir finalDir workDir captures m0 fs db =
     (case manifestSanitizedURL (co_parse_url co) captures stream of
        Inl e \<Rightarrow> (Inl e, fs, db)
      | Inr url \<Rightarrow>
         (case (if src_attribution source = '''' then Inr (m0\<lparr>man_url := url\<rparr>)
                else (case os_readfile fs (src_attribution source) of
                        Inl e \<Rightarrow> Inl (err_wrap ''read attribution text'' e)
                      | Inr b \<Rightarrow> Inr (m0\<lparr>man_url := url, man_attribution := trim_space b\<rparr>))) of
            Inl e \<Rightarrow> (Inl e, fs, db)
          | Inr m1 \<Rightarrow>
             (case build_dataset co ctx (sm_kind stream) workDir captures m1 fs of
                (Inl e, fs1) \<Rightarrow> (Inl e, fs1, db)
              | (Inr (m2, excluded), fs1) \<Rightarrow>
                 (let m = fold add_input captures m2 in
                  case writeJSONFile (Join [workDir, ''manifest.json'']) (ce_encode_manifest (co_env co) m) fs1 of
                    Inl e \<Rightarrow> (Inl e, fs1, db)
                  | Inr fs2 \<Rightarrow>
                     (case os_rename workDir finalDir fs2 of
                        Inl e \<Rightarrow> (Inl (err_wrap ''commit revision directory'' e), fs2, db)
                      | Inr fs3 \<Rightarrow>
                         (case SaveCompaction (compaction_record co relDir captures excluded m) (map cap_id captures)
                                 (destination_map (cf_destinations (co_cfg co))) (co_save_time co) db of
                            Inl e \<Rightarrow> (Inl (err_wrap (''record compaction (files left for repair at '' @ relDir @ '')'') e), fs3, db)
                          | Inr (c, db') \<Rightarrow> (Inr c, fs3, db')))))))"

definition select_revision :: "int \<Rightarrow> int \<Rightarrow> int result" where
  "select_revision requested nextRevision =
     (if requested \<le> 0 then Inr nextRevision
      else if requested \<noteq> nextRevision
      then Inl (errors_New (''revision must be the next immutable revision ('' @ itoa nextRevision @ '')''))
      else Inr requested)"

text \<open>A nil location (of a source that was not validated) makes time.Date panic.\<close>

definition nil_location :: go_error where
  "nil_location = errors_New ''panic: time: missing Location in call to Date''"

record compact_plan =
  cpl_source :: source_cfg
  cpl_stream :: stream_cfg
  cpl_manifest :: manifest
  cpl_captures :: "capture list"
  cpl_rel_dir :: string
  cpl_final_dir :: string

text \<open>Everything before the first change on disk.\<close>

definition prepare :: "compactor \<Rightarrow> compact_request \<Rightarrow> fs \<Rightarrow> db \<Rightarrow> compact_plan result" where
  "prepare co req fs db =
     bind_res (FindSourceStream (co_cfg co) (cr_source req) (cr_stream req)) (\<lambda>(source, stream).
     bind_res (EffectiveLocation (co_load_location co) stream source) (\<lambda>located.
     bind_res (case located of None \<Rightarrow> Inl nil_location | Some l \<Rightarrow> Inr l) (\<lambda>loc.
     bind_res (case parse_in_location (cr_date req) loc of None \<Rightarrow> Inl (errors_New ''parse archive date'') | Some d \<Rightarrow> Inr d) (\<lambda>day.
     let dayEnd = add_days loc day 1 in
     bind_res (select_revision (cr_revision req) (NextRevision (src_id source) (sm_id stream) (cr_date req) db)) (\<lambda>revision.
     bind_res (CapturesForDay (src_id source) (sm_id stream) (cr_date req) db) (\<lambda>captures.
     let stats = DayStats (src_id source) (sm_id stream) day dayEnd db;
         relDir = revision_dir (src_id source) (sm_id stream) (cr_date req) revision in
     bind_res (Absolute (co_raw co) relDir fs) (\<lambda>finalDir.
       if is_ok (os_stat fs finalDir) then Inl (errors_New (''revision directory already exists: '' @ relDir))
       else Inr \<lparr>cpl_source = source, cpl_stream = stream,
                 cpl_manifest = initial_manifest co source stream loc (cr_date req) revision day dayEnd captures stats,
                 cpl_captures = captures, cpl_rel_dir = relDir, cpl_final_dir = finalDir\<rparr>)))))))"

definition Compact ::
  "compactor \<Rightarrow> (nat \<Rightarrow> go_error option) \<Rightarrow> compact_request \<Rightarrow> fs \<Rightarrow> db \<Rightarrow> compaction result \<times> fs \<times> db" where
  "Compact co ctx req fs db =
     (case prepare co req fs db of
        Inl e \<Rightarrow> (Inl e, fs, db)
      | Inr p \<Rightarrow>
         (case os_mkdirall (Dir (cpl_final_dir p)) fs of
            Inl e \<Rightarrow> (Inl (err_wrap ''create compaction parent'' e), fs, db)
          | Inr fs1 \<Rightarrow>
             (let workDir = Join [Join [rs_root (co_raw co), ''staging''], co_temp_name co] in
              case os_mkdir workDir fs1 of
                Inl e \<Rightarrow> (Inl (err_wrap ''create compaction staging directory'' e), fs1, db)
              | Inr fs2 \<Rightarrow>
                 (case compact_in co ctx (cpl_source p) (cpl_stream p) (cpl_rel_dir p) (cpl_final_dir p) workDir
                         (cpl_captures p) (cpl_manifest p) fs2 db of
                    (r, fs3, db') \<Rightarrow> (r, os_remove_all workDir fs3, db')))))"

end
