(* ===== verification/Flatten_Props.thy ===== *)
theory Flatten_Props
  imports Flatten
begin

text \<open>
  The flattened layout as a comprehension over the entities, and what follows from it: the row
  count that compaction checks and the provenance of every row.
\<close>

definition entity_rows :: "(pmsg \<Rightarrow> TripUpdateStopRow) \<Rightarrow> pmsg \<Rightarrow> TripUpdateStopRow list" where
  "entity_rows new_row e =
     (let tu = GetTripUpdate e; base0 = trip_row tu (new_row e); stus = GetStopTimeUpdate tu in
      if \<not> IsValid tu then [] else if stus = [] then [base0] else map (stop_row base0) stus)"

lemma append_stops_eq: "append_stops base0 stus out = out @ map (stop_row base0) stus"
  by (induction stus arbitrary: out) auto

lemma project_entities_eq: "project_entities new_row es out = out @ concat (map (entity_rows new_row) es)"
  by (induction es arbitrary: out) (auto simp: entity_rows_def append_stops_eq Let_def)

definition header_row :: "pmsg \<Rightarrow> TripUpdateProvenance \<Rightarrow> pmsg \<Rightarrow> TripUpdateStopRow" where
  "header_row m prov =
     (let header = GetHeader m in entity_row prov
        (if IsValid header then GetGtfsRealtimeVersion header else [])
        (if IsValid header then pointer UintValue header 3 else None)
        (if IsValid header \<and> Has header 2 then Some (GetIncrementality header) else None))"

lemma project_stops_eq:
  "ProjectTripUpdateStops m prov = concat (map (entity_rows (header_row m prov)) (GetEntity m))"
  by (simp add: ProjectTripUpdateStops_def project_entities_eq header_row_def Let_def)

definition zero_stop_updates :: "pmsg \<Rightarrow> nat" where
  "zero_stop_updates m =
     length (filter (\<lambda>e. IsValid (GetTripUpdate e) \<and> GetStopTimeUpdate (GetTripUpdate e) = []) (GetEntity m))"

lemma count_rows_acc:
  "count_rows es n = n + int (length (concat (map (entity_rows new_row) es)))"
  by (induction es arbitrary: n) (auto simp: entity_rows_def Let_def)

lemma count_stops_acc:
  "count_stops es n + int (length (filter (\<lambda>e. IsValid (GetTripUpdate e) \<and> GetStopTimeUpdate (GetTripUpdate e) = []) es))
   = count_rows es n"
  by (induction es arbitrary: n) (auto simp: Let_def entity_rows_def count_rows_acc [of _ _ undefined])

text \<open>C25. CountProjectedTripUpdateRows is the number of rows ProjectTripUpdateStops emits, and exceeds
  CountStopTimeUpdates by the trip updates without any stop_time_update.\<close>

theorem flatten_counts:
  "int (length (ProjectTripUpdateStops m prov)) = CountProjectedTripUpdateRows (Some m) \<and>
   CountProjectedTripUpdateRows (Some m) = CountStopTimeUpdates (Some m) + int (zero_stop_updates m)"
  using count_rows_acc [of "GetEntity m" 0 "header_row m prov"] count_stops_acc [of "GetEntity m" 0]
  by (simp add: project_stops_eq CountProjectedTripUpdateRows_def CountStopTimeUpdates_def zero_stop_updates_def)

lemmas row_columns = trip_row_def stop_row_def entity_row_def header_row_def Let_def

text \<open>The provenance columns of a row.\<close>

definition row_provenance :: "TripUpdateStopRow \<Rightarrow> TripUpdateProvenance" where
  "row_provenance r = \<lparr>prov_source_file = row_source_file r, prov_feed_url = row_feed_url r,
     prov_fetch_timestamp = row_fetch_timestamp r, prov_scheduled_at = row_scheduled_at r,
     prov_source_id = row_source_id r, prov_stream_id = row_stream_id r, prov_capture_id = row_capture_id r,
     prov_archive_date = row_archive_date r, prov_archive_timezone = row_archive_timezone r,
     prov_parse_status = row_parse_status r, prov_validation_flags = row_validation_flags r\<rparr>"

lemma row_provenance_keep:
  "row_provenance (entity_row prov v ts inc e) = prov"
  "row_provenance (trip_row tu r) = row_provenance r"
  "row_provenance (stop_row r stu) = row_provenance r"
  by (simp_all add: row_provenance_def row_columns)

lemma row_entity_keep:
  "row_entity_id (entity_row prov v ts inc e) = get_scalar StringValue [] e 1"
  "row_entity_id (trip_row tu r) = row_entity_id r"
  "row_entity_id (stop_row r stu) = row_entity_id r"
  "row_is_deleted (entity_row prov v ts inc e) = GetIsDeleted e"
  "row_is_deleted (trip_row tu r) = row_is_deleted r"
  "row_is_deleted (stop_row r stu) = row_is_deleted r"
  by (simp_all add: row_columns)

lemma row_capture: "r \<in> set (ProjectTripUpdateStops m prov) \<Longrightarrow> row_provenance r = prov"
  by (auto simp: project_stops_eq entity_rows_def row_provenance_keep header_row_def Let_def split: if_splits)

text \<open>The stop columns a stop_time_update determines; a nil message leaves all of them null.\<close>

definition stop_columns :: "TripUpdateStopRow \<Rightarrow> pmsg \<Rightarrow> bool" where
  "stop_columns r stu \<longleftrightarrow>
     row_stop_sequence r = pointer uint32_value stu 1 \<and> row_stop_id r = pointer StringValue stu 4 \<and>
     row_stop_schedule_relationship r = pointer EnumValue stu 5 \<and>
     row_arrival_delay r = pointer int32_value (get_message stu 2) 1 \<and>
     row_arrival_time r = pointer IntValue (get_message stu 2) 2 \<and>
     row_arrival_uncertainty r = pointer int32_value (get_message stu 2) 3 \<and>
     row_departure_delay r = pointer int32_value (get_message stu 3) 1 \<and>
     row_departure_time r = pointer IntValue (get_message stu 3) 2 \<and>
     row_departure_uncertainty r = pointer int32_value (get_message stu 3) 3 \<and>
     row_assigned_stop_id r = pointer StringValue (get_message stu 6) 1"

lemma not_valid [simp]: "\<not> IsValid m \<Longrightarrow> field_of m n = None"
  by (cases m) (simp_all add: field_of_def)

lemma nil_message [simp]: "field_of NilMessage n = None" "get_message NilMessage n = NilMessage" "get_list NilMessage n = []"
  by (simp_all add: field_of_def get_message_def get_list_def)

lemma base_columns:
  "stop_columns (trip_row tu (entity_row prov v ts inc e)) NilMessage"
  by (simp add: stop_columns_def pointer_def row_columns)

lemma set_columns:
  assumes "stop_columns r NilMessage"
  shows "stop_columns (stop_row r stu) stu"
  using assms
  by (auto simp: stop_columns_def pointer_def stop_row_def Let_def get_scalar_def Has_def split: option.splits)

text \<open>C26. Every flattened row carries the capture's provenance and belongs to an entity with a trip
  update, whose id and deletion mark it has; its stop columns are those of one of the update's
  stop_time_updates, or all null when the update has none. No stop_time_update is left out.\<close>

theorem flatten_rows:
  "(\<forall>r \<in> set (ProjectTripUpdateStops m prov). row_provenance r = prov \<and>
     (\<exists>e \<in> set (GetEntity m). IsValid (GetTripUpdate e) \<and> row_entity_id r = get_scalar StringValue [] e 1 \<and>
        row_is_deleted r = GetIsDeleted e \<and>
        (\<exists>stu. stop_columns r stu \<and> stu \<in> set (GetStopTimeUpdate (GetTripUpdate e)) \<union>
           (if GetStopTimeUpdate (GetTripUpdate e) = [] then {NilMessage} else {})))) \<and>
   (\<forall>e \<in> set (GetEntity m). IsValid (GetTripUpdate e) \<longrightarrow>
     (\<forall>stu \<in> set (GetStopTimeUpdate (GetTripUpdate e)).
        \<exists>r \<in> set (ProjectTripUpdateStops m prov). row_entity_id r = get_scalar StringValue [] e 1 \<and> stop_columns r stu))"
proof (intro conjI ballI impI)
  fix r assume r: "r \<in> set (ProjectTripUpdateStops m prov)"
  show "row_provenance r = prov" by (rule row_capture [OF r])
  from r obtain e where e: "e \<in> set (GetEntity m)" "r \<in> set (entity_rows (header_row m prov) e)"
    by (auto simp: project_stops_eq)
  define b where "b = trip_row (GetTripUpdate e) (header_row m prov e)"
  have b: "stop_columns b NilMessage" "row_entity_id b = get_scalar StringValue [] e 1" "row_is_deleted b = GetIsDeleted e"
    by (simp_all add: b_def header_row_def Let_def base_columns row_entity_keep)
  from e(2) have v: "IsValid (GetTripUpdate e)"
    and cases: "GetStopTimeUpdate (GetTripUpdate e) = [] \<and> r = b \<or>
       (\<exists>stu \<in> set (GetStopTimeUpdate (GetTripUpdate e)). r = stop_row b stu)"
    by (auto simp: entity_rows_def b_def Let_def split: if_splits)
  show "\<exists>e \<in> set (GetEntity m). IsValid (GetTripUpdate e) \<and> row_entity_id r = get_scalar StringValue [] e 1 \<and>
        row_is_deleted r = GetIsDeleted e \<and>
        (\<exists>stu. stop_columns r stu \<and> stu \<in> set (GetStopTimeUpdate (GetTripUpdate e)) \<union>
           (if GetStopTimeUpdate (GetTripUpdate e) = [] then {NilMessage} else {}))"
    using cases
  proof
    assume "GetStopTimeUpdate (GetTripUpdate e) = [] \<and> r = b"
    with e(1) v b show ?thesis by (intro bexI [of _ e]) auto
  next
    assume "\<exists>stu \<in> set (GetStopTimeUpdate (GetTripUpdate e)). r = stop_row b stu"
    then obtain stu where "stu \<in> set (GetStopTimeUpdate (GetTripUpdate e))" "r = stop_row b stu" by blast
    with e(1) v b show ?thesis
      by (intro bexI [of _ e]) (auto simp: row_entity_keep intro!: exI [of _ stu] set_columns)
  qed
next
  fix e stu assume e: "e \<in> set (GetEntity m)" "IsValid (GetTripUpdate e)"
    and stu: "stu \<in> set (GetStopTimeUpdate (GetTripUpdate e))"
  define b where "b = trip_row (GetTripUpdate e) (header_row m prov e)"
  have "stop_row b stu \<in> set (entity_rows (header_row m prov) e)"
    using e stu by (auto simp: entity_rows_def b_def Let_def)
  then have "stop_row b stu \<in> set (ProjectTripUpdateStops m prov)"
    using e(1) by (auto simp: project_stops_eq)
  moreover have "row_entity_id (stop_row b stu) = get_scalar StringValue [] e 1" "stop_columns (stop_row b stu) stu"
    by (simp_all add: b_def header_row_def Let_def base_columns row_entity_keep set_columns)
  ultimately show "\<exists>r \<in> set (ProjectTripUpdateStops m prov).
      row_entity_id r = get_scalar StringValue [] e 1 \<and> stop_columns r stu" by blast
qed

end
