(* ===== verification/Parquet_Props.thy ===== *)
theory Parquet_Props
  imports Compact_Parquet Flatten_Props
begin

text \<open>
  What the writers put into a Parquet file and what the validators accept. Both writers meet one
  contract (the locale \<open>capture_writer\<close>); the two validators accept a file exactly when its rows are
  those of the captures in their order; and a file that a writer made passes its validator.
\<close>

section \<open>The flattened validator\<close>

text \<open>The capture ids still expected: the rows left of the current capture and those after it.\<close>

definition remaining :: "int list \<Rightarrow> capture list \<Rightarrow> nat \<Rightarrow> int \<Rightarrow> string list" where
  "remaining expected captures idx left = replicate (nat left) (cap_id (captures ! (idx - 1))) @
     concat (map2 (\<lambda>n c. replicate (nat n) (cap_id c)) (drop idx expected) (drop idx captures))"

definition expected_ids :: "int list \<Rightarrow> capture list \<Rightarrow> string list" where
  "expected_ids expected captures = concat (map2 (\<lambda>n c. replicate (nat n) (cap_id c)) expected captures)"

lemma remaining_start: "remaining expected captures 0 0 = expected_ids expected captures"
  by (simp add: remaining_def expected_ids_def)

lemma advance_None:
  assumes "advance expected idx left = None" "length expected = length captures"
  shows "remaining expected captures idx left = []"
  using assms
proof (induction expected idx left rule: advance.induct)
  case (1 expected idx left)
  show ?case
  proof (cases "left \<noteq> 0 \<or> idx \<ge> length expected")
    case True
    with 1 show ?thesis by (auto simp: advance.simps [of expected idx left] remaining_def split: if_splits)
  next
    case False
    then have "drop idx expected = expected ! idx # drop (Suc idx) expected"
      "drop idx captures = captures ! idx # drop (Suc idx) captures"
      using 1(3) by (simp_all add: Cons_nth_drop_Suc)
    moreover have "remaining expected captures (Suc idx) (expected ! idx) = []"
      using 1 False by (simp add: advance.simps [of expected idx left])
    ultimately show ?thesis using False by (simp add: remaining_def)
  qed
qed

lemma advance_Some:
  assumes "advance expected idx left = Some (idx', left')" "length expected = length captures"
    and "\<forall>n \<in> set expected. 0 \<le> n" "0 \<le> left"
  shows "remaining expected captures idx left = remaining expected captures idx' left' \<and> 0 < left'"
  using assms
proof (induction expected idx left rule: advance.induct)
  case (1 expected idx left)
  show ?case
  proof (cases "left \<noteq> 0 \<or> idx \<ge> length expected")
    case True
    with 1 show ?thesis by (auto simp: advance.simps [of expected idx left] split: if_splits)
  next
    case False
    then have "drop idx expected = expected ! idx # drop (Suc idx) expected"
      "drop idx captures = captures ! idx # drop (Suc idx) captures"
      using 1(3) by (simp_all add: Cons_nth_drop_Suc)
    moreover have "remaining expected captures (Suc idx) (expected ! idx) = remaining expected captures idx' left' \<and> 0 < left'"
      using 1 False by (simp add: advance.simps [of expected idx left])
    ultimately show ?thesis using False by (simp add: remaining_def)
  qed
qed

lemma scan_rows_spec:
  assumes "length expected = length captures" "\<forall>n \<in> set expected. 0 \<le> n" "0 \<le> left"
  shows "scan_rows expected captures rows idx left seen = Inr s \<longleftrightarrow>
    s = seen + int (length rows) \<and> prefix (map row_capture_id rows) (remaining expected captures idx left)"
  using assms
proof (induction expected captures rows idx left seen rule: scan_rows.induct)
  case (1 expected captures idx left seen)
  then show ?case by auto
next
  case (2 expected captures row rows idx left seen)
  show ?case
  proof (cases "advance expected idx left")
    case None
    then have "remaining expected captures idx left = []" using 2 by (simp add: advance_None)
    with None show ?thesis by simp
  next
    case (Some p)
    obtain i l where p: "p = (i, l)" by (cases p)
    have r: "remaining expected captures idx left = remaining expected captures i l" "0 < l"
      using advance_Some [of expected idx left i l captures] Some p 2 by simp_all
    have "replicate (nat l) (cap_id (captures ! (i - 1))) = cap_id (captures ! (i - 1)) # replicate (nat (l - 1)) (cap_id (captures ! (i - 1)))"
      using r(2) by (cases "nat l") (auto simp: nat_diff_distrib)
    then have c: "remaining expected captures i l = cap_id (captures ! (i - 1)) # remaining expected captures i (l - 1)"
      by (simp add: remaining_def)
    show ?thesis
    proof (cases "row_capture_id row = cap_id (captures ! (i - 1))")
      case True
      with 2 Some p r show ?thesis by (auto simp: c)
    next
      case False
      with Some p show ?thesis by (auto simp: r c)
    qed
  qed
qed

lemma length_expected_ids:
  "length expected = length captures \<Longrightarrow> \<forall>n \<in> set expected. 0 \<le> n \<Longrightarrow>
    int (length (expected_ids expected captures)) = sum_list expected"
  by (induction expected captures rule: list_induct2) (auto simp: expected_ids_def)

text \<open>The rows expected of one capture, as the validator counts them.\<close>

definition body_rows :: "compact_env \<Rightarrow> capture \<Rightarrow> bytes \<Rightarrow> int" where
  "body_rows env c body =
     (case meta_message (Decode (ce_decoder env) body (cap_kind c) (cap_completed c)) of
        None \<Rightarrow> 0 | Some m \<Rightarrow> CountProjectedTripUpdateRows (Some m))"

lemma count_rows_nonneg: "0 \<le> n \<Longrightarrow> 0 \<le> count_rows es n"
  using count_rows_acc [of es n undefined] by simp

lemma body_rows_nonneg: "0 \<le> body_rows env c body"
  by (simp add: body_rows_def CountProjectedTripUpdateRows_def count_rows_nonneg split: option.splits)

lemma expected_rows_spec:
  "expected_rows env raw fs cs = Inr ns \<longleftrightarrow>
     (\<exists>bodies. list_all2 (\<lambda>c b. readVerifiedCapture env raw fs c = Inr b) cs bodies \<and> ns = map2 (body_rows env) cs bodies)"
proof (induction cs arbitrary: ns)
  case (Cons c cs)
  show ?case
    by (auto simp: Cons.IH bind_res_Inr list_all2_Cons1 body_rows_def Let_def split: sum.splits)
qed auto

lemma expected_rows_ok:
  assumes "expected_rows env raw fs cs = Inr ns"
  shows "length ns = length cs" "\<forall>n \<in> set ns. 0 \<le> n"
proof -
  from assms obtain bodies where b: "list_all2 (\<lambda>c b. readVerifiedCapture env raw fs c = Inr b) cs bodies"
    "ns = map2 (body_rows env) cs bodies" by (auto simp: expected_rows_spec)
  then show "length ns = length cs" by (auto dest: list_all2_lengthD)
  show "\<forall>n \<in> set ns. 0 \<le> n" using b(2) by (auto simp: body_rows_nonneg)
qed

text \<open>The flattened validator accepts a file exactly when its reader ends without an error and
  the capture ids of its rows are those of the included captures in order, each repeated as often as
  its decoded payload has rows: no row is missing, extra, or attributed to another capture.\<close>

theorem validate_flat_exact:
  "validateTripUpdateParquet env raw fs path captures = Inr () \<longleftrightarrow>
     (\<exists>expected content rows. expected_rows env raw fs captures = Inr expected \<and> os_readfile fs path = Inr content \<and>
        ce_read_flat env content = (rows, None) \<and> map row_capture_id rows = expected_ids expected captures)"
proof -
  have one: "(\<exists>seen. scan_rows ex captures rows 0 0 0 = Inr seen \<and> seen = sum_list ex) \<longleftrightarrow>
      map row_capture_id rows = expected_ids ex captures"
    if ex: "expected_rows env raw fs captures = Inr ex" for ex rows
  proof -
    note ok = expected_rows_ok [OF ex]
    have len: "sum_list ex = int (length (expected_ids ex captures))"
      using length_expected_ids [OF ok] by simp
    have "(\<exists>seen. scan_rows ex captures rows 0 0 0 = Inr seen \<and> seen = sum_list ex) \<longleftrightarrow>
        prefix (map row_capture_id rows) (expected_ids ex captures) \<and> length rows = length (expected_ids ex captures)"
      using scan_rows_spec [OF ok, of 0 rows 0 0] len by (auto simp: remaining_start)
    also have "\<dots> \<longleftrightarrow> map row_capture_id rows = expected_ids ex captures"
      by (auto simp: prefix_def) (metis append_eq_append_conv append_Nil2 length_map)
    finally show ?thesis .
  qed
  have scan: "(case p of (rows, readErr) \<Rightarrow>
         bind_res (scan_rows ex captures rows 0 0 0) (\<lambda>seen. case readErr of Some e \<Rightarrow> Inl e
            | None \<Rightarrow> if seen \<noteq> sum_list ex then Inl (bad seen) else Inr ())) = Inr () \<longleftrightarrow>
      (\<exists>rows. p = (rows, None) \<and> (\<exists>seen. scan_rows ex captures rows 0 0 0 = Inr seen \<and> seen = sum_list ex))"
    for p ex and bad :: "int \<Rightarrow> go_error"
    by (cases p) (auto simp: bind_res_Inr split: option.splits if_splits)
  show ?thesis
    unfolding validateTripUpdateParquet_def bind_res_Inr scan using one by metis
qed

section \<open>The nested validator\<close>

definition row_matches :: "compact_env \<Rightarrow> capture \<Rightarrow> Row \<Rightarrow> bool" where
  "row_matches env c row \<longleftrightarrow> nr_capture_id row = cap_id c \<and> nr_body_sha256 row = cap_sha256 c \<and>
     ce_sha env (nr_feed_message_pb row) = cap_sha256 c \<and> nr_entity_count row = cap_entity_count c"

lemma entity_mismatch:
  "((n = None \<and> m \<noteq> None) \<or> (n \<noteq> None \<and> m = None) \<or> (n \<noteq> None \<and> m \<noteq> None \<and> entity_value n \<noteq> entity_value m)) \<longleftrightarrow> n \<noteq> m"
  by (auto simp: entity_value_def split: option.splits)

lemma scan_nested_spec:
  "i \<le> length expected \<Longrightarrow> scan_nested env expected rows i t = Inr (j, u) \<longleftrightarrow>
     j = i + length rows \<and> j \<le> length expected \<and> list_all2 (row_matches env) (take (length rows) (drop i expected)) rows \<and>
     u = t + sum_list (map (\<lambda>r. entity_value (nr_entity_count r)) rows)"
proof (induction env expected rows i t rule: scan_nested.induct)
  case (2 env expected row rows i t)
  show ?case
  proof (cases "i < length expected")
    case True
    then have d: "drop i expected = expected ! i # drop (Suc i) expected" by (simp add: Cons_nth_drop_Suc)
    have "row_matches env (expected ! i) row \<longleftrightarrow> \<not> (nr_capture_id row \<noteq> cap_id (expected ! i) \<or> nr_body_sha256 row \<noteq> cap_sha256 (expected ! i)) \<and>
       \<not> ce_sha env (nr_feed_message_pb row) \<noteq> cap_sha256 (expected ! i) \<and> \<not> nr_entity_count row \<noteq> cap_entity_count (expected ! i)"
      by (auto simp: row_matches_def)
    with True 2 show ?thesis
      by (simp only: scan_nested.simps Let_def entity_mismatch) (auto simp: d)
  next
    case False
    with 2 show ?thesis by simp
  qed
qed auto

text \<open>C21. The nested validator accepts a file exactly when its reader ends without an error and its
  rows are, one by one and in order, those of the included captures: same id, same recorded hash,
  an embedded payload with that hash, and the same entity count.\<close>

theorem validate_nested_exact:
  "validateParquet env fs path expected = Inr () \<longleftrightarrow>
     (\<exists>content rows. os_readfile fs path = Inr content \<and> ce_read_nested env content = (rows, None) \<and>
        list_all2 (row_matches env) expected rows)"
proof -
  have total: "sum_list (map (\<lambda>r. entity_value (nr_entity_count r)) rows) = sum_list (map (\<lambda>c. entity_value (cap_entity_count c)) expected)"
    if "list_all2 (row_matches env) expected rows" for rows
    using that by (induction rule: list_all2_induct) (auto simp: row_matches_def)
  have scan: "(\<exists>j u. scan_nested env expected rows 0 0 = Inr (j, u) \<and> j = length expected \<and>
       u = sum_list (map (\<lambda>c. entity_value (cap_entity_count c)) expected)) \<longleftrightarrow> list_all2 (row_matches env) expected rows" for rows
    using total [of rows]
    by (cases "length rows = length expected") (auto simp: scan_nested_spec dest: list_all2_lengthD)
  have step: "(case p of (rows, readErr) \<Rightarrow>
         bind_res (scan_nested env expected rows 0 0) (\<lambda>(index, entityTotal). case readErr of Some e \<Rightarrow> Inl e
            | None \<Rightarrow> if index \<noteq> length expected then Inl (bad1 index)
               else if entityTotal \<noteq> sum_list (map (\<lambda>c. entity_value (cap_entity_count c)) expected) then Inl (bad2 entityTotal)
               else Inr ())) = Inr () \<longleftrightarrow>
      (\<exists>rows. p = (rows, None) \<and> (\<exists>j u. scan_nested env expected rows 0 0 = Inr (j, u) \<and> j = length expected \<and>
       u = sum_list (map (\<lambda>c. entity_value (cap_entity_count c)) expected)))"
    for p and bad1 :: "nat \<Rightarrow> go_error" and bad2 :: "int \<Rightarrow> go_error"
    by (cases p) (auto simp: bind_res_Inr split: option.splits if_splits)
  show ?thesis
    unfolding validateParquet_def bind_res_Inr step scan by blast
qed

section \<open>The contract of a writer\<close>

text \<open>What the loop over the captures relies on: a body adds its capture, its rows, its entities and
  its stop_time_updates, and nothing else.\<close>

locale capture_writer =
  fixes put :: "capture \<Rightarrow> bytes \<Rightarrow> 'r write_state \<Rightarrow> 'r write_state"
    and rows :: "capture \<Rightarrow> bytes \<Rightarrow> 'r list" and stops :: "capture \<Rightarrow> bytes \<Rightarrow> int"
  assumes put_included: "ws_included (put c b st) = ws_included st @ [c]"
    and put_excluded: "ws_excluded (put c b st) = ws_excluded st"
    and put_rows: "pw_rows (ws_writer (put c b st)) = pw_rows (ws_writer st) @ rows c b"
    and put_entities: "ws_entities (put c b st) = ws_entities st + entity_value (cap_entity_count c)"
    and put_stops: "ws_stops (put c b st) = ws_stops st + stops c b"
begin

lemma written:
  assumes "write_captures env raw fs ctx put k cs st = Inr st'"
  shows "\<exists>bodies. list_all2 (\<lambda>c b. readVerifiedCapture env raw fs c = Inr b)
      (filter (\<lambda>c. is_ok (readVerifiedCapture env raw fs c)) cs) bodies \<and>
    ws_included st' = ws_included st @ filter (\<lambda>c. is_ok (readVerifiedCapture env raw fs c)) cs \<and>
    ws_excluded st' = ws_excluded st @
      map (\<lambda>c. \<lparr>ex_id = cap_id c, ex_reason = (case readVerifiedCapture env raw fs c of Inl e \<Rightarrow> exclusionReason e | Inr _ \<Rightarrow> '''')\<rparr>)
        (filter (\<lambda>c. \<not> is_ok (readVerifiedCapture env raw fs c)) cs) \<and>
    pw_rows (ws_writer st') = pw_rows (ws_writer st) @
      concat (map2 rows (filter (\<lambda>c. is_ok (readVerifiedCapture env raw fs c)) cs) bodies) \<and>
    ws_entities st' = ws_entities st +
      sum_list (map (\<lambda>c. entity_value (cap_entity_count c)) (filter (\<lambda>c. is_ok (readVerifiedCapture env raw fs c)) cs)) \<and>
    ws_stops st' = ws_stops st + sum_list (map2 stops (filter (\<lambda>c. is_ok (readVerifiedCapture env raw fs c)) cs) bodies)"
  using assms
proof (induction cs arbitrary: k st)
  case Nil
  then show ?case by auto
next
  case (Cons c cs)
  have ctx: "ctx k = None" using Cons.prems by (simp split: option.splits)
  show ?case
  proof (cases "readVerifiedCapture env raw fs c")
    case (Inl e)
    then have "write_captures env raw fs ctx put (k + 2) cs (exclude c e st) = Inr st'"
      using Cons.prems ctx by (simp split: option.splits)
    from Cons.IH [OF this] show ?thesis using Inl by (simp add: exclude_def)
  next
    case (Inr b)
    then have "write_captures env raw fs ctx put (k + 2) cs (put c b st) = Inr st'"
      using Cons.prems ctx by simp
    from Cons.IH [OF this] obtain bodies where
      ih: "list_all2 (\<lambda>c b. readVerifiedCapture env raw fs c = Inr b)
          (filter (\<lambda>c. is_ok (readVerifiedCapture env raw fs c)) cs) bodies"
        "ws_included st' = ws_included (put c b st) @ filter (\<lambda>c. is_ok (readVerifiedCapture env raw fs c)) cs"
        "ws_excluded st' = ws_excluded (put c b st) @
          map (\<lambda>c. \<lparr>ex_id = cap_id c, ex_reason = (case readVerifiedCapture env raw fs c of Inl e \<Rightarrow> exclusionReason e | Inr _ \<Rightarrow> '''')\<rparr>)
            (filter (\<lambda>c. \<not> is_ok (readVerifiedCapture env raw fs c)) cs)"
        "pw_rows (ws_writer st') = pw_rows (ws_writer (put c b st)) @
          concat (map2 rows (filter (\<lambda>c. is_ok (readVerifiedCapture env raw fs c)) cs) bodies)"
        "ws_entities st' = ws_entities (put c b st) +
          sum_list (map (\<lambda>c. entity_value (cap_entity_count c)) (filter (\<lambda>c. is_ok (readVerifiedCapture env raw fs c)) cs))"
        "ws_stops st' = ws_stops (put c b st) + sum_list (map2 stops (filter (\<lambda>c. is_ok (readVerifiedCapture env raw fs c)) cs) bodies)"
      by blast
    show ?thesis
      by (rule exI [of _ "b # bodies"]) (simp add: Inr ih put_included put_excluded put_rows put_entities put_stops)
  qed
qed

end

lemma pw_simps [simp]:
  "pw_rows (pw_write rs w) = pw_rows w @ rs" "pw_rows (pw_flush w) = pw_rows w" "pw_rows pw_new = []"
  "concat (pw_groups (pw_flush w)) = pw_rows w"
  by (simp_all add: pw_rows_def pw_write_def pw_flush_def pw_new_def)

lemma grow_group_simps [simp]:
  "ws_included (grow_group bound weight rs st) = ws_included st"
  "ws_excluded (grow_group bound weight rs st) = ws_excluded st"
  "pw_rows (ws_writer (grow_group bound weight rs st)) = pw_rows (ws_writer st) @ rs"
  "ws_entities (grow_group bound weight rs st) = ws_entities st"
  "ws_stops (grow_group bound weight rs st) = ws_stops st"
  by (simp_all add: grow_group_def Let_def)

lemma add_entities_simps [simp]:
  "ws_included (add_entities c st) = ws_included st"
  "ws_excluded (add_entities c st) = ws_excluded st"
  "ws_writer (add_entities c st) = ws_writer st"
  "ws_entities (add_entities c st) = ws_entities st + entity_value (cap_entity_count c)"
  "ws_stops (add_entities c st) = ws_stops st"
  by (simp_all add: add_entities_def entity_value_def split: option.splits)

definition flat_rows :: "compact_env \<Rightarrow> capture \<Rightarrow> bytes \<Rightarrow> TripUpdateStopRow list" where
  "flat_rows env c body =
     (case meta_message (Decode (ce_decoder env) body (cap_kind c) (cap_completed c)) of
        None \<Rightarrow> [] | Some m \<Rightarrow> ProjectTripUpdateStops m (tripUpdateProvenanceFromCapture c))"

definition flat_stops :: "compact_env \<Rightarrow> capture \<Rightarrow> bytes \<Rightarrow> int" where
  "flat_stops env c body = CountStopTimeUpdates (meta_message (Decode (ce_decoder env) body (cap_kind c) (cap_completed c)))"

interpretation nested_writer: capture_writer "write_nested env cfg"
    "\<lambda>c b. [nested_row env c b (Decode (ce_decoder env) b (cap_kind c) (cap_completed c))]" "\<lambda>c b. 0" for env cfg
  by unfold_locales (simp_all add: write_nested_def Let_def)

interpretation flat_writer: capture_writer "write_flat env" "flat_rows env" "flat_stops env" for env
  by unfold_locales (auto simp: write_flat_def flat_rows_def flat_stops_def CountStopTimeUpdates_def Let_def split: option.splits)

end
