(* ===== verification/Written_Valid.thy ===== *)
theory Written_Valid
  imports Parquet_Props
begin

text \<open>
  A file that a writer made passes its validator: reading a capture depends only on the nodes along
  its path, so writing below the staging directory does not change what the second reading of the
  captures gives, and the rows read back are those expected.
\<close>

section \<open>Reading depends on the path only\<close>

definition same_along :: "string list \<Rightarrow> fs \<Rightarrow> fs \<Rightarrow> bool" where
  "same_along p fs fs' \<longleftrightarrow> (\<forall>k \<in> {1..length p}. map_of fs (take k p) = map_of fs' (take k p))"

lemma same_along_prefix: "same_along (p @ q) fs fs' \<Longrightarrow> same_along p fs fs'"
  by (auto simp: same_along_def dest!: bspec)

lemma same_along_last: "same_along (p @ [c] @ q) fs fs' \<Longrightarrow> map_of fs (p @ [c]) = map_of fs' (p @ [c])"
  unfolding same_along_def by (drule bspec [of _ _ "Suc (length p)"]) auto

lemma real_dirs_same: "same_along p fs fs' \<Longrightarrow> real_dirs fs p \<Longrightarrow> real_dirs fs' p"
  by (auto simp: same_along_def real_dirs_def)

lemma lstat_below_file:
  assumes "real_dirs fs cur" "map_of fs (cur @ [c]) = Some (Reg b)" "\<forall>x \<in> set (cur @ c # y # ys). plain_comp x"
  shows "os_lstat fs (abs_path (cur @ c # y # ys)) = Inl (os_error ''not a directory'')"
  using assms realpath_dirs [of fs "[]" cur link_limit False "c # y # ys"]
  by (simp add: os_lstat_def comps_abs_path)

lemma lstat_entry_join:
  assumes "real_dirs fs cur" "\<forall>x \<in> set (cur @ [c]). plain_comp x"
  shows "os_lstat fs (Join [abs_path cur, c]) = (case map_of fs (cur @ [c]) of None \<Rightarrow> Inl not_exist | Some n \<Rightarrow> Inr n)"
  using Join_root_plain [of cur "[c]"] os_lstat_entry [OF assms] assms by simp

lemma check_parts_file:
  assumes "real_dirs fs cur" "map_of fs (cur @ [c]) = Some (Reg b)" "\<forall>x \<in> set (cur @ c # vs). plain_comp x"
  shows "check_parts fs (abs_path (cur @ [c])) vs = (if vs = [] then Inr () else Inl (os_error ''not a directory''))"
proof (cases vs)
  case (Cons y ys)
  have "Join [abs_path (cur @ [c]), y] = abs_path (cur @ c # [y])"
    using Join_root_plain [of "cur @ [c]" "[y]"] assms(3) Cons by simp
  with lstat_below_file [OF assms(1,2), of y "[]"] assms(3) Cons show ?thesis
    by (simp add: Let_def os_error_def errors_New_def errors_Is_def del: Join.simps)
qed simp

lemma check_parts_same:
  assumes "same_along (cur @ vs) fs fs'" "real_dirs fs cur" "\<forall>c \<in> set (cur @ vs). plain_comp c"
  shows "check_parts fs (abs_path cur) vs = check_parts fs' (abs_path cur) vs"
  using assms
proof (induction vs arbitrary: cur)
  case (Cons c vs)
  have d: "real_dirs fs' cur" by (rule real_dirs_same [OF same_along_prefix [OF Cons.prems(1)] Cons.prems(2)])
  have n: "map_of fs (cur @ [c]) = map_of fs' (cur @ [c])" using same_along_last [of cur c vs] Cons.prems(1) by simp
  have pl: "\<forall>x \<in> set (cur @ [c]). plain_comp x" using Cons.prems(3) by auto
  have j: "Join [abs_path cur, c] = abs_path (cur @ [c])" using Join_root_plain [of cur "[c]"] pl by simp
  note l = os_lstat_entry [OF Cons.prems(2) pl] os_lstat_entry [OF d pl]
  show ?case
  proof (cases "map_of fs (cur @ [c])")
    case None
    with n l j show ?thesis by (simp add: Let_def not_exist_def errors_Is_def del: Join.simps)
  next
    case (Some node)
    show ?thesis
    proof (cases node)
      case (Reg b)
      with Some n l j check_parts_file [OF Cons.prems(2), of c b vs] check_parts_file [OF d, of c b vs] Cons.prems(3)
      show ?thesis by (simp add: Let_def del: Join.simps)
    next
      case Directory
      with Some have "real_dirs fs (cur @ [c])" using Cons.prems(2) by (simp add: real_dirs_snoc)
      with Cons.IH [of "cur @ [c]"] Cons.prems Some n l j Directory show ?thesis
        by (simp add: Let_def del: Join.simps)
    next
      case (Symlink t)
      with Some n l j show ?thesis by (simp add: Let_def del: Join.simps)
    qed
  qed
qed simp

lemma realpath_same:
  assumes "check_parts fs (abs_path cur) vs = Inr ()" "same_along (cur @ vs) fs fs'" "real_dirs fs cur"
    and "\<forall>c \<in> set (cur @ vs). plain_comp c"
  shows "realpath n fs follow cur vs = realpath n fs' follow cur vs"
  using assms
proof (induction vs arbitrary: cur)
  case (Cons c vs)
  have m: "map_of fs (cur @ [c]) = map_of fs' (cur @ [c])" using same_along_last [of cur c vs] Cons.prems(2) by simp
  have pl: "\<forall>x \<in> set (cur @ [c]). plain_comp x" using Cons.prems(4) by auto
  have j: "Join [abs_path cur, c] = abs_path (cur @ [c])" using Join_root_plain [of cur "[c]"] pl by simp
  note l = os_lstat_entry [OF Cons.prems(3) pl]
  show ?case
  proof (cases "map_of fs (cur @ [c])")
    case (Some node)
    show ?thesis
    proof (cases node)
      case Directory
      with Some have "real_dirs fs (cur @ [c])" using Cons.prems(3) by (simp add: real_dirs_snoc)
      moreover have "check_parts fs (abs_path (cur @ [c])) vs = Inr ()"
        using Cons.prems(1) Some Directory l j by (simp add: Let_def del: Join.simps)
      ultimately show ?thesis using Cons.IH [of "cur @ [c]"] Cons.prems Some m Directory by simp
    next
      case (Symlink t)
      with Some l j Cons.prems(1) show ?thesis by (simp add: Let_def del: Join.simps)
    qed (use Some m in simp)
  qed (use m in simp)
qed simp

lemma stat_same:
  assumes "check_parts fs (abs_path rcs) vs = Inr ()" "same_along (rcs @ vs) fs fs'" "real_dirs fs rcs"
    and "\<forall>c \<in> set (rcs @ vs). plain_comp c" "vs \<noteq> []"
  shows "bind_res (realpath n fs follow [] (rcs @ vs)) (\<lambda>q. Inr (node_at fs q)) =
    bind_res (realpath n fs' follow [] (rcs @ vs)) (\<lambda>q. Inr (node_at fs' q))"
proof -
  have r: "real_dirs fs' rcs" by (rule real_dirs_same [OF same_along_prefix [OF assms(2)] assms(3)])
  have eq: "realpath n fs follow [] (rcs @ vs) = realpath n fs' follow [] (rcs @ vs)"
    using realpath_same [OF assms(1-4), of n follow] realpath_dirs [of fs "[]" rcs n follow vs]
      realpath_dirs [of fs' "[]" rcs n follow vs] assms(3) r by simp
  show ?thesis
  proof (cases "realpath n fs follow [] (rcs @ vs)")
    case (Inr q)
    then have "q = rcs @ vs" by (rule check_parts_reach [OF assms(1,3,4)])
    moreover have "map_of fs (rcs @ vs) = map_of fs' (rcs @ vs)"
      using assms(2,5) by (auto simp: same_along_def dest!: bspec [of _ _ "length (rcs @ vs)"] simp: Suc_le_eq)
    ultimately show ?thesis using Inr eq by (simp add: node_at_def)
  qed (use eq in simp)
qed

lemma safePath_same:
  assumes "\<forall>c \<in> set rcs. plain_comp c" "real_dirs fs rcs" "same_along (rcs @ comps rel) fs fs'"
  shows "safePath fs (abs_path rcs) rel = safePath fs' (abs_path rcs) rel"
proof (cases "IsAbs rel \<or> Clean rel = ''.'' \<or> escapes (Clean rel)")
  case True
  then show ?thesis by (auto simp: safePath_def Let_def)
next
  case False
  note c = clean_inside [of rel]
  have ne: "rel \<noteq> []" using False by (auto simp: Clean_def)
  have "check_parts fs (abs_path rcs) (comps rel) = check_parts fs' (abs_path rcs) (comps rel)"
    by (rule check_parts_same [OF assms(3,2)]) (use assms(1) c False in auto)
  then show ?thesis using safePath_eq [OF assms(1), of rel] c ne False by simp
qed

lemma Read_same:
  assumes "store_at raw rcs fs" "same_along (rcs @ comps rel) fs fs'"
  shows "Read raw rel fs = Read raw rel fs'"
proof -
  have pr: "\<forall>c \<in> set rcs. plain_comp c" and rd: "real_dirs fs rcs" and root: "rs_root raw = abs_path rcs"
    using assms(1) real_dirs_append [of fs rcs "[''staging'']"] by (auto simp: store_at_def)
  note sp = safePath_same [OF pr rd assms(2)]
  show ?thesis
  proof (cases "safePath fs (abs_path rcs) rel")
    case (Inl e)
    moreover have "safePath fs' (abs_path rcs) rel = Inl e" using Inl sp by simp
    ultimately show ?thesis by (simp add: Read_def root)
  next
    case (Inr p)
    note sh = safePath_shape [OF pr Inr]
    have pl: "\<forall>c \<in> set (rcs @ comps rel). plain_comp c" using pr sh(2) by auto
    have cp: "comps p = rcs @ comps rel" unfolding sh(3) by (rule comps_abs_path [OF pl])
    note st = stat_same [OF sh(4) assms(2) rd pl sh(1)]
    have l: "os_lstat fs p = os_lstat fs' p" and s: "os_stat fs p = os_stat fs' p"
      using st by (simp_all add: os_lstat_def os_stat_def cp)
    have r: "os_readfile fs p = os_readfile fs' p" by (simp add: os_readfile_def s)
    have sp': "safePath fs' (abs_path rcs) rel = Inr p" using Inr sp by simp
    show ?thesis unfolding Read_def root Inr sp' sum.case l r by simp
  qed
qed

section \<open>What writing a file leaves\<close>

lemma write_file_ok:
  assumes "write_file write options path loop fs = (Inr st, fs')"
    and "comps path = d @ [x]" "real_dirs fs d" "map_of fs [] = None"
  shows "\<exists>opts content. map_of fs (d @ [x]) = None \<and> options = Inr opts \<and> loop (fs_put (d @ [x]) (Reg []) fs) = Inr st \<and>
    write opts (pw_groups (pw_flush (ws_writer st))) = Inr content \<and>
    fs' = fs_put (d @ [x]) (Reg content) (fs_put (d @ [x]) (Reg []) fs)"
proof -
  from assms(1) obtain fs1 opts content where c: "os_create_excl path fs = Inr fs1" and o: "options = Inr opts"
    and l: "loop fs1 = Inr st" and w: "write opts (pw_groups (pw_flush (ws_writer st))) = Inr content"
    and p: "os_write path content fs1 = Inr fs'"
    by (auto simp: write_file_def split: sum.splits)
  have none: "map_of fs (d @ [x]) = None" and f1: "fs1 = fs_put (d @ [x]) (Reg []) fs"
    using c entry_place_real [OF assms(2-4)] by (auto simp: os_create_excl_def split: option.splits)
  have "real_dirs fs1 d" unfolding f1
    by (rule real_dirs_put [OF assms(3)]) (auto dest!: arg_cong [where f = length])
  then have "os_write path content fs1 = Inr (fs_put (d @ [x]) (Reg content) fs1)"
    by (rule write_file [OF assms(2)]) (simp add: f1)
  with p have "fs' = fs_put (d @ [x]) (Reg content) fs1" by simp
  with none o l w f1 show ?thesis by blast
qed

definition same_identity :: "Row \<Rightarrow> Row \<Rightarrow> bool" where
  "same_identity r r' \<longleftrightarrow> nr_capture_id r = nr_capture_id r' \<and> nr_body_sha256 r = nr_body_sha256 r' \<and>
     nr_feed_message_pb r = nr_feed_message_pb r' \<and> nr_entity_count r = nr_entity_count r'"

text \<open>What the source relies on of the Parquet library: the reader delivers the written rows in order
  and then io.EOF, with their identifying columns unchanged. (Columns of time are stored in
  microseconds and do not come back exactly.)\<close>

definition parquet_faithful :: "compact_env \<Rightarrow> bool" where
  "parquet_faithful env \<longleftrightarrow>
     (\<forall>opts groups content. ce_write_flat env opts groups = Inr content \<longrightarrow>
        (\<exists>rows. ce_read_flat env content = (rows, None) \<and> map row_capture_id rows = map row_capture_id (concat groups))) \<and>
     (\<forall>opts groups content. ce_write_nested env opts groups = Inr content \<longrightarrow>
        (\<exists>rows. ce_read_nested env content = (rows, None) \<and> list_all2 same_identity (concat groups) rows))"

text \<open>Captures lie below raw, work files below the staging directory.\<close>

definition below_raw :: "capture \<Rightarrow> bool" where
  "below_raw c \<longleftrightarrow> take 1 (comps (cap_raw_path c)) = [''raw'']"

lemma reads_unchanged:
  assumes "store_at raw rcs fs" "below_raw c" "fs' = fs_put (rcs @ ''staging'' # p) n fs"
  shows "readVerifiedCapture env raw fs' c = readVerifiedCapture env raw fs c"
proof -
  have "same_along (rcs @ comps (cap_raw_path c)) fs fs'"
    unfolding same_along_def
  proof
    fix k
    have "take k (rcs @ comps (cap_raw_path c)) \<noteq> rcs @ ''staging'' # p"
    proof
      assume e: "take k (rcs @ comps (cap_raw_path c)) = rcs @ ''staging'' # p"
      then have "length rcs < k" by (auto dest!: arg_cong [where f = length])
      then have "take (k - length rcs) (comps (cap_raw_path c)) = ''staging'' # p" using e by simp
      then have "take 1 (comps (cap_raw_path c)) = [''staging'']"
        by (cases "comps (cap_raw_path c)"; cases "k - length rcs") auto
      then show False using assms(2) by (simp add: below_raw_def)
    qed
    then show "map_of fs (take k (rcs @ comps (cap_raw_path c))) = map_of fs' (take k (rcs @ comps (cap_raw_path c)))"
      by (simp add: assms(3))
  qed
  then show ?thesis using Read_same [OF assms(1)] by (simp add: readVerifiedCapture_def)
qed

lemma take_shorter: "length q < length r \<Longrightarrow> take k q \<noteq> r"
  by (metis length_take min.cobounded1 leD)

lemma store_at_put:
  assumes "store_at raw rcs fs" "p \<noteq> []"
  shows "store_at raw rcs (fs_put (rcs @ ''staging'' # p) n fs)"
proof -
  have "take k (rcs @ [''staging'']) \<noteq> rcs @ ''staging'' # p" for k
    by (rule take_shorter) (use assms(2) in simp)
  then have "real_dirs (fs_put (rcs @ ''staging'' # p) n fs) (rcs @ [''staging''])"
    using assms(1) by (intro real_dirs_put) (auto simp: store_at_def simp del: take_append)
  with assms(1) show ?thesis by (simp add: store_at_def)
qed

lemma expected_ids_rows:
  "length cs = length bodies \<Longrightarrow> expected_ids (map2 (body_rows env) cs bodies) cs =
    map row_capture_id (concat (map2 (flat_rows env) cs bodies))"
proof (induction cs bodies rule: list_induct2)
  case (Cons c cs b bodies)
  have "replicate (nat (body_rows env c b)) (cap_id c) = map row_capture_id (flat_rows env c b)"
  proof (cases "meta_message (Decode (ce_decoder env) b (cap_kind c) (cap_completed c))")
    case (Some m)
    have "\<forall>r \<in> set (ProjectTripUpdateStops m (tripUpdateProvenanceFromCapture c)). row_capture_id r = cap_id c"
      using row_capture [of _ m "tripUpdateProvenanceFromCapture c"]
      by (metis TripUpdateProvenance.select_convs(7) row_provenance_def tripUpdateProvenanceFromCapture_def)
    then have "map row_capture_id (ProjectTripUpdateStops m (tripUpdateProvenanceFromCapture c)) =
        replicate (length (ProjectTripUpdateStops m (tripUpdateProvenanceFromCapture c))) (cap_id c)"
      by (metis map_replicate_const map_eq_conv)
    with Some count_rows_acc [of "GetEntity m" 0 "header_row m (tripUpdateProvenanceFromCapture c)"] show ?thesis
      by (simp add: body_rows_def flat_rows_def CountProjectedTripUpdateRows_def project_stops_eq)
  qed (simp add: body_rows_def flat_rows_def)
  with Cons show ?case by (simp add: expected_ids_def)
qed (simp add: expected_ids_def)

text \<open>C20. A flattened file that the writer reports as written passes validateTripUpdateParquet: the
  number of rows the writer emits for each included capture is the number the validator counts, in
  the same order, whatever captures were excluded.\<close>

theorem flat_write_validates:
  assumes "writeTripUpdateParquet env cfg raw ctx path captures m fs = (Inr st, fs')"
    and "store_at raw rcs fs" "comps path = rcs @ [''staging'', tmp] @ [x]" "real_dirs fs (rcs @ [''staging'', tmp])"
    and "parquet_faithful env" "\<forall>c \<in> set captures. below_raw c"
  shows "validateTripUpdateParquet env raw fs' path (ws_included st) = Inr ()"
proof -
  have nil: "map_of fs [] = None" using assms(2) by (simp add: store_at_def)
  have cp: "comps path = (rcs @ [''staging'', tmp]) @ [x]" using assms(3) by simp
  obtain opts content where none: "map_of fs ((rcs @ [''staging'', tmp]) @ [x]) = None"
    and loop: "write_captures env raw (fs_put ((rcs @ [''staging'', tmp]) @ [x]) (Reg []) fs) ctx (write_flat env) 0 captures ws_new = Inr st"
    and w: "ce_write_flat env opts (pw_groups (pw_flush (ws_writer st))) = Inr content"
    and f': "fs' = fs_put ((rcs @ [''staging'', tmp]) @ [x]) (Reg content) (fs_put ((rcs @ [''staging'', tmp]) @ [x]) (Reg []) fs)"
    using write_file_ok [OF assms(1) [unfolded writeTripUpdateParquet_def] cp assms(4) nil] by blast
  define fs1 where "fs1 = fs_put (rcs @ ''staging'' # [tmp, x]) (Reg []) fs"
  have f1: "fs_put ((rcs @ [''staging'', tmp]) @ [x]) (Reg []) fs = fs1" by (simp add: fs1_def)
  have fs': "fs' = fs_put (rcs @ ''staging'' # [tmp, x]) (Reg content) fs1" using f' f1 by simp
  have st1: "store_at raw rcs fs1" unfolding fs1_def by (rule store_at_put [OF assms(2)]) simp
  obtain bodies where b: "list_all2 (\<lambda>c b. readVerifiedCapture env raw fs1 c = Inr b)
        (filter (\<lambda>c. is_ok (readVerifiedCapture env raw fs1 c)) captures) bodies"
    and inc: "ws_included st = filter (\<lambda>c. is_ok (readVerifiedCapture env raw fs1 c)) captures"
    and rows: "pw_rows (ws_writer st) = concat (map2 (flat_rows env) (ws_included st) bodies)"
    using flat_writer.written [OF loop [unfolded f1]] by (auto simp: ws_new_def)
  have "list_all2 (\<lambda>c b. readVerifiedCapture env raw fs' c = Inr b) (ws_included st) bodies"
    using b unfolding inc [symmetric]
    by (rule list.rel_mono_strong) (use inc assms(6) reads_unchanged [OF st1 _ fs'] in auto)
  then have ex: "expected_rows env raw fs' (ws_included st) = Inr (map2 (body_rows env) (ws_included st) bodies)"
    unfolding expected_rows_spec by blast
  have rd: "os_readfile fs' path = Inr content"
    by (rule read_file [OF cp]) (auto simp: fs' fs1_def intro!: real_dirs_put assms(4) dest!: arg_cong [where f = length])
  obtain rs where r: "ce_read_flat env content = (rs, None)"
    "map row_capture_id rs = map row_capture_id (concat (pw_groups (pw_flush (ws_writer st))))"
    using assms(5) w unfolding parquet_faithful_def by blast
  have "length (ws_included st) = length bodies" using b inc by (simp add: list_all2_lengthD)
  then have "map row_capture_id rs = expected_ids (map2 (body_rows env) (ws_included st) bodies) (ws_included st)"
    unfolding r(2) pw_simps rows by (simp add: expected_ids_rows)
  with ex rd r(1) show ?thesis unfolding validate_flat_exact by blast
qed

end
