(* ===== verification/Config_Facts.thy ===== *)
theory Config_Facts
  imports Config_Validate
begin

text \<open>
  What an accepted configuration guarantees (\<open>config_ok\<close>, the contract the other components
  rest on), when Validate panics, identifiers as safe path components, the overflow check of
  day durations, and the selection of a stream.
\<close>

lemma problem_if_Nil [simp]: "problem_if b m = [] \<longleftrightarrow> \<not> b"
  by (simp add: problem_if_def)

section \<open>Identifiers\<close>

lemma lower_alnum_plain:
  assumes "lower_alnum c" shows "c \<noteq> CHR ''/''" "c \<noteq> CHR ''.''"
  using assms by (auto simp: lower_alnum_def less_eq_char_def)

lemma ValidID_no_slash: "ValidID s \<Longrightarrow> CHR ''/'' \<notin> set s"
  using lower_alnum_plain by (auto simp: ValidID_def list_all_iff split: list.splits)

lemma ValidID_plain: "ValidID s \<Longrightarrow> plain_comp s"
  using ValidID_no_slash [of s] lower_alnum_plain
  by (auto simp: plain_comp_def ValidID_def split: list.splits)

lemma ValidID_ne [simp]: "\<not> ValidID []"
  by (simp add: ValidID_def)

section \<open>The contract of an accepted configuration\<close>

definition stream_ok :: "stream_cfg \<Rightarrow> bool" where
  "stream_ok sm \<longleftrightarrow> ValidID (sm_id sm) \<and> second \<le> sm_interval sm \<and> validKind (sm_kind sm) \<and>
     0 \<le> sm_request_timeout sm \<and> 0 \<le> sm_max_response_bytes sm \<and> 0 \<le> sm_max_start_lateness sm \<and>
     (\<forall>(h, v) \<in> set (sm_headers sm). validHeader h \<and> \<not> sensitiveName h \<and> \<not> contains_any v newline_chars) \<and>
     (\<forall>(h, r) \<in> set (sm_auth_headers sm). validHeader h \<and> is_ok (SecretRef_Validate r)) \<and>
     (\<forall>(n, r) \<in> set (sm_auth_query sm). n \<noteq> [] \<and> is_ok (SecretRef_Validate r))"

definition source_ok :: "source_cfg \<Rightarrow> bool" where
  "source_ok src \<longleftrightarrow> ValidID (src_id src) \<and> src_streams src \<noteq> [] \<and> src_location src \<noteq> None \<and>
     distinct (map sm_id (src_streams src)) \<and> (\<forall>sm \<in> set (src_streams src). stream_ok sm)"

text \<open>The watermarks are in order and in range as far as they are numbers.\<close>

definition watermarks_ok :: "float_value \<Rightarrow> float_value \<Rightarrow> bool" where
  "watermarks_ok resume pause \<longleftrightarrow> (resume = NaN \<or> Finite 0 < resume) \<and> (pause = NaN \<or> pause \<le> Finite 100) \<and>
     (resume = NaN \<or> pause = NaN \<or> resume < pause)"

definition config_ok :: "config \<Rightarrow> bool" where
  "config_ok c \<longleftrightarrow> cf_sources c \<noteq> [] \<and> distinct (map src_id (cf_sources c)) \<and>
     (\<forall>src \<in> set (cf_sources c). source_ok src) \<and>
     distinct (map dst_id (cf_destinations c)) \<and> (\<forall>d \<in> set (cf_destinations c). ValidID (dst_id d)) \<and>
     watermarks_ok (st_resume_percent (cf_storage c)) (st_pause_percent (cf_storage c)) \<and>
     0 \<le> st_close_delay (cf_storage c) \<and> 0 \<le> st_raw_retention (cf_storage c) \<and>
     0 \<le> st_parquet_retention (cf_storage c) \<and> 0 \<le> st_metadata_retention (cf_storage c) \<and>
     1 \<le> re_attempts (ht_retry (cf_http c)) \<and> 1 \<le> rt_fetch_concurrency (cf_runtime c) \<and>
     1 \<le> rt_per_host_concurrency (cf_runtime c) \<and> 0 < ht_max_response_bytes (cf_http c)"

lemma ref_problems_Nil [simp]: "ref_problems w r = [] \<longleftrightarrow> is_ok (SecretRef_Validate r)"
  by (simp add: ref_problems_def split: sum.splits)

lemma stream_problems_ok:
  assumes "stream_problems pu ll ah srcID seen sm = Some []"
  shows "stream_ok sm" "srcID @ ''/'' @ sm_id sm \<notin> seen"
  using assms
  by (auto simp: stream_problems_def Let_def stream_ok_def header_problems_def auth_header_problems_def
      auth_query_problems_def split: option.splits)

lemma streams_problems_ok:
  assumes "streams_problems pu ll ah srcID seen sms = Some ([], seen')"
  shows "distinct (map sm_id sms) \<and> (\<forall>sm \<in> set sms. stream_ok sm \<and> srcID @ ''/'' @ sm_id sm \<notin> seen)"
  using assms
proof (induction sms arbitrary: seen)
  case (Cons sm sms)
  let ?seen = "insert (srcID @ ''/'' @ sm_id sm) seen"
  from Cons.prems have h: "stream_problems pu ll ah srcID seen sm = Some []"
    and t: "streams_problems pu ll ah srcID ?seen sms = Some ([], seen')"
    by (auto split: option.splits prod.splits)
  show ?case using stream_problems_ok [OF h] Cons.IH [OF t] by auto
qed simp

lemma source_problems_ok:
  assumes "source_problems pu ll seen src = []" "distinct (map sm_id (src_streams src))"
    and "\<forall>sm \<in> set (src_streams src). stream_ok sm"
  shows "source_ok (with_location ll src)" "src_id src \<notin> seen"
  using assms by (auto simp: source_problems_def source_ok_def with_location_def split: sum.splits)

lemma with_location_id [simp]: "src_id (with_location ll src) = src_id src"
  by (simp add: with_location_def split: sum.splits)

lemma sources_problems_ok:
  assumes "sources_problems pu ll ah seenSrc seenStr srcs = Some ([], srcs')"
  shows "srcs' = map (with_location ll) srcs \<and> distinct (map src_id srcs) \<and>
    (\<forall>s \<in> set srcs. src_id s \<notin> seenSrc) \<and> (\<forall>s \<in> set srcs'. source_ok s)"
  using assms
proof (induction srcs arbitrary: seenSrc seenStr srcs')
  case (Cons src srcs)
  from Cons.prems obtain seen1 qs where
    st: "streams_problems pu ll ah (src_id src) seenStr (src_streams src) = Some ([], seen1)"
    and rest: "sources_problems pu ll ah (insert (src_id src) seenSrc) seen1 srcs = Some ([], qs)"
    and src: "source_problems pu ll seenSrc src = []" and s': "srcs' = with_location ll src # qs"
    by (auto split: option.splits prod.splits)
  show ?case
    using streams_problems_ok [OF st] source_problems_ok [OF src] Cons.IH [OF rest] s' by auto
qed simp

lemma destination_problems_ok:
  assumes "destination_problems seen ds = []"
  shows "distinct (map dst_id ds) \<and> (\<forall>d \<in> set ds. ValidID (dst_id d) \<and> dst_id d \<notin> seen)"
  using assms
proof (induction ds arbitrary: seen)
  case (Cons d ds)
  from Cons.prems have "destination_problems (insert (dst_id d) seen) ds = []"
    and "ValidID (dst_id d) \<and> dst_id d \<notin> seen" by simp_all
  with Cons.IH [of "insert (dst_id d) seen"] show ?case by auto
qed simp

lemma global_problems_ok:
  assumes "global_problems c = []"
  shows "watermarks_ok (st_resume_percent (cf_storage c)) (st_pause_percent (cf_storage c))" "0 \<le> st_close_delay (cf_storage c)"
    "0 \<le> st_raw_retention (cf_storage c)" "0 \<le> st_parquet_retention (cf_storage c)"
    "0 \<le> st_metadata_retention (cf_storage c)" "1 \<le> re_attempts (ht_retry (cf_http c))"
    "1 \<le> rt_fetch_concurrency (cf_runtime c)" "1 \<le> rt_per_host_concurrency (cf_runtime c)"
    "0 < ht_max_response_bytes (cf_http c)"
  using assms unfolding global_problems_def Let_def append_is_Nil_conv problem_if_Nil
  by (auto simp: watermarks_ok_def float_not_le float_not_less)

lemma sort_Nil_iff [simp]: "sort xs = [] \<longleftrightarrow> xs = []"
  by (metis length_0_conv length_sort)

lemma Validate_Accepted:
  assumes "Validate pu ll c = Accepted c'"
  obtains srcs where "sources_problems pu ll (ht_allow_http (cf_http c)) {} {} (cf_sources c) = Some ([], srcs)"
    "c' = c\<lparr>cf_sources := srcs\<rparr>" "global_problems c = []" "cf_sources c \<noteq> []"
    "destination_problems {} (cf_destinations c) = []"
  using assms by (auto simp: Validate_def Let_def split: option.splits prod.splits if_splits)

text \<open>C11. A configuration that Validate accepts satisfies the contract: sources, streams (within their
  source) and destinations have distinct safe identifiers, every source has a location and a stream,
  every stream an interval of at least a second, a known kind and well-formed headers and secret
  references, and the durations, retry and concurrency settings are in range. Of the watermarks it holds
  only that those that are numbers are in range and in order: a NaN passes every comparison of the check
  (\<open>nan_watermark_accepted\<close>).\<close>

theorem validate_sound:
  assumes "Validate pu ll c = Accepted c'"
  shows "config_ok c'"
proof -
  obtain srcs where s: "sources_problems pu ll (ht_allow_http (cf_http c)) {} {} (cf_sources c) = Some ([], srcs)"
    and c': "c' = c\<lparr>cf_sources := srcs\<rparr>" and g: "global_problems c = []" and ne: "cf_sources c \<noteq> []"
    and d: "destination_problems {} (cf_destinations c) = []"
    by (rule Validate_Accepted [OF assms])
  show ?thesis
    using sources_problems_ok [OF s] destination_problems_ok [OF d] global_problems_ok [OF g] ne
    by (simp add: config_ok_def c' comp_def)
qed

section \<open>When Validate panics\<close>

lemma stream_problems_None: "stream_problems pu ll ah srcID seen sm = None \<longleftrightarrow> pu (sm_url sm) = None"
  by (simp add: stream_problems_def Let_def split: option.splits)

lemma streams_problems_None:
  "streams_problems pu ll ah srcID seen sms = None \<longleftrightarrow> (\<exists>sm \<in> set sms. pu (sm_url sm) = None)"
proof (induction sms arbitrary: seen)
  case (Cons sm sms)
  show ?case
    using Cons.IH [of "insert (srcID @ ''/'' @ sm_id sm) seen"] stream_problems_None [of pu ll ah srcID seen sm]
    by (auto split: option.splits)
qed simp

lemma sources_problems_None:
  "sources_problems pu ll ah seenSrc seenStr srcs = None \<longleftrightarrow>
    (\<exists>src \<in> set srcs. \<exists>sm \<in> set (src_streams src). pu (sm_url sm) = None)"
proof (induction srcs arbitrary: seenSrc seenStr)
  case (Cons src srcs)
  show ?case
  proof (cases "streams_problems pu ll ah (src_id src) seenStr (src_streams src)")
    case None
    with streams_problems_None [of pu ll ah "src_id src" seenStr "src_streams src"] show ?thesis by simp
  next
    case (Some r)
    obtain ps seen1 where r: "r = (ps, seen1)" by (cases r)
    have "\<not> (\<exists>sm \<in> set (src_streams src). pu (sm_url sm) = None)"
      using streams_problems_None [of pu ll ah "src_id src" seenStr "src_streams src"] Some by simp
    then show ?thesis
      using Cons.IH [of "insert (src_id src) seenSrc" seen1] Some r by (auto split: option.splits)
  qed
qed simp

text \<open>C18. Validate panics exactly when some stream's URL does not parse: the scheme of the nil URL is
  read before the error of url.Parse is looked at, so the report of that stream's bad URL (the
  problem the code has text for) is never produced.\<close>

theorem validate_panics_iff:
  "Validate pu ll c = Panicked \<longleftrightarrow>
    (\<exists>src \<in> set (cf_sources c). \<exists>sm \<in> set (src_streams src). pu (sm_url sm) = None)"
  using sources_problems_None [of pu ll "ht_allow_http (cf_http c)" "{}" "{}" "cf_sources c"]
  by (auto simp: Validate_def Let_def split: option.splits)

section \<open>Day durations\<close>

lemma day_word: "uint (of_int (24 * hour) :: 64 word) = 86400000000000" "uint ((of_int (2 ^ 63 - 1)) :: 64 word) = 9223372036854775807"
  by (simp_all add: uint_word_of_int take_bit_int_eq_self)

lemma word_limit: "((of_int (2 ^ 63 - 1)) :: 64 word) div of_int (24 * hour) = 106751"
  by (rule word_uint_eqI) (simp only: uint_div day_word, simp add: take_bit_int_eq_self)

lemma parse_days:
  assumes "whole_days v = Some ds" "parse_dec ds = Some n"
  shows "parseDuration std v = (if n \<le> 106751 then Inr (int n * (24 * hour))
    else Inl (errors_New ''day duration overflows time.Duration''))"
proof (cases "n < 2 ^ 64")
  case False
  then show ?thesis using assms by (simp add: parseDuration_def parse_uint64_def)
next
  case True
  let ?w = "of_nat n :: 64 word"
  have u: "uint ?w = int n" using True by (simp add: uint_nat unat_of_nat take_bit_nat_eq_self)
  have gt: "?w > 106751 \<longleftrightarrow> n > 106751" unfolding word_less_def u by simp
  have mul: "sint (?w * of_int (24 * hour)) = int n * (24 * hour)" if "n \<le> 106751"
  proof -
    have b: "int n * 86400000000000 < 2 ^ 63" using that by simp
    have "uint (?w * of_int (24 * hour)) = int n * 86400000000000"
      unfolding uint_mult_lem [THEN iffD1, simplified] using b u day_word(1)
      by (simp add: uint_word_ariths take_bit_int_eq_self)
    then show ?thesis using b int64_id [of "int n * 86400000000000"] by (simp add: sint_uint int64_def)
  qed
  show ?thesis
    using assms True gt mul by (simp add: parseDuration_def parse_uint64_def Let_def word_limit)
qed

lemma digit_ascii: "d < 10 \<Longrightarrow> ascii_digit (digit_char d)"
  by (simp add: ascii_digit_def less_eq_char_def of_char_digit)

lemma whole_days_nat: "whole_days (nat_str n @ ''d'') = Some (nat_str n)"
proof -
  have "list_all ascii_digit (nat_str n)" using nat_str_digit digit_ascii by (auto simp: list_all_iff)
  moreover have "1 \<le> length (nat_str n)" by (cases "nat_str n") simp_all
  ultimately show ?thesis by (simp add: whole_days_def)
qed

text \<open>A duration of n days is read as exactly n times 24 hours when that fits the 64 bits of a
  time.Duration, and refused otherwise; it never wraps around.\<close>

theorem day_durations:
  "parseDuration std (nat_str n @ ''d'') =
    (if int n * (24 * hour) < 2 ^ 63 then Inr (int n * (24 * hour))
     else Inl (errors_New ''day duration overflows time.Duration''))"
proof -
  have "int n * (24 * hour) < 2 ^ 63 \<longleftrightarrow> n \<le> 106751" by simp linarith
  then show ?thesis using parse_days [OF whole_days_nat parse_dec_nat_str, of std n] by simp
qed

section \<open>Selecting a stream\<close>

definition stream_key :: "source_cfg \<times> stream_cfg \<Rightarrow> string \<times> string" where
  "stream_key p = (src_id (fst p), sm_id (snd p))"

lemma distinct_stream_keys:
  assumes "distinct (map src_id srcs)" "\<forall>s \<in> set srcs. distinct (map sm_id (src_streams s))"
  shows "distinct (map stream_key (concat (map (\<lambda>src. map (\<lambda>sm. (src, sm)) (src_streams src)) srcs)))"
  using assms
proof (induction srcs)
  case (Cons s srcs)
  have "distinct (map stream_key (map (\<lambda>sm. (s, sm)) (src_streams s)))"
    using Cons.prems(2) by (auto simp: stream_key_def comp_def distinct_map inj_on_def)
  moreover have "set (map stream_key (map (\<lambda>sm. (s, sm)) (src_streams s))) \<inter>
      set (map stream_key (concat (map (\<lambda>src. map (\<lambda>sm. (src, sm)) (src_streams src)) srcs))) = {}"
    using Cons.prems(1) by (auto simp: stream_key_def)
  ultimately show ?case using Cons by simp
qed simp

lemma filter_key:
  "distinct (map f xs) \<Longrightarrow> x \<in> set xs \<Longrightarrow> filter (\<lambda>y. f y = f x) xs = [x]"
proof (induction xs)
  case (Cons y ys)
  then show ?case by (cases "y = x") (auto simp: filter_empty_conv, metis image_eqI)
qed simp

text \<open>In an accepted configuration a stream is found by its source and stream identifier, and
  nothing else is: the selection of two identifiers is never ambiguous.\<close>

theorem find_stream_unique:
  assumes "config_ok c" "src \<in> set (cf_sources c)" "sm \<in> set (src_streams src)"
  shows "FindSourceStream c (src_id src) (sm_id sm) = Inr (src, sm)"
proof -
  have d: "distinct (map stream_key (all_streams c))"
    unfolding all_streams_def using assms(1) by (intro distinct_stream_keys) (auto simp: config_ok_def source_ok_def)
  have m: "(src, sm) \<in> set (all_streams c)" using assms by (auto simp: all_streams_def)
  have ne: "src_id src \<noteq> ''''" "sm_id sm \<noteq> ''''"
  proof -
    have "source_ok src" using assms(1,2) by (simp add: config_ok_def)
    then have "ValidID (src_id src)" "ValidID (sm_id sm)" using assms(3) by (simp_all add: source_ok_def stream_ok_def)
    then show "src_id src \<noteq> ''''" "sm_id sm \<noteq> ''''" by auto
  qed
  have "filter (\<lambda>(s, t). (src_id src = '''' \<or> src_id s = src_id src) \<and> (sm_id sm = '''' \<or> sm_id t = sm_id sm)) (all_streams c) =
      filter (\<lambda>y. stream_key y = stream_key (src, sm)) (all_streams c)"
    by (rule filter_cong) (auto simp: stream_key_def ne)
  also have "\<dots> = [(src, sm)]" by (rule filter_key [OF d m])
  finally show ?thesis by (simp add: FindSourceStream_def Let_def)
qed

section \<open>A configuration\<close>

definition sample_stream :: stream_cfg where
  "sample_stream = \<lparr>sm_id = ''feed'', sm_kind = ''mixed'', sm_url = ''https://example.test/feed'', sm_interval = 30 * second,
     sm_timezone = '''', sm_headers = [(''Accept'', ''*'')], sm_auth_query = [], sm_auth_headers = [], sm_enabled = None,
     sm_request_timeout = 0, sm_max_response_bytes = 0, sm_max_start_lateness = 0\<rparr>"

definition sample_source :: source_cfg where
  "sample_source = \<lparr>src_id = ''demo'', src_timezone = ''UTC'', src_registry = '''', src_license = '''', src_attribution = '''',
     src_streams = [sample_stream], src_location = None\<rparr>"

definition sample_config :: config where
  "sample_config = Defaults\<lparr>cf_storage := (cf_storage Defaults)\<lparr>st_state_db := ''/data/state.sqlite''\<rparr>, cf_sources := [sample_source]\<rparr>"

definition sample_url :: url where
  "sample_url = \<lparr>url_scheme = ''https'', url_host = ''h'', url_hostname = ''h'', url_path = ''/f'', url_has_user = False,
     url_fragment = '''', url_query = []\<rparr>"

lemma sample_paths: "Clean ''/data'' = ''/data''" "Rel ''/data'' (Clean ''/data/state.sqlite'') = Some ''state.sqlite''"
  "IsAbs ''/data''" "IsAbs ''/data/state.sqlite''"
  by code_simp+

lemma sample_accepted_at:
  assumes "\<not> resume \<le> Finite 0" "\<not> pause > Finite 100" "\<not> resume \<ge> pause"
  shows "Validate (\<lambda>_. Some sample_url) (\<lambda>_. Inr utc)
      (sample_config\<lparr>cf_storage := (cf_storage sample_config)\<lparr>st_resume_percent := resume, st_pause_percent := pause\<rparr>\<rparr>) =
    Accepted (sample_config\<lparr>cf_storage := (cf_storage sample_config)\<lparr>st_resume_percent := resume, st_pause_percent := pause\<rparr>,
      cf_sources := [sample_source\<lparr>src_location := Some utc\<rparr>]\<rparr>)"
proof -
  have i: "ValidID ''demo''" "ValidID ''feed''" "validHeader ''Accept''" "\<not> sensitiveName ''Accept''" "\<not> contains_any ''*'' newline_chars"
    "validKind ''mixed''" "\<not> contains_any ''gtfs-rt-archiver/dev'' newline_chars" "\<not> escapes_parent ''state.sqlite''"
    by code_simp+
  show ?thesis
    using assms
    by (simp add: Validate_def sample_config_def Defaults_def CurrentVersion_def global_problems_def sample_paths i Let_def
        problem_if_def stream_problems_def source_problems_def with_location_def sample_source_def sample_stream_def
        sample_url_def header_problems_def)
qed

lemma sample_accepted:
  "Validate (\<lambda>_. Some sample_url) (\<lambda>_. Inr utc) sample_config =
    Accepted (sample_config\<lparr>cf_sources := [sample_source\<lparr>src_location := Some utc\<rparr>]\<rparr>)"
  using sample_accepted_at [of "Finite 80" "Finite 90"] by (simp add: sample_config_def Defaults_def)

text \<open>A configuration whose upper watermark is not a number is accepted; polling is never paused under it.\<close>

lemma nan_watermark_accepted:
  "Validate (\<lambda>_. Some sample_url) (\<lambda>_. Inr utc)
      (sample_config\<lparr>cf_storage := (cf_storage sample_config)\<lparr>st_resume_percent := Finite 80, st_pause_percent := NaN\<rparr>\<rparr>) =
    Accepted (sample_config\<lparr>cf_storage := (cf_storage sample_config)\<lparr>st_resume_percent := Finite 80, st_pause_percent := NaN\<rparr>,
      cf_sources := [sample_source\<lparr>src_location := Some utc\<rparr>]\<rparr>)"
  by (rule sample_accepted_at) simp_all

lemma validate_sound_witness: "config_ok (sample_config\<lparr>cf_sources := [sample_source\<lparr>src_location := Some utc\<rparr>]\<rparr>)"
  by (rule validate_sound [OF sample_accepted])

lemma sample_config_ok: "config_ok (sample_config\<lparr>cf_sources := [sample_source\<lparr>src_location := Some utc\<rparr>]\<rparr>)"
proof -
  have "ValidID ''demo''" "ValidID ''feed''" "validHeader ''Accept''" "\<not> sensitiveName ''Accept''" "\<not> contains_any ''*'' newline_chars"
    "validKind ''mixed''" by code_simp+
  then show ?thesis
    by (simp add: config_ok_def watermarks_ok_def source_ok_def stream_ok_def sample_config_def Defaults_def sample_source_def sample_stream_def)
qed

lemma find_stream_unique_witness:
  "FindSourceStream (sample_config\<lparr>cf_sources := [sample_source\<lparr>src_location := Some utc\<rparr>]\<rparr>) ''demo'' ''feed'' =
    Inr (sample_source\<lparr>src_location := Some utc\<rparr>, sample_stream)"
  using find_stream_unique [OF sample_config_ok, of "sample_source\<lparr>src_location := Some utc\<rparr>" sample_stream]
  by (simp add: sample_config_def sample_source_def sample_stream_def)

lemma validate_panics_iff_witness:
  "Validate (\<lambda>_. None) (\<lambda>_. Inr utc) sample_config = Panicked"
  unfolding validate_panics_iff by (simp add: sample_config_def sample_source_def)

end
