(* ===== verification/State_Inv.thy ===== *)
theory State_Inv
  imports State_Store
begin

text \<open>
  The invariant of the state database and its preservation by every operation of the store: keys are
  unique, references point at existing rows, sequence numbers are not reused, and a compaction that
  is published has no required upload outstanding (the ledger).
\<close>

section \<open>The invariant, table by table\<close>

definition ticks_inv :: "db \<Rightarrow> bool" where
  "ticks_inv db \<longleftrightarrow> distinct (map tick_id (db_ticks db))"

definition captures_inv :: "db \<Rightarrow> bool" where
  "captures_inv db \<longleftrightarrow> distinct (map cap_id (db_captures db)) \<and> distinct (map cap_tick_id (db_captures db)) \<and>
     distinct (map cap_raw_path (db_captures db)) \<and> distinct (map cap_sidecar_path (db_captures db)) \<and>
     cap_tick_id ` set (db_captures db) \<subseteq> tick_id ` set (db_ticks db)"

definition compactions_inv :: "db \<Rightarrow> bool" where
  "compactions_inv db \<longleftrightarrow> distinct (map cp_id (db_compactions db)) \<and>
     distinct (map revision_key (db_compactions db)) \<and>
     (\<forall>c \<in> set (db_compactions db). cp_id c \<le> db_compaction_seq db)"

definition inputs_inv :: "db \<Rightarrow> bool" where
  "inputs_inv db \<longleftrightarrow> distinct (db_inputs db) \<and> fst ` set (db_inputs db) \<subseteq> cp_id ` set (db_compactions db) \<and>
     snd ` set (db_inputs db) \<subseteq> cap_id ` set (db_captures db)"

definition uploads_inv :: "db \<Rightarrow> bool" where
  "uploads_inv db \<longleftrightarrow> distinct (map up_id (db_uploads db)) \<and> distinct (map upload_key (db_uploads db)) \<and>
     (\<forall>u \<in> set (db_uploads db). up_id u \<le> db_upload_seq db) \<and>
     up_compaction ` set (db_uploads db) \<subseteq> cp_id ` set (db_compactions db)"

definition summaries_inv :: "db \<Rightarrow> bool" where
  "summaries_inv db \<longleftrightarrow> distinct (map summary_key (db_summaries db))"

definition ledger_inv :: "db \<Rightarrow> bool" where
  "ledger_inv db \<longleftrightarrow> (\<forall>c \<in> set (db_compactions db). cp_published c \<noteq> None \<longrightarrow>
     filter (blocking (cp_id c)) (db_uploads db) = [])"

definition db_inv :: "db \<Rightarrow> bool" where
  "db_inv db \<longleftrightarrow> ticks_inv db \<and> captures_inv db \<and> compactions_inv db \<and> inputs_inv db \<and> uploads_inv db \<and>
     summaries_inv db \<and> ledger_inv db"

lemmas inv_defs = ticks_inv_def captures_inv_def compactions_inv_def inputs_inv_def uploads_inv_def
  summaries_inv_def ledger_inv_def

lemma db_invI:
  "ticks_inv db \<Longrightarrow> captures_inv db \<Longrightarrow> compactions_inv db \<Longrightarrow> inputs_inv db \<Longrightarrow> uploads_inv db \<Longrightarrow>
    summaries_inv db \<Longrightarrow> ledger_inv db \<Longrightarrow> db_inv db"
  by (simp add: db_inv_def)

lemma db_invD:
  assumes "db_inv db"
  shows "ticks_inv db" "captures_inv db" "compactions_inv db" "inputs_inv db" "uploads_inv db"
    "summaries_inv db" "ledger_inv db"
  using assms by (simp_all add: db_inv_def)

lemma empty_db_inv: "db_inv empty_db"
  by (simp add: db_inv_def inv_defs empty_db_def)

text \<open>The parts of the invariant read only some tables.\<close>

lemma inv_frames:
  "db_ticks db' = db_ticks db \<Longrightarrow> ticks_inv db' = ticks_inv db"
  "db_ticks db' = db_ticks db \<Longrightarrow> db_captures db' = db_captures db \<Longrightarrow> captures_inv db' = captures_inv db"
  "db_compactions db' = db_compactions db \<Longrightarrow> db_compaction_seq db' = db_compaction_seq db \<Longrightarrow>
     compactions_inv db' = compactions_inv db"
  "db_inputs db' = db_inputs db \<Longrightarrow> db_compactions db' = db_compactions db \<Longrightarrow> db_captures db' = db_captures db \<Longrightarrow>
     inputs_inv db' = inputs_inv db"
  "db_uploads db' = db_uploads db \<Longrightarrow> db_upload_seq db' = db_upload_seq db \<Longrightarrow> db_compactions db' = db_compactions db \<Longrightarrow>
     uploads_inv db' = uploads_inv db"
  "db_summaries db' = db_summaries db \<Longrightarrow> summaries_inv db' = summaries_inv db"
  "db_compactions db' = db_compactions db \<Longrightarrow> db_uploads db' = db_uploads db \<Longrightarrow> ledger_inv db' = ledger_inv db"
  by (simp_all add: inv_defs)

section \<open>Ticks and captures\<close>

lemma merge_tick_id [simp]: "tick_id (merge_tick x r) = tick_id x"
  by (simp add: merge_tick_def)

lemma put_tick_fields [simp]:
  "db_captures (put_tick t db) = db_captures db" "db_compactions (put_tick t db) = db_compactions db"
  "db_inputs (put_tick t db) = db_inputs db" "db_uploads (put_tick t db) = db_uploads db"
  "db_summaries (put_tick t db) = db_summaries db" "db_compaction_seq (put_tick t db) = db_compaction_seq db"
  "db_upload_seq (put_tick t db) = db_upload_seq db"
  by (simp_all add: put_tick_def)

lemma tick_to_row_id [simp]: "tick_id (tick_to_row t) = tick_id t"
  by (simp add: tick_to_row_def)

lemma put_tick_ids: "tick_id ` set (db_ticks (put_tick t db)) = insert (tick_id t) (tick_id ` set (db_ticks db))"
  using upsert_key_set [of tick_id merge_tick "tick_to_row t" "db_ticks db"] by (simp add: put_tick_def)

lemma put_tick_inv:
  assumes "db_inv db" shows "db_inv (put_tick t db)"
proof (rule db_invI)
  show "ticks_inv (put_tick t db)"
    using db_invD(1) [OF assms] upsert_distinct [of tick_id merge_tick "db_ticks db" "tick_to_row t"]
    by (simp add: ticks_inv_def put_tick_def)
  show "captures_inv (put_tick t db)"
    using db_invD(2) [OF assms] by (auto simp: captures_inv_def put_tick_ids)
qed (use db_invD [OF assms] inv_frames(3-7) [of "put_tick t db" db] in simp_all)

lemma capture_to_row_fields [simp]:
  "cap_id (capture_to_row c) = cap_id c" "cap_tick_id (capture_to_row c) = cap_tick_id c"
  "cap_raw_path (capture_to_row c) = cap_raw_path c" "cap_sidecar_path (capture_to_row c) = cap_sidecar_path c"
  "cap_source (capture_to_row c) = cap_source c" "cap_stream (capture_to_row c) = cap_stream c"
  "cap_archive_date (capture_to_row c) = cap_archive_date c" "cap_sha256 (capture_to_row c) = cap_sha256 c"
  by (simp_all add: capture_to_row_def)

lemma insert_capture_ok:
  "insert_capture c db = Inr db' \<longleftrightarrow>
     cap_id c \<notin> cap_id ` set (db_captures db) \<and> cap_tick_id c \<notin> cap_tick_id ` set (db_captures db) \<and>
     cap_raw_path c \<notin> cap_raw_path ` set (db_captures db) \<and> cap_sidecar_path c \<notin> cap_sidecar_path ` set (db_captures db) \<and>
     cap_tick_id c \<in> tick_id ` set (db_ticks db) \<and> db' = db\<lparr>db_captures := db_captures db @ [c]\<rparr>"
  by (auto simp: insert_capture_def unique_insert_def)

lemma insert_capture_inv:
  assumes "insert_capture c db = Inr db'" "db_inv db" shows "db_inv db'"
proof -
  note ok = assms(1) [unfolded insert_capture_ok]
  from ok have db': "db' = db\<lparr>db_captures := db_captures db @ [c]\<rparr>" by blast
  show ?thesis
  proof (rule db_invI)
    show "captures_inv db'" using db_invD(2) [OF assms(2)] ok by (simp add: captures_inv_def)
    show "inputs_inv db'" using db_invD(4) [OF assms(2)] ok by (auto simp: inputs_inv_def)
  qed (use db_invD [OF assms(2)] inv_frames [of db' db] db' in simp_all)
qed

lemma RecordTick_inv: "RecordTick t db = Inr db' \<Longrightarrow> db_inv db \<Longrightarrow> db_inv db'"
  by (auto simp: RecordTick_def put_tick_inv)

lemma SaveCapture_inv: "SaveCapture t c db = Inr db' \<Longrightarrow> db_inv db \<Longrightarrow> db_inv db'"
  using insert_capture_inv [of "capture_to_row c" "put_tick t db" db'] put_tick_inv [of db t]
  by (auto simp: SaveCapture_def split: sum.splits)

section \<open>Summaries and retention\<close>

lemma capture_tick:
  assumes "captures_inv db" "c \<in> set (db_captures db)"
  shows "\<exists>t \<in> set (db_ticks db). cap_tick_id c = tick_id t"
proof -
  have "cap_tick_id c \<in> tick_id ` set (db_ticks db)" using assms by (simp add: captures_inv_def image_subset_iff)
  then show ?thesis by blast
qed

lemma purge_day_inv:
  assumes "purge_day src sm date from to db = Inr db'" "db_inv db" shows "db_inv db'"
proof -
  let ?gone = "cap_id ` set (filter (in_day src sm date) (db_captures db))"
  have db': "db' = db\<lparr>db_inputs := delete_where (\<lambda>(_, i). i \<in> ?gone) (db_inputs db),
      db_captures := delete_where (in_day src sm date) (db_captures db),
      db_ticks := delete_where (in_window src sm from to) (db_ticks db)\<rparr>"
    and fk: "\<not> (\<exists>c \<in> set (delete_where (in_day src sm date) (db_captures db)). \<exists>t \<in> set (db_ticks db).
        in_window src sm from to t \<and> cap_tick_id c = tick_id t)"
    using assms(1) by (auto simp: purge_day_def Let_def split: if_splits)
  show ?thesis
  proof (rule db_invI)
    show "ticks_inv db'" using db_invD(1) [OF assms(2)] db' by (simp add: ticks_inv_def delete_where_distinct)
    show "captures_inv db'"
    proof -
      have "cap_tick_id c \<in> tick_id ` {t \<in> set (db_ticks db). \<not> in_window src sm from to t}"
        if cin: "c \<in> set (db_captures db)" "\<not> in_day src sm date c" for c
      proof -
        obtain t where t: "t \<in> set (db_ticks db)" "cap_tick_id c = tick_id t"
          using capture_tick [OF db_invD(2) [OF assms(2)] cin(1)] by blast
        have "c \<in> set (delete_where (in_day src sm date) (db_captures db))" using cin by simp
        with fk t have "\<not> in_window src sm from to t" by blast
        with t show ?thesis by blast
      qed
      then have "cap_tick_id ` set (db_captures db') \<subseteq> tick_id ` set (db_ticks db')"
        by (auto simp: db')
      with db_invD(2) [OF assms(2)] show ?thesis
        by (simp add: captures_inv_def db' delete_where_distinct)
    qed
    show "inputs_inv db'"
    proof -
      have "i \<in> cap_id ` {c \<in> set (db_captures db). \<not> in_day src sm date c}"
        if "(k, i) \<in> set (db_inputs db)" "i \<notin> ?gone" for k i
      proof -
        have "i \<in> cap_id ` set (db_captures db)"
          using db_invD(4) [OF assms(2)] that(1) unfolding inputs_inv_def by force
        with that(2) show ?thesis by auto
      qed
      then have "snd ` set (db_inputs db') \<subseteq> cap_id ` set (db_captures db')"
        by (auto simp: db')
      moreover have "set (db_inputs db') \<subseteq> set (db_inputs db)" by (auto simp: db')
      moreover have "distinct (db_inputs db')"
        using db_invD(4) [OF assms(2)] by (simp add: db' inputs_inv_def delete_where_def)
      ultimately show ?thesis
        using db_invD(4) [OF assms(2)] by (auto simp: inputs_inv_def db')
    qed
  qed (use db_invD [OF assms(2)] inv_frames [of db' db] db' in simp_all)
qed

lemma SummarizeDay_inv:
  assumes "SummarizeDay src sm date from to now db = Inr (b, db')" "db_inv db" shows "db_inv db'"
proof (cases "db' = db")
  case False
  with assms(1) obtain ds where
    ds: "unique_insert summary_key (day_summary src sm date from to now db) (db_summaries db) = Some ds"
    and p: "purge_day src sm date from to (db\<lparr>db_summaries := ds\<rparr>) = Inr db'"
    by (auto simp: SummarizeDay_def split: if_splits option.splits sum.splits)
  have "db_inv (db\<lparr>db_summaries := ds\<rparr>)"
    using unique_rows.add_distinct [OF ds] assms(2) inv_frames [of "db\<lparr>db_summaries := ds\<rparr>" db]
    by (simp add: db_inv_def summaries_inv_def)
  with purge_day_inv [OF p] show ?thesis .
qed (use assms in simp)

lemma distinct_map_upd:
  assumes "distinct (map g xs)" "distinct (map k xs)"
    and "\<And>x. P x \<Longrightarrow> k x = i" "\<And>x. x \<in> set xs \<Longrightarrow> P x \<Longrightarrow> g (f x) = v" "\<And>x. x \<in> set xs \<Longrightarrow> \<not> P x \<Longrightarrow> g x \<noteq> v \<or> (\<forall>y \<in> set xs. \<not> P y)"
  shows "distinct (map g (update_where P f xs))"
  using assms
proof (induction xs)
  case (Cons x xs)
  have IH: "distinct (map g (update_where P f xs))" by (rule Cons.IH) (use Cons.prems in auto)
  have "g (if P x then f x else x) \<notin> g ` set (update_where P f xs)"
  proof (cases "P x")
    case True
    then have n: "\<not> P y" if "y \<in> set xs" for y
      using Cons.prems(2,3) that by (metis distinct.simps(2) image_eqI list.set_map list.simps(9))
    then have "set (update_where P f xs) = set xs" by (auto simp: set_update_where)
    with True Cons.prems(4,5) n show ?thesis by fastforce
  next
    case False
    with Cons.prems show ?thesis by (force simp: set_update_where)
  qed
  with IH show ?case unfolding update_where_def by (simp only: list.map distinct.simps set_map simp_thms)
qed (simp add: update_where_def)

lemma MarkCaptureRetained_inv:
  assumes "MarkCaptureRetained i db = Inr db'" "db_inv db" shows "db_inv db'"
proof -
  let ?f = "\<lambda>c. c\<lparr>cap_raw_path := retained_raw i, cap_sidecar_path := retained_sidecar i\<rparr>"
  have db': "db' = db\<lparr>db_captures := update_where (\<lambda>c. cap_id c = i) ?f (db_captures db)\<rparr>"
    and ok: "\<And>c. c \<in> set (db_captures db) \<Longrightarrow> cap_id c \<noteq> i \<Longrightarrow> HasCapture i db \<Longrightarrow>
      cap_raw_path c \<noteq> retained_raw i \<and> cap_sidecar_path c \<noteq> retained_sidecar i"
    using assms(1) by (auto simp: MarkCaptureRetained_def split: if_splits)
  have has: "HasCapture i db" if "c \<in> set (db_captures db)" "cap_id c = i" for c
    using that by (auto simp: HasCapture_def list_ex_iff)
  have cs: "db_captures db' = update_where (\<lambda>c. cap_id c = i) ?f (db_captures db)" by (simp add: db')
  have keys: "map cap_id (db_captures db') = map cap_id (db_captures db)"
    "map cap_tick_id (db_captures db') = map cap_tick_id (db_captures db)"
    unfolding cs by (simp_all add: update_where_key)
  have ids: "cap_id ` set (db_captures db') = cap_id ` set (db_captures db)"
    "cap_tick_id ` set (db_captures db') = cap_tick_id ` set (db_captures db)"
    using arg_cong [OF keys(1), of set] arg_cong [OF keys(2), of set] by simp_all
  show ?thesis
  proof (rule db_invI)
    have d: "distinct (map cap_id (db_captures db))" "distinct (map cap_raw_path (db_captures db))"
      "distinct (map cap_sidecar_path (db_captures db))"
      using db_invD(2) [OF assms(2)] by (simp_all add: captures_inv_def)
    have "distinct (map cap_raw_path (db_captures db'))"
      unfolding cs by (rule distinct_map_upd [OF d(2,1), where i = i and v = "retained_raw i"]) (use ok has in auto)
    moreover have "distinct (map cap_sidecar_path (db_captures db'))"
      unfolding cs by (rule distinct_map_upd [OF d(3,1), where i = i and v = "retained_sidecar i"]) (use ok has in auto)
    ultimately show "captures_inv db'"
      using db_invD(2) [OF assms(2)] db' unfolding captures_inv_def keys ids by simp
    show "inputs_inv db'" using db_invD(4) [OF assms(2)] db' unfolding inputs_inv_def ids by simp
  qed (use db_invD [OF assms(2)] inv_frames [of db' db] db' in simp_all)
qed


section \<open>Compactions and uploads\<close>

lemma compaction_to_row_fields [simp]:
  "cp_id (compaction_to_row c) = cp_id c" "cp_published (compaction_to_row c) = encodeTimePtr (cp_published c)"
  "revision_key (compaction_to_row c) = (cp_source c, cp_stream c, cp_archive_date c, cp_revision c)"
  "cp_manifest_path (compaction_to_row c) = cp_manifest_path c"
  by (simp_all add: compaction_to_row_def revision_key_def)

lemma encodeTimePtr_None [simp]: "encodeTimePtr t = None \<longleftrightarrow> t = None"
  by (simp add: encodeTimePtr_def split: option.splits)

lemma insert_compaction_ok:
  "insert_compaction c db = Inr (i, db') \<longleftrightarrow> i = db_compaction_seq db + 1 \<and>
     (cp_source c, cp_stream c, cp_archive_date c, cp_revision c) \<notin> revision_key ` set (db_compactions db) \<and>
     db' = db\<lparr>db_compactions := db_compactions db @ [compaction_to_row (c\<lparr>cp_id := i\<rparr>)], db_compaction_seq := i\<rparr>"
  by (auto simp: insert_compaction_def unique_insert_def Let_def)

text \<open>Everything but the ledger.\<close>

definition tables_inv :: "db \<Rightarrow> bool" where
  "tables_inv db \<longleftrightarrow> ticks_inv db \<and> captures_inv db \<and> compactions_inv db \<and> inputs_inv db \<and> uploads_inv db \<and> summaries_inv db"

lemma db_inv_tables: "db_inv db \<longleftrightarrow> tables_inv db \<and> ledger_inv db"
  by (auto simp: db_inv_def tables_inv_def)

lemma tables_invD:
  assumes "tables_inv db"
  shows "ticks_inv db" "captures_inv db" "compactions_inv db" "inputs_inv db" "uploads_inv db" "summaries_inv db"
  using assms by (simp_all add: tables_inv_def)

lemma tables_invI:
  "ticks_inv db \<Longrightarrow> captures_inv db \<Longrightarrow> compactions_inv db \<Longrightarrow> inputs_inv db \<Longrightarrow> uploads_inv db \<Longrightarrow>
    summaries_inv db \<Longrightarrow> tables_inv db"
  by (simp add: tables_inv_def)

lemma fresh_id: "compactions_inv db \<Longrightarrow> db_compaction_seq db + 1 \<notin> cp_id ` set (db_compactions db)"
  by (force simp: compactions_inv_def)

lemma insert_compaction_tables:
  assumes "insert_compaction c db = Inr (i, db')" "tables_inv db"
  shows "tables_inv db'" "i \<in> cp_id ` set (db_compactions db')"
proof -
  note ok = assms(1) [unfolded insert_compaction_ok]
  let ?r = "compaction_to_row (c\<lparr>cp_id := i\<rparr>)"
  have cs: "db_compactions db' = db_compactions db @ [?r]" "db_compaction_seq db' = i" using ok by simp_all
  show "i \<in> cp_id ` set (db_compactions db')" by (simp add: cs)
  show "tables_inv db'"
  proof (rule tables_invI)
    show "compactions_inv db'"
      using tables_invD(3) [OF assms(2)] ok fresh_id [OF tables_invD(3) [OF assms(2)]]
      by (auto simp: compactions_inv_def cs)
    show "inputs_inv db'" using tables_invD(4) [OF assms(2)] ok by (auto simp: inputs_inv_def cs)
    show "uploads_inv db'" using tables_invD(5) [OF assms(2)] ok by (auto simp: uploads_inv_def cs)
  qed (use tables_invD [OF assms(2)] inv_frames [of db' db] ok in simp_all)
qed

lemma insert_input_ok:
  "insert_input cid i db = Inr db' \<longleftrightarrow> (cid, i) \<notin> set (db_inputs db) \<and> cid \<in> cp_id ` set (db_compactions db) \<and>
     i \<in> cap_id ` set (db_captures db) \<and> db' = db\<lparr>db_inputs := db_inputs db @ [(cid, i)]\<rparr>"
  by (auto simp: insert_input_def unique_insert_def)

lemma insert_input_tables:
  assumes "insert_input cid i db = Inr db'" "tables_inv db" shows "tables_inv db'"
proof (rule tables_invI)
  note ok = assms(1) [unfolded insert_input_ok]
  show "inputs_inv db'" using tables_invD(4) [OF assms(2)] ok by (auto simp: inputs_inv_def)
qed (use tables_invD [OF assms(2)] inv_frames [of db' db] assms(1) [unfolded insert_input_ok] in simp_all)

text \<open>What the loops over inputs and uploads leave alone.\<close>

lemma insert_inputs_tables:
  "insert_inputs cid is db = Inr db' \<Longrightarrow> tables_inv db \<Longrightarrow> tables_inv db' \<and>
    db_compactions db' = db_compactions db \<and> db_uploads db' = db_uploads db \<and> db_captures db' = db_captures db \<and>
    db_inputs db' = db_inputs db @ map (Pair cid) is"
proof (induction "is" arbitrary: db)
  case (Cons i "is")
  then obtain db1 where i: "insert_input cid i db = Inr db1" and r: "insert_inputs cid is db1 = Inr db'"
    by (auto split: sum.splits)
  from Cons.IH [OF r insert_input_tables [OF i Cons.prems(2)]] i show ?case by (simp add: insert_input_ok)
qed simp

lemma adopt_inputs_tables:
  "adopt_inputs cid ics ex db = Inr db' \<Longrightarrow> tables_inv db \<Longrightarrow> tables_inv db' \<and>
    db_compactions db' = db_compactions db \<and> db_uploads db' = db_uploads db \<and> db_captures db' = db_captures db"
proof (induction ics arbitrary: db)
  case (Cons ic ics)
  show ?case
  proof (cases "capture_hash (ic_id ic) db")
    case None
    with Cons show ?thesis by (auto split: if_splits)
  next
    case (Some h)
    with Cons.prems(1) obtain db1 where i: "insert_input cid (ic_id ic) db = Inr db1" and r: "adopt_inputs cid ics ex db1 = Inr db'"
      by (auto split: if_splits sum.splits)
    from Cons.IH [OF r insert_input_tables [OF i Cons.prems(2)]] i show ?thesis by (simp add: insert_input_ok)
  qed
qed simp

lemma new_upload_fields [simp]:
  "up_id (new_upload i cid dest req now) = i" "upload_key (new_upload i cid dest req now) = (cid, dest)"
  "up_compaction (new_upload i cid dest req now) = cid" "up_required (new_upload i cid dest req now) = req"
  "up_status (new_upload i cid dest req now) = ''pending''" "up_destination (new_upload i cid dest req now) = dest"
  by (simp_all add: new_upload_def upload_key_def)

lemma insert_upload_ok:
  "insert_upload cid dest req now db = Inr db' \<longleftrightarrow>
     (cid, dest) \<notin> upload_key ` set (db_uploads db) \<and> cid \<in> cp_id ` set (db_compactions db) \<and>
     db' = db\<lparr>db_uploads := db_uploads db @ [new_upload (db_upload_seq db + 1) cid dest req now],
              db_upload_seq := db_upload_seq db + 1\<rparr>"
  by (auto simp: insert_upload_def unique_insert_def Let_def)

lemma fresh_upload_id: "uploads_inv db \<Longrightarrow> db_upload_seq db + 1 \<notin> up_id ` set (db_uploads db)"
  by (force simp: uploads_inv_def)

lemma insert_upload_tables:
  assumes "insert_upload cid dest req now db = Inr db'" "tables_inv db" shows "tables_inv db'"
proof (rule tables_invI)
  note ok = assms(1) [unfolded insert_upload_ok]
  show "uploads_inv db'"
    using tables_invD(5) [OF assms(2)] ok fresh_upload_id [OF tables_invD(5) [OF assms(2)]]
    by (auto simp: uploads_inv_def)
qed (use tables_invD [OF assms(2)] inv_frames [of db' db] assms(1) [unfolded insert_upload_ok] in simp_all)

lemma insert_uploads_tables:
  "insert_uploads cid ds now db = Inr db' \<Longrightarrow> tables_inv db \<Longrightarrow> tables_inv db' \<and>
    db_compactions db' = db_compactions db \<and> db_captures db' = db_captures db \<and> db_inputs db' = db_inputs db \<and>
    (\<exists>us. db_uploads db' = db_uploads db @ us \<and> map (\<lambda>u. (up_compaction u, up_destination u, up_required u, up_status u)) us =
       map (\<lambda>(d, r). (cid, d, r, ''pending'')) ds)"
proof (induction ds arbitrary: db)
  case (Cons d ds)
  obtain dest req where d: "d = (dest, req)" by (cases d)
  from Cons.prems d obtain db1 where i: "insert_upload cid dest req now db = Inr db1" and r: "insert_uploads cid ds now db1 = Inr db'"
    by (auto split: sum.splits)
  from Cons.IH [OF r insert_upload_tables [OF i Cons.prems(2)]] obtain us where
    us: "db_uploads db' = db_uploads db1 @ us" "map (\<lambda>u. (up_compaction u, up_destination u, up_required u, up_status u)) us =
       map (\<lambda>(d, r). (cid, d, r, ''pending'')) ds" and rest: "tables_inv db'" "db_compactions db' = db_compactions db1"
       "db_captures db' = db_captures db1" "db_inputs db' = db_inputs db1" by blast
  note ok = i [unfolded insert_upload_ok]
  show ?case using rest ok us d
    by (auto intro!: exI [of _ "new_upload (db_upload_seq db + 1) cid dest req now # us"])
qed simp


section \<open>The ledger\<close>

lemma ledgerD: "ledger_inv db \<Longrightarrow> c \<in> set (db_compactions db) \<Longrightarrow> cp_published c \<noteq> None \<Longrightarrow> u \<in> set (db_uploads db) \<Longrightarrow>
    \<not> blocking (cp_id c) u"
  unfolding ledger_inv_def filter_empty_conv by blast

lemma ledgerI: "(\<And>c u. c \<in> set (db_compactions db) \<Longrightarrow> cp_published c \<noteq> None \<Longrightarrow> u \<in> set (db_uploads db) \<Longrightarrow>
    \<not> blocking (cp_id c) u) \<Longrightarrow> ledger_inv db"
  unfolding ledger_inv_def filter_empty_conv by blast

text \<open>A revision may be saved as published only when no destination is required.\<close>

definition saved_honestly :: "compaction \<Rightarrow> (string \<times> bool) list \<Rightarrow> bool" where
  "saved_honestly c destinations \<longleftrightarrow> cp_published c = None \<or> list_all (\<lambda>(_, required). \<not> required) destinations"

lemma ledger_save:
  assumes "ledger_inv db" "tables_inv db" "insert_compaction c db = Inr (i, db1)" "saved_honestly c ds"
    and "db_compactions db' = db_compactions db1" "db_uploads db' = db_uploads db @ us"
    and us: "map (\<lambda>u. (up_compaction u, up_destination u, up_required u, up_status u)) us = map (\<lambda>(d, r). (i, d, r, ''pending'')) ds"
  shows "ledger_inv db'"
proof (rule ledgerI)
  fix k u assume k: "k \<in> set (db_compactions db')" "cp_published k \<noteq> None" and u: "u \<in> set (db_uploads db')"
  note ok = assms(3) [unfolded insert_compaction_ok]
  have new: "up_compaction u = i \<and> (\<exists>d. (d, up_required u) \<in> set ds)" if "u \<in> set us"
  proof -
    have "(up_compaction u, up_destination u, up_required u, up_status u) \<in> set (map (\<lambda>(d, r). (i, d, r, ''pending'')) ds)"
      unfolding us [symmetric] using that by simp
    then show ?thesis by auto
  qed
  have old: "k \<in> set (db_compactions db) \<Longrightarrow> cp_id k \<le> db_compaction_seq db"
    using tables_invD(3) [OF assms(2)] by (simp add: compactions_inv_def)
  have oldu: "u \<in> set (db_uploads db) \<Longrightarrow> up_compaction u \<in> cp_id ` set (db_compactions db)"
    using tables_invD(5) [OF assms(2)] unfolding uploads_inv_def by blast
  have fresh: "i \<notin> cp_id ` set (db_compactions db)" using fresh_id [OF tables_invD(3) [OF assms(2)]] ok by simp
  from k(1) ok assms(5) consider "k \<in> set (db_compactions db)" | "k = compaction_to_row (c\<lparr>cp_id := i\<rparr>)" by auto
  then show "\<not> blocking (cp_id k) u"
  proof cases
    case 1
    then show ?thesis
      using u assms(6) new old ok ledgerD [OF assms(1) 1 k(2)] by (auto simp: blocking_def)
  next
    case 2
    then have "\<not> r" if "(d, r) \<in> set ds" for d r
      using k(2) assms(4) that by (auto simp: saved_honestly_def list_all_iff)
    then show ?thesis using u assms(6) new oldu fresh 2 by (auto simp: blocking_def)
  qed
qed

lemma SaveCompaction_inv:
  assumes "SaveCompaction c inputs ds now db = Inr (c', db')" "db_inv db" "saved_honestly c ds"
  shows "db_inv db'"
proof -
  from assms(1) obtain i db1 db2 where 1: "insert_compaction c db = Inr (i, db1)"
    and 2: "insert_inputs i inputs db1 = Inr db2" and 3: "insert_uploads i ds now db2 = Inr db'"
    by (auto simp: SaveCompaction_def split: sum.splits)
  have t: "tables_inv db" "ledger_inv db" using assms(2) by (simp_all add: db_inv_tables)
  note t1 = insert_compaction_tables [OF 1 t(1)]
  note t2 = insert_inputs_tables [OF 2 t1(1)]
  note t3 = insert_uploads_tables [OF 3 conjunct1 [OF t2]]
  from t3 obtain us where us: "db_uploads db' = db_uploads db2 @ us"
    "map (\<lambda>u. (up_compaction u, up_destination u, up_required u, up_status u)) us = map (\<lambda>(d, r). (i, d, r, ''pending'')) ds" by blast
  have "db_uploads db1 = db_uploads db" using 1 by (simp add: insert_compaction_ok)
  then have "ledger_inv db'" using ledger_save [OF t(2,1) 1 assms(3) _ _ us(2), of db'] t2 t3 us(1) by simp
  with t3 show ?thesis by (simp add: db_inv_tables)
qed

lemma AdoptCompaction_inv:
  assumes "AdoptCompaction c inputs ex ds now db = Inr (c', db')" "db_inv db" "saved_honestly c ds"
  shows "db_inv db'"
proof -
  from assms(1) obtain i db1 db2 where 1: "insert_compaction c db = Inr (i, db1)"
    and 2: "adopt_inputs i inputs ex db1 = Inr db2" and 3: "insert_uploads i ds now db2 = Inr db'"
    by (auto simp: AdoptCompaction_def split: sum.splits)
  have t: "tables_inv db" "ledger_inv db" using assms(2) by (simp_all add: db_inv_tables)
  note t1 = insert_compaction_tables [OF 1 t(1)]
  note t2 = adopt_inputs_tables [OF 2 t1(1)]
  note t3 = insert_uploads_tables [OF 3 conjunct1 [OF t2]]
  from t3 obtain us where us: "db_uploads db' = db_uploads db2 @ us"
    "map (\<lambda>u. (up_compaction u, up_destination u, up_required u, up_status u)) us = map (\<lambda>(d, r). (i, d, r, ''pending'')) ds" by blast
  have "db_uploads db1 = db_uploads db" using 1 by (simp add: insert_compaction_ok)
  then have "ledger_inv db'" using ledger_save [OF t(2,1) 1 assms(3) _ _ us(2), of db'] t2 t3 us(1) by simp
  with t3 show ?thesis by (simp add: db_inv_tables)
qed

text \<open>Updates of uploads and compactions that keep their keys.\<close>

lemma update_tables:
  assumes "tables_inv db" "db' = db\<lparr>db_uploads := update_where P f (db_uploads db), db_compactions := update_where Q g (db_compactions db)\<rparr>"
    and f: "\<And>u. up_id (f u) = up_id u" "\<And>u. upload_key (f u) = upload_key u"
    and g: "\<And>c. cp_id (g c) = cp_id c" "\<And>c. revision_key (g c) = revision_key c"
  shows "tables_inv db'"
proof -
  have cs: "db_compactions db' = update_where Q g (db_compactions db)" and us: "db_uploads db' = update_where P f (db_uploads db)"
    using assms(2) by simp_all
  have k: "map cp_id (db_compactions db') = map cp_id (db_compactions db)"
    "map revision_key (db_compactions db') = map revision_key (db_compactions db)"
    "map up_id (db_uploads db') = map up_id (db_uploads db)"
    "map upload_key (db_uploads db') = map upload_key (db_uploads db)"
    unfolding cs us by (simp_all add: update_where_key f g)
  have uc: "up_compaction (f u) = up_compaction u" for u using f(2) [of u] by (simp add: upload_key_def)
  have kc: "map up_compaction (db_uploads db') = map up_compaction (db_uploads db)"
    unfolding us by (rule update_where_key) (simp add: uc)
  have s: "cp_id ` set (db_compactions db') = cp_id ` set (db_compactions db)"
    "up_compaction ` set (db_uploads db') = up_compaction ` set (db_uploads db)"
    "up_id ` set (db_uploads db') = up_id ` set (db_uploads db)"
    using arg_cong [OF k(1), of set] arg_cong [OF kc, of set] arg_cong [OF k(3), of set] by simp_all
  have le: "(\<forall>c \<in> set (db_compactions db'). cp_id c \<le> n) = (\<forall>x \<in> cp_id ` set (db_compactions db). x \<le> n)"
    "(\<forall>u \<in> set (db_uploads db'). up_id u \<le> n) = (\<forall>x \<in> up_id ` set (db_uploads db). x \<le> n)" for n
    unfolding s(1,3) [symmetric] by simp_all
  show ?thesis
  proof (rule tables_invI)
    show "compactions_inv db'" using tables_invD(3) [OF assms(1)] assms(2) unfolding compactions_inv_def k le by simp
    show "inputs_inv db'" using tables_invD(4) [OF assms(1)] assms(2) unfolding inputs_inv_def s by simp
    show "uploads_inv db'" using tables_invD(5) [OF assms(1)] assms(2) unfolding uploads_inv_def k s le by simp
  qed (use tables_invD [OF assms(1)] inv_frames [of db' db] assms(2) in simp_all)
qed

lemma update_where_none [simp]: "update_where P (\<lambda>r. r) rows = rows"
  by (simp add: update_where_def)

lemma MarkParquetRetained_inv: assumes "db_inv db" shows "db_inv (MarkParquetRetained i db)"
proof -
  have t: "tables_inv db" "ledger_inv db" using assms by (simp_all add: db_inv_tables)
  have "tables_inv (MarkParquetRetained i db)"
    by (rule update_tables [OF t(1) MarkParquetRetained_def]) (simp_all add: upload_key_def revision_key_def)
  moreover have "ledger_inv (MarkParquetRetained i db)"
    using ledgerD [OF t(2)] by (intro ledgerI) (fastforce simp: MarkParquetRetained_def set_update_where blocking_def split: if_splits)
  ultimately show ?thesis by (simp add: db_inv_tables)
qed

text \<open>A worker touches only uploads that are not settled or not required.\<close>

definition open_upload :: "int \<Rightarrow> db \<Rightarrow> bool" where
  "open_upload i db \<longleftrightarrow> (\<forall>u \<in> set (db_uploads db). up_id u = i \<longrightarrow> \<not> up_required u \<or> \<not> settled (up_status u))"

lemma update_uploads_inv:
  assumes "db_inv db" "db' = db\<lparr>db_uploads := update_where P f (db_uploads db)\<rparr>"
    and f: "\<And>u. up_id (f u) = up_id u" "\<And>u. upload_key (f u) = upload_key u" "\<And>u. up_required (f u) = up_required u"
    and ok: "\<And>u. u \<in> set (db_uploads db) \<Longrightarrow> P u \<Longrightarrow> up_required u \<Longrightarrow> \<not> settled (up_status (f u)) \<Longrightarrow> \<not> settled (up_status u)"
  shows "db_inv db'"
proof -
  have t: "tables_inv db" "ledger_inv db" using assms by (simp_all add: db_inv_tables)
  have "tables_inv db'"
    by (rule update_tables [OF t(1), where P = P and f = f and Q = "\<lambda>_. True" and g = "\<lambda>c. c"]) (use assms in simp_all)
  moreover have "ledger_inv db'"
  proof (rule ledgerI)
    fix c v assume c: "c \<in> set (db_compactions db')" "cp_published c \<noteq> None" and v: "v \<in> set (db_uploads db')"
    then obtain u where u: "u \<in> set (db_uploads db)" "v = (if P u then f u else u)"
      using assms(2) by (auto simp: set_update_where)
    have n: "\<not> blocking (cp_id c) u" using ledgerD [OF t(2) _ c(2) u(1)] c(1) assms(2) by simp
    have "up_compaction (f u) = up_compaction u" using f(2) [of u] by (simp add: upload_key_def)
    then show "\<not> blocking (cp_id c) v" using n u f(3) [of u] ok [OF u(1)] by (auto simp: blocking_def)
  qed
  ultimately show ?thesis by (simp add: db_inv_tables)
qed

lemma MarkUploadAttempt_inv: "db_inv db \<Longrightarrow> open_upload i db \<Longrightarrow> db_inv (MarkUploadAttempt i st d r n db)"
  by (rule update_uploads_inv [OF _ MarkUploadAttempt_def]) (auto simp: upload_key_def open_upload_def)

lemma MarkUploadFailed_inv: "db_inv db \<Longrightarrow> open_upload i db \<Longrightarrow> db_inv (MarkUploadFailed i st d n db)"
  by (rule update_uploads_inv [OF _ MarkUploadFailed_def]) (auto simp: upload_key_def open_upload_def)

lemma publish_inv:
  assumes "db_inv db" "\<And>c. Q c \<Longrightarrow> c \<in> set (db_compactions db) \<Longrightarrow> filter (blocking (cp_id c)) (db_uploads db) = []"
  shows "db_inv (db\<lparr>db_compactions := update_where Q (\<lambda>c. c\<lparr>cp_status := s, cp_published := Some p\<rparr>) (db_compactions db)\<rparr>)"
proof -
  let ?g = "\<lambda>c. c\<lparr>cp_status := s, cp_published := Some p\<rparr>" and ?db = "db\<lparr>db_compactions := update_where Q (\<lambda>c. c\<lparr>cp_status := s, cp_published := Some p\<rparr>) (db_compactions db)\<rparr>"
  have t: "tables_inv db" "ledger_inv db" using assms by (simp_all add: db_inv_tables)
  have "tables_inv ?db"
    by (rule update_tables [OF t(1), where P = "\<lambda>_. True" and f = "\<lambda>u. u" and Q = Q and g = ?g]) (simp_all add: revision_key_def)
  moreover have "ledger_inv ?db"
    using ledgerD [OF t(2)] assms(2)
    by (intro ledgerI) (auto simp: set_update_where filter_empty_conv split: if_splits)
  ultimately show ?thesis by (simp add: db_inv_tables)
qed

lemma MarkUploadVerified_inv:
  assumes "MarkUploadVerified i remote now db = Inr db'" "db_inv db" shows "db_inv db'"
proof -
  let ?P = "\<lambda>u :: upload_row. up_id u = i"
  let ?f = "\<lambda>u :: upload_row. u\<lparr>up_status := ''verified'', up_error := '''', up_remote := remote, up_completed := Some (encodeTime now)\<rparr>"
  define dbu where "dbu = db\<lparr>db_uploads := update_where ?P ?f (db_uploads db)\<rparr>"
  have u: "db_inv dbu"
    by (rule update_uploads_inv [OF assms(2) dbu_def]) (auto simp: upload_key_def settled_def)
  obtain u0 where u0: "find ?P (db_uploads db) = Some u0"
    using assms(1) by (auto simp: MarkUploadVerified_def split: option.splits)
  define cid where "cid = up_compaction u0"
  have db': "db' = (if filter (blocking cid) (db_uploads dbu) = []
      then dbu\<lparr>db_compactions := update_where (\<lambda>c. cp_id c = cid) (\<lambda>c. c\<lparr>cp_status := ''published'', cp_published := Some (encodeTime now)\<rparr>) (db_compactions dbu)\<rparr>
      else dbu)"
    using assms(1) u0 by (auto simp: MarkUploadVerified_def Let_def dbu_def cid_def split: if_splits)
  show ?thesis
  proof (cases "filter (blocking cid) (db_uploads dbu) = []")
    case True
    have "db' = dbu\<lparr>db_compactions := update_where (\<lambda>c. cp_id c = cid) (\<lambda>c. c\<lparr>cp_status := ''published'', cp_published := Some (encodeTime now)\<rparr>) (db_compactions dbu)\<rparr>"
      unfolding db' using True by simp
    then show ?thesis using publish_inv [OF u, of "\<lambda>c. cp_id c = cid"] True by simp
  next
    case False
    with db' u show ?thesis by simp
  qed
qed

lemma backfill_rows_props:
  "length (backfill_rows i dest now cs) = length cs"
  "map up_id (backfill_rows i dest now cs) = map (\<lambda>k. i + int k) [1..<Suc (length cs)]"
  "map upload_key (backfill_rows i dest now cs) = map (\<lambda>c. (cp_id c, dest)) cs"
  "u \<in> set (backfill_rows i dest now cs) \<Longrightarrow> \<not> up_required u \<and> up_destination u = dest \<and> up_compaction u \<in> cp_id ` set cs"
proof -
  show "length (backfill_rows i dest now cs) = length cs" by (induction cs arbitrary: i) auto
  show "map up_id (backfill_rows i dest now cs) = map (\<lambda>k. i + int k) [1..<Suc (length cs)]"
  proof (induction cs arbitrary: i)
    case (Cons c cs)
    have "map (\<lambda>k. i + 1 + int k) [1..<Suc (length cs)] = map (\<lambda>k. i + int k) (map Suc [1..<Suc (length cs)])" by simp
    also have "map Suc [1..<Suc (length cs)] = [2..<Suc (Suc (length cs))]" by (simp only: map_Suc_upt Suc_1)
    finally show ?case using Cons by (simp add: upt_conv_Cons numeral_2_eq_2 del: upt_Suc)
  qed simp
  show "map upload_key (backfill_rows i dest now cs) = map (\<lambda>c. (cp_id c, dest)) cs" by (induction cs arbitrary: i) auto
  show "u \<in> set (backfill_rows i dest now cs) \<Longrightarrow> \<not> up_required u \<and> up_destination u = dest \<and> up_compaction u \<in> cp_id ` set cs"
    by (induction cs arbitrary: i) auto
qed

lemma EnsureDestinationBackfill_inv:
  assumes "EnsureDestinationBackfill dest now db = (n, db')" "db_inv db" shows "db_inv db'"
proof -
  let ?cs = "filter (lacks_destination dest db) (db_compactions db)"
  let ?rows = "backfill_rows (db_upload_seq db) dest now ?cs"
  have db': "db' = db\<lparr>db_uploads := db_uploads db @ ?rows, db_upload_seq := db_upload_seq db + int (length ?rows)\<rparr>"
    using assms(1) by (auto simp: EnsureDestinationBackfill_def Let_def)
  have t: "tables_inv db" "ledger_inv db" using assms by (simp_all add: db_inv_tables)
  note u = tables_invD(5) [OF t(1), unfolded uploads_inv_def] and c = tables_invD(3) [OF t(1), unfolded compactions_inv_def]
  have ids: "\<exists>k \<in> {1..length ?cs}. up_id v = db_upload_seq db + int k" if "v \<in> set ?rows" for v
  proof -
    have "up_id v \<in> set (map up_id ?rows)" using that by simp
    then show ?thesis unfolding backfill_rows_props(2) by (auto simp del: upt_Suc)
  qed
  have d1: "distinct (map up_id ?rows)" unfolding backfill_rows_props(2) by (simp add: distinct_map inj_on_def del: upt_Suc)
  have d2: "distinct (map upload_key ?rows)"
  proof -
    have "distinct (map cp_id ?cs)" using c by (simp add: distinct_map_filter)
    then show ?thesis unfolding backfill_rows_props(3) by (auto simp: distinct_map inj_on_def)
  qed
  have k: "upload_key v \<notin> upload_key ` set (db_uploads db)" if "v \<in> set ?rows" for v
  proof -
    have "upload_key v \<in> set (map upload_key ?rows)" using that by simp
    then obtain x where "x \<in> set ?cs" "upload_key v = (cp_id x, dest)" unfolding backfill_rows_props(3) by auto
    then show ?thesis by (auto simp: lacks_destination_def list_ex_iff upload_key_def)
  qed
  have "uploads_inv db'"
    unfolding uploads_inv_def
  proof (intro conjI)
    show "distinct (map up_id (db_uploads db'))" using u d1 ids by (fastforce simp: db')
    have "upload_key ` set ?rows \<inter> upload_key ` set (db_uploads db) = {}" using k by blast
    then show "distinct (map upload_key (db_uploads db'))" using u d2 unfolding db' by (simp add: Int_commute)
    show "\<forall>v \<in> set (db_uploads db'). up_id v \<le> db_upload_seq db'"
      using u ids by (fastforce simp: db' backfill_rows_props(1))
    show "up_compaction ` set (db_uploads db') \<subseteq> cp_id ` set (db_compactions db')"
      using u backfill_rows_props(4) by (fastforce simp: db')
  qed
  then have "tables_inv db'"
    using tables_invD [OF t(1)] inv_frames(1-4,6) [of db' db] by (simp add: tables_inv_def db')
  moreover have "ledger_inv db'"
    using ledgerD [OF t(2)] backfill_rows_props(4) by (intro ledgerI) (auto simp: db' blocking_def)
  ultimately show ?thesis by (simp add: db_inv_tables)
qed

lemma db_inv_audit [simp]: "db_inv (db\<lparr>db_audit := a\<rparr>) = db_inv db"
  by (simp add: db_inv_def inv_defs)

lemma RetireDestination_inv:
  assumes "RetireDestination dest reason now db = (n, db')" "db_inv db" shows "db_inv db'"
proof -
  let ?f = "\<lambda>u :: upload_row. u\<lparr>up_status := ''retired'', up_error := ''retired: '' @ reason,
                   up_completed := Some (encodeTime now), up_next := encodeTime now\<rparr>"
  define dbu where "dbu = db\<lparr>db_uploads := update_where (retirable dest) ?f (db_uploads db)\<rparr>"
  have u: "db_inv dbu"
    by (rule update_uploads_inv [OF assms(2) dbu_def]) (auto simp: upload_key_def settled_def)
  let ?Q = "\<lambda>c. cp_published c = None \<and>
            list_ex (\<lambda>u. up_compaction u = cp_id c \<and> up_destination u = dest \<and> up_status u = ''retired'') (db_uploads dbu) \<and>
            filter (blocking (cp_id c)) (db_uploads dbu) = []"
  have "db' = (dbu\<lparr>db_compactions := update_where ?Q (\<lambda>c. c\<lparr>cp_status := ''published'', cp_published := Some (encodeTime now)\<rparr>) (db_compactions dbu)\<rparr>)
      \<lparr>db_audit := db_audit db @ [\<lparr>au_action = ''retire_destination'', au_target = dest, au_reason = reason, au_created = encodeTime now\<rparr>]\<rparr>"
    using assms(1) by (simp add: RetireDestination_def Let_def dbu_def)
  then show ?thesis using publish_inv [OF u, of ?Q] by simp
qed

lemma RecordRepair_inv: "db_inv db \<Longrightarrow> db_inv (RecordRepair a t r n db)"
  by (simp add: RecordRepair_def)

end
