(* ===== verification/State_Props.thy ===== *)
theory State_Props
  imports State_Inv Go_Time_Facts
begin

text \<open>
  The store as its callers use it: the relation of its calls and what holds in every database they
  can reach, the revision ledger as an interface, the round trip of captures, what retention may
  delete, and the day windows.
\<close>

section \<open>Calls and reachable databases\<close>

text \<open>One call. The conditions are what the callers guarantee: a revision is saved as published only
  when no destination is required (Compactor.Compact, reconcile.All), and the upload worker reports
  on uploads it was given by PendingUploads, which are not settled.\<close>

inductive store_call :: "db \<Rightarrow> db \<Rightarrow> bool" where
  record_tick: "RecordTick t db = Inr db' \<Longrightarrow> store_call db db'"
| save_capture: "SaveCapture t c db = Inr db' \<Longrightarrow> store_call db db'"
| summarize: "SummarizeDay src sm date from to now db = Inr (b, db') \<Longrightarrow> store_call db db'"
| capture_retained: "MarkCaptureRetained i db = Inr db' \<Longrightarrow> store_call db db'"
| parquet_retained: "store_call db (MarkParquetRetained k db)"
| save_compaction: "SaveCompaction c inputs ds now db = Inr (c', db') \<Longrightarrow> saved_honestly c ds \<Longrightarrow> store_call db db'"
| adopt_compaction: "AdoptCompaction c ics ex ds now db = Inr (c', db') \<Longrightarrow> saved_honestly c ds \<Longrightarrow> store_call db db'"
| upload_attempt: "open_upload k db \<Longrightarrow> store_call db (MarkUploadAttempt k st detail remote t db)"
| upload_failed: "open_upload k db \<Longrightarrow> store_call db (MarkUploadFailed k st detail t db)"
| upload_verified: "MarkUploadVerified k remote now db = Inr db' \<Longrightarrow> store_call db db'"
| backfill: "EnsureDestinationBackfill dest now db = (n, db') \<Longrightarrow> store_call db db'"
| retire: "RetireDestination dest reason now db = (n, db') \<Longrightarrow> store_call db db'"
| repair: "store_call db (RecordRepair action target reason now db)"

inductive_cases store_callE: "store_call db db'"

lemmas store_inv_lemmas = RecordTick_inv SaveCapture_inv SummarizeDay_inv MarkCaptureRetained_inv
  MarkParquetRetained_inv SaveCompaction_inv AdoptCompaction_inv MarkUploadAttempt_inv MarkUploadFailed_inv
  MarkUploadVerified_inv EnsureDestinationBackfill_inv RetireDestination_inv RecordRepair_inv

lemma store_call_inv: "store_call db db' \<Longrightarrow> db_inv db \<Longrightarrow> db_inv db'"
  by (induction rule: store_call.induct) (erule (1) store_inv_lemmas | blast intro: store_inv_lemmas)+

definition reachable_db :: "db \<Rightarrow> bool" where
  "reachable_db db = store_call\<^sup>*\<^sup>* empty_db db"

lemma reachable_empty: "reachable_db empty_db"
  by (simp add: reachable_db_def)

lemma reachable_call: "reachable_db db \<Longrightarrow> store_call db db' \<Longrightarrow> reachable_db db'"
  unfolding reachable_db_def by (rule rtranclp.rtrancl_into_rtrancl)

lemma reachable_db_inv: "reachable_db db \<Longrightarrow> db_inv db"
  unfolding reachable_db_def by (induction rule: rtranclp_induct) (simp_all add: empty_db_inv store_call_inv)

text \<open>C1. In every database that the calls of the archiver can reach, keys are unique, references
  point at existing rows, and a compaction marked published has every required upload verified or
  retired.\<close>

theorem published_means_delivered:
  assumes "reachable_db db" "c \<in> set (db_compactions db)" "cp_published c \<noteq> None"
    and "u \<in> set (db_uploads db)" "up_compaction u = cp_id c" "up_required u"
  shows "up_status u = ''verified'' \<or> up_status u = ''retired''"
  using ledgerD [OF db_invD(7) [OF reachable_db_inv [OF assms(1)]] assms(2-4)] assms(5,6)
  by (simp add: blocking_def settled_def)

text \<open>C4. Raw retention never offers a capture that some revision still owes to a required
  destination: an offered capture has been compacted, every revision that contains it is published, and
  was so by the given time (as texts of times compare), and all required uploads of these revisions are
  verified or retired. A revision without required uploads holds its captures back just the same until it
  is published.\<close>

theorem raw_retention_safe:
  assumes "reachable_db db" "r \<in> set (RawRetentionCandidates before db)"
  shows "(\<exists>c \<in> set (db_compactions db). (cp_id c, rc_id r) \<in> set (db_inputs db)) \<and>
    (\<forall>c \<in> set (db_compactions db). (cp_id c, rc_id r) \<in> set (db_inputs db) \<longrightarrow>
       (\<exists>p. cp_published c = Some p \<and> p \<le> encodeTime before) \<and>
       (\<forall>u \<in> set (db_uploads db). up_compaction u = cp_id c \<and> up_required u \<longrightarrow> settled (up_status u)))"
proof -
  have k: "all_published_by (encodeTime before) (compactions_of_capture (rc_id r) db)"
    using assms(2) by (auto simp: RawRetentionCandidates_def to_retention_def)
  then obtain c0 where "c0 \<in> set (compactions_of_capture (rc_id r) db)"
    by (cases "compactions_of_capture (rc_id r) db") (auto simp: all_published_by_def)
  then have ex: "\<exists>c \<in> set (db_compactions db). (cp_id c, rc_id r) \<in> set (db_inputs db)"
    by (auto simp: compactions_of_capture_def)
  have pub: "\<exists>p. cp_published c = Some p \<and> p \<le> encodeTime before"
    if "c \<in> set (db_compactions db)" "(cp_id c, rc_id r) \<in> set (db_inputs db)" for c
  proof -
    have "c \<in> set (compactions_of_capture (rc_id r) db)" using that by (simp add: compactions_of_capture_def)
    with k show ?thesis by (auto simp: all_published_by_def list_all_iff split: option.splits)
  qed
  have "settled (up_status u)"
    if c: "c \<in> set (db_compactions db)" "(cp_id c, rc_id r) \<in> set (db_inputs db)"
      and u: "u \<in> set (db_uploads db)" "up_compaction u = cp_id c" "up_required u" for c u
    using pub [OF c] ledgerD [OF db_invD(7) [OF reachable_db_inv [OF assms(1)]] c(1) _ u(1)] u(2,3)
    by (auto simp: blocking_def)
  with ex pub show ?thesis by blast
qed

section \<open>The revision ledger\<close>

lemma highest_revision_None [simp]: "highest_revision cs = None \<longleftrightarrow> cs = []"
  by (cases cs) (auto split: option.splits)

lemma highest_revision_Some:
  "highest_revision cs = Some c \<Longrightarrow> c \<in> set cs \<and> (\<forall>d \<in> set cs. cp_revision d \<le> cp_revision c)"
proof (induction cs arbitrary: c)
  case (Cons k ks)
  show ?case
  proof (cases "highest_revision ks")
    case None
    with Cons.prems show ?thesis by simp
  next
    case (Some d)
    with Cons.prems Cons.IH [OF Some] show ?thesis by (auto split: if_splits)
  qed
qed simp

text \<open>What the compactor relies on: revisions of a key that exist, the number to allocate, and the
  effect of saving a revision.\<close>

locale revision_ledger =
  fixes has :: "'s \<Rightarrow> 'k \<Rightarrow> int \<Rightarrow> bool" and next_rev :: "'s \<Rightarrow> 'k \<Rightarrow> int"
    and saves :: "'k \<Rightarrow> int \<Rightarrow> 's \<Rightarrow> 's \<Rightarrow> bool"
  assumes next_above: "has s k r \<Longrightarrow> r < next_rev s k"
    and next_least: "has s k (next_rev s k - 1) \<or> next_rev s k = 1 \<and> (\<forall>r. \<not> has s k r)"
    and saves_has: "saves k r s t \<Longrightarrow> has t j q \<longleftrightarrow> has s j q \<or> (j = k \<and> q = r)"
    and saves_fresh: "saves k r s t \<Longrightarrow> \<not> has s k r"
begin

lemma next_free: "\<not> has s k (next_rev s k)"
  using next_above by blast

lemma next_after_save:
  assumes "saves k (next_rev s k) s t" shows "next_rev t k = next_rev s k + 1"
proof -
  have "has t k (next_rev s k)" using saves_has [OF assms] by blast
  then have lt: "next_rev s k < next_rev t k" by (rule next_above)
  have "has t k (next_rev t k - 1)" using next_least [of t k] \<open>has t k (next_rev s k)\<close> by blast
  then have "has s k (next_rev t k - 1) \<or> next_rev t k - 1 = next_rev s k" using saves_has [OF assms] by blast
  then show ?thesis using next_above [of s k "next_rev t k - 1"] lt by auto
qed

lemma saved_stays: "saves k r s t \<Longrightarrow> has s j q \<Longrightarrow> has t j q"
  using saves_has by blast

end

definition day_has :: "db \<Rightarrow> string \<times> string \<times> string \<Rightarrow> int \<Rightarrow> bool" where
  "day_has db k r = (case k of (src, sm, date) \<Rightarrow> HasCompaction src sm date r db)"

definition day_next :: "db \<Rightarrow> string \<times> string \<times> string \<Rightarrow> int" where
  "day_next db k = (case k of (src, sm, date) \<Rightarrow> NextRevision src sm date db)"

definition day_saves :: "string \<times> string \<times> string \<Rightarrow> int \<Rightarrow> db \<Rightarrow> db \<Rightarrow> bool" where
  "day_saves k r db db' \<longleftrightarrow> (\<exists>c c' inputs ds now. SaveCompaction c inputs ds now db = Inr (c', db') \<and>
     k = (cp_source c, cp_stream c, cp_archive_date c) \<and> r = cp_revision c)"

lemma day_has_iff: "day_has db (src, sm, date) r \<longleftrightarrow> (src, sm, date, r) \<in> revision_key ` set (db_compactions db)"
  by (auto simp: day_has_def HasCompaction_def list_ex_iff of_day_def revision_key_def image_iff)

lemma insert_inputs_compactions: "insert_inputs k is db = Inr db' \<Longrightarrow> db_compactions db' = db_compactions db"
proof (induction "is" arbitrary: db)
  case (Cons i "is")
  then obtain d where "insert_input k i db = Inr d" "insert_inputs k is d = Inr db'" by (auto split: sum.splits)
  with Cons.IH show ?case by (auto simp: insert_input_ok)
qed simp

lemma insert_uploads_compactions: "insert_uploads k ds now db = Inr db' \<Longrightarrow> db_compactions db' = db_compactions db"
proof (induction ds arbitrary: db)
  case (Cons d ds)
  obtain dest req where d: "d = (dest, req)" by (cases d)
  with Cons.prems obtain e where "insert_upload k dest req now db = Inr e" "insert_uploads k ds now e = Inr db'"
    by (auto split: sum.splits)
  with Cons.IH show ?case by (auto simp: insert_upload_ok)
qed simp

lemma SaveCompaction_ok:
  assumes "SaveCompaction c inputs ds now db = Inr (c', db')"
  shows "c' = c\<lparr>cp_id := db_compaction_seq db + 1\<rparr>"
    "db_compactions db' = db_compactions db @ [compaction_to_row c']"
    "(cp_source c, cp_stream c, cp_archive_date c, cp_revision c) \<notin> revision_key ` set (db_compactions db)"
  using assms insert_inputs_compactions insert_uploads_compactions
  by (auto simp: SaveCompaction_def insert_compaction_ok split: sum.splits)

lemma NextRevision_above:
  assumes "HasCompaction src sm date r db" shows "r < NextRevision src sm date db"
proof -
  from assms obtain c where c: "c \<in> set (day_compactions src sm date db)" "cp_revision c = r"
    by (auto simp: HasCompaction_def list_ex_iff day_compactions_def)
  then obtain d where d: "highest_revision (day_compactions src sm date db) = Some d"
    by (cases "highest_revision (day_compactions src sm date db)") auto
  with highest_revision_Some [OF d] c show ?thesis by (auto simp: NextRevision_def)
qed

lemma NextRevision_least:
  "HasCompaction src sm date (NextRevision src sm date db - 1) db \<or>
    NextRevision src sm date db = 1 \<and> (\<forall>r. \<not> HasCompaction src sm date r db)"
proof (cases "highest_revision (day_compactions src sm date db)")
  case None
  then show ?thesis by (auto simp: NextRevision_def HasCompaction_def list_ex_iff day_compactions_def filter_empty_conv)
next
  case (Some d)
  with highest_revision_Some [OF Some] show ?thesis
    by (auto simp: NextRevision_def HasCompaction_def list_ex_iff day_compactions_def)
qed

interpretation ledger: revision_ledger day_has day_next day_saves
proof
  fix s k r assume "day_has s k r"
  then show "r < day_next s k" by (cases k) (simp add: day_has_def day_next_def NextRevision_above)
next
  fix s k show "day_has s k (day_next s k - 1) \<or> day_next s k = 1 \<and> (\<forall>r. \<not> day_has s k r)"
    using NextRevision_least by (cases k) (simp add: day_has_def day_next_def)
next
  fix k r s t j q assume "day_saves k r s t"
  then show "day_has t j q \<longleftrightarrow> day_has s j q \<or> j = k \<and> q = r"
  proof -
    obtain c c' inputs ds now where sv: "SaveCompaction c inputs ds now s = Inr (c', t)"
      and k: "k = (cp_source c, cp_stream c, cp_archive_date c)" "r = cp_revision c"
      using \<open>day_saves k r s t\<close> by (auto simp: day_saves_def)
    show ?thesis using SaveCompaction_ok(1,2) [OF sv] by (cases j) (auto simp: day_has_iff k)
  qed
next
  fix k r s t assume "day_saves k r s t"
  then show "\<not> day_has s k r"
    by (auto simp: day_saves_def day_has_iff dest!: SaveCompaction_ok(3))
qed

text \<open>C13. Revisions of a day are allocated without gaps or reuse: the number NextRevision gives is
  free, saving a compaction under it never overwrites another, the revisions recorded before remain,
  and the next number is one more.\<close>

theorem revisions_consecutive:
  assumes "SaveCompaction c inputs ds now db = Inr (c', db')"
    and "cp_revision c = NextRevision (cp_source c) (cp_stream c) (cp_archive_date c) db"
  shows "\<not> HasCompaction (cp_source c) (cp_stream c) (cp_archive_date c) (cp_revision c) db \<and>
    HasCompaction (cp_source c) (cp_stream c) (cp_archive_date c) (cp_revision c) db' \<and>
    NextRevision (cp_source c) (cp_stream c) (cp_archive_date c) db' = cp_revision c + 1 \<and>
    (HasCompaction src sm date r db \<longrightarrow> HasCompaction src sm date r db')"
proof -
  let ?k = "(cp_source c, cp_stream c, cp_archive_date c)"
  have s: "day_saves ?k (day_next db ?k) db db'"
    unfolding day_saves_def day_next_def prod.case using assms by metis
  show ?thesis
    using ledger.next_free [of db ?k] ledger.next_after_save [OF s] ledger.saves_has [OF s, of ?k "day_next db ?k"]
      ledger.saved_stays [OF s, of "(src, sm, date)" r] assms(2)
    by (simp add: day_has_def day_next_def)
qed

section \<open>Round trip of captures\<close>

definition capture_times_ok :: "capture \<Rightarrow> bool" where
  "capture_times_ok c \<longleftrightarrow> stamp_ok (cap_scheduled c) \<and> stamp_ok (cap_started c) \<and> stamp_ok (cap_completed c)"

definition small_int :: "int option \<Rightarrow> bool" where
  "small_int v \<longleftrightarrow> (\<forall>i \<in> set_option v. - (2 ^ 31) \<le> i \<and> i < 2 ^ 31)"

lemma int32_id: "- (2 ^ 31) \<le> i \<Longrightarrow> i < 2 ^ 31 \<Longrightarrow> int32 i = i"
  unfolding int32_def by (rule signed_take_bit_int_eq_self) auto

lemma map_int32: "small_int v \<Longrightarrow> map_option int32 v = v"
  by (cases v) (simp_all add: small_int_def int32_id)

text \<open>The capture as the columns of JSON keep it, and the captures that they keep whole.\<close>

definition stored_capture :: "capture \<Rightarrow> capture" where
  "stored_capture c = c\<lparr>cap_headers := json_object json_text (cap_headers c), cap_flags := map json_text (cap_flags c)\<rparr>"

definition capture_text_ok :: "capture \<Rightarrow> bool" where
  "capture_text_ok c \<longleftrightarrow> (\<forall>(k, v) \<in> set (cap_headers c). valid_utf8 k \<and> valid_utf8 v) \<and> (\<forall>s \<in> set (cap_flags c). valid_utf8 s)"

lemma stored_capture_whole: "capture_text_ok c \<Longrightarrow> stored_capture c = c"
  using json_object_valid [of "cap_headers c" json_text] map_json_valid [of "cap_flags c"] json_text_valid
  by (fastforce simp: stored_capture_def capture_text_ok_def)

lemma capture_roundtrip:
  assumes "capture_times_ok c" "small_int (cap_incrementality c)" "small_int (cap_entity_count c)"
    and "cap_format c = SidecarFormatVersion"
  shows "capture_from_row (capture_to_row c) = Inr (stored_capture c)"
proof -
  have "map_option int32 (cap_incrementality c) = cap_incrementality c"
    "map_option int32 (cap_entity_count c) = cap_entity_count c"
    using assms map_int32 by auto
  moreover have "parse_rfc3339 (encodeTime t) = Some t" if "stamp_ok t" for t
    using that by (simp add: encodeTime_def parse_rfc3339_nano)
  ultimately show ?thesis
    using assms
    by (cases "cap_feed_timestamp c")
      (simp_all add: capture_from_row_def capture_to_row_def capture_times_ok_def parse_field_def
        encodeUint64Ptr_def parse_format_uint64 stored_capture_def)
qed

lemma decode_rows_member:
  "decode_rows rs = Inr cs \<Longrightarrow> r \<in> set rs \<Longrightarrow> capture_from_row r = Inr c \<Longrightarrow> c \<in> set cs"
  by (induction rs arbitrary: cs) (auto simp: bind_res_Inr)

lemma decode_rows_length: "decode_rows rs = Inr cs \<Longrightarrow> length cs = length rs"
  by (induction rs arbitrary: cs) (auto simp: bind_res_Inr)

text \<open>C12. A saved capture is read back: after SaveCapture, CapturesForDay of its day returns it among the
  day's captures (times to the nanosecond, the 64-bit feed timestamp and the optional 32-bit fields
  included), one result per row of the day. It comes back unchanged when the headers and flags are UTF-8;
  in any other header or flag the JSON column has the replacement character for each invalid byte.\<close>

theorem save_capture_roundtrip:
  assumes "SaveCapture t c db = Inr db'" "capture_times_ok c" "small_int (cap_incrementality c)"
    and "small_int (cap_entity_count c)" "cap_format c = SidecarFormatVersion"
    and "CapturesForDay (cap_source c) (cap_stream c) (cap_archive_date c) db' = Inr cs"
  shows "c\<lparr>cap_headers := json_object json_text (cap_headers c), cap_flags := map json_text (cap_flags c)\<rparr> \<in> set cs \<and>
    ((\<forall>(k, v) \<in> set (cap_headers c). valid_utf8 k \<and> valid_utf8 v) \<and> (\<forall>s \<in> set (cap_flags c). valid_utf8 s) \<longrightarrow> c \<in> set cs) \<and>
    length cs = length (filter (in_day (cap_source c) (cap_stream c) (cap_archive_date c)) (db_captures db')) \<and>
    HasCapture (cap_id c) db'"
proof -
  let ?rs = "sort_key (\<lambda>c. (cap_scheduled c, cap_id c))
      (filter (in_day (cap_source c) (cap_stream c) (cap_archive_date c)) (db_captures db'))"
  have row: "capture_to_row c \<in> set (db_captures db')"
    using assms(1) by (auto simp: SaveCapture_def insert_capture_ok split: sum.splits)
  then have "capture_to_row c \<in> set ?rs" by (simp add: in_day_def)
  with decode_rows_member [OF assms(6) [unfolded CapturesForDay_def]] capture_roundtrip [OF assms(2-5)]
  have c: "stored_capture c \<in> set cs" by blast
  then have "capture_text_ok c \<Longrightarrow> c \<in> set cs" by (simp add: stored_capture_whole)
  moreover have "length cs = length ?rs" using decode_rows_length assms(6) by (simp add: CapturesForDay_def)
  moreover have "HasCapture (cap_id c) db'" using row by (force simp: HasCapture_def list_ex_iff)
  ultimately show ?thesis using c unfolding capture_text_ok_def stored_capture_def by simp
qed

section \<open>Day windows\<close>

text \<open>A time with a fraction sorts before the whole second it belongs to, so a window that starts at a
  whole second leaves it out, and the window that ends there takes it in.\<close>

lemma second_split: "0 < f \<Longrightarrow> f < second \<Longrightarrow> s mod second = 0 \<Longrightarrow> (s + f) div second = s div second \<and> (s + f) mod second = f"
  for s f :: int
proof -
  assume f: "0 < f" "f < second" and s: "s mod second = 0"
  obtain k where k: "s = k * second" using s by (metis mod_0_imp_dvd dvd_def mult.commute)
  show "(s + f) div second = s div second \<and> (s + f) mod second = f"
    unfolding k using f by (simp add: add.commute [of "k * second"] div_pos_pos_trivial mod_pos_pos_trivial)
qed

text \<open>The order of two times of which the second is a whole second.\<close>

lemma encodeTime_below_whole:
  assumes "stamp_ok t" "stamp_ok w" "w mod second = 0"
  shows "encodeTime t < encodeTime w \<longleftrightarrow> t div second < w div second \<or> (t div second = w div second \<and> t mod second \<noteq> 0)"
proof -
  consider "t div second < w div second" | "w div second < t div second" | "t div second = w div second" by linarith
  then show ?thesis
  proof cases
    case 1
    with rfc3339_less_seconds [OF assms(1,2)] show ?thesis by (simp add: encodeTime_def)
  next
    case 2
    with rfc3339_less_seconds [OF assms(2,1)] show ?thesis by (auto simp: encodeTime_def)
  next
    case 3
    have w: "t div second * second = w"
      using 3 assms(3) div_mult_mod_eq [of w second] by simp
    show ?thesis
    proof (cases "t mod second = 0")
      case True
      then have "t = w" using w div_mult_mod_eq [of t second] by simp
      then show ?thesis using True by simp
    next
      case False
      with rfc3339_fraction_below_whole [of t] w 3 show ?thesis by (simp add: encodeTime_def)
    qed
  qed
qed

text \<open>C15. Which ticks the SQL of a day window with whole-second bounds selects: the comparison is one
  of texts, so a tick with a fraction in the first second of the day is left out, and one in the
  first second after the end is taken in.\<close>

theorem window_selects:
  assumes "stamp_ok t" "stamp_ok from" "stamp_ok to" "from mod second = 0" "to mod second = 0"
    and "tick_scheduled r = encodeTime t" "of_stream src sm r"
  shows "in_window src sm from to r \<longleftrightarrow>
    (from div second < t div second \<or> t = from) \<and> (t div second < to div second \<or> (t div second = to div second \<and> t mod second \<noteq> 0))"
proof -
  have eq: "t div second = from div second \<and> t mod second = 0 \<longleftrightarrow> t = from"
    using assms(4) div_mult_mod_eq [of t second] div_mult_mod_eq [of "from" second] by auto
  have "encodeTime from \<le> encodeTime t \<longleftrightarrow> \<not> encodeTime t < encodeTime from" by (rule not_less [symmetric])
  also have "\<dots> \<longleftrightarrow> from div second < t div second \<or> t = from"
    unfolding encodeTime_below_whole [OF assms(1,2,4)] eq [symmetric] by linarith
  finally show ?thesis
    unfolding in_window_def assms(6) encodeTime_below_whole [OF assms(1,3,5)] using assms(7) by simp
qed

text \<open>C16. A day whose following day has a captured tick in its first second (with a fraction, as the
  phases of streams have) cannot be summarised while that capture is recorded: its tick is in the
  window of the day, and deleting it violates the reference of the capture.\<close>

theorem summarize_blocked_by_next_day:
  assumes "stamp_ok from" "stamp_ok to" "stamp_ok t" "from mod second = 0" "to mod second = 0" "from < to"
    and "t div second = to div second" "t mod second \<noteq> 0"
    and "r \<in> set (db_ticks db)" "of_stream src sm r" "tick_scheduled r = encodeTime t"
    and "k \<in> set (db_captures db)" "cap_tick_id k = tick_id r" "cap_archive_date k \<noteq> date"
  shows "SummarizeDay src sm date from to now db \<noteq> Inr (True, db')"
proof -
  have "from div second < to div second"
    using assms(4-6) div_mult_mod_eq [of "from" second] div_mult_mod_eq [of to second] by linarith
  then have "in_window src sm from to r"
    unfolding window_selects [OF assms(3,1,2,4,5,11,10)] using assms(7,8) by simp
  moreover have "k \<in> set (delete_where (in_day src sm date) (db_captures db))"
    using assms(12,14) by (simp add: in_day_def)
  ultimately have "purge_day src sm date from to (db\<lparr>db_summaries := ds\<rparr>) = Inl (constraint_error ''FOREIGN KEY'')" for ds
    using assms(9,13) by (auto simp: purge_day_def Let_def)
  then show ?thesis by (auto simp: SummarizeDay_def split: option.splits)
qed

text \<open>C17. Verifying any upload of a compaction with nothing outstanding stamps published_at anew: the
  verification of an optional backfill after publication restarts the retention clock of the
  revision, so ParquetRetentionCandidates and RawRetentionCandidates drop it until the new stamp is
  old enough.\<close>

theorem late_verification_republishes:
  assumes "reachable_db db" "u \<in> set (db_uploads db)" "up_id u = k" "c \<in> set (db_compactions db)"
    and "cp_id c = up_compaction u" "cp_published c \<noteq> None" "MarkUploadVerified k remote now db = Inr db'"
  shows "c\<lparr>cp_status := ''published'', cp_published := Some (encodeTime now)\<rparr> \<in> set (db_compactions db')"
proof -
  note inv = reachable_db_inv [OF assms(1)]
  have d: "distinct (map up_id (db_uploads db))" using db_invD(5) [OF inv] by (simp add: uploads_inv_def)
  have "find (\<lambda>u. up_id u = k) (db_uploads db) = Some u"
    using d assms(2,3)
  proof (induction "db_uploads db" arbitrary: db)
    case (Cons x xs)
    then have eq: "db_uploads db = x # xs" by simp
    have "distinct (map up_id xs)" "u \<in> set xs \<Longrightarrow> find (\<lambda>u. up_id u = k) xs = Some u"
      using Cons.hyps(1) [of "db\<lparr>db_uploads := xs\<rparr>"] Cons.prems eq by auto
    with Cons.prems show ?case unfolding eq by auto
  qed simp
  moreover have "filter (blocking (cp_id c)) (update_where (\<lambda>u. up_id u = k)
      (\<lambda>u. u\<lparr>up_status := ''verified'', up_error := '''', up_remote := remote, up_completed := Some (encodeTime now)\<rparr>) (db_uploads db)) = []"
    using ledgerD [OF db_invD(7) [OF inv] assms(4,6)]
    by (auto simp: filter_empty_conv set_update_where blocking_def settled_def split: if_splits)
  ultimately show ?thesis
    using assms(4,5,7) by (auto simp: MarkUploadVerified_def Let_def set_update_where)
qed

end
