(* ===== verification/Compact_Disk.thy ===== *)
theory Compact_Disk
  imports Compact Written_Valid Config_Facts State_Props
begin

text \<open>
  The file system under a compaction: what MkdirAll, the creation of the work directory, the writes
  below it and the rename of the directory change, and what they keep.
\<close>

lemma Join_one: "\<forall>c \<in> set cs. plain_comp c \<Longrightarrow> plain_comp x \<Longrightarrow> Join [abs_path cs, x] = abs_path (cs @ [x])"
  using Join_root_plain [of cs "[x]"] by (simp del: Join.simps)

section \<open>Trees\<close>

text \<open>Every node lies in a directory.\<close>

definition tree_fs :: "fs \<Rightarrow> bool" where
  "tree_fs fs \<longleftrightarrow> (\<forall>p c. map_of fs (p @ [c]) \<noteq> None \<longrightarrow> p = [] \<or> map_of fs p = Some Directory)"

lemma tree_none_below:
  assumes "tree_fs fs" "map_of fs (p @ [c]) = None"
  shows "map_of fs (p @ [c] @ q) = None"
proof (induction q rule: rev_induct)
  case (snoc x q)
  show ?case
  proof (rule ccontr)
    assume "map_of fs (p @ [c] @ q @ [x]) \<noteq> None"
    then have "p @ [c] @ q = [] \<or> map_of fs (p @ [c] @ q) = Some Directory"
      using assms(1) unfolding tree_fs_def by (metis append_assoc)
    with snoc show False by simp
  qed
qed (use assms in simp)

definition no_links :: "fs \<Rightarrow> string list \<Rightarrow> string list \<Rightarrow> bool" where
  "no_links fs cur vs \<longleftrightarrow> (\<forall>k \<in> {1..length vs}. \<forall>t. map_of fs (cur @ take k vs) \<noteq> Some (Symlink t))"

lemma no_links_Cons:
  "no_links fs cur (c # vs) \<longleftrightarrow> (\<forall>t. map_of fs (cur @ [c]) \<noteq> Some (Symlink t)) \<and> no_links fs (cur @ [c]) vs"
proof -
  have eq: "{1..length (c # vs)} = insert 1 (Suc ` {1..length vs})" by (simp only: image_Suc_atLeastAtMost length_Cons) auto
  show ?thesis unfolding no_links_def eq by (simp del: image_Suc_atLeastAtMost)
qed

lemma check_parts_no_links:
  assumes "check_parts fs (abs_path cur) vs = Inr ()" "real_dirs fs cur" "tree_fs fs" "\<forall>c \<in> set (cur @ vs). plain_comp c"
  shows "no_links fs cur vs"
  using assms
proof (induction vs arbitrary: cur)
  case (Cons c vs)
  have pl: "\<forall>x \<in> set (cur @ [c]). plain_comp x" using Cons.prems(4) by auto
  have j: "Join [abs_path cur, c] = abs_path (cur @ [c])" using Join_root_plain [of cur "[c]"] pl by simp
  note l = os_lstat_entry [OF Cons.prems(2) pl]
  show ?case
  proof (cases "map_of fs (cur @ [c])")
    case None
    have "no_links fs (cur @ [c]) vs"
      using tree_none_below [OF Cons.prems(3) None] by (simp add: no_links_def)
    with None show ?thesis by (simp add: no_links_Cons)
  next
    case (Some node)
    show ?thesis
    proof (cases node)
      case (Reg b)
      have "vs = []"
        using Cons.prems(1) Some Reg l j check_parts_file [OF Cons.prems(2), of c b vs] Cons.prems(4)
        by (simp add: Let_def del: Join.simps split: if_splits)
      with Some Reg show ?thesis by (simp add: no_links_Cons no_links_def)
    next
      case Directory
      with Some have "real_dirs fs (cur @ [c])" using Cons.prems(2) by (simp add: real_dirs_snoc)
      moreover have "check_parts fs (abs_path (cur @ [c])) vs = Inr ()"
        using Cons.prems(1) Some Directory l j by (simp add: Let_def del: Join.simps)
      ultimately show ?thesis using Cons.IH [of "cur @ [c]"] Cons.prems Some Directory by (simp add: no_links_Cons)
    next
      case (Symlink t)
      with Some l j Cons.prems(1) show ?thesis by (simp add: Let_def del: Join.simps)
    qed
  qed
qed (simp add: no_links_def)

section \<open>MkdirAll\<close>

definition made_dirs :: "string list \<Rightarrow> fs \<Rightarrow> fs \<Rightarrow> bool" where
  "made_dirs p fs fs' \<longleftrightarrow> (\<forall>q. map_of fs' q = map_of fs q \<or>
     (map_of fs q = None \<and> map_of fs' q = Some Directory \<and> (\<exists>k \<in> {1..length p}. q = take k p)))"

lemma made_dirs_refl [simp]: "made_dirs p fs fs"
  by (simp add: made_dirs_def)

lemma made_dirs_kept: "made_dirs p fs fs' \<Longrightarrow> dirs_kept fs fs'"
  unfolding made_dirs_def dirs_kept_def by (metis option.distinct(1))

lemma made_dirs_put: "map_of fs (take k p) = None \<Longrightarrow> k \<in> {1..length p} \<Longrightarrow> made_dirs p fs (fs_put (take k p) Directory fs)"
  by (auto simp: made_dirs_def)

lemma made_dirs_trans: "made_dirs p a b \<Longrightarrow> made_dirs p b c \<Longrightarrow> made_dirs p a c"
  unfolding made_dirs_def by metis

lemma mkdirs_reach:
  assumes "mkdirs cur cs fs = Inr fs'" "real_dirs fs cur" "no_links fs cur cs"
  shows "real_dirs fs' (cur @ cs) \<and> made_dirs (cur @ cs) fs fs'"
  using assms
proof (induction cs arbitrary: cur fs)
  case (Cons c cs)
  have r: "realpath link_limit fs True [] cur = Inr cur" by (rule realpath_real_dirs [OF Cons.prems(2)])
  have k: "cur @ [c] = take (Suc (length cur)) (cur @ c # cs)" by simp
  show ?case
  proof (cases "map_of fs (cur @ [c])")
    case None
    let ?fs1 = "fs_put (cur @ [c]) Directory fs"
    have 1: "mkdirs (cur @ [c]) cs ?fs1 = Inr fs'" using Cons.prems(1) None r by simp
    have 2: "real_dirs ?fs1 (cur @ [c])"
      using Cons.prems(2) by (auto simp: real_dirs_snoc intro!: real_dirs_put)
    have 3: "no_links ?fs1 (cur @ [c]) cs"
    proof -
      have "no_links fs (cur @ [c]) cs" using Cons.prems(3) by (simp add: no_links_Cons)
      then show ?thesis by (auto simp: no_links_def)
    qed
    have "made_dirs (cur @ c # cs) fs ?fs1"
      using made_dirs_put [of fs "Suc (length cur)" "cur @ c # cs"] None by simp
    with Cons.IH [OF 1 2 3] made_dirs_trans show ?thesis by (metis append_Cons append_Nil append_assoc)
  next
    case (Some node)
    have nl: "\<And>t. node \<noteq> Symlink t" using Cons.prems(3) Some by (simp add: no_links_Cons)
    have rp: "realpath link_limit fs True cur [c] = Inr (cur @ [c])"
      using Some nl by (cases node) auto
    have nd: "node = Directory"
      using Cons.prems(1) Some r rp by (simp add: node_at_def split: if_splits)
    then have 1: "mkdirs (cur @ [c]) cs fs = Inr fs'" using Cons.prems(1) Some r rp by (simp add: node_at_def)
    have 2: "real_dirs fs (cur @ [c])" using Cons.prems(2) Some nd by (simp add: real_dirs_snoc)
    have 3: "no_links fs (cur @ [c]) cs" using Cons.prems(3) by (simp add: no_links_Cons)
    from Cons.IH [OF 1 2 3] show ?thesis by simp
  qed
qed simp

lemma mkdirall_reach:
  assumes "os_mkdirall p fs = Inr fs'" "comps p = rcs @ ds" "real_dirs fs rcs" "no_links fs rcs ds"
  shows "real_dirs fs' (rcs @ ds) \<and> made_dirs (rcs @ ds) fs fs'"
proof -
  have "no_links fs [] (rcs @ ds)"
    unfolding no_links_def
  proof (intro ballI allI)
    fix k t assume k: "k \<in> {1..length (rcs @ ds)}"
    show "map_of fs ([] @ take k (rcs @ ds)) \<noteq> Some (Symlink t)"
    proof (cases "k \<le> length rcs")
      case True
      then show ?thesis using assms(3) k unfolding real_dirs_def by (auto dest!: bspec [of _ _ k])
    next
      case False
      then have "k - length rcs \<in> {1..length ds}" using k by auto
      with False assms(4) show ?thesis unfolding no_links_def by auto
    qed
  qed
  with mkdirs_reach [of "[]" "rcs @ ds" fs fs'] assms(1,2) show ?thesis by (simp add: os_mkdirall_def)
qed

section \<open>Writes below a directory\<close>

text \<open>Nothing outside the directory \<open>w\<close> changes, nor \<open>w\<close> itself.\<close>

definition only_below :: "string list \<Rightarrow> fs \<Rightarrow> fs \<Rightarrow> bool" where
  "only_below w fs fs' \<longleftrightarrow> (\<forall>p. (\<forall>x q. p \<noteq> w @ x # q) \<longrightarrow> map_of fs' p = map_of fs p)"

lemma only_below_refl [simp]: "only_below w fs fs"
  by (simp add: only_below_def)

lemma only_below_trans: "only_below w a b \<Longrightarrow> only_below w b c \<Longrightarrow> only_below w a c"
  by (simp add: only_below_def)

lemma only_below_put [simp]: "only_below w fs (fs_put (w @ [x]) n fs)"
  by (auto simp: only_below_def)

lemma only_below_del [simp]: "only_below w fs (fs_del (w @ [x]) fs)"
  by (auto simp: only_below_def)

lemma only_belowD: "only_below w fs fs' \<Longrightarrow> length p \<le> length w \<Longrightarrow> map_of fs' p = map_of fs p"
  unfolding only_below_def by (erule allE [of _ p]) auto

lemma only_below_real: "only_below w fs fs' \<Longrightarrow> length p \<le> length w \<Longrightarrow> real_dirs fs p \<Longrightarrow> real_dirs fs' p"
  unfolding real_dirs_def by (auto simp: only_belowD)

lemma create_write:
  assumes "writeJSONFile p b fs = Inr fs'" "comps p = w @ [x]" "real_dirs fs w" "map_of fs [] = None"
  shows "map_of fs (w @ [x]) = None \<and> fs' = fs_put (w @ [x]) (Reg b) (fs_put (w @ [x]) (Reg []) fs)"
proof -
  obtain fs1 where c: "os_create_excl p fs = Inr fs1" and wr: "os_write p b fs1 = Inr fs'"
    using assms(1) by (auto simp: writeJSONFile_def bind_res_Inr)
  have 1: "map_of fs (w @ [x]) = None" "fs1 = fs_put (w @ [x]) (Reg []) fs"
    using c entry_place_real [OF assms(2-4)] by (auto simp: os_create_excl_def split: option.splits)
  have "real_dirs fs1 w" unfolding 1(2) by (rule only_below_real [OF only_below_put _ assms(3)]) simp
  then have "os_write p b fs1 = Inr (fs_put (w @ [x]) (Reg b) fs1)"
    by (rule write_file [OF assms(2)]) (simp add: 1)
  with wr 1 show ?thesis by simp
qed

lemma rename_over:
  assumes "os_rename old new fs = Inr fs'" "comps old = d @ [x]" "comps new = d @ [y]" "x \<noteq> y" "real_dirs fs d"
    and "map_of fs [] = None" "map_of fs (d @ [x]) = Some (Reg b)"
  shows "fs' = fs_put (d @ [y]) (Reg b) (fs_del (d @ [x]) fs)"
proof -
  have s: "realpath link_limit fs False [] (d @ [x]) = Inr (d @ [x])" by (rule realpath_file [OF assms(5,7)])
  have e: "entry_place fs new = Inr (d @ [y])" by (rule entry_place_real [OF assms(3,5,6)])
  show ?thesis using assms(1,4,7) by (auto simp: os_rename_def assms(2) s e node_at_def split: if_splits)
qed

section \<open>Renaming a directory\<close>

lemma take_length_eq: "take (length a) p = a \<longleftrightarrow> (\<exists>q. p = a @ q)"
  by (metis append_eq_conv_conj append_take_drop_id)

definition apart :: "string list \<Rightarrow> string list \<Rightarrow> bool" where
  "apart a b \<longleftrightarrow> (\<forall>q r. a @ q \<noteq> b @ r)"

lemma move_tree_new:
  "apart old new \<Longrightarrow> map_of (move_tree old new fs) (new @ r) = map_of fs (old @ r)"
proof (induction fs)
  case (Cons e fs)
  obtain p n where e: "e = (p, n)" by (cases e)
  have ih: "map_of (move_tree old new fs) (new @ r) = map_of fs (old @ r)" using Cons by simp
  have m: "move_tree old new (e # fs) =
      (if take (length new) p = new then move_tree old new fs
       else (if take (length old) p = old then (new @ drop (length old) p, n) else (p, n)) # move_tree old new fs)"
    by (simp add: move_tree_def e)
  show ?case
  proof (cases "take (length new) p = new")
    case True
    then have "p \<noteq> old @ r" using Cons.prems unfolding take_length_eq apart_def by metis
    with True m ih e show ?thesis by simp
  next
    case False
    then have ne: "p \<noteq> new @ r" by auto
    show ?thesis
    proof (cases "take (length old) p = old")
      case True
      then obtain q where q: "p = old @ q" unfolding take_length_eq by blast
      with False True m ih e show ?thesis by simp
    next
      case f: False
      then have "p \<noteq> old @ r" by auto
      with False f m ih e ne show ?thesis by simp
    qed
  qed
qed (simp add: move_tree_def)

lemma move_tree_other:
  assumes "\<not> (\<exists>q. p = new @ q)" "\<not> (\<exists>q. p = old @ q)"
  shows "map_of (move_tree old new fs) p = map_of fs p"
proof (induction fs)
  case (Cons e fs)
  show ?case
  proof (cases e)
    case (Pair q n)
    then show ?thesis using Cons assms by (auto simp: move_tree_def take_length_eq)
  qed
qed (simp add: move_tree_def)

lemma move_tree_gone:
  assumes "apart old new"
  shows "map_of (move_tree old new fs) (old @ r) = None"
proof (induction fs)
  case (Cons e fs)
  show ?case
  proof (cases e)
    case (Pair q n)
    then show ?thesis using Cons assms
      by (auto simp: move_tree_def apart_def)
  qed
qed (simp add: move_tree_def)

lemma rename_dir:
  assumes "os_rename old new fs = Inr fs'" "comps old = src" "comps new = d @ [y]" "real_dirs fs src" "src \<noteq> []"
    and "real_dirs fs d" "map_of fs [] = None"
  shows "fs' = move_tree src (d @ [y]) fs"
proof -
  have s: "realpath link_limit fs False [] src = Inr src" by (rule realpath_real_dirs [OF assms(4)])
  have e: "entry_place fs new = Inr (d @ [y])" by (rule entry_place_real [OF assms(3,6,7)])
  have n: "node_at fs src = Directory" using node_at_real [OF assms(4)] assms(5) by simp
  show ?thesis using assms(1) by (auto simp: os_rename_def assms(2) s e n split: option.splits node.splits if_splits)
qed

lemma apart_len: "length a = length b \<Longrightarrow> a \<noteq> b \<Longrightarrow> apart (r @ a @ p) (r @ b @ q)"
  by (auto simp: apart_def append_eq_append_conv2)

lemma real_dirs_moved:
  assumes "real_dirs fs d" "real_dirs fs old" "old \<noteq> []" "apart old (d @ [y])" "\<not> (\<exists>q. d = old @ q)"
  shows "real_dirs (move_tree old (d @ [y]) fs) (d @ [y])"
proof -
  have "map_of fs old = Some Directory"
    using assms(2,3) by (cases old rule: rev_cases) (auto simp: real_dirs_snoc)
  then have last: "map_of (move_tree old (d @ [y]) fs) (d @ [y]) = Some Directory"
    using move_tree_new [OF assms(4), of fs "[]"] by simp
  have "map_of (move_tree old (d @ [y]) fs) (take k d) = map_of fs (take k d)" if "k \<in> {1..length d}" for k
  proof (rule move_tree_other)
    show "\<not> (\<exists>q. take k d = (d @ [y]) @ q)" by (auto dest!: arg_cong [where f = length])
    show "\<not> (\<exists>q. take k d = old @ q)"
    proof
      assume "\<exists>q. take k d = old @ q"
      then obtain q where "take k d = old @ q" by blast
      then have "d = old @ q @ drop k d" by (metis append_assoc append_take_drop_id)
      with assms(5) show False by blast
    qed
  qed
  with assms(1) have "real_dirs (move_tree old (d @ [y]) fs) d" by (simp add: real_dirs_def)
  with last show ?thesis by (simp add: real_dirs_snoc)
qed

end
