(* ===== verification/Compact_Manifest.thy ===== *)
theory Compact_Manifest
  imports Compact_Disk "HOL-Library.Multiset"
begin

text \<open>
  The manifest that Compact writes: what the loop over the captures leaves alone, what the branch of
  the data set adds, and that every check of VerifyDirectory on the manifest holds for it.
\<close>

section \<open>The loop over the captures\<close>

definition man_core :: "manifest \<Rightarrow> manifest" where
  "man_core m = m\<lparr>man_valid_snapshots := 0, man_invalid_payloads := 0, man_earliest_capture := None,
     man_latest_capture := None, man_earliest_feed := None, man_latest_feed := None, man_largest_gap_ms := 0,
     man_parse_status_counts := Map.empty, man_flag_counts := Map.empty, man_inputs := []\<rparr>"

lemma count_validity_core: "man_core (count_validity c m) = man_core m" "man_inputs (count_validity c m) = man_inputs m"
  by (simp_all add: count_validity_def man_core_def Let_def split: option.split)

lemma add_input_core:
  "man_core (add_input c m) = man_core m"
  "man_inputs (add_input c m) = man_inputs m @ [\<lparr>ic_id = cap_id c, ic_sha256 = cap_sha256 c, ic_bytes = cap_decoded_length c\<rparr>]"
proof -
  define m1 where "m1 = m\<lparr>man_inputs := man_inputs m @ [\<lparr>ic_id = cap_id c, ic_sha256 = cap_sha256 c, ic_bytes = cap_decoded_length c\<rparr>],
     man_parse_status_counts := bump (cap_parse_status c) (man_parse_status_counts m)\<rparr>"
  define m3 where "m3 = count_validity c m1\<lparr>man_flag_counts := fold bump (cap_flags c) (man_flag_counts (count_validity c m1))\<rparr>"
  have a: "add_input c m =
     (let m4 = (if man_earliest_capture m3 = None then m3\<lparr>man_earliest_capture := Some (cap_completed c)\<rparr> else m3);
          m5 = (case man_latest_capture m4 of None \<Rightarrow> m4
                | Some l \<Rightarrow> (let gap = gap_milliseconds (cap_completed c) l in
                    if gap > man_largest_gap_ms m4 then m4\<lparr>man_largest_gap_ms := gap\<rparr> else m4))
      in m5\<lparr>man_latest_capture := Some (cap_completed c)\<rparr>)"
    unfolding add_input_def m3_def m1_def Let_def by (rule refl)
  have "man_core (add_input c m) = man_core m3" "man_inputs (add_input c m) = man_inputs m3"
    unfolding a by (simp_all add: man_core_def Let_def split: option.split)
  moreover have "man_core m3 = man_core (count_validity c m1)" "man_inputs m3 = man_inputs (count_validity c m1)"
    by (simp_all add: m3_def man_core_def)
  moreover have "man_core m1 = man_core m" by (simp add: m1_def man_core_def)
  ultimately show "man_core (add_input c m) = man_core m"
    "man_inputs (add_input c m) = man_inputs m @ [\<lparr>ic_id = cap_id c, ic_sha256 = cap_sha256 c, ic_bytes = cap_decoded_length c\<rparr>]"
    by (simp_all add: count_validity_core) (simp add: m1_def)
qed

lemma fold_inputs:
  "man_core (fold add_input cs m) = man_core m"
  "man_inputs (fold add_input cs m) = man_inputs m @
     map (\<lambda>c. \<lparr>ic_id = cap_id c, ic_sha256 = cap_sha256 c, ic_bytes = cap_decoded_length c\<rparr>) cs"
  by (induction cs arbitrary: m) (simp_all add: add_input_core)

lemma core_fields:
  assumes "man_core m = man_core m'"
  shows "man_version m = man_version m'" "man_format m = man_format m'" "man_schema m = man_schema m'"
    "man_source m = man_source m'" "man_stream m = man_stream m'" "man_archive_date m = man_archive_date m'"
    "man_revision m = man_revision m'" "man_captured_responses m = man_captured_responses m'"
    "man_entity_total m = man_entity_total m'" "man_excluded m = man_excluded m'"
    "man_dataset_status m = man_dataset_status m'" "man_files m = man_files m'"
    "man_destinations m = man_destinations m'" "man_required_destinations m = man_required_destinations m'"
    "man_kind m = man_kind m'" "man_stu_total m = man_stu_total m'" "man_created m = man_created m'"
proof -
  show "man_version m = man_version m'" using arg_cong [where f = man_version, OF assms] by (simp add: man_core_def)
  show "man_format m = man_format m'" using arg_cong [where f = man_format, OF assms] by (simp add: man_core_def)
  show "man_schema m = man_schema m'" using arg_cong [where f = man_schema, OF assms] by (simp add: man_core_def)
  show "man_source m = man_source m'" using arg_cong [where f = man_source, OF assms] by (simp add: man_core_def)
  show "man_stream m = man_stream m'" using arg_cong [where f = man_stream, OF assms] by (simp add: man_core_def)
  show "man_archive_date m = man_archive_date m'" using arg_cong [where f = man_archive_date, OF assms] by (simp add: man_core_def)
  show "man_revision m = man_revision m'" using arg_cong [where f = man_revision, OF assms] by (simp add: man_core_def)
  show "man_captured_responses m = man_captured_responses m'" using arg_cong [where f = man_captured_responses, OF assms] by (simp add: man_core_def)
  show "man_entity_total m = man_entity_total m'" using arg_cong [where f = man_entity_total, OF assms] by (simp add: man_core_def)
  show "man_excluded m = man_excluded m'" using arg_cong [where f = man_excluded, OF assms] by (simp add: man_core_def)
  show "man_dataset_status m = man_dataset_status m'" using arg_cong [where f = man_dataset_status, OF assms] by (simp add: man_core_def)
  show "man_files m = man_files m'" using arg_cong [where f = man_files, OF assms] by (simp add: man_core_def)
  show "man_destinations m = man_destinations m'" using arg_cong [where f = man_destinations, OF assms] by (simp add: man_core_def)
  show "man_required_destinations m = man_required_destinations m'"
    using arg_cong [where f = man_required_destinations, OF assms] by (simp add: man_core_def)
  show "man_kind m = man_kind m'" using arg_cong [where f = man_kind, OF assms] by (simp add: man_core_def)
  show "man_stu_total m = man_stu_total m'" using arg_cong [where f = man_stu_total, OF assms] by (simp add: man_core_def)
  show "man_created m = man_created m'" using arg_cong [where f = man_created, OF assms] by (simp add: man_core_def)
qed

section \<open>The destination snapshot\<close>

lemma check_snapshot_ok:
  "distinct (map md_id ds) \<Longrightarrow> \<forall>d \<in> set ds. md_id d \<noteq> '''' \<and> md_id d \<notin> set seen \<Longrightarrow>
    check_snapshot ds seen required = Inr (required @ map md_id (filter md_required ds))"
proof (induction ds arbitrary: seen required)
  case (Cons d ds)
  have "\<forall>x \<in> set ds. md_id x \<noteq> '''' \<and> md_id x \<notin> set (md_id d # seen)" using Cons.prems by (auto simp: image_iff)
  with Cons show ?case by simp
qed simp

lemma manifest_destinations_ok:
  assumes "distinct (map dst_id ds)" "\<forall>d \<in> set ds. dst_id d \<noteq> ''''"
    and "man_destinations m = manifestDestinations ds" "man_required_destinations m = requiredDestinationIDs ds"
  shows "check_destinations m = Inr ()"
proof -
  define xs where "xs = map (\<lambda>d. \<lparr>md_id = dst_id d, md_required = IsRequired d\<rparr>) ds"
  have md: "man_destinations m = sort_key md_id xs" using assms(3) by (simp add: manifestDestinations_def xs_def)
  have ids: "map md_id xs = map dst_id ds" by (simp add: xs_def)
  have "mset (map md_id (sort_key md_id xs)) = mset (map md_id xs)" by (simp only: mset_map mset_sort)
  then have "distinct (map md_id (sort_key md_id xs))" using assms(1) ids mset_eq_imp_distinct_iff by metis
  moreover have "\<forall>d \<in> set (sort_key md_id xs). md_id d \<noteq> '''' \<and> md_id d \<notin> set []"
    using assms(2) by (auto simp: xs_def)
  ultimately have c: "check_snapshot (man_destinations m) [] [] = Inr (map md_id (filter md_required (sort_key md_id xs)))"
    using check_snapshot_ok [of "sort_key md_id xs" "[]" "[]"] md by simp
  have "mset (map md_id (filter md_required (sort_key md_id xs))) = mset (map md_id (filter md_required xs))"
    by (simp add: mset_filter)
  also have "map md_id (filter md_required xs) = map dst_id (filter IsRequired ds)"
    by (simp add: xs_def filter_map comp_def)
  finally have "sort (map md_id (filter md_required (sort_key md_id xs))) = sort (man_required_destinations m)"
    unfolding assms(4) requiredDestinationIDs_def by (metis mset_sort properties_for_sort sorted_sort)
  with c show ?thesis by (simp add: check_destinations_def)
qed

section \<open>Excluded captures\<close>

lemma exclusionReason_cases:
  "exclusionReason e \<in> {ExcludedCaptureRawMissing, ExcludedCaptureHashMismatch, ExcludedCaptureReadError}"
  "exclusionReason e \<noteq> ''''"
  by (auto simp: exclusionReason_def ExcludedCaptureRawMissing_def ExcludedCaptureHashMismatch_def ExcludedCaptureReadError_def)

lemma check_excluded_ok:
  assumes "distinct (map ex_id xs)" "\<forall>x \<in> set xs. ex_id x \<noteq> '''' \<and> ex_id x \<in> set inputs \<and> ex_id x \<notin> set seen \<and> (\<exists>e. ex_reason x = exclusionReason e)"
  shows "check_excluded inputs xs seen = Inr ()"
  using assms
proof (induction xs arbitrary: seen)
  case (Cons x xs)
  obtain e where e: "ex_reason x = exclusionReason e" using Cons.prems(2) by auto
  have "check_excluded inputs xs (ex_id x # seen) = Inr ()" by (rule Cons.IH) (use Cons.prems in \<open>auto simp: image_iff\<close>)
  then show ?case using Cons.prems(2) exclusionReason_cases [of e] e by auto
qed simp

section \<open>The data set\<close>

definition unread :: "compactor \<Rightarrow> fs \<Rightarrow> capture \<Rightarrow> bool" where
  "unread co fs c \<longleftrightarrow> \<not> is_ok (readVerifiedCapture (co_env co) (co_raw co) fs c)"

definition exclusion :: "compactor \<Rightarrow> fs \<Rightarrow> capture \<Rightarrow> excluded_capture" where
  "exclusion co fs c = \<lparr>ex_id = cap_id c, ex_reason =
     (case readVerifiedCapture (co_env co) (co_raw co) fs c of Inl e \<Rightarrow> exclusionReason e | Inr _ \<Rightarrow> '''')\<rparr>"

text \<open>What a written data set consists of, read from \<open>fx\<close>, the file system with the created file.\<close>

lemma write_dataset_ok:
  assumes "write_dataset co ctx kind path captures m fs = (Inr d, fs1)" "comps path = w @ [x]" "real_dirs fs w" "map_of fs [] = None"
  shows "\<exists>content. fs1 = fs_put (w @ [x]) (Reg content) (fs_put (w @ [x]) (Reg []) fs) \<and>
    (let fx = fs_put (w @ [x]) (Reg []) fs in
      da_included d = filter (\<lambda>c. \<not> unread co fx c) captures \<and>
      da_excluded d = map (exclusion co fx) (filter (unread co fx) captures)) \<and>
    da_stops d = (if kind = ''trip_update'' then Some (da_rows d) else man_stu_total m) \<and>
    (kind \<noteq> ''trip_update'' \<longrightarrow> da_rows d = int (length (da_included d)))"
proof (cases "kind = ''trip_update''")
  case True
  from assms(1) True obtain st where w: "writeTripUpdateParquet (co_env co) (cf_parquet (co_cfg co)) (co_raw co) ctx path captures m fs = (Inr st, fs1)"
    and d: "d = \<lparr>da_stops = Some (ws_stops st), da_rows = ws_stops st, da_entities = ws_entities st,
       da_included = ws_included st, da_excluded = ws_excluded st\<rparr>"
    by (auto simp: write_dataset_def split: prod.splits sum.splits)
  obtain content where l: "write_captures (co_env co) (co_raw co) (fs_put (w @ [x]) (Reg []) fs) ctx (write_flat (co_env co)) 0 captures ws_new = Inr st"
    and f: "fs1 = fs_put (w @ [x]) (Reg content) (fs_put (w @ [x]) (Reg []) fs)"
    using write_file_ok [OF w [unfolded writeTripUpdateParquet_def] assms(2-4)] by blast
  show ?thesis using flat_writer.written [OF l] f True
    by (intro exI [of _ content]) (auto simp: d unread_def [abs_def] exclusion_def [abs_def] ws_new_def Let_def)
next
  case False
  from assms(1) False obtain st where w: "writeParquet (co_env co) (cf_parquet (co_cfg co)) (co_raw co) ctx path captures m fs = (Inr st, fs1)"
    and d: "d = \<lparr>da_stops = man_stu_total m, da_rows = int (length (ws_included st)), da_entities = ws_entities st,
       da_included = ws_included st, da_excluded = ws_excluded st\<rparr>"
    by (auto simp: write_dataset_def split: prod.splits sum.splits)
  obtain content where l: "write_captures (co_env co) (co_raw co) (fs_put (w @ [x]) (Reg []) fs) ctx
        (write_nested (co_env co) (cf_parquet (co_cfg co))) 0 captures ws_new = Inr st"
    and f: "fs1 = fs_put (w @ [x]) (Reg content) (fs_put (w @ [x]) (Reg []) fs)"
    using write_file_ok [OF w [unfolded writeParquet_def] assms(2-4)] by blast
  show ?thesis using nested_writer.written [OF l] f False
    by (intro exI [of _ content]) (auto simp: d unread_def [abs_def] exclusion_def [abs_def] ws_new_def Let_def)
qed

end
