(* ===== verification/Compact_Props.thy ===== *)
theory Compact_Props
  imports Compact_Manifest
begin

text \<open>
  What a compaction guarantees: the revision it commits passes VerifyDirectory, its row is an honest
  call of the state store, and an error leaves the database as it was.
\<close>

section \<open>The data set in the work directory\<close>

definition core_kept :: "manifest \<Rightarrow> manifest \<Rightarrow> bool" where
  "core_kept m m' \<longleftrightarrow> man_version m' = man_version m \<and> man_format m' = man_format m \<and> man_schema m' = man_schema m \<and>
     man_source m' = man_source m \<and> man_stream m' = man_stream m \<and> man_archive_date m' = man_archive_date m \<and>
     man_revision m' = man_revision m \<and> man_captured_responses m' = man_captured_responses m \<and>
     man_destinations m' = man_destinations m \<and> man_required_destinations m' = man_required_destinations m \<and>
     man_kind m' = man_kind m \<and> man_created m' = man_created m \<and> man_inputs m' = man_inputs m"

text \<open>A manifest that describes what is in the directory \<open>w\<close>.\<close>

definition dataset_ok :: "compactor \<Rightarrow> fs \<Rightarrow> string list \<Rightarrow> capture list \<Rightarrow> manifest \<Rightarrow> bool" where
  "dataset_ok co fs w captures m \<longleftrightarrow>
     check_status m = Inr () \<and> check_excluded (map cap_id captures) (man_excluded m) [] = Inr () \<and>
     (man_files m = [] \<and> is_ok (expectedArtifactRows m) \<or>
      (\<exists>content a. man_files m = [a] \<and> art_path a = ''data-'' @ ce_sha (co_env co) content @ ''.parquet'' \<and>
         art_bytes a = int (length content) \<and> art_sha256 a = ce_sha (co_env co) content \<and>
         expectedArtifactRows m = Inr (art_rows a) \<and> art_entities a = man_entity_total m \<and>
         map_of fs (w @ [art_path a]) = Some (Reg content)))"

lemma slash_free_data: "is_hex h \<Longrightarrow> plain_comp (''data-'' @ h @ ''.parquet'')"
  using slash_hex [of h] by (intro plain_with_tail(2)) auto

lemma build_dataset_ok:
  assumes b: "build_dataset co ctx kind (abs_path w) captures m fs = (Inr (m2, ex), fs')"
    and w: "\<forall>c \<in> set w. plain_comp c" "w \<noteq> []" "real_dirs fs w" "map_of fs [] = None"
    and ids: "distinct (map cap_id captures)" "\<forall>c \<in> set captures. cap_id c \<noteq> ''''"
    and hex: "\<forall>b. is_hex (ce_sha (co_env co) b)"
    and m: "man_files m = []" "man_dataset_status m = ''ready''" "man_excluded m = []" "man_kind m = kind"
      "man_schema m = schemaVersionForKind kind" "man_captured_responses m = int (length captures)"
  shows "core_kept m m2 \<and> only_below w fs fs' \<and> map_of fs' [] = None \<and> ex = man_excluded m2 \<and> dataset_ok co fs' w captures m2"
proof (cases "captures = []")
  case True
  then have e: "m2 = m\<lparr>man_dataset_status := ''no_captured_responses'',
      man_stu_total := (if kind = ''trip_update'' then Some 0 else man_stu_total m)\<rparr>" "ex = []" "fs' = fs"
    using b by (auto simp: build_dataset_def)
  show ?thesis using m w(4) True
    by (simp add: e core_kept_def dataset_ok_def check_status_def expectedArtifactRows_def schemaVersionForKind_def version_defs)
next
  case False
  have j: "Join [abs_path w, x] = abs_path (w @ [x])" if "plain_comp x" for x
    by (rule Join_one [OF w(1) that])
  have pd: "plain_comp ''data.parquet''" by (simp add: plain_comp_def)
  have c1: "comps (Join [abs_path w, ''data.parquet'']) = w @ [''data.parquet'']"
    unfolding j [OF pd] by (rule comps_abs_path) (use w(1) pd in auto)
  from b False obtain d fs1 hash n fs2 where
    d: "write_dataset co ctx kind (Join [abs_path w, ''data.parquet'']) captures m fs = (Inr d, fs1)"
    and ne: "da_included d \<noteq> []" and h: "hash_file (co_env co) fs1 (Join [abs_path w, ''data.parquet'']) = Inr (hash, n)"
    and r: "os_rename (Join [abs_path w, ''data.parquet'']) (Join [abs_path w, ''data-'' @ hash @ ''.parquet'']) fs1 = Inr fs2"
    and e: "fs' = fs2" "ex = da_excluded d"
      "m2 = m\<lparr>man_stu_total := da_stops d, man_excluded := da_excluded d, man_entity_total := da_entities d,
         man_files := man_files m @ [\<lparr>art_path = ''data-'' @ hash @ ''.parquet'', art_part = 0, art_bytes = n, art_sha256 = hash,
           art_rows = da_rows d, art_entities = da_entities d\<rparr>]\<rparr>"
    by (auto simp: build_dataset_def Let_def simp del: Join.simps split: prod.splits sum.splits if_splits)
  define fx where "fx = fs_put (w @ [''data.parquet'']) (Reg []) fs"
  from write_dataset_ok [OF d c1 w(3,4)] obtain content where
    f1: "fs1 = fs_put (w @ [''data.parquet'']) (Reg content) fx"
    and inc: "da_included d = filter (\<lambda>c. \<not> unread co fx c) captures"
    and exc: "da_excluded d = map (exclusion co fx) (filter (unread co fx) captures)"
    and stops: "da_stops d = (if kind = ''trip_update'' then Some (da_rows d) else man_stu_total m)"
    and rows: "kind \<noteq> ''trip_update'' \<longrightarrow> da_rows d = int (length (da_included d))"
    by (auto simp: fx_def Let_def)
  have real1: "real_dirs fs1 w" unfolding f1 fx_def
    by (rule only_below_real [OF only_below_trans [OF only_below_put only_below_put] _ w(3)]) simp
  have at1: "map_of fs1 (w @ [''data.parquet'']) = Some (Reg content)" by (simp add: f1)
  have hn: "hash = ce_sha (co_env co) content" "n = int (length content)"
    using h read_file [OF c1 real1 at1] by (auto simp: hash_file_def)
  have pn: "plain_comp (''data-'' @ hash @ ''.parquet'')" by (rule slash_free_data) (simp add: hn hex)
  have c2: "comps (Join [abs_path w, ''data-'' @ hash @ ''.parquet'']) = w @ [''data-'' @ hash @ ''.parquet'']"
    unfolding j [OF pn] by (rule comps_abs_path) (use w(1) pn in auto)
  have nil1: "map_of fs1 [] = None" using w(2,4) by (simp add: f1 fx_def)
  have f2: "fs2 = fs_put (w @ [''data-'' @ hash @ ''.parquet'']) (Reg content) (fs_del (w @ [''data.parquet'']) fs1)"
    by (rule rename_over [OF r c1 c2 _ real1 nil1 at1]) simp
  have below: "only_below w fs fs2"
    unfolding f2 f1 fx_def
    by (rule only_below_trans [OF only_below_trans [OF only_below_trans [OF only_below_put only_below_put] only_below_del] only_below_put])
  have len: "length (da_excluded d) + length (da_included d) = length captures"
    unfolding inc exc using sum_length_filter_compl [of "unread co fx" captures] by simp
  have less: "length (da_excluded d) < length captures" using len ne by (cases "da_included d") auto
  have status: "check_status m2 = Inr ()"
    using m less by (auto simp: check_status_def e(3) Let_def)
  have exd: "check_excluded (map cap_id captures) (man_excluded m2) [] = Inr ()"
  proof (rule check_excluded_ok)
    have "map ex_id (man_excluded m2) = map cap_id (filter (unread co fx) captures)"
      by (simp add: e(3) exc exclusion_def comp_def)
    then show "distinct (map ex_id (man_excluded m2))" using ids(1) by (simp add: distinct_map_filter)
    show "\<forall>x \<in> set (man_excluded m2). ex_id x \<noteq> '''' \<and> ex_id x \<in> set (map cap_id captures) \<and> ex_id x \<notin> set [] \<and>
        (\<exists>e. ex_reason x = exclusionReason e)"
      using ids(2) by (auto simp: e(3) exc exclusion_def unread_def is_ok_def split: sum.splits)
  qed
  have exp: "expectedArtifactRows m2 = Inr (da_rows d)"
    using m rows stops len by (auto simp: expectedArtifactRows_def e(3) schemaVersionForKind_def version_defs)
  have "dataset_ok co fs2 w captures m2"
    unfolding dataset_ok_def using status exd exp m(1) by (auto simp: e(3) hn f2)
  then show ?thesis using below w(4) nil1 by (simp add: e core_kept_def f2)
qed

section \<open>VerifyDirectory on a directory that its manifest describes\<close>

lemma Base_plain: "plain_comp x \<Longrightarrow> Base x = x"
proof -
  assume p: "plain_comp x"
  then have "last x \<noteq> CHR ''/''" "x \<noteq> []" by (auto simp: plain_comp_def dest: last_in_set)
  then have "trim_right x ''/'' = x"
    by (cases x rule: rev_cases) (auto simp: trim_right_def trim_left_def)
  then show ?thesis using p by (simp add: Base_def split_on_plain plain_comp_def)
qed

lemma safeRootPath_plain:
  assumes "\<forall>c \<in> set rcs. plain_comp c" "vs \<noteq> []" "\<forall>c \<in> set vs. plain_comp c"
  shows "safeRootPath (abs_path rcs) (join_with ''/'' vs) = Inr (abs_path (rcs @ vs))"
  using assms escapes_plain [OF assms(2,3)]
  by (simp add: safeRootPath_def IsAbs_join_plain Clean_abs_path Let_def Join_root_plain Rel_root_plain escapes_def del: Join.simps)

lemma committed_manifest:
  assumes pr: "\<forall>c \<in> set rcs. plain_comp c" and pv: "vs \<noteq> []" "\<forall>c \<in> set vs. plain_comp c"
    and dir: "real_dirs fs (rcs @ vs)" and man: "map_of fs (rcs @ vs @ [''manifest.json'']) = Some (Reg b)"
    and c: "cp_manifest_path c = Join [join_with ''/'' vs, ''manifest.json'']"
  shows "os_readfile fs (Join [abs_path rcs, cp_manifest_path c]) = Inr b"
    "safeRootPath (abs_path rcs) (cp_manifest_path c) = Inr (abs_path (rcs @ vs @ [''manifest.json'']))"
    "os_readfile fs (abs_path (rcs @ vs @ [''manifest.json''])) = Inr b"
proof -
  have pm: "plain_comp ''manifest.json''" by (simp add: plain_comp_def)
  have mp: "cp_manifest_path c = join_with ''/'' (vs @ [''manifest.json''])"
    unfolding c by (rule Join_below [OF pv pm])
  have pvm: "\<forall>x \<in> set (vs @ [''manifest.json'']). plain_comp x" using pv pm by auto
  show "safeRootPath (abs_path rcs) (cp_manifest_path c) = Inr (abs_path (rcs @ vs @ [''manifest.json'']))"
    unfolding mp by (rule safeRootPath_plain [OF pr _ pvm]) simp
  have cm: "comps (abs_path (rcs @ vs @ [''manifest.json''])) = (rcs @ vs) @ [''manifest.json'']"
  proof -
    have "\<forall>x \<in> set (rcs @ vs @ [''manifest.json'']). plain_comp x" using pr pvm by auto
    from comps_abs_path [OF this] show ?thesis by simp
  qed
  show rd: "os_readfile fs (abs_path (rcs @ vs @ [''manifest.json''])) = Inr b"
    by (rule read_file [OF cm dir]) (use man in simp)
  have "Join [abs_path rcs, cp_manifest_path c] = abs_path (rcs @ vs @ [''manifest.json''])"
    unfolding mp by (rule Join_root_plain [OF pr _ pvm]) simp
  then show "os_readfile fs (Join [abs_path rcs, cp_manifest_path c]) = Inr b" using rd by simp
qed

lemma verify_committed:
  assumes pr: "\<forall>c \<in> set rcs. plain_comp c" and pv: "vs \<noteq> []" "\<forall>c \<in> set vs. plain_comp c"
    and dir: "real_dirs fs (rcs @ vs)" and man: "map_of fs (rcs @ vs @ [''manifest.json'']) = Some (Reg b)"
    and dec: "ce_decode_manifest (co_env co) b = Inr m"
    and header: "check_header m c = Inr ()" and inputs: "map ic_id (man_inputs m) = map cap_id captures"
    and dests: "check_destinations m = Inr ()" and ds: "dataset_ok co fs (rcs @ vs) captures m"
    and hex: "\<forall>b. is_hex (ce_sha (co_env co) b)"
    and c: "cp_manifest_path c = Join [join_with ''/'' vs, ''manifest.json'']" "cp_directory c = join_with ''/'' vs"
      "\<And>a. man_files m = [a] \<Longrightarrow> cp_data_path c = Join [join_with ''/'' vs, art_path a] \<and> cp_data_sha256 c = art_sha256 a \<and>
         cp_data_bytes c = art_bytes a"
  shows "VerifyDirectory (co_env co) fs (abs_path rcs) c = Inr ()"
proof -
  have pvm: "\<forall>x \<in> set (vs @ [''manifest.json'']). plain_comp x" using pv by (auto simp: plain_comp_def)
  note rd = committed_manifest [OF pr pv dir man c(1)]
  have dm: "Dir (abs_path (rcs @ vs @ [''manifest.json''])) = abs_path (rcs @ vs)"
    using Dir_abs_path_eq [of "rcs @ vs" "''manifest.json''"] pr pvm pv by auto
  have files: "check_artifacts (co_env co) fs (abs_path (rcs @ vs @ [''manifest.json''])) m R c (man_files m) = Inr ()"
    if R: "expectedArtifactRows m = Inr R" for R
  proof (cases "man_files m = []")
    case False
    with ds obtain content a where a: "man_files m = [a]" "art_path a = ''data-'' @ ce_sha (co_env co) content @ ''.parquet''"
      "art_bytes a = int (length content)" "art_sha256 a = ce_sha (co_env co) content"
      "expectedArtifactRows m = Inr (art_rows a)" "art_entities a = man_entity_total m"
      "map_of fs ((rcs @ vs) @ [art_path a]) = Some (Reg content)"
      by (auto simp: dataset_ok_def)
    have pa: "plain_comp (art_path a)" unfolding a(2) by (rule slash_free_data) (simp add: hex)
    have ja: "Join [abs_path (rcs @ vs), art_path a] = abs_path ((rcs @ vs) @ [art_path a])"
      by (rule Join_one) (use pr pv pa in auto)
    have ca: "comps (abs_path ((rcs @ vs) @ [art_path a])) = (rcs @ vs) @ [art_path a]"
      by (rule comps_abs_path) (use pr pv pa in auto)
    have ls: "os_lstat fs (abs_path ((rcs @ vs) @ [art_path a])) = Inr (Reg content)"
      using lstat_file [OF ca dir a(7)] by simp
    have rf: "os_readfile fs (abs_path ((rcs @ vs) @ [art_path a])) = Inr content" by (rule read_file [OF ca dir a(7)])
    have "check_artifact (co_env co) fs (abs_path (rcs @ vs @ [''manifest.json''])) m R c a = Inr ()"
      unfolding check_artifact_def Let_def dm ja ls hash_file_def rf
      using R a(3-6) c(2) c(3) [of a] a(1) by (simp add: Base_plain [OF pa] flip: a(4)) (simp add: a(2,4))
    then show ?thesis by (simp add: a(1))
  qed simp
  obtain R where R: "expectedArtifactRows m = Inr R" using ds by (auto simp: dataset_ok_def is_ok_iff)
  have "check_excluded (map ic_id (man_inputs m)) (man_excluded m) [] = Inr ()" "check_status m = Inr ()"
    using ds inputs by (simp_all add: dataset_ok_def)
  then show "VerifyDirectory (co_env co) fs (abs_path rcs) c = Inr ()"
    using files [OF R] by (simp add: VerifyDirectory_def rd dec header dests R)
qed

section \<open>Dates and directories\<close>

lemma read_digits_no_slash: "read_digits acc s = Some n \<Longrightarrow> CHR ''/'' \<notin> set s"
proof (induction s arbitrary: acc)
  case (Cons c cs)
  have "digit_val CHR ''/'' = None" by code_simp
  with Cons show ?case by (auto split: option.splits)
qed simp

lemma take_num_no_slash: "take_num w s = Some (n, r) \<Longrightarrow> CHR ''/'' \<notin> set r \<Longrightarrow> CHR ''/'' \<notin> set s"
proof -
  assume a: "take_num w s = Some (n, r)" "CHR ''/'' \<notin> set r"
  then have "CHR ''/'' \<notin> set (take w s)" "r = drop w s"
    by (auto simp: take_num_def read_digits_no_slash split: if_splits)
  with a show ?thesis by (metis UnE append_take_drop_id set_append)
qed

lemma expect_no_slash: "expect c s = Some r \<Longrightarrow> c \<noteq> CHR ''/'' \<Longrightarrow> CHR ''/'' \<notin> set r \<Longrightarrow> CHR ''/'' \<notin> set s"
  by (auto simp: expect_def split: list.splits if_splits)

lemma date_no_slash:
  assumes "parse_in_location s loc = Some t" shows "CHR ''/'' \<notin> set s"
proof -
  have "\<exists>d. take_date s = Some (d, [])"
    using assms by (auto simp: parse_in_location_def parse_date_only_def split: option.splits Option.bind_splits if_splits)
  then obtain y s1 s2 m s3 s4 dm where "take_num 4 s = Some (y, s1)" "expect (CHR ''-'') s1 = Some s2"
    "take_num 2 s2 = Some (m, s3)" "expect (CHR ''-'') s3 = Some s4" "take_num 2 s4 = Some (dm, [])"
    by (auto simp: take_date_def split: Option.bind_splits if_splits)
  note parts = this
  have "CHR ''/'' \<notin> set s4" by (rule take_num_no_slash [OF parts(5)]) simp
  then have "CHR ''/'' \<notin> set s3" by (rule expect_no_slash [OF parts(4), rotated]) simp
  then have "CHR ''/'' \<notin> set s2" by (rule take_num_no_slash [OF parts(3)])
  then have "CHR ''/'' \<notin> set s1" by (rule expect_no_slash [OF parts(2), rotated]) simp
  then show ?thesis by (rule take_num_no_slash [OF parts(1)])
qed

definition rev_comps :: "string \<Rightarrow> string \<Rightarrow> string \<Rightarrow> int \<Rightarrow> string list" where
  "rev_comps src sm date revision = [''parquet'', ''format=v1'', ''source='' @ src, ''stream='' @ sm, ''date='' @ date, ''revision='' @ itoa revision]"

lemma slash_itoa: "CHR ''/'' \<notin> set (itoa i)"
  using slash_nat_str by (simp add: itoa_def)

lemma rev_comps_plain:
  assumes "CHR ''/'' \<notin> set src" "CHR ''/'' \<notin> set sm" "CHR ''/'' \<notin> set date"
  shows "\<forall>c \<in> set (rev_comps src sm date revision). plain_comp c"
    "revision_dir src sm date revision = join_with ''/'' (rev_comps src sm date revision)"
proof -
  show p: "\<forall>c \<in> set (rev_comps src sm date revision). plain_comp c"
    using assms slash_itoa plain_with_tail(2) by (simp add: rev_comps_def) (simp add: plain_comp_def)
  show "revision_dir src sm date revision = join_with ''/'' (rev_comps src sm date revision)"
    unfolding revision_dir_def rev_comps_def [symmetric] by (rule Join_plain [OF _ p]) (simp add: rev_comps_def)
qed

lemma no_links_prefix: "no_links fs cur (vs @ ws) \<Longrightarrow> no_links fs cur vs"
  unfolding no_links_def by (auto dest!: bspec)

lemma only_below_apart:
  assumes "only_below w fs fs'" "apart w d" "real_dirs fs d" shows "real_dirs fs' d"
proof -
  have "map_of fs' (take k d) = map_of fs (take k d)" for k
  proof -
    have "take k d \<noteq> w @ x # q" for x q
    proof
      assume "take k d = w @ x # q"
      then have "d = w @ (x # q @ drop k d)" by (metis append_Cons append_assoc append_take_drop_id)
      with assms(2) show False unfolding apart_def by (metis append_Nil2)
    qed
    with assms(1) show ?thesis unfolding only_below_def by blast
  qed
  with assms(3) show ?thesis by (simp add: real_dirs_def)
qed

lemma apart_prefix: "apart w (d @ e) \<Longrightarrow> \<not> (\<exists>q. d = w @ q)"
  unfolding apart_def by (metis append_assoc append_Nil2)

section \<open>Selecting the work\<close>

lemma find_in_streams: "FindSourceStream cfg s t = Inr p \<Longrightarrow> p \<in> set (all_streams cfg)"
proof -
  assume "FindSourceStream cfg s t = Inr p"
  then have "p = hd (filter (\<lambda>(src, sm). (s = '''' \<or> src_id src = s) \<and> (t = '''' \<or> sm_id sm = t)) (all_streams cfg))"
    "filter (\<lambda>(src, sm). (s = '''' \<or> src_id src = s) \<and> (t = '''' \<or> sm_id sm = t)) (all_streams cfg) \<noteq> []"
    by (auto simp: FindSourceStream_def Let_def split: if_splits)
  then show ?thesis using hd_in_set by fastforce
qed

lemma stream_ids_ok:
  assumes "config_ok cfg" "(source, stream) \<in> set (all_streams cfg)"
  shows "CHR ''/'' \<notin> set (src_id source)" "CHR ''/'' \<notin> set (sm_id stream)"
  using assms by (auto simp: all_streams_def config_ok_def source_ok_def stream_ok_def ValidID_no_slash)

lemma decode_rows_ids: "decode_rows rs = Inr cs \<Longrightarrow> map cap_id cs = map cap_id rs"
proof (induction rs arbitrary: cs)
  case (Cons r rs)
  then show ?case by (auto simp: bind_res_Inr capture_from_row_def)
qed simp

lemma captures_ids:
  assumes "CapturesForDay src sm date db = Inr cs" "db_inv db"
  shows "distinct (map cap_id cs)" "\<forall>c \<in> set cs. \<exists>r \<in> set (db_captures db). cap_id c = cap_id r"
proof -
  let ?rows = "sort_key (\<lambda>c. (cap_scheduled c, cap_id c)) (filter (in_day src sm date) (db_captures db))"
  have ids: "map cap_id cs = map cap_id ?rows"
    by (rule decode_rows_ids) (use assms(1) in \<open>simp add: CapturesForDay_def\<close>)
  have "distinct (map cap_id (db_captures db))" using db_invD(2) [OF assms(2)] by (simp add: captures_inv_def)
  then have "inj_on cap_id (set (db_captures db))" "distinct (db_captures db)" by (simp_all add: distinct_map)
  then have "distinct (map cap_id ?rows)" by (auto simp: distinct_map intro: inj_on_subset)
  then show "distinct (map cap_id cs)" unfolding ids .
  have "set (map cap_id cs) \<subseteq> cap_id ` set (db_captures db)" unfolding ids by auto
  then show "\<forall>c \<in> set cs. \<exists>r \<in> set (db_captures db). cap_id c = cap_id r" by auto
qed

lemma prepare_ok:
  assumes "prepare co req fs db = Inr p"
  shows "\<exists>loc day revision stats. let source = cpl_source p; stream = cpl_stream p in
    FindSourceStream (co_cfg co) (cr_source req) (cr_stream req) = Inr (source, stream) \<and>
    parse_in_location (cr_date req) loc = Some day \<and>
    select_revision (cr_revision req) (NextRevision (src_id source) (sm_id stream) (cr_date req) db) = Inr revision \<and>
    CapturesForDay (src_id source) (sm_id stream) (cr_date req) db = Inr (cpl_captures p) \<and>
    cpl_manifest p = initial_manifest co source stream loc (cr_date req) revision day (add_days loc day 1) (cpl_captures p) stats \<and>
    cpl_rel_dir p = revision_dir (src_id source) (sm_id stream) (cr_date req) revision \<and>
    safePath fs (rs_root (co_raw co)) (cpl_rel_dir p) = Inr (cpl_final_dir p)"
proof -
  from assms obtain source stream located loc day where 1: "FindSourceStream (co_cfg co) (cr_source req) (cr_stream req) = Inr (source, stream)"
    and 2: "parse_in_location (cr_date req) loc = Some day"
    and rest: "bind_res (select_revision (cr_revision req) (NextRevision (src_id source) (sm_id stream) (cr_date req) db)) (\<lambda>revision.
     bind_res (CapturesForDay (src_id source) (sm_id stream) (cr_date req) db) (\<lambda>captures.
     let stats = DayStats (src_id source) (sm_id stream) day (add_days loc day 1) db;
         relDir = revision_dir (src_id source) (sm_id stream) (cr_date req) revision in
     bind_res (Absolute (co_raw co) relDir fs) (\<lambda>finalDir.
       if is_ok (os_stat fs finalDir) then Inl (errors_New (''revision directory already exists: '' @ relDir))
       else Inr \<lparr>cpl_source = source, cpl_stream = stream,
                 cpl_manifest = initial_manifest co source stream loc (cr_date req) revision day (add_days loc day 1) captures stats,
                 cpl_captures = captures, cpl_rel_dir = relDir, cpl_final_dir = finalDir\<rparr>))) = Inr p"
    unfolding prepare_def by (auto simp: bind_res_Inr Let_def split: option.splits prod.splits)
  from rest obtain revision captures finalDir where
    3: "select_revision (cr_revision req) (NextRevision (src_id source) (sm_id stream) (cr_date req) db) = Inr revision"
      "CapturesForDay (src_id source) (sm_id stream) (cr_date req) db = Inr captures"
      "safePath fs (rs_root (co_raw co)) (revision_dir (src_id source) (sm_id stream) (cr_date req) revision) = Inr finalDir"
      "p = \<lparr>cpl_source = source, cpl_stream = stream,
         cpl_manifest = initial_manifest co source stream loc (cr_date req) revision day (add_days loc day 1) captures
           (DayStats (src_id source) (sm_id stream) day (add_days loc day 1) db),
         cpl_captures = captures, cpl_rel_dir = revision_dir (src_id source) (sm_id stream) (cr_date req) revision, cpl_final_dir = finalDir\<rparr>"
    by (auto simp: bind_res_Inr Let_def Absolute_def split: if_splits)
  show ?thesis
    by (intro exI [of _ loc] exI [of _ day] exI [of _ revision] exI [of _ "DayStats (src_id source) (sm_id stream) day (add_days loc day 1) db"])
      (simp add: 1 2 3)
qed

end
