(* ===== verification/Compact_Verified.thy ===== *)
theory Compact_Verified
  imports Compact_Props
begin

text \<open>
  The contract of Compactor.Compact as a whole: a successful compaction leaves a revision directory
  that VerifyDirectory accepts for the row it returned, and its effect on the database is one honest
  call of the state store or none.
\<close>

text \<open>Where a compaction starts: an accepted configuration, a store with a real root, a database that
  the archiver can have reached, captures with identifiers, and a hash that prints as hexadecimal.\<close>

definition compact_ready :: "compactor \<Rightarrow> string list \<Rightarrow> fs \<Rightarrow> db \<Rightarrow> bool" where
  "compact_ready co rcs fs db \<longleftrightarrow> config_ok (co_cfg co) \<and> store_at (co_raw co) rcs fs \<and> tree_fs fs \<and>
     plain_comp (co_temp_name co) \<and> db_inv db \<and> (\<forall>c \<in> set (db_captures db). cap_id c \<noteq> '''') \<and>
     (\<forall>b. is_hex (ce_sha (co_env co) b))"

section \<open>The steps of a successful compaction\<close>

lemma os_mkdir_ok:
  assumes "os_mkdir p fs = Inr fs'" "comps p = d @ [x]" "real_dirs fs d" "map_of fs [] = None"
  shows "fs' = fs_put (d @ [x]) Directory fs" "map_of fs (d @ [x]) = None"
  using assms(1) entry_place_real [OF assms(2-4)] by (auto simp: os_mkdir_def split: option.splits)

lemma compact_in_ok:
  assumes "compact_in co ctx source stream relDir finalDir workDir captures m0 fs db = (Inr c, fs', db')"
  shows "\<exists>url attribution m2 excluded fs1 fs2. let m = fold add_input captures m2 in
    build_dataset co ctx (sm_kind stream) workDir captures (m0\<lparr>man_url := url, man_attribution := attribution\<rparr>) fs = (Inr (m2, excluded), fs1) \<and>
    writeJSONFile (Join [workDir, ''manifest.json'']) (ce_encode_manifest (co_env co) m) fs1 = Inr fs2 \<and>
    os_rename workDir finalDir fs2 = Inr fs' \<and>
    SaveCompaction (compaction_record co relDir captures excluded m) (map cap_id captures)
      (destination_map (cf_destinations (co_cfg co))) (co_save_time co) db = Inr (c, db')"
proof -
  obtain url where url: "manifestSanitizedURL (co_parse_url co) captures stream = Inr url"
    using assms by (auto simp: compact_in_def split: sum.splits)
  define att where "att = (if src_attribution source = '''' then Inr (m0\<lparr>man_url := url\<rparr>)
                else (case os_readfile fs (src_attribution source) of
                        Inl e \<Rightarrow> Inl (err_wrap ''read attribution text'' e)
                      | Inr b \<Rightarrow> Inr (m0\<lparr>man_url := url, man_attribution := trim_space b\<rparr>)))"
  note step = assms [unfolded compact_in_def url sum.case, folded att_def]
  obtain m1 where m1: "att = Inr m1" using step by (cases att) auto
  have "\<exists>a. m1 = m0\<lparr>man_url := url, man_attribution := a\<rparr>"
  proof (cases "src_attribution source = ''''")
    case True
    have "m0\<lparr>man_url := url\<rparr> = m0\<lparr>man_url := url, man_attribution := man_attribution m0\<rparr>"
      by (rule manifest.equality) simp_all
    with m1 True show ?thesis by (auto simp: att_def)
  next
    case False
    with m1 show ?thesis by (auto simp: att_def split: sum.splits)
  qed
  then obtain a where a: "m1 = m0\<lparr>man_url := url, man_attribution := a\<rparr>" by blast
  note step = step [unfolded m1 sum.case]
  obtain m2 excluded fs1 where bd: "build_dataset co ctx (sm_kind stream) workDir captures m1 fs = (Inr (m2, excluded), fs1)"
    using step by (cases "build_dataset co ctx (sm_kind stream) workDir captures m1 fs") (auto split: sum.splits)
  note step = step [unfolded bd prod.case sum.case Let_def]
  obtain fs2 where js: "writeJSONFile (Join [workDir, ''manifest.json'']) (ce_encode_manifest (co_env co) (fold add_input captures m2)) fs1 = Inr fs2"
    using step by (auto simp del: Join.simps split: sum.splits)
  note step = step [unfolded js sum.case]
  obtain fs3 where rn: "os_rename workDir finalDir fs2 = Inr fs3" using step by (auto split: sum.splits)
  note step = step [unfolded rn sum.case]
  have "fs3 = fs' \<and> SaveCompaction (compaction_record co relDir captures excluded (fold add_input captures m2)) (map cap_id captures)
      (destination_map (cf_destinations (co_cfg co))) (co_save_time co) db = Inr (c, db')"
    using step by (auto split: sum.splits)
  with bd js rn show ?thesis unfolding Let_def a by blast
qed

lemma dataset_ok_moved:
  assumes "dataset_ok co fs w captures m" "man_core m' = man_core m"
    and "\<And>a content. man_files m = [a] \<Longrightarrow> art_path a = ''data-'' @ ce_sha (co_env co) content @ ''.parquet'' \<Longrightarrow>
      map_of fs' (w' @ [art_path a]) = map_of fs (w @ [art_path a])"
  shows "dataset_ok co fs' w' captures m'"
proof -
  note f = core_fields [OF assms(2)]
  have "check_status m' = check_status m" by (simp add: check_status_def f)
  moreover have "expectedArtifactRows m' = expectedArtifactRows m" by (simp add: expectedArtifactRows_def f)
  ultimately show ?thesis using assms(1) assms(3) unfolding dataset_ok_def f by (metis (no_types, lifting))
qed

lemma save_compaction_id:
  "SaveCompaction c inputs ds now db = Inr (c', db') \<Longrightarrow> \<exists>i. c' = c\<lparr>cp_id := i\<rparr>"
  by (auto simp: SaveCompaction_def split: sum.splits)

lemma record_fields:
  "cp_manifest_path (compaction_record co rel cs ex m) = Join [rel, ''manifest.json'']"
  "cp_directory (compaction_record co rel cs ex m) = rel"
  "man_files m = [a] \<Longrightarrow> cp_data_path (compaction_record co rel cs ex m) = Join [rel, art_path a]"
  "man_files m = [a] \<Longrightarrow> cp_data_sha256 (compaction_record co rel cs ex m) = art_sha256 a"
  "man_files m = [a] \<Longrightarrow> cp_data_bytes (compaction_record co rel cs ex m) = art_bytes a"
  "cp_source (compaction_record co rel cs ex m) = man_source m" "cp_stream (compaction_record co rel cs ex m) = man_stream m"
  "cp_archive_date (compaction_record co rel cs ex m) = man_archive_date m"
  "cp_revision (compaction_record co rel cs ex m) = man_revision m"
  "cp_rows (compaction_record co rel cs ex m) = int (length cs)"
  "cp_entities (compaction_record co rel cs ex m) = man_entity_total m"
  by (simp_all add: compaction_record_def Let_def del: Join.simps)

section \<open>The directories\<close>

lemma plan_shape:
  assumes p: "prepare co req fs db = Inr p" and r: "compact_ready co rcs fs db"
  shows "\<exists>ws. ws \<noteq> [] \<and> (\<forall>c \<in> set (''parquet'' # ws). plain_comp c) \<and> cpl_rel_dir p = join_with ''/'' (''parquet'' # ws) \<and>
    cpl_final_dir p = abs_path (rcs @ ''parquet'' # ws) \<and>
    comps (Dir (cpl_final_dir p)) = rcs @ butlast (''parquet'' # ws) \<and> no_links fs rcs (butlast (''parquet'' # ws))"
proof -
  note ready = r [unfolded compact_ready_def]
  have root: "rs_root (co_raw co) = abs_path rcs" and pr: "\<forall>c \<in> set rcs. plain_comp c"
    and rdirs: "real_dirs fs rcs"
    using ready by (auto simp: store_at_def dest: real_dirs_append)
  obtain loc day revision where find: "FindSourceStream (co_cfg co) (cr_source req) (cr_stream req) = Inr (cpl_source p, cpl_stream p)"
    and date: "parse_in_location (cr_date req) loc = Some day"
    and rel: "cpl_rel_dir p = revision_dir (src_id (cpl_source p)) (sm_id (cpl_stream p)) (cr_date req) revision"
    and safe: "safePath fs (abs_path rcs) (cpl_rel_dir p) = Inr (cpl_final_dir p)"
    using prepare_ok [OF p] root by (auto simp: Let_def)
  have "(cpl_source p, cpl_stream p) \<in> set (all_streams (co_cfg co))" by (rule find_in_streams [OF find])
  from stream_ids_ok [OF conjunct1 [OF ready] this] date_no_slash [OF date]
  have vs: "\<forall>c \<in> set (rev_comps (src_id (cpl_source p)) (sm_id (cpl_stream p)) (cr_date req) revision). plain_comp c"
    "cpl_rel_dir p = join_with ''/'' (rev_comps (src_id (cpl_source p)) (sm_id (cpl_stream p)) (cr_date req) revision)"
    unfolding rel by (rule rev_comps_plain)+
  obtain ws where ws: "rev_comps (src_id (cpl_source p)) (sm_id (cpl_stream p)) (cr_date req) revision = ''parquet'' # ws" "ws \<noteq> []"
    by (simp add: rev_comps_def)
  note vs = vs [unfolded ws(1)]
  let ?d = "rcs @ butlast (''parquet'' # ws)"
  have all: "\<forall>c \<in> set (rcs @ ''parquet'' # ws). plain_comp c" using pr vs(1) by auto
  have final: "rcs @ ''parquet'' # ws = ?d @ [last ws]" using ws(2) by simp
  note shape = safePath_shape [OF pr safe]
  have fd: "cpl_final_dir p = abs_path (rcs @ ''parquet'' # ws)" using shape(3) comps_join_plain [OF vs(1)] vs(2) by simp
  have dplain: "\<forall>c \<in> set (?d @ [last ws]). plain_comp c" using all final by simp
  have "comps (Dir (cpl_final_dir p)) = ?d"
    unfolding fd final using Dir_abs_path [OF dplain] ws(2) by simp
  moreover have "no_links fs rcs (''parquet'' # ws)"
    using check_parts_no_links [OF shape(4) rdirs _ _] ready all vs(2) comps_join_plain [OF vs(1)] by simp
  then have "no_links fs rcs (butlast (''parquet'' # ws))"
    by (metis append_butlast_last_id list.distinct(1) no_links_prefix)
  ultimately show ?thesis using ws(2) vs fd by blast
qed

lemma work_dir_made:
  assumes r: "compact_ready co rcs fs db" and parent: "comps (Dir final) = rcs @ ds" and nol: "no_links fs rcs ds"
    and mk: "os_mkdirall (Dir final) fs = Inr fs1"
    and mkd: "os_mkdir (Join [Join [rs_root (co_raw co), ''staging''], co_temp_name co]) fs1 = Inr fs2"
    and w: "w = (rcs @ [''staging'']) @ [co_temp_name co]"
  shows "Join [Join [rs_root (co_raw co), ''staging''], co_temp_name co] = abs_path w" "\<forall>c \<in> set w. plain_comp c"
    "real_dirs fs2 w" "real_dirs fs2 (rcs @ ds)" "map_of fs2 [] = None"
proof -
  note ready = r [unfolded compact_ready_def]
  have root: "rs_root (co_raw co) = abs_path rcs" and pr: "\<forall>c \<in> set rcs. plain_comp c"
    and sdirs: "real_dirs fs (rcs @ [''staging''])" and nil: "map_of fs [] = None"
    using ready by (simp_all add: store_at_def)
  have rdirs: "real_dirs fs rcs" by (rule real_dirs_append [OF sdirs])
  note reach = mkdirall_reach [OF mk parent rdirs nol]
  have s1: "real_dirs fs1 (rcs @ [''staging''])" by (rule real_dirs_kept [OF made_dirs_kept [OF conjunct2 [OF reach]] sdirs])
  have nil1: "map_of fs1 [] = None" using conjunct2 [OF reach] nil unfolding made_dirs_def by (elim allE [of _ "[]"]) auto
  have pt: "plain_comp (co_temp_name co)" and ps: "plain_comp ''staging''" using ready by (simp_all add: plain_comp_def)
  show wplain: "\<forall>c \<in> set w. plain_comp c" using pr pt ps by (auto simp: w)
  show work: "Join [Join [rs_root (co_raw co), ''staging''], co_temp_name co] = abs_path w"
    unfolding root Join_one [OF pr ps] w by (rule Join_one) (use pr ps pt in auto)
  have cw: "comps (abs_path w) = w" by (rule comps_abs_path [OF wplain])
  have "comps (abs_path w) = (rcs @ [''staging'']) @ [co_temp_name co]" using cw w by simp
  from os_mkdir_ok(1) [OF mkd [unfolded work] this s1 nil1] have f2: "fs2 = fs_put w Directory fs1" by (simp add: w)
  have "real_dirs fs2 (rcs @ [''staging''])" unfolding f2 by (rule real_dirs_put [OF s1]) simp
  moreover have "map_of fs2 w = Some Directory" by (simp add: f2)
  ultimately show "real_dirs fs2 w" unfolding w by (simp only: real_dirs_snoc)
  show "real_dirs fs2 (rcs @ ds)" unfolding f2 using reach by (auto intro: real_dirs_put)
  show "map_of fs2 [] = None" using nil1 by (simp add: f2 w)
qed

lemma committed_disk:
  assumes wplain: "\<forall>c \<in> set w. plain_comp c" and w: "w = s @ [t]" and f: "v = d @ [y]" and vplain: "\<forall>c \<in> set v. plain_comp c"
    and w3: "real_dirs fs3 w" and d3: "real_dirs fs3 d" and nil3: "map_of fs3 [] = None"
    and ap: "apart w v" and dw: "apart w d" and sv: "\<not> (\<exists>q. s = v @ q)"
    and js: "writeJSONFile (Join [abs_path w, ''manifest.json'']) b fs3 = Inr fs4"
    and rn: "os_rename (abs_path w) (abs_path v) fs4 = Inr fs5"
  shows "real_dirs fs5 v" "map_of fs5 (v @ [''manifest.json'']) = Some (Reg b)"
    "x \<noteq> ''manifest.json'' \<Longrightarrow> map_of fs5 (v @ [x]) = map_of fs3 (w @ [x])" "os_remove_all (abs_path w) fs5 = fs5"
proof -
  have cw: "comps (abs_path w) = w" by (rule comps_abs_path [OF wplain])
  have pm: "plain_comp ''manifest.json''" by (simp add: plain_comp_def)
  have cm: "comps (Join [abs_path w, ''manifest.json'']) = w @ [''manifest.json'']"
    unfolding Join_one [OF wplain pm] by (rule comps_abs_path) (use wplain pm in auto)
  have apd: "\<not> (\<exists>q. d = w @ q)" by (rule apart_prefix [OF ap [unfolded f]])
  have f4: "fs4 = fs_put (w @ [''manifest.json'']) (Reg b) (fs_put (w @ [''manifest.json'']) (Reg []) fs3)"
    using create_write [OF js cm w3 nil3] by simp
  have ob: "only_below w fs3 fs4" unfolding f4 by (rule only_below_trans [OF only_below_put only_below_put])
  have w4: "real_dirs fs4 w" by (rule only_below_real [OF ob _ w3]) simp
  have d4: "real_dirs fs4 d" by (rule only_below_apart [OF ob dw d3])
  have nil4: "map_of fs4 [] = None" using nil3 by (simp add: f4)
  have f5: "fs5 = move_tree w v fs4"
    using rename_dir [OF rn cw _ w4 _ d4 nil4] comps_abs_path [OF vplain] by (simp add: f w)
  show "real_dirs fs5 v" unfolding f5 f
    by (rule real_dirs_moved [OF d4 w4]) (use ap apd in \<open>auto simp: f w\<close>)
  show "map_of fs5 (v @ [''manifest.json'']) = Some (Reg b)"
    using move_tree_new [OF ap, of fs4 "[''manifest.json'']"] by (simp add: f5 f4)
  show "map_of fs5 (v @ [x]) = map_of fs3 (w @ [x])" if "x \<noteq> ''manifest.json''"
    using that unfolding f5 move_tree_new [OF ap] by (simp add: f4)
  have gone: "map_of fs5 w = None" using move_tree_gone [OF ap, of fs4 "[]"] by (simp add: f5)
  have "map_of fs5 (take k s) = map_of fs4 (take k s)" for k
    unfolding f5
  proof (rule move_tree_other)
    show "\<not> (\<exists>q. take k s = w @ q)" by (auto simp: w dest!: arg_cong [where f = length])
    show "\<not> (\<exists>q. take k s = v @ q)" using sv by (metis append_assoc append_take_drop_id)
  qed
  moreover have "real_dirs fs4 s" using w4 unfolding w by (rule real_dirs_append)
  ultimately have "real_dirs fs5 s" by (simp add: real_dirs_def)
  with gone show "os_remove_all (abs_path w) fs5 = fs5"
    using realpath_absent [of fs5 s t link_limit False] cw by (simp add: os_remove_all_def w)
qed

section \<open>The committed revision\<close>

lemma committed_row:
  assumes r: "compact_ready co rcs fs db" and p: "prepare co req fs db = Inr p"
    and kept: "core_kept (cpl_manifest p\<lparr>man_url := url, man_attribution := attribution\<rparr>) m2"
    and m: "m = fold add_input (cpl_captures p) m2"
    and save: "SaveCompaction (compaction_record co (cpl_rel_dir p) (cpl_captures p) excluded m) inputs ds now db = Inr (c, db')"
  shows "map ic_id (man_inputs m) = map cap_id (cpl_captures p)" "check_destinations m = Inr ()" "check_header m c = Inr ()"
    "\<exists>i. c = (compaction_record co (cpl_rel_dir p) (cpl_captures p) excluded m)\<lparr>cp_id := i\<rparr>"
proof -
  obtain loc day revision stats where man0: "cpl_manifest p = initial_manifest co (cpl_source p) (cpl_stream p) loc (cr_date req) revision day
      (add_days loc day 1) (cpl_captures p) stats"
    using prepare_ok [OF p] by (auto simp: Let_def)
  have core: "man_core m = man_core m2" by (simp add: m fold_inputs)
  show ids: "map ic_id (man_inputs m) = map cap_id (cpl_captures p)"
    using kept by (simp add: m fold_inputs core_kept_def man0 initial_manifest_def comp_def)
  show "\<exists>i. c = (compaction_record co (cpl_rel_dir p) (cpl_captures p) excluded m)\<lparr>cp_id := i\<rparr>"
    by (rule save_compaction_id [OF save])
  then obtain i where c: "c = (compaction_record co (cpl_rel_dir p) (cpl_captures p) excluded m)\<lparr>cp_id := i\<rparr>" ..
  show "check_destinations m = Inr ()"
    by (rule manifest_destinations_ok [of "cf_destinations (co_cfg co)"])
      (use r kept core_fields [OF core] in \<open>auto simp: compact_ready_def config_ok_def core_kept_def man0 initial_manifest_def\<close>)
  show "check_header m c = Inr ()"
    using kept core_fields [OF core] ids [THEN arg_cong [where f = length]]
    by (simp add: check_header_def c record_fields core_kept_def man0 initial_manifest_def schemaVersionForKind_def IsSupported_iff version_defs)
qed

text \<open>All that holds of the revision directory and of the row when Compact returns.\<close>

lemma compact_committed:
  assumes "Compact co ctx req fs db = (Inr c, fs', db')" and "compact_ready co rcs fs db"
  obtains p vs m m2 url attribution where "prepare co req fs db = Inr p" "vs \<noteq> []" "\<forall>x \<in> set vs. plain_comp x"
    "cpl_rel_dir p = join_with ''/'' vs" "real_dirs fs' (rcs @ vs)"
    "map_of fs' (rcs @ vs @ [''manifest.json'']) = Some (Reg (ce_encode_manifest (co_env co) m))"
    "dataset_ok co fs' (rcs @ vs) (cpl_captures p) m" "m = fold add_input (cpl_captures p) m2"
    "core_kept (cpl_manifest p\<lparr>man_url := url, man_attribution := attribution\<rparr>) m2"
    "SaveCompaction (compaction_record co (cpl_rel_dir p) (cpl_captures p) (man_excluded m) m) (map cap_id (cpl_captures p))
      (destination_map (cf_destinations (co_cfg co))) (co_save_time co) db = Inr (c, db')"
proof -
  note ready = assms(2) [unfolded compact_ready_def]
  obtain p where p: "prepare co req fs db = Inr p" using assms(1) by (auto simp: Compact_def split: sum.splits)
  obtain ws where ws: "ws \<noteq> []" "\<forall>c \<in> set (''parquet'' # ws). plain_comp c" "cpl_rel_dir p = join_with ''/'' (''parquet'' # ws)"
    "cpl_final_dir p = abs_path (rcs @ ''parquet'' # ws)" "comps (Dir (cpl_final_dir p)) = rcs @ butlast (''parquet'' # ws)"
    "no_links fs rcs (butlast (''parquet'' # ws))"
    using plan_shape [OF p assms(2)] by blast
  define vs where "vs = ''parquet'' # ws"
  define w where "w = (rcs @ [''staging'']) @ [co_temp_name co]"
  have root: "rs_root (co_raw co) = abs_path rcs" and pr: "\<forall>c \<in> set rcs. plain_comp c" using ready by (simp_all add: store_at_def)
  obtain fs1 fs2 fs5 where mk: "os_mkdirall (Dir (cpl_final_dir p)) fs = Inr fs1"
    and mkd: "os_mkdir (Join [Join [rs_root (co_raw co), ''staging''], co_temp_name co]) fs1 = Inr fs2"
    and inner: "compact_in co ctx (cpl_source p) (cpl_stream p) (cpl_rel_dir p) (cpl_final_dir p)
      (Join [Join [rs_root (co_raw co), ''staging''], co_temp_name co]) (cpl_captures p) (cpl_manifest p) fs2 db = (Inr c, fs5, db')"
    and fs': "fs' = os_remove_all (Join [Join [rs_root (co_raw co), ''staging''], co_temp_name co]) fs5"
    using assms(1) p unfolding Compact_def Let_def by (auto split: sum.splits prod.splits)
  note work = work_dir_made [OF assms(2) ws(5,6) mk mkd w_def]
  obtain url attribution m2 excluded fs3 fs4 where
    bd: "build_dataset co ctx (sm_kind (cpl_stream p)) (abs_path w) (cpl_captures p) (cpl_manifest p\<lparr>man_url := url, man_attribution := attribution\<rparr>) fs2 = (Inr (m2, excluded), fs3)"
    and js: "writeJSONFile (Join [abs_path w, ''manifest.json'']) (ce_encode_manifest (co_env co) (fold add_input (cpl_captures p) m2)) fs3 = Inr fs4"
    and rn: "os_rename (abs_path w) (abs_path (rcs @ vs)) fs4 = Inr fs5"
    and save: "SaveCompaction (compaction_record co (cpl_rel_dir p) (cpl_captures p) excluded (fold add_input (cpl_captures p) m2)) (map cap_id (cpl_captures p))
      (destination_map (cf_destinations (co_cfg co))) (co_save_time co) db = Inr (c, db')"
    using compact_in_ok [OF inner] unfolding work(1) ws(4) vs_def by (auto simp: Let_def)
  define m where "m = fold add_input (cpl_captures p) m2"
  obtain loc day revision stats where caps: "CapturesForDay (src_id (cpl_source p)) (sm_id (cpl_stream p)) (cr_date req) db = Inr (cpl_captures p)"
    and man0: "cpl_manifest p = initial_manifest co (cpl_source p) (cpl_stream p) loc (cr_date req) revision day (add_days loc day 1) (cpl_captures p) stats"
    using prepare_ok [OF p] by (auto simp: Let_def)
  have idb: "db_inv db" and hex: "\<forall>b. is_hex (ce_sha (co_env co) b)" using ready by blast+
  note ids = captures_ids [OF caps idb]
  have idne: "\<forall>c \<in> set (cpl_captures p). cap_id c \<noteq> ''''" using ids(2) ready by metis
  have built: "core_kept (cpl_manifest p\<lparr>man_url := url, man_attribution := attribution\<rparr>) m2 \<and> only_below w fs2 fs3 \<and>
      map_of fs3 [] = None \<and> excluded = man_excluded m2 \<and> dataset_ok co fs3 w (cpl_captures p) m2"
    by (rule build_dataset_ok [OF bd work(2) _ work(3,5) ids(1) idne hex]) (simp_all add: man0 initial_manifest_def w_def)
  have ap: "apart w (rcs @ vs)" and sv: "\<not> (\<exists>q. rcs @ [''staging''] = (rcs @ vs) @ q)" by (auto simp: apart_def w_def vs_def)
  have apd: "apart w (rcs @ butlast vs)"
    using ws(1) by (auto simp: apart_def w_def vs_def)
  have w3: "real_dirs fs3 w" by (rule only_below_real [of w fs2 fs3, OF _ _ work(3)]) (use built in simp_all)
  have d3: "real_dirs fs3 (rcs @ butlast vs)" by (rule only_below_apart [OF _ apd]) (use built work(4) in \<open>simp_all add: vs_def\<close>)
  have vplain: "\<forall>c \<in> set (rcs @ vs). plain_comp c" using pr ws(2) by (auto simp: vs_def)
  have final: "rcs @ vs = (rcs @ butlast vs) @ [last vs]" by (simp add: vs_def)
  note disk = committed_disk [OF work(2) w_def final vplain w3 d3 _ ap apd sv js rn]
  have fs5: "fs' = fs5" unfolding fs' work(1) by (rule disk(4)) (use built in simp)
  have kept: "core_kept (cpl_manifest p\<lparr>man_url := url, man_attribution := attribution\<rparr>) m2" using built by blast
  have ds: "dataset_ok co fs5 (rcs @ vs) (cpl_captures p) m"
  proof (rule dataset_ok_moved [of co fs3 w _ m2])
    show "dataset_ok co fs3 w (cpl_captures p) m2" "man_core m = man_core m2" using built by (simp_all add: m_def fold_inputs)
    fix a content assume "art_path a = ''data-'' @ ce_sha (co_env co) content @ ''.parquet''"
    then show "map_of fs5 ((rcs @ vs) @ [art_path a]) = map_of fs3 (w @ [art_path a])" by (intro disk(3)) (use built in auto)
  qed
  have ex: "excluded = man_excluded m" using built core_fields(10) [OF fold_inputs(1)] by (simp add: m_def)
  have vne: "vs \<noteq> []" and vsp: "\<forall>c \<in> set vs. plain_comp c" using ws(2) by (simp_all add: vs_def)
  have man5: "map_of fs5 (rcs @ vs @ [''manifest.json'']) = Some (Reg (ce_encode_manifest (co_env co) m))"
    using disk(2) built by (simp add: m_def)
  have r5: "real_dirs fs5 (rcs @ vs)" by (rule disk(1)) (use built in simp)
  show ?thesis
    by (rule that [OF p vne vsp ws(3) [folded vs_def], unfolded fs5, OF r5 man5 ds m_def kept save [folded m_def, unfolded ex]])
qed

lemma committed_paths:
  assumes "c = (compaction_record co rel cs ex m)\<lparr>cp_id := i\<rparr>" "rel = join_with ''/'' vs"
  shows "cp_manifest_path c = Join [join_with ''/'' vs, ''manifest.json'']" "cp_directory c = join_with ''/'' vs"
    "man_files m = [a] \<Longrightarrow> cp_data_path c = Join [join_with ''/'' vs, art_path a] \<and> cp_data_sha256 c = art_sha256 a \<and>
       cp_data_bytes c = art_bytes a"
  by (simp_all add: assms record_fields del: Join.simps join_with.simps)

text \<open>C19. The revision that Compact commits is on disk under the paths of its row, with the manifest
  it encoded, and every verifier with the same hash whose JSON decoder gives that manifest back
  accepts it.\<close>

theorem compact_verifies:
  assumes "Compact co ctx req fs db = (Inr c, fs', db')" and "compact_ready co rcs fs db"
  shows "\<exists>m. os_readfile fs' (Join [rs_root (co_raw co), cp_manifest_path c]) = Inr (ce_encode_manifest (co_env co) m) \<and>
    (\<forall>env. ce_sha env = ce_sha (co_env co) \<and> ce_decode_manifest env (ce_encode_manifest (co_env co) m) = Inr m \<longrightarrow>
     VerifyDirectory env fs' (rs_root (co_raw co)) c = Inr ())"
proof -
  have root: "rs_root (co_raw co) = abs_path rcs" and pr: "\<forall>c \<in> set rcs. plain_comp c" and hex: "\<forall>b. is_hex (ce_sha (co_env co) b)"
    using assms(2) by (simp_all add: compact_ready_def store_at_def)
  show ?thesis
  proof (rule compact_committed [OF assms])
    fix p vs m m2 url attribution
    assume p: "prepare co req fs db = Inr p" and vs: "vs \<noteq> []" "\<forall>x \<in> set vs. plain_comp x"
      and rel: "cpl_rel_dir p = join_with ''/'' vs" and r5: "real_dirs fs' (rcs @ vs)"
      and man5: "map_of fs' (rcs @ vs @ [''manifest.json'']) = Some (Reg (ce_encode_manifest (co_env co) m))"
      and ds: "dataset_ok co fs' (rcs @ vs) (cpl_captures p) m" and m: "m = fold add_input (cpl_captures p) m2"
      and kept: "core_kept (cpl_manifest p\<lparr>man_url := url, man_attribution := attribution\<rparr>) m2"
      and save: "SaveCompaction (compaction_record co (cpl_rel_dir p) (cpl_captures p) (man_excluded m) m) (map cap_id (cpl_captures p))
        (destination_map (cf_destinations (co_cfg co))) (co_save_time co) db = Inr (c, db')"
    note row = committed_row [OF assms(2) p kept m save]
    obtain i where c: "c = (compaction_record co (cpl_rel_dir p) (cpl_captures p) (man_excluded m) m)\<lparr>cp_id := i\<rparr>" using row(4) by blast
    note paths = committed_paths [OF c rel]
    have "VerifyDirectory env fs' (abs_path rcs) c = Inr ()"
      if e: "ce_sha env = ce_sha (co_env co)" "ce_decode_manifest env (ce_encode_manifest (co_env co) m) = Inr m" for env
    proof -
      have "dataset_ok (co\<lparr>co_env := env\<rparr>) fs' (rcs @ vs) (cpl_captures p) m" using ds e(1) by (simp add: dataset_ok_def)
      from verify_committed [OF pr vs r5 man5 _ row(3,1,2) this _ paths] e hex show ?thesis by simp
    qed
    with committed_manifest(1) [OF pr vs r5 man5 paths(1)] show ?thesis unfolding root by blast
  qed
qed

section \<open>The effect on the database\<close>

lemma build_dataset_required:
  "build_dataset co ctx kind w captures m fs = (Inr (m2, ex), fs') \<Longrightarrow> man_required_destinations m2 = man_required_destinations m"
  by (auto simp: build_dataset_def Let_def split: prod.splits sum.splits if_splits)

lemma put_destination_flags: "(\<forall>p \<in> set ds. \<not> snd p) \<Longrightarrow> \<not> v \<Longrightarrow> \<forall>p \<in> set (put_destination k v ds). \<not> snd p"
  by (induction k v ds rule: put_destination.induct) auto

lemma destination_map_flags:
  assumes "requiredDestinationIDs ds = []" shows "list_all (\<lambda>(_, required). \<not> required) (destination_map ds)"
proof -
  have none: "\<not> IsRequired d" if "d \<in> set ds" for d
    using assms that by (auto simp: requiredDestinationIDs_def filter_empty_conv dest!: arg_cong [where f = set])
  have "\<forall>p \<in> set (fold (\<lambda>d. put_destination (dst_id d) (IsRequired d)) ds acc). \<not> snd p" if "\<forall>p \<in> set acc. \<not> snd p" for acc
    using none that
  proof (induction ds arbitrary: acc)
    case (Cons d ds)
    have "\<forall>p \<in> set (put_destination (dst_id d) (IsRequired d) acc). \<not> snd p"
      by (rule put_destination_flags) (use Cons.prems in simp_all)
    with Cons.IH [of "put_destination (dst_id d) (IsRequired d) acc"] Cons.prems show ?case by simp
  qed simp
  from this [of "[]"] show ?thesis by (auto simp: destination_map_def list_all_iff)
qed

lemma compact_in_error: "compact_in co ctx src sm rel fin w cs m0 fs db = (Inl e, fs', db') \<Longrightarrow> db' = db"
  by (auto simp: compact_in_def Let_def simp del: Join.simps split: sum.splits prod.splits)

lemma compact_in_honest:
  assumes "compact_in co ctx src sm rel fin w cs m0 fs db = (Inr c, fs', db')"
    and "man_required_destinations m0 = requiredDestinationIDs (cf_destinations (co_cfg co))"
  shows "store_call db db'"
proof -
  obtain url a m2 excluded fs1 where bd: "build_dataset co ctx (sm_kind sm) w cs (m0\<lparr>man_url := url, man_attribution := a\<rparr>) fs = (Inr (m2, excluded), fs1)"
    and save: "SaveCompaction (compaction_record co rel cs excluded (fold add_input cs m2)) (map cap_id cs)
      (destination_map (cf_destinations (co_cfg co))) (co_save_time co) db = Inr (c, db')"
    using compact_in_ok [OF assms(1)] by (auto simp: Let_def)
  have "man_required_destinations (fold add_input cs m2) = requiredDestinationIDs (cf_destinations (co_cfg co))"
    using core_fields(14) [OF fold_inputs(1), of cs m2] build_dataset_required [OF bd] assms(2) by simp
  then have "saved_honestly (compaction_record co rel cs excluded (fold add_input cs m2)) (destination_map (cf_destinations (co_cfg co)))"
    using destination_map_flags by (auto simp: saved_honestly_def compaction_record_def Let_def)
  with save show ?thesis by (rule store_call.save_compaction)
qed

text \<open>Compact changes the database by one call of the state store that respects the store's
  contract, or, when it fails, not at all: what holds of every reachable database keeps holding.\<close>

theorem compact_calls_store:
  assumes "Compact co ctx req fs db = (r, fs', db')"
  shows "case r of Inl e \<Rightarrow> db' = db | Inr c \<Rightarrow> store_call db db'"
proof (cases "prepare co req fs db")
  case (Inl e)
  with assms show ?thesis by (auto simp: Compact_def)
next
  case (Inr p)
  have req: "man_required_destinations (cpl_manifest p) = requiredDestinationIDs (cf_destinations (co_cfg co))"
    using prepare_ok [OF Inr] by (auto simp: Let_def initial_manifest_def)
  show ?thesis
  proof (cases "r = Inl (projl r) \<and> db' = db")
    case False
    with assms Inr obtain w fs2 fs5 where
      "compact_in co ctx (cpl_source p) (cpl_stream p) (cpl_rel_dir p) (cpl_final_dir p) w (cpl_captures p) (cpl_manifest p) fs2 db = (r, fs5, db')"
      by (auto simp: Compact_def Let_def simp del: Join.simps split: sum.splits prod.splits)
    then show ?thesis using compact_in_error compact_in_honest [OF _ req] by (cases r) auto
  qed (metis sum.case(1))
qed

end
