(* ===== verification/Retention.thy ===== *)
theory Retention
  imports Raw_Recovery State_Props Config_Model
begin

text \<open>
  internal/lifecycle/retention.go: the files of captures and revisions whose retention has elapsed
  are removed and their rows marked, then finished days are summarised. What Cleanup returns early
  with is an error beside the counts so far; the file system and the database keep what was done.
\<close>

record cleanup_result =
  cu_raw_files :: int
  cu_parquet_files :: int
  cu_summarized_days :: int
  cu_bytes :: int

record cleanup_state =
  cs_result :: cleanup_result
  cs_fs :: fs
  cs_db :: db
  cs_error :: "go_error option"

definition hasRequired :: "config \<Rightarrow> bool" where
  "hasRequired cfg = list_ex IsRequired (cf_destinations cfg)"

text \<open>Whether a file was removed, its size, and the file system.\<close>

definition removeRegular :: "raw_store \<Rightarrow> string \<Rightarrow> fs \<Rightarrow> (bool \<times> int \<times> fs) result" where
  "removeRegular raw relative fs =
     bind_res (Absolute raw relative fs) (\<lambda>path.
       (case os_lstat fs path of
          Inl e \<Rightarrow> if errors_Is e ErrNotExist then Inr (False, 0, fs) else Inl e
        | Inr (Reg content) \<Rightarrow> bind_res (os_remove path fs) (\<lambda>fs'. Inr (True, int (length content), fs'))
        | Inr _ \<Rightarrow> Inl (errors_New ''retention target is not a regular file'')))"

text \<open>The inner loop over the two paths of a candidate: the files removed, their bytes, the file
  system, and the error that stopped it.\<close>

fun remove_paths :: "raw_store \<Rightarrow> string list \<Rightarrow> fs \<Rightarrow> int \<times> int \<times> fs \<times> go_error option" where
  "remove_paths raw [] fs = (0, 0, fs, None)"
| "remove_paths raw (relative # rest) fs =
     (if relative = '''' then remove_paths raw rest fs
      else (case removeRegular raw relative fs of
          Inl e \<Rightarrow> (0, 0, fs, Some e)
        | Inr (removed, n, fs1) \<Rightarrow>
            (case remove_paths raw rest fs1 of
               (deleted, bytes, fs2, err) \<Rightarrow> (if removed then (deleted + 1, bytes + n, fs2, err) else (deleted, bytes, fs2, err)))))"

fun clean_raw :: "raw_store \<Rightarrow> retention_capture list \<Rightarrow> cleanup_state \<Rightarrow> cleanup_state" where
  "clean_raw raw [] s = s"
| "clean_raw raw (c # cs) s =
     (case remove_paths raw [rc_raw_path c, rc_sidecar_path c] (cs_fs s) of
        (deleted, bytes, fs1, Some e) \<Rightarrow> s\<lparr>cs_fs := fs1, cs_error := Some (err_wrap (''remove retained capture '' @ rc_id c) e)\<rparr>
      | (deleted, bytes, fs1, None) \<Rightarrow>
          (case MarkCaptureRetained (rc_id c) (cs_db s) of
             Inl e \<Rightarrow> s\<lparr>cs_fs := fs1, cs_error := Some e\<rparr>
           | Inr db' \<Rightarrow>
               (let r = cs_result s in
                clean_raw raw cs (s\<lparr>cs_fs := fs1, cs_db := db',
                  cs_result := r\<lparr>cu_raw_files := cu_raw_files r + deleted, cu_bytes := cu_bytes r + bytes\<rparr>\<rparr>))))"

fun clean_parquet :: "raw_store \<Rightarrow> retention_compaction list \<Rightarrow> cleanup_state \<Rightarrow> cleanup_state" where
  "clean_parquet raw [] s = s"
| "clean_parquet raw (c # cs) s =
     (case remove_paths raw [rp_data_path c, rp_manifest_path c] (cs_fs s) of
        (deleted, bytes, fs1, Some e) \<Rightarrow> s\<lparr>cs_fs := fs1, cs_error := Some (err_wrap (''remove retained dataset '' @ itoa (rp_id c)) e)\<rparr>
      | (deleted, bytes, fs1, None) \<Rightarrow>
          (let r = cs_result s in
           clean_parquet raw cs (s\<lparr>cs_fs := fs1, cs_db := MarkParquetRetained (rp_id c) (cs_db s),
             cs_result := r\<lparr>cu_parquet_files := cu_parquet_files r + deleted, cu_bytes := cu_bytes r + bytes\<rparr>\<rparr>)))"

text \<open>The location of the first configured stream with these identifiers. The inner value is \<open>None\<close> for
  a source whose location was never loaded (a nil pointer).\<close>

definition configuredLocation ::
  "(string \<Rightarrow> location result) \<Rightarrow> config \<Rightarrow> string \<Rightarrow> string \<Rightarrow> location option option" where
  "configuredLocation load_location cfg sourceID streamID =
     (case List.find (\<lambda>(src, sm). src_id src = sourceID \<and> sm_id sm = streamID) (all_streams cfg) of
        None \<Rightarrow> None
      | Some (source, stream) \<Rightarrow>
          (case EffectiveLocation load_location stream source of Inl _ \<Rightarrow> None | Inr l \<Rightarrow> Some l))"

fun clean_summaries ::
  "(string \<Rightarrow> location result) \<Rightarrow> config \<Rightarrow> instant \<Rightarrow> (string \<times> string \<times> string) list \<Rightarrow> cleanup_state \<Rightarrow> cleanup_state" where
  "clean_summaries ll cfg clock [] s = s"
| "clean_summaries ll cfg clock ((src, sm, date) # cs) s =
     (case configuredLocation ll cfg src sm of
        None \<Rightarrow> clean_summaries ll cfg clock cs s
      | Some None \<Rightarrow> s\<lparr>cs_error := Some (errors_New ''panic: time: missing Location in call to Date'')\<rparr>
      | Some (Some location) \<Rightarrow>
          (case parse_in_location date location of
             None \<Rightarrow> s\<lparr>cs_error := Some (errors_New ''parsing time'')\<rparr>
           | Some day \<Rightarrow>
              (case SummarizeDay src sm date day (add_days location day 1) clock (cs_db s) of
                 Inl e \<Rightarrow> s\<lparr>cs_error := Some e\<rparr>
               | Inr (finished, db') \<Rightarrow>
                  (let r = cs_result s in
                   clean_summaries ll cfg clock cs (s\<lparr>cs_db := db',
                     cs_result := (if finished then r\<lparr>cu_summarized_days := cu_summarized_days r + 1\<rparr> else r)\<rparr>)))))"

definition nothing_cleaned :: cleanup_result where
  "nothing_cleaned = \<lparr>cu_raw_files = 0, cu_parquet_files = 0, cu_summarized_days = 0, cu_bytes = 0\<rparr>"

definition cleanup_note :: "cleanup_result \<Rightarrow> string" where
  "cleanup_note r = ''raw='' @ itoa (cu_raw_files r) @ '' parquet='' @ itoa (cu_parquet_files r) @ '' summarized='' @
     itoa (cu_summarized_days r) @ '' bytes='' @ itoa (cu_bytes r)"

text \<open>\<open>clock\<close> is what time.Now gives inside the store's calls.\<close>

definition Cleanup ::
  "(string \<Rightarrow> location result) \<Rightarrow> config \<Rightarrow> raw_store \<Rightarrow> instant \<Rightarrow> instant \<Rightarrow> fs \<Rightarrow> db \<Rightarrow> cleanup_state" where
  "Cleanup ll cfg raw clock now fs db =
     (let st = cf_storage cfg;
          s0 = \<lparr>cs_result = nothing_cleaned, cs_fs = fs, cs_db = db, cs_error = None\<rparr> in
      if \<not> hasRequired cfg \<and> \<not> st_local_only_cleanup st then s0
      else
        (let s1 = clean_raw raw (RawRetentionCandidates (now - st_raw_retention st) db) s0 in
         if cs_error s1 \<noteq> None then s1 else
         (let s2 = clean_parquet raw (ParquetRetentionCandidates (now - st_parquet_retention st) (cs_db s1)) s1 in
          if cs_error s2 \<noteq> None then s2 else
          (let s3 = clean_summaries ll cfg clock (SummaryCandidates (now - st_metadata_retention st) (cs_db s2)) s2 in
           if cs_error s3 \<noteq> None then s3
           else if cu_raw_files (cs_result s3) + cu_parquet_files (cs_result s3) + cu_summarized_days (cs_result s3) > 0
           then s3\<lparr>cs_db := RecordRepair ''retention_cleanup'' (cleanup_note (cs_result s3)) ''policy elapsed'' clock (cs_db s3)\<rparr>
           else s3))))"

section \<open>What a cleanup removes\<close>

text \<open>Only regular files at the given places disappear; nothing else changes.\<close>

definition only_removed :: "(string list \<Rightarrow> bool) \<Rightarrow> fs \<Rightarrow> fs \<Rightarrow> bool" where
  "only_removed P fs fs' \<longleftrightarrow> (\<forall>p. map_of fs' p = map_of fs p \<or> (P p \<and> map_of fs' p = None \<and> (\<exists>b. map_of fs p = Some (Reg b))))"

lemma only_removed_refl [simp]: "only_removed P fs fs"
  by (simp add: only_removed_def)

lemma only_removed_trans: "only_removed P a b \<Longrightarrow> only_removed P b c \<Longrightarrow> only_removed P a c"
  unfolding only_removed_def by metis

lemma only_removed_mono: "only_removed P a b \<Longrightarrow> (\<And>p. P p \<Longrightarrow> Q p) \<Longrightarrow> only_removed Q a b"
  unfolding only_removed_def by metis

lemma only_removed_dirs: "only_removed P a b \<Longrightarrow> real_dirs a d \<Longrightarrow> real_dirs b d"
  unfolding only_removed_def real_dirs_def by (metis node.distinct(1) option.inject)

lemma removeRegular_removes:
  assumes "removeRegular raw rel fs = Inr (removed, n, fs')" and root: "rs_root raw = abs_path rcs"
    and pr: "\<forall>c \<in> set rcs. plain_comp c" and dirs: "real_dirs fs rcs"
  shows "only_removed (\<lambda>p. p = rcs @ comps rel) fs fs'"
proof -
  obtain path where path: "safePath fs (abs_path rcs) rel = Inr path"
    using assms(1) root by (auto simp: removeRegular_def Absolute_def bind_res_Inr)
  have place: "realpath k fs follow [] (comps path) = Inr q \<Longrightarrow> q = rcs @ comps rel" for k follow q
  proof -
    assume r: "realpath k fs follow [] (comps path) = Inr q"
    note sh = safePath_shape [OF pr path]
    have pl: "\<forall>c \<in> set (rcs @ comps rel). plain_comp c" using pr sh(2) by auto
    show ?thesis using check_parts_reach [OF sh(4) dirs pl, of k follow q] r sh(3) pl by (simp add: comps_abs_path)
  qed
  show ?thesis
  proof (cases "os_lstat fs path")
    case (Inl e)
    with assms(1) path root show ?thesis by (auto simp: removeRegular_def Absolute_def split: if_splits)
  next
    case (Inr node)
    then obtain q where q: "realpath link_limit fs False [] (comps path) = Inr q" "node = node_at fs q"
      by (auto simp: os_lstat_def bind_res_Inr)
    with assms(1) path root Inr obtain b where b: "node = Reg b" "os_remove path fs = Inr fs'"
      by (cases "node_at fs q") (auto simp: removeRegular_def Absolute_def bind_res_Inr)
    have "fs' = fs_del q fs" using b(2) q(1) by (auto simp: os_remove_def split: if_splits)
    moreover have "map_of fs q = Some (Reg b)" using q(2) b(1) by (auto simp: node_at_def split: option.splits)
    ultimately show ?thesis using place [OF q(1)] by (auto simp: only_removed_def)
  qed
qed

lemma remove_paths_removes:
  assumes "remove_paths raw rels fs = (d, b, fs', err)" "rs_root raw = abs_path rcs" "\<forall>c \<in> set rcs. plain_comp c" "real_dirs fs rcs"
  shows "only_removed (\<lambda>p. \<exists>rel \<in> set rels. p = rcs @ comps rel) fs fs'"
  using assms(1,4)
proof (induction rels arbitrary: fs d b err fs')
  case (Cons rel rels)
  let ?P = "\<lambda>p. \<exists>rel \<in> set (rel # rels). p = rcs @ comps rel"
  show ?case
  proof (cases "rel = '''' \<or> \<not> is_ok (removeRegular raw rel fs)")
    case True
    then show ?thesis
    proof (cases "rel = ''''")
      case True
      then show ?thesis using Cons.IH [of fs d b fs' err] Cons.prems by (auto intro: only_removed_mono)
    qed (use Cons.prems in \<open>auto split: sum.splits\<close>)
  next
    case False
    then obtain removed n fs1 where r: "removeRegular raw rel fs = Inr (removed, n, fs1)" by (auto simp: is_ok_iff)
    obtain d1 b1 fs2 e1 where rest: "remove_paths raw rels fs1 = (d1, b1, fs2, e1)" by (metis prod.exhaust)
    have "fs' = fs2" using Cons.prems(1) False r rest by (auto split: if_splits)
    have one: "only_removed (\<lambda>p. p = rcs @ comps rel) fs fs1" by (rule removeRegular_removes [OF r assms(2,3) Cons.prems(2)])
    have "only_removed (\<lambda>p. \<exists>rel \<in> set rels. p = rcs @ comps rel) fs1 fs2"
      by (rule Cons.IH [OF rest only_removed_dirs [OF one Cons.prems(2)]])
    then have "only_removed ?P fs1 fs2" by (rule only_removed_mono) simp
    moreover have "only_removed ?P fs fs1" by (rule only_removed_mono [OF one]) simp
    ultimately show ?thesis unfolding \<open>fs' = fs2\<close> by (rule only_removed_trans [rotated])
  qed
qed simp

lemma clean_raw_removes:
  assumes "rs_root raw = abs_path rcs" "\<forall>c \<in> set rcs. plain_comp c" "real_dirs (cs_fs s) rcs"
  shows "only_removed (\<lambda>p. \<exists>c \<in> set cs. p = rcs @ comps (rc_raw_path c) \<or> p = rcs @ comps (rc_sidecar_path c))
      (cs_fs s) (cs_fs (clean_raw raw cs s)) \<and>
    db_compactions (cs_db (clean_raw raw cs s)) = db_compactions (cs_db s) \<and> store_call\<^sup>*\<^sup>* (cs_db s) (cs_db (clean_raw raw cs s))"
  using assms(3)
proof (induction cs arbitrary: s)
  case (Cons c cs)
  let ?P = "\<lambda>cs p. \<exists>c \<in> set cs. p = rcs @ comps (rc_raw_path c) \<or> p = rcs @ comps (rc_sidecar_path c)"
  obtain d b fs1 err where rp: "remove_paths raw [rc_raw_path c, rc_sidecar_path c] (cs_fs s) = (d, b, fs1, err)" by (metis prod.exhaust)
  note one = remove_paths_removes [OF rp assms(1,2) Cons.prems]
  have P1: "only_removed (?P (c # cs)) (cs_fs s) fs1" by (rule only_removed_mono [OF one]) auto
  show ?case
  proof (cases "err = None \<and> is_ok (MarkCaptureRetained (rc_id c) (cs_db s))")
    case False
    then show ?thesis using rp P1 by (auto split: option.splits sum.splits)
  next
    case True
    then obtain db1 where m: "MarkCaptureRetained (rc_id c) (cs_db s) = Inr db1" by (auto simp: is_ok_iff)
    define s1 where "s1 = s\<lparr>cs_fs := fs1, cs_db := db1,
       cs_result := (cs_result s)\<lparr>cu_raw_files := cu_raw_files (cs_result s) + d, cu_bytes := cu_bytes (cs_result s) + b\<rparr>\<rparr>"
    have eq: "clean_raw raw (c # cs) s = clean_raw raw cs s1" using rp m True by (simp add: s1_def Let_def)
    have f: "cs_fs s1 = fs1" "cs_db s1 = db1" by (simp_all add: s1_def)
    note ih = Cons.IH [of s1, unfolded f, OF only_removed_dirs [OF one Cons.prems]]
    have "only_removed (?P (c # cs)) fs1 (cs_fs (clean_raw raw cs s1))" by (rule only_removed_mono [OF conjunct1 [OF ih]]) auto
    then have "only_removed (?P (c # cs)) (cs_fs s) (cs_fs (clean_raw raw cs s1))" by (rule only_removed_trans [OF P1])
    moreover have "db_compactions db1 = db_compactions (cs_db s)" using m by (auto simp: MarkCaptureRetained_def split: if_splits)
    moreover have "store_call (cs_db s) db1" by (rule store_call.capture_retained [OF m])
    ultimately show ?thesis unfolding eq using ih by (auto intro: converse_rtranclp_into_rtranclp)
  qed
qed simp

lemma clean_parquet_removes:
  assumes "rs_root raw = abs_path rcs" "\<forall>c \<in> set rcs. plain_comp c" "real_dirs (cs_fs s) rcs"
  shows "only_removed (\<lambda>p. \<exists>c \<in> set cs. p = rcs @ comps (rp_data_path c) \<or> p = rcs @ comps (rp_manifest_path c))
      (cs_fs s) (cs_fs (clean_parquet raw cs s)) \<and> store_call\<^sup>*\<^sup>* (cs_db s) (cs_db (clean_parquet raw cs s))"
  using assms(3)
proof (induction cs arbitrary: s)
  case (Cons c cs)
  let ?P = "\<lambda>cs p. \<exists>c \<in> set cs. p = rcs @ comps (rp_data_path c) \<or> p = rcs @ comps (rp_manifest_path c)"
  obtain d b fs1 err where rp: "remove_paths raw [rp_data_path c, rp_manifest_path c] (cs_fs s) = (d, b, fs1, err)" by (metis prod.exhaust)
  note one = remove_paths_removes [OF rp assms(1,2) Cons.prems]
  have P1: "only_removed (?P (c # cs)) (cs_fs s) fs1" by (rule only_removed_mono [OF one]) auto
  show ?case
  proof (cases err)
    case (Some e)
    then show ?thesis using rp P1 by simp
  next
    case None
    define s1 where "s1 = s\<lparr>cs_fs := fs1, cs_db := MarkParquetRetained (rp_id c) (cs_db s),
       cs_result := (cs_result s)\<lparr>cu_parquet_files := cu_parquet_files (cs_result s) + d, cu_bytes := cu_bytes (cs_result s) + b\<rparr>\<rparr>"
    have eq: "clean_parquet raw (c # cs) s = clean_parquet raw cs s1" using rp None by (simp add: s1_def Let_def)
    have f: "cs_fs s1 = fs1" "cs_db s1 = MarkParquetRetained (rp_id c) (cs_db s)" by (simp_all add: s1_def)
    note ih = Cons.IH [of s1, unfolded f, OF only_removed_dirs [OF one Cons.prems]]
    have "only_removed (?P (c # cs)) fs1 (cs_fs (clean_parquet raw cs s1))" by (rule only_removed_mono [OF conjunct1 [OF ih]]) auto
    then have "only_removed (?P (c # cs)) (cs_fs s) (cs_fs (clean_parquet raw cs s1))" by (rule only_removed_trans [OF P1])
    then show ?thesis unfolding eq using ih store_call.parquet_retained by (auto intro: converse_rtranclp_into_rtranclp)
  qed
qed simp

lemma clean_summaries_keeps:
  "cs_fs (clean_summaries ll cfg clock cs s) = cs_fs s \<and> store_call\<^sup>*\<^sup>* (cs_db s) (cs_db (clean_summaries ll cfg clock cs s))"
proof (induction cs arbitrary: s)
  case (Cons c cs)
  obtain src sm date where c: "c = (src, sm, date)" by (cases c)
  show ?case
  proof (cases "\<exists>loc day fin db'. configuredLocation ll cfg src sm = Some (Some loc) \<and> parse_in_location date loc = Some day \<and>
      SummarizeDay src sm date day (add_days loc day 1) clock (cs_db s) = Inr (fin, db')")
    case True
    then obtain loc day fin db' where l: "configuredLocation ll cfg src sm = Some (Some loc)" "parse_in_location date loc = Some day"
      and sd: "SummarizeDay src sm date day (add_days loc day 1) clock (cs_db s) = Inr (fin, db')" by blast
    define s1 where "s1 = s\<lparr>cs_db := db', cs_result := (if fin then (cs_result s)\<lparr>cu_summarized_days := cu_summarized_days (cs_result s) + 1\<rparr> else cs_result s)\<rparr>"
    have eq: "clean_summaries ll cfg clock (c # cs) s = clean_summaries ll cfg clock cs s1" by (simp add: c l sd s1_def Let_def)
    have f: "cs_fs s1 = cs_fs s" "cs_db s1 = db'" by (simp_all add: s1_def)
    show ?thesis unfolding eq using Cons.IH [of s1, unfolded f] store_call.summarize [OF sd] by (auto intro: converse_rtranclp_into_rtranclp)
  next
    case False
    then show ?thesis using Cons.IH [of s] by (auto simp: c split: option.splits sum.splits)
  qed
qed simp

text \<open>Both phases that remove files, and the database they leave.\<close>

lemma cleanup_steps:
  assumes "rs_root raw = abs_path rcs" "\<forall>c \<in> set rcs. plain_comp c" "real_dirs fs rcs"
  shows "only_removed (\<lambda>p. (\<exists>c \<in> set (RawRetentionCandidates (now - st_raw_retention (cf_storage cfg)) db).
          p = rcs @ comps (rc_raw_path c) \<or> p = rcs @ comps (rc_sidecar_path c)) \<or>
        (\<exists>c \<in> set (ParquetRetentionCandidates (now - st_parquet_retention (cf_storage cfg)) db).
          p = rcs @ comps (rp_data_path c) \<or> p = rcs @ comps (rp_manifest_path c))) fs (cs_fs (Cleanup ll cfg raw clock now fs db)) \<and>
      store_call\<^sup>*\<^sup>* db (cs_db (Cleanup ll cfg raw clock now fs db))" (is "only_removed ?P _ _ \<and> _")
proof -
  define s0 where "s0 = \<lparr>cs_result = nothing_cleaned, cs_fs = fs, cs_db = db, cs_error = None\<rparr>"
  define s1 where "s1 = clean_raw raw (RawRetentionCandidates (now - st_raw_retention (cf_storage cfg)) db) s0"
  define s2 where "s2 = clean_parquet raw (ParquetRetentionCandidates (now - st_parquet_retention (cf_storage cfg)) (cs_db s1)) s1"
  define s3 where "s3 = clean_summaries ll cfg clock (SummaryCandidates (now - st_metadata_retention (cf_storage cfg)) (cs_db s2)) s2"
  define s4 where "s4 = s3\<lparr>cs_db := RecordRepair ''retention_cleanup'' (cleanup_note (cs_result s3)) ''policy elapsed'' clock (cs_db s3)\<rparr>"
  have f0: "cs_fs s0 = fs" "cs_db s0 = db" by (simp_all add: s0_def)
  note r1 = clean_raw_removes [OF assms(1,2), of s0 "RawRetentionCandidates (now - st_raw_retention (cf_storage cfg)) db", folded s1_def, unfolded f0, OF assms(3)]
  have d1: "real_dirs (cs_fs s1) rcs" by (rule only_removed_dirs [OF conjunct1 [OF r1] assms(3)])
  have same: "ParquetRetentionCandidates b (cs_db s1) = ParquetRetentionCandidates b db" for b
    using r1 by (simp add: ParquetRetentionCandidates_def)
  note r2 = clean_parquet_removes [OF assms(1,2) d1, of "ParquetRetentionCandidates (now - st_parquet_retention (cf_storage cfg)) (cs_db s1)", folded s2_def, unfolded same]
  have r3: "cs_fs s3 = cs_fs s2 \<and> store_call\<^sup>*\<^sup>* (cs_db s2) (cs_db s3)" unfolding s3_def by (rule clean_summaries_keeps)
  have "store_call (cs_db s3) (cs_db s4)" by (simp add: s4_def store_call.repair)
  then have r4: "cs_fs s4 = cs_fs s3" "store_call\<^sup>*\<^sup>* (cs_db s3) (cs_db s4)" by (auto simp: s4_def)
  have P1: "only_removed ?P fs (cs_fs s1)" by (rule only_removed_mono [OF conjunct1 [OF r1]]) blast
  have "only_removed ?P (cs_fs s1) (cs_fs s2)" by (rule only_removed_mono [OF conjunct1 [OF r2]]) blast
  then have P2: "only_removed ?P fs (cs_fs s2)" by (rule only_removed_trans [OF P1])
  have c1: "store_call\<^sup>*\<^sup>* db (cs_db s1)" using r1 by blast
  have c2: "store_call\<^sup>*\<^sup>* db (cs_db s2)" by (rule rtranclp_trans [OF c1]) (use r2 in blast)
  have c3: "store_call\<^sup>*\<^sup>* db (cs_db s3)" by (rule rtranclp_trans [OF c2]) (use r3 in blast)
  have c4: "store_call\<^sup>*\<^sup>* db (cs_db s4)" by (rule rtranclp_trans [OF c3 r4(2)])
  have "Cleanup ll cfg raw clock now fs db \<in> {s0, s1, s2, s3, s4}"
    by (simp add: Cleanup_def Let_def flip: s0_def) (simp add: flip: s1_def s2_def s3_def s4_def)
  then show ?thesis using P1 P2 c1 c2 c3 c4 r3 r4(1) f0 by auto
qed

text \<open>What a compaction owes: nothing, once it is published and its uploads to required destinations
  are settled.\<close>

definition delivered :: "compaction_row \<Rightarrow> db \<Rightarrow> bool" where
  "delivered k db \<longleftrightarrow> cp_published k \<noteq> None \<and>
     (\<forall>u \<in> set (db_uploads db). up_compaction u = cp_id k \<and> up_required u \<longrightarrow> settled (up_status u))"

lemma published_delivered: "reachable_db db \<Longrightarrow> k \<in> set (db_compactions db) \<Longrightarrow> cp_published k \<noteq> None \<Longrightarrow> delivered k db"
  using ledgerD [OF db_invD(7) [OF reachable_db_inv]] by (fastforce simp: delivered_def blocking_def)

lemma raw_candidate:
  assumes "r \<in> set (RawRetentionCandidates b db)" "reachable_db db"
  shows "\<exists>c \<in> set (db_captures db). r = to_retention c \<and> compactions_of_capture (cap_id c) db \<noteq> [] \<and>
    (\<forall>k \<in> set (compactions_of_capture (cap_id c) db). delivered k db)"
proof -
  obtain c where c: "c \<in> set (db_captures db)" "r = to_retention c"
      "all_published_by (encodeTime b) (compactions_of_capture (cap_id c) db)"
    using assms(1) by (auto simp: RawRetentionCandidates_def)
  moreover have "delivered k db" if "k \<in> set (compactions_of_capture (cap_id c) db)" for k
    by (rule published_delivered [OF assms(2)])
      (use that c(3) in \<open>auto simp: compactions_of_capture_def all_published_by_def list_all_iff split: option.splits\<close>)
  ultimately show ?thesis by (auto simp: all_published_by_def)
qed

text \<open>C29. Cleanup removes nothing but regular files, each of them a payload, a sidecar, a data file or a
  manifest whose delivery is complete: every revision it belongs to is published, and every upload
  of those revisions to a required destination is verified or retired.\<close>

theorem cleanup_removes_delivered:
  assumes "Cleanup ll cfg raw clock now fs db = s" "reachable_db db"
    and "rs_root raw = abs_path rcs" "\<forall>c \<in> set rcs. plain_comp c" "real_dirs fs rcs" "map_of (cs_fs s) p \<noteq> map_of fs p"
  shows "map_of (cs_fs s) p = None \<and> (\<exists>b. map_of fs p = Some (Reg b)) \<and>
    ((\<exists>c \<in> set (db_captures db). (p = rcs @ comps (cap_raw_path c) \<or> p = rcs @ comps (cap_sidecar_path c)) \<and>
        compactions_of_capture (cap_id c) db \<noteq> [] \<and>
        (\<forall>k \<in> set (compactions_of_capture (cap_id c) db). delivered k db)) \<or>
     (\<exists>k \<in> set (db_compactions db). (p = rcs @ comps (cp_data_path k) \<or> p = rcs @ comps (cp_manifest_path k)) \<and> delivered k db))"
proof -
  from cleanup_steps [OF assms(3-5)] assms(1,6) obtain b where gone: "map_of (cs_fs s) p = None" "map_of fs p = Some (Reg b)"
    and src: "(\<exists>c \<in> set (RawRetentionCandidates (now - st_raw_retention (cf_storage cfg)) db). p = rcs @ comps (rc_raw_path c) \<or> p = rcs @ comps (rc_sidecar_path c)) \<or>
      (\<exists>c \<in> set (ParquetRetentionCandidates (now - st_parquet_retention (cf_storage cfg)) db). p = rcs @ comps (rp_data_path c) \<or> p = rcs @ comps (rp_manifest_path c))"
    unfolding only_removed_def by metis
  from src show ?thesis
  proof
    assume "\<exists>c \<in> set (RawRetentionCandidates (now - st_raw_retention (cf_storage cfg)) db). p = rcs @ comps (rc_raw_path c) \<or> p = rcs @ comps (rc_sidecar_path c)"
    then obtain r where "r \<in> set (RawRetentionCandidates (now - st_raw_retention (cf_storage cfg)) db)"
      and p: "p = rcs @ comps (rc_raw_path r) \<or> p = rcs @ comps (rc_sidecar_path r)" by blast
    from raw_candidate [OF this(1) assms(2)] p gone show ?thesis by (auto simp: to_retention_def)
  next
    assume "\<exists>c \<in> set (ParquetRetentionCandidates (now - st_parquet_retention (cf_storage cfg)) db). p = rcs @ comps (rp_data_path c) \<or> p = rcs @ comps (rp_manifest_path c)"
    then obtain k where "k \<in> set (db_compactions db)" "cp_published k \<noteq> None" "p = rcs @ comps (cp_data_path k) \<or> p = rcs @ comps (cp_manifest_path k)"
      by (auto simp: ParquetRetentionCandidates_def split: option.splits)
    with published_delivered [OF assms(2)] gone show ?thesis by blast
  qed
qed

section \<open>The database calls of a cleanup\<close>

lemma store_then:
  assumes "store_call db db1" "\<And>s. cs_db s = db1 \<Longrightarrow> store_call\<^sup>*\<^sup>* db1 (cs_db (g s))" "cs_db s1 = db1"
  shows "store_call\<^sup>*\<^sup>* db (cs_db (g s1))"
  using assms by (blast intro: converse_rtranclp_into_rtranclp)

lemma clean_raw_calls: "store_call\<^sup>*\<^sup>* (cs_db s) (cs_db (clean_raw raw cs s))"
proof (induction cs arbitrary: s)
  case (Cons c cs)
  obtain d b fs1 err where rp: "remove_paths raw [rc_raw_path c, rc_sidecar_path c] (cs_fs s) = (d, b, fs1, err)" by (metis prod.exhaust)
  have ih: "cs_db s' = db1 \<Longrightarrow> store_call\<^sup>*\<^sup>* db1 (cs_db (clean_raw raw cs s'))" for s' db1 using Cons.IH [of s'] by simp
  show ?case using rp
    by (cases err) (auto simp: Let_def split: sum.split intro!: store_then [OF store_call.capture_retained ih])
qed simp

lemma clean_parquet_calls: "store_call\<^sup>*\<^sup>* (cs_db s) (cs_db (clean_parquet raw cs s))"
proof (induction cs arbitrary: s)
  case (Cons c cs)
  obtain d b fs1 err where rp: "remove_paths raw [rp_data_path c, rp_manifest_path c] (cs_fs s) = (d, b, fs1, err)" by (metis prod.exhaust)
  have ih: "cs_db s' = db1 \<Longrightarrow> store_call\<^sup>*\<^sup>* db1 (cs_db (clean_parquet raw cs s'))" for s' db1 using Cons.IH [of s'] by simp
  show ?case using rp
    by (cases err) (auto simp: Let_def intro!: store_then [OF store_call.parquet_retained ih])
qed simp

text \<open>However Cleanup ends, it has led the database along calls of the store.\<close>

theorem cleanup_calls_store: "store_call\<^sup>*\<^sup>* db (cs_db (Cleanup ll cfg raw clock now fs db))"
proof -
  define s0 where "s0 = \<lparr>cs_result = nothing_cleaned, cs_fs = fs, cs_db = db, cs_error = None\<rparr>"
  define s1 where "s1 = clean_raw raw (RawRetentionCandidates (now - st_raw_retention (cf_storage cfg)) db) s0"
  define s2 where "s2 = clean_parquet raw (ParquetRetentionCandidates (now - st_parquet_retention (cf_storage cfg)) (cs_db s1)) s1"
  define s3 where "s3 = clean_summaries ll cfg clock (SummaryCandidates (now - st_metadata_retention (cf_storage cfg)) (cs_db s2)) s2"
  define s4 where "s4 = s3\<lparr>cs_db := RecordRepair ''retention_cleanup'' (cleanup_note (cs_result s3)) ''policy elapsed'' clock (cs_db s3)\<rparr>"
  have c1: "store_call\<^sup>*\<^sup>* db (cs_db s1)" using clean_raw_calls [of s0] by (simp add: s1_def s0_def)
  have c2: "store_call\<^sup>*\<^sup>* db (cs_db s2)" using rtranclp_trans [OF c1 clean_parquet_calls] by (simp add: s2_def)
  have c3: "store_call\<^sup>*\<^sup>* db (cs_db s3)" using rtranclp_trans [OF c2 conjunct2 [OF clean_summaries_keeps]] by (simp add: s3_def)
  have c4: "store_call\<^sup>*\<^sup>* db (cs_db s4)" by (rule rtranclp.rtrancl_into_rtrancl [OF c3]) (simp add: s4_def store_call.repair)
  have "Cleanup ll cfg raw clock now fs db \<in> {s0, s1, s2, s3, s4}"
    by (simp add: Cleanup_def Let_def flip: s0_def) (simp add: flip: s1_def s2_def s3_def s4_def)
  moreover have "cs_db s0 = db" by (simp add: s0_def)
  ultimately show ?thesis using c1 c2 c3 c4 by auto
qed

end
