(* ===== verification/Hive.thy ===== *)
theory Hive
  imports Config_Validate Records
begin

text \<open>
  internal/upload/hive.go: the directory of a destination in which a revision is published. The
  directory is a function of the manifest, so that retries, restarts and backfills find the same
  place; the theorems say which manifests share one and that every segment is safe for a remote.
\<close>

section \<open>The directory\<close>

definition feedTypeDir :: "string \<Rightarrow> string option" where
  "feedTypeDir = [''vehicle_position'' \<mapsto> ''vehicle_positions'', ''trip_update'' \<mapsto> ''trip_updates'',
     ''alert'' \<mapsto> ''service_alerts'', ''mixed'' \<mapsto> ''mixed'', ''auto'' \<mapsto> ''mixed'']"

text \<open>The pattern \<open>^\d{4}-\d{2}-\d{2}$\<close>.\<close>

definition hiveDatePattern :: "string \<Rightarrow> bool" where
  "hiveDatePattern s \<longleftrightarrow> length s = 10 \<and> list_all is_digit (take 4 s) \<and> s ! 4 = CHR ''-'' \<and>
     list_all is_digit (take 2 (drop 5 s)) \<and> s ! 7 = CHR ''-'' \<and> list_all is_digit (drop 8 s)"

definition segment_char :: "char \<Rightarrow> bool" where
  "segment_char c \<longleftrightarrow> CHR ''A'' \<le> c \<and> c \<le> CHR ''Z'' \<or> CHR ''a'' \<le> c \<and> c \<le> CHR ''z'' \<or> is_digit c \<or> c \<in> set ''_.=-''"

definition hiveSegmentPattern :: "string \<Rightarrow> bool" where
  "hiveSegmentPattern s \<longleftrightarrow> s \<noteq> [] \<and> list_all segment_char s"

text \<open>base64.RawURLEncoding: three bytes are four characters of six bits, the rest without padding.\<close>

definition b64_alphabet :: string where
  "b64_alphabet = ''ABCDEFGHIJKLMNOPQRSTUVWXYZabcdefghijklmnopqrstuvwxyz0123456789-_''"

definition b64_char :: "nat \<Rightarrow> char" where
  "b64_char n = b64_alphabet ! n"

abbreviation byte :: "char \<Rightarrow> nat" where
  "byte \<equiv> of_char"

fun b64_encode :: "bytes \<Rightarrow> string" where
  "b64_encode [] = []"
| "b64_encode [a] = [b64_char (byte a div 4), b64_char (byte a mod 4 * 16)]"
| "b64_encode [a, b] =
     [b64_char (byte a div 4), b64_char (byte a mod 4 * 16 + byte b div 16), b64_char (byte b mod 16 * 4)]"
| "b64_encode (a # b # c # bs) =
     b64_char (byte a div 4) # b64_char (byte a mod 4 * 16 + byte b div 16) #
     b64_char (byte b mod 16 * 4 + byte c div 64) # b64_char (byte c mod 64) # b64_encode bs"

definition remoteJoin :: "string \<Rightarrow> string list \<Rightarrow> string" where
  "remoteJoin base elements = trim_right base ''/'' @ ''/'' @ Join (map (\<lambda>e. trim_left e ''/'') elements)"

definition errDatasetInvalid :: "string \<Rightarrow> go_error" where
  "errDatasetInvalid detail = GoError (''dataset_invalid: '' @ detail) [ErrDatasetInvalid]"

definition errStreamNotConfigured :: "string \<Rightarrow> go_error" where
  "errStreamNotConfigured detail = GoError (''stream_not_configured: '' @ detail) [ErrStreamNotConfigured]"

definition streamSanitizedURL :: "(string \<Rightarrow> url option) \<Rightarrow> config \<Rightarrow> string \<Rightarrow> string \<Rightarrow> string result" where
  "streamSanitizedURL parse_url cfg sourceID streamID =
     (case FindSourceStream cfg sourceID streamID of
        Inl _ \<Rightarrow> Inl (errStreamNotConfigured (sourceID @ ''/'' @ streamID))
      | Inr (_, stream) \<Rightarrow> SanitizedStreamURL parse_url (sm_url stream))"

definition manifest_url :: "(string \<Rightarrow> url option) \<Rightarrow> manifest \<Rightarrow> config \<Rightarrow> string result" where
  "manifest_url parse_url m cfg =
     (if man_url m = '''' then streamSanitizedURL parse_url cfg (man_source m) (man_stream m) else Inr (man_url m))"

definition hiveDir :: "(string \<Rightarrow> url option) \<Rightarrow> string \<Rightarrow> manifest \<Rightarrow> config \<Rightarrow> string result" where
  "hiveDir parse_url destBase m cfg =
     (case feedTypeDir (man_kind m) of
        None \<Rightarrow> Inl (errDatasetInvalid (''expected_kind '' @ quote (man_kind m) @ '' has no feed type mapping''))
      | Some feedType \<Rightarrow>
         if \<not> hiveDatePattern (man_archive_date m) then
           Inl (errDatasetInvalid (''archive_date '' @ quote (man_archive_date m) @ '' is not YYYY-MM-DD''))
         else if man_revision m < 1 then Inl (errDatasetInvalid (''revision '' @ itoa (man_revision m)))
         else bind_res (manifest_url parse_url m cfg) (\<lambda>sanitized.
           (let dir = Join [feedType, ''date='' @ man_archive_date m, ''base64url='' @ b64_encode sanitized,
                            ''revision='' @ itoa (man_revision m)]
            in case List.find (\<lambda>seg. \<not> hiveSegmentPattern seg) (split_on (CHR ''/'') dir) of
                 Some seg \<Rightarrow> Inl (errDatasetInvalid (''unsafe path segment '' @ quote seg))
               | None \<Rightarrow> Inr (remoteJoin destBase [dir]))))"

section \<open>Base64 is injective\<close>

lemma b64_alphabet_distinct: "distinct b64_alphabet" and b64_alphabet_length: "length b64_alphabet = 64"
  by code_simp+

lemma b64_char_inj: "m < 64 \<Longrightarrow> n < 64 \<Longrightarrow> b64_char m = b64_char n \<longleftrightarrow> m = n"
  by (simp add: b64_char_def nth_eq_iff_index_eq [OF b64_alphabet_distinct] b64_alphabet_length)

lemma byte_bound: "byte c < 256"
  by (rule nat_of_char_less_256)

lemma byte_div4: "byte a div 4 < 64" and byte_div16: "byte a div 16 < 16" and byte_div64: "byte a div 64 < 4"
  using byte_bound [of a] by (simp_all add: less_mult_imp_div_less)

lemma sextets: "byte a mod 4 * 16 < 64" "byte a mod 4 * 16 + byte b div 16 < 64" "byte b mod 16 * 4 < 64"
  "byte b mod 16 * 4 + byte c div 64 < 64" "byte c mod 64 < 64"
proof -
  have m: "byte a mod 4 \<le> 3" "byte b mod 16 \<le> 15" "byte c mod 64 < 64" by (simp_all add: less_Suc_eq_le [symmetric])
  then show "byte a mod 4 * 16 < 64" "byte a mod 4 * 16 + byte b div 16 < 64" "byte b mod 16 * 4 < 64"
    "byte b mod 16 * 4 + byte c div 64 < 64" "byte c mod 64 < 64"
    using byte_div16 [of b] byte_div64 [of c] by linarith+
qed

lemma glue: "u * k + v = u' * k + v' \<Longrightarrow> v < k \<Longrightarrow> v' < k \<Longrightarrow> u = u' \<and> v = v'" for u v u' v' k :: nat
  by (metis add.commute div_mult_self1 mod_mult_self1 div_less mod_less add_0 less_nat_zero_code)

lemma glue_bytes: "byte a mod 4 * 16 + byte b div 16 = byte a' mod 4 * 16 + byte b' div 16 \<Longrightarrow>
    byte a mod 4 = byte a' mod 4 \<and> byte b div 16 = byte b' div 16"
  "byte b mod 16 * 4 + byte c div 64 = byte b' mod 16 * 4 + byte c' div 64 \<Longrightarrow>
    byte b mod 16 = byte b' mod 16 \<and> byte c div 64 = byte c' div 64"
  by (erule glue; rule byte_div16 byte_div64)+

lemma byte_eqI: "byte a div k = byte a' div k \<Longrightarrow> byte a mod k = byte a' mod k \<Longrightarrow> a = a'"
  by (metis div_mult_mod_eq of_char_eq_iff)

lemma b64_encode_length: "length (b64_encode bs) = (4 * length bs + 2) div 3"
  by (induction bs rule: b64_encode.induct) auto

lemma length_code_inj: "(4 * x + 2) div 3 = (4 * y + 2) div 3 \<Longrightarrow> x = y" for x y :: nat
proof (rule ccontr)
  have less: "(4 * x + 2) div 3 < (4 * y + 2) div 3" if "x < y" for x y :: nat
  proof -
    have "(4 * x + 2) div 3 < (4 * x + 2 + 3) div 3" by simp
    also have "\<dots> \<le> (4 * y + 2) div 3" by (rule div_le_mono) (use that in simp)
    finally show ?thesis .
  qed
  assume "(4 * x + 2) div 3 = (4 * y + 2) div 3" "x \<noteq> y"
  then show False using less [of x y] less [of y x] by linarith
qed

lemma same_length: "b64_encode xs = b64_encode ys \<Longrightarrow> length xs = length ys"
proof -
  assume "b64_encode xs = b64_encode ys"
  then have "(4 * length xs + 2) div 3 = (4 * length ys + 2) div 3" by (metis b64_encode_length)
  then show ?thesis by (rule length_code_inj)
qed

lemma b64_encode_inj: "b64_encode xs = b64_encode ys \<Longrightarrow> xs = ys"
proof (induction xs arbitrary: ys rule: b64_encode.induct)
  case 1
  then show ?case using same_length [OF 1] by simp
next
  case (2 a)
  then obtain a' where y: "ys = [a']" using same_length [OF 2] by (cases ys) auto
  with 2 have "byte a div 4 = byte a' div 4" "byte a mod 4 = byte a' mod 4" by (simp_all add: b64_char_inj byte_div4 sextets)
  then show ?case by (simp add: y byte_eqI)
next
  case (3 a b)
  then obtain a' b' where y: "ys = [a', b']" using same_length [OF 3] by (cases ys; cases "tl ys") auto
  with 3 have e: "byte a div 4 = byte a' div 4" "byte a mod 4 * 16 + byte b div 16 = byte a' mod 4 * 16 + byte b' div 16"
      "byte b mod 16 = byte b' mod 16" by (simp_all add: b64_char_inj byte_div4 sextets)
  with glue_bytes(1) [OF e(2)] show ?case by (auto simp: y intro: byte_eqI)
next
  case (4 a b c bs)
  then obtain a' b' c' bs' where y: "ys = a' # b' # c' # bs'" using same_length [OF "4.prems"] by (cases ys; cases "tl ys"; cases "tl (tl ys)") auto
  with 4 have e: "byte a div 4 = byte a' div 4" "byte a mod 4 * 16 + byte b div 16 = byte a' mod 4 * 16 + byte b' div 16"
      "byte b mod 16 * 4 + byte c div 64 = byte b' mod 16 * 4 + byte c' div 64" "byte c mod 64 = byte c' mod 64"
      "b64_encode bs = b64_encode bs'" by (simp_all add: b64_char_inj byte_div4 sextets)
  with glue_bytes(1) [OF e(2)] glue_bytes(2) [OF e(3)] "4.IH" show ?case by (auto simp: y intro: byte_eqI)
qed

section \<open>Segments\<close>

lemma segment_digits: "is_digit c \<Longrightarrow> segment_char c"
  by (simp add: segment_char_def)

lemma segment_slash: "\<not> segment_char (CHR ''/'')"
  by code_simp

lemma nat_str_digits: "list_all is_digit (nat_str n)"
proof (induction n rule: nat_str.induct)
  case (1 n)
  have "is_digit (digit_char d)" if "d < 10" for d using that by (simp add: is_digit_def)
  with 1 show ?case by (simp add: nat_str.simps [of n])
qed

lemma alphabet_segment: "list_all segment_char b64_alphabet"
  by code_simp

lemma b64_segment: "list_all segment_char (b64_encode bs)"
proof -
  have "segment_char (b64_char n)" if "n < 64" for n
    using alphabet_segment that by (simp add: b64_char_def list_all_iff b64_alphabet_length)
  then show ?thesis by (induction bs rule: b64_encode.induct) (simp_all add: byte_div4 sextets)
qed

lemma date_segment: "hiveDatePattern s \<Longrightarrow> list_all segment_char s"
proof -
  assume d: "hiveDatePattern s"
  have "length s = 10" using d by (simp add: hiveDatePattern_def)
  then obtain a b c e f g h i j k where s: "s = [a, b, c, e, f, g, h, i, j, k]"
    by (auto simp: length_Suc_conv eval_nat_numeral)
  have "segment_char (CHR ''-'')" by code_simp
  with d show ?thesis by (simp add: hiveDatePattern_def s segment_digits numeral_eq_Suc)
qed

definition hive_segments :: "string \<Rightarrow> string \<Rightarrow> string \<Rightarrow> int \<Rightarrow> string list" where
  "hive_segments feedType date url revision =
     [feedType, ''date='' @ date, ''base64url='' @ b64_encode url, ''revision='' @ itoa revision]"

lemma feed_type_segment: "feedTypeDir k = Some t \<Longrightarrow> hiveSegmentPattern t \<and> plain_comp t"
proof -
  assume "feedTypeDir k = Some t"
  then have "t \<in> set [''vehicle_positions'', ''trip_updates'', ''service_alerts'', ''mixed'']"
    by (auto simp: feedTypeDir_def split: if_splits)
  moreover have "list_all (\<lambda>t. hiveSegmentPattern t \<and> plain_comp t) [''vehicle_positions'', ''trip_updates'', ''service_alerts'', ''mixed'']"
    by code_simp
  ultimately show ?thesis by (auto simp: list_all_iff)
qed

lemma labelled_segment:
  assumes "list_all segment_char s" "list_all segment_char p" "length p > 2"
  shows "hiveSegmentPattern (p @ s) \<and> plain_comp (p @ s)"
proof -
  have "CHR ''/'' \<notin> set (p @ s)" using assms segment_slash by (auto simp: list_all_iff)
  moreover have "p @ s \<noteq> ''''" "p @ s \<noteq> ''.''" "p @ s \<noteq> ''..''" using assms(3) by (auto simp: append_eq_Cons_conv)
  ultimately show ?thesis using assms by (auto simp: hiveSegmentPattern_def plain_comp_def)
qed

lemma hive_segments_safe:
  assumes "feedTypeDir k = Some t" "hiveDatePattern date" "1 \<le> revision"
  shows "\<forall>s \<in> set (hive_segments t date url revision). hiveSegmentPattern s \<and> plain_comp s"
proof -
  have l: "list_all segment_char ''date=''" "list_all segment_char ''base64url=''" "list_all segment_char ''revision=''" by code_simp+
  have "list_all segment_char (itoa revision)"
    using nat_str_digits [of "nat revision"] assms(3) segment_digits by (auto simp: itoa_def list_all_iff)
  with l labelled_segment [OF date_segment [OF assms(2)] l(1)] labelled_segment [OF b64_segment l(2)]
    labelled_segment [OF _ l(3)] feed_type_segment [OF assms(1)]
  show ?thesis by (simp add: hive_segments_def)
qed

lemma hive_dir_eq:
  assumes "feedTypeDir (man_kind m) = Some t" "hiveDatePattern (man_archive_date m)" "1 \<le> man_revision m"
    and "manifest_url parse_url m cfg = Inr url"
  shows "hiveDir parse_url base m cfg =
    Inr (trim_right base ''/'' @ ''/'' @ join_with ''/'' (hive_segments t (man_archive_date m) url (man_revision m)))"
proof -
  define segs where "segs = hive_segments t (man_archive_date m) url (man_revision m)"
  have safe: "\<forall>s \<in> set segs. hiveSegmentPattern s \<and> plain_comp s"
    unfolding segs_def by (rule hive_segments_safe [OF assms(1-3)])
  have ne: "segs \<noteq> []" by (simp add: segs_def hive_segments_def)
  have plain: "\<forall>s \<in> set segs. plain_comp s" using safe by blast
  have "Join segs = Clean (join_with ''/'' segs)"
    using plain ne by (cases segs) (auto simp: plain_comp_def)
  then have j: "Join segs = join_with ''/'' segs" by (simp add: Clean_join_plain [OF ne plain])
  have sp: "split_on (CHR ''/'') (join_with ''/'' segs) = segs" by (rule split_join_plain [OF ne plain])
  have f: "List.find (\<lambda>seg. \<not> hiveSegmentPattern seg) segs = None" using safe by (simp add: find_None_iff)
  have "trim_left (join_with ''/'' segs) ''/'' = join_with ''/'' segs"
    using IsAbs_join_plain [OF plain] by (cases "join_with ''/'' segs") (auto simp: trim_left_def IsAbs_def has_prefix_def)
  then have r: "remoteJoin base [join_with ''/'' segs] = trim_right base ''/'' @ ''/'' @ join_with ''/'' segs"
    using join_plain_ne [OF ne plain] by (simp add: remoteJoin_def Clean_join_plain [OF ne plain])
  show ?thesis
    using assms j sp f r unfolding segs_def hive_segments_def
    by (simp add: hiveDir_def Let_def del: Join.simps join_with.simps)
qed

lemma hive_dir_ok:
  assumes "hiveDir parse_url base m cfg = Inr d"
  obtains t url where "feedTypeDir (man_kind m) = Some t" "hiveDatePattern (man_archive_date m)" "1 \<le> man_revision m"
    "manifest_url parse_url m cfg = Inr url"
    "d = trim_right base ''/'' @ ''/'' @ join_with ''/'' (hive_segments t (man_archive_date m) url (man_revision m))"
proof -
  obtain t url where f: "feedTypeDir (man_kind m) = Some t" "hiveDatePattern (man_archive_date m)" "1 \<le> man_revision m"
    "manifest_url parse_url m cfg = Inr url"
    using assms by (auto simp: hiveDir_def bind_res_Inr simp del: Join.simps split: option.splits if_splits)
  from hive_dir_eq [OF this] assms that [OF f] show ?thesis by simp
qed

section \<open>Which revisions share a directory\<close>

lemma itoa_inj: "1 \<le> i \<Longrightarrow> 1 \<le> j \<Longrightarrow> itoa i = itoa j \<Longrightarrow> i = j"
  by (simp add: itoa_def) (metis read_digits_nat_str option.inject eq_nat_nat_iff order_trans zero_le_one)

text \<open>C30. Two revisions are published in the same directory of a destination exactly if they agree in feed
  type, archive date, sanitized URL and revision number: nothing else is published there, except
  that the source and the stream do not enter, so streams that share a URL up to its query collide.\<close>

theorem hive_dir_exact:
  assumes "hiveDir parse_url base m cfg = Inr d" "hiveDir parse_url base n cfg = Inr e"
  shows "d = e \<longleftrightarrow> feedTypeDir (man_kind m) = feedTypeDir (man_kind n) \<and> man_archive_date m = man_archive_date n \<and>
    manifest_url parse_url m cfg = manifest_url parse_url n cfg \<and> man_revision m = man_revision n"
proof -
  obtain t u where m: "feedTypeDir (man_kind m) = Some t" "hiveDatePattern (man_archive_date m)" "1 \<le> man_revision m"
      "manifest_url parse_url m cfg = Inr u"
      "d = trim_right base ''/'' @ ''/'' @ join_with ''/'' (hive_segments t (man_archive_date m) u (man_revision m))"
    by (rule hive_dir_ok [OF assms(1)])
  obtain t' u' where n: "feedTypeDir (man_kind n) = Some t'" "hiveDatePattern (man_archive_date n)" "1 \<le> man_revision n"
      "manifest_url parse_url n cfg = Inr u'"
      "e = trim_right base ''/'' @ ''/'' @ join_with ''/'' (hive_segments t' (man_archive_date n) u' (man_revision n))"
    by (rule hive_dir_ok [OF assms(2)])
  note pm = hive_segments_safe [OF m(1-3), of u] and pn = hive_segments_safe [OF n(1-3), of u']
  have "d = e \<longleftrightarrow> hive_segments t (man_archive_date m) u (man_revision m) = hive_segments t' (man_archive_date n) u' (man_revision n)"
    unfolding m(5) n(5)
    using join_with_inj [of "hive_segments t (man_archive_date m) u (man_revision m)" "hive_segments t' (man_archive_date n) u' (man_revision n)" "CHR ''/''"] pm pn
    by (auto simp: plain_comp_def hive_segments_def)
  also have "\<dots> \<longleftrightarrow> t = t' \<and> man_archive_date m = man_archive_date n \<and> u = u' \<and> man_revision m = man_revision n"
    using b64_encode_inj itoa_inj [OF m(3) n(3)] by (auto simp: hive_segments_def)
  finally show ?thesis using m n by simp
qed

text \<open>C31. The directory of a revision is well formed: below the destination's base it has four segments,
  the feed type, the date, the encoded URL and the revision, each a name of safe characters that
  cannot climb out; a manifest is refused exactly when its kind, date, revision or URL is missing.\<close>

theorem hive_dir_type:
  "case hiveDir parse_url base m cfg of
     Inr d \<Rightarrow> \<exists>t url. d = trim_right base ''/'' @ ''/'' @ join_with ''/'' [t, ''date='' @ man_archive_date m,
         ''base64url='' @ b64_encode url, ''revision='' @ itoa (man_revision m)] \<and>
       manifest_url parse_url m cfg = Inr url \<and>
       list_all (\<lambda>s. hiveSegmentPattern s \<and> plain_comp s) [t, ''date='' @ man_archive_date m,
         ''base64url='' @ b64_encode url, ''revision='' @ itoa (man_revision m)]
   | Inl e \<Rightarrow> feedTypeDir (man_kind m) = None \<or> \<not> hiveDatePattern (man_archive_date m) \<or> man_revision m < 1 \<or>
       \<not> is_ok (manifest_url parse_url m cfg)"
proof (cases "hiveDir parse_url base m cfg")
  case (Inr d)
  obtain t url where m: "feedTypeDir (man_kind m) = Some t" "hiveDatePattern (man_archive_date m)" "1 \<le> man_revision m"
      "manifest_url parse_url m cfg = Inr url"
      "d = trim_right base ''/'' @ ''/'' @ join_with ''/'' (hive_segments t (man_archive_date m) url (man_revision m))"
    by (rule hive_dir_ok [OF Inr])
  show ?thesis unfolding Inr sum.case
    by (rule exI [of _ t], rule exI [of _ url])
      (use m hive_segments_safe [OF m(1-3), of url] in \<open>simp add: hive_segments_def list_all_iff del: join_with.simps\<close>)
next
  case (Inl e)
  show ?thesis unfolding Inl sum.case using hive_dir_eq [of m _ parse_url cfg _ base] Inl by (force simp: is_ok_iff)
qed

end
