(* ===== verification/Upload.thy ===== *)
theory Upload
  imports Hive Compact_Verify State_Store
begin

text \<open>
  internal/upload/upload.go: the worker that copies revisions to remotes with rclone and records
  what it verified. The rclone processes are a parameter: \<open>ul_exec\<close> takes a command line and a state
  of the outside world \<open>'w\<close>. The clock, the random draws and the context are functions of the number
  of the item in the queue. Logging and the observer are left out; the local files do not change.
\<close>

section \<open>Processes\<close>

text \<open>What a process did: the failures of StdoutPipe, Start, reading and Wait, its writes to both
  streams, and whether its context had expired when that was asked.\<close>

record process =
  pr_pipe_error :: bool
  pr_start_error :: "go_error option"
  pr_stdout :: "bytes list"
  pr_read_error :: bool
  pr_stderr :: "bytes list"
  pr_wait_error :: "go_error option"
  pr_expired :: bool

type_synonym 'w rclone = "string list \<Rightarrow> 'w \<Rightarrow> process \<times> 'w"

record limited_writer =
  lw_content :: bytes
  lw_remaining :: int

definition limited_Write :: "bytes \<Rightarrow> limited_writer \<Rightarrow> limited_writer" where
  "limited_Write p w =
     (if lw_remaining w > 0
      then (let write = (if int (length p) > lw_remaining w then take (nat (lw_remaining w)) p else p)
            in w\<lparr>lw_content := lw_content w @ write, lw_remaining := lw_remaining w - int (length write)\<rparr>)
      else w)"

definition limited :: "int \<Rightarrow> bytes list \<Rightarrow> bytes" where
  "limited n writes = lw_content (fold limited_Write writes \<lparr>lw_content = [], lw_remaining = n\<rparr>)"

text \<open>The error of cmd.Run.\<close>

definition run_error :: "process \<Rightarrow> go_error option" where
  "run_error p = (case pr_start_error p of Some e \<Rightarrow> Some e | None \<Rightarrow> pr_wait_error p)"

definition classifyError :: "go_error \<Rightarrow> bytes \<Rightarrow> string" where
  "classifyError err stderr =
     (if errors_Is err ErrDeadlineExceeded then ''timeout''
      else let v = to_lower stderr in
        if str_contains v ''immutable'' \<and> (str_contains v ''modified'' \<or> str_contains v ''different'') then ''remote_integrity''
        else if str_contains v ''didn't find section'' \<or> str_contains v ''config file'' \<and> str_contains v ''not found'' then ''configuration''
        else if str_contains v ''access denied'' \<or> str_contains v ''forbidden'' \<or> str_contains v ''permission denied'' then ''permission''
        else if str_contains v ''invalidaccesskey'' \<or> str_contains v ''authentication'' \<or> str_contains v ''unauthorized'' then ''authentication''
        else if str_contains v ''couldn't find remote'' \<or> str_contains v ''unknown remote'' then ''remote_not_found''
        else if str_contains v ''too many requests'' \<or> str_contains v ''rate limit'' then ''throttled''
        else if str_contains v ''timeout'' \<or> str_contains v ''deadline'' then ''timeout''
        else ''network'')"

definition error_categories :: "string list" where
  "error_categories = [''stream_not_configured'', ''dataset_invalid'', ''local_integrity'', ''remote_integrity'',
     ''authentication'', ''permission'', ''remote_not_found'', ''configuration'', ''timeout'', ''throttled'', ''network'']"

definition errorCategory :: "go_error \<Rightarrow> string" where
  "errorCategory err =
     (case List.find (str_contains (to_lower (err_text err))) error_categories of
        Some category \<Rightarrow> category
      | None \<Rightarrow> ''rclone_failure'')"

definition isPermanent :: "string \<Rightarrow> bool" where
  "isPermanent category \<longleftrightarrow> category = ''local_integrity'' \<or> category = ''remote_integrity'' \<or> category = ''dataset_invalid''"

text \<open>\<open>draw n\<close> is rand.Int64N(n), a number below n.\<close>

definition backoff :: "(int \<Rightarrow> int) \<Rightarrow> int \<Rightarrow> duration" where
  "backoff draw attempt0 =
     (let attempt = (if attempt0 < 1 then 1 else attempt0);
          maximum0 = 2 ^ nat (min (attempt - 1) 6) * (5 * minute);
          maximum = (if maximum0 > 6 * hour then 6 * hour else maximum0)
      in draw (maximum + 1))"

text \<open>\<open>t.AddDate(n, 0, 0)\<close>: a 29 February that the year does not have is 1 March.\<close>

definition add_years :: "location \<Rightarrow> instant \<Rightarrow> int \<Rightarrow> instant" where
  "add_years loc t n = (case civil_of_day (local_day loc t) of
     (y, m, dm) \<Rightarrow> unix_of_local loc (day_of_civil (y + n) m dm * 86400 + local_second loc t mod 86400) * second + t mod second)"

section \<open>The uploader\<close>

record 'w uploader =
  ul_cfg :: config
  ul_env :: compact_env
  ul_parse_url :: "string \<Rightarrow> url option"
  ul_exec :: "'w rclone"
  ul_ctx :: "nat \<Rightarrow> go_error option"
  ul_attempt_at :: "nat \<Rightarrow> instant"
  ul_done_at :: "nat \<Rightarrow> instant"
  ul_local :: location
  ul_draw :: "nat \<Rightarrow> int \<Rightarrow> int"

definition rclone_command :: "'w uploader \<Rightarrow> string list \<Rightarrow> string list" where
  "rclone_command ul args = rc_binary (cf_rclone (ul_cfg ul)) # args"

definition config_args :: "'w uploader \<Rightarrow> string list" where
  "config_args ul = [''--config'', rc_config_file (cf_rclone (ul_cfg ul))]"

definition runInto :: "'w uploader \<Rightarrow> string list \<Rightarrow> 'w \<Rightarrow> (bytes \<times> go_error option) \<times> 'w" where
  "runInto ul args w =
     (case ul_exec ul (rclone_command ul args) w of
        (p, w') \<Rightarrow> ((limited 65536 (pr_stdout p),
          (case run_error p of
             None \<Rightarrow> None
           | Some e \<Rightarrow> Some (errors_New (if pr_expired p then ''timeout'' else classifyError e (limited 16384 (pr_stderr p)))))), w'))"

definition copy_args :: "'w uploader \<Rightarrow> string \<Rightarrow> string \<Rightarrow> string list" where
  "copy_args ul loc remote = [''copyto'', loc, remote, ''--immutable'', ''--checksum'', ''--retries'', ''3'',
     ''--low-level-retries'', ''10''] @ config_args ul"

definition hashsum_args :: "'w uploader \<Rightarrow> string \<Rightarrow> string list" where
  "hashsum_args ul remote = [''hashsum'', ''SHA-256'', remote] @ config_args ul"

definition cat_args :: "'w uploader \<Rightarrow> string \<Rightarrow> string list" where
  "cat_args ul remote = [''cat'', remote] @ config_args ul"

text \<open>bufio.Scanner: the first line without its end, if it fits the 64 KiB buffer.\<close>

definition first_line :: "bytes \<Rightarrow> string option" where
  "first_line out =
     (if out = [] then None
      else (let l = takeWhile (\<lambda>c. c \<noteq> char_of (10::nat)) out in
        if length l \<ge> 65536 then None
        else if l \<noteq> [] \<and> last l = char_of (13::nat) then Some (butlast l) else Some l))"

text \<open>strings.Fields, for ASCII white space.\<close>

definition Fields :: "string \<Rightarrow> string list" where
  "Fields s = filter (\<lambda>f. f \<noteq> []) (split_on (CHR '' '') (map (\<lambda>c. if c \<in> set white_space then CHR '' '' else c) s))"

definition sha256Pattern :: "string \<Rightarrow> bool" where
  "sha256Pattern s \<longleftrightarrow> length s = 64 \<and>
     list_all (\<lambda>c. CHR ''a'' \<le> c \<and> c \<le> CHR ''f'' \<or> CHR ''A'' \<le> c \<and> c \<le> CHR ''F'' \<or> is_digit c) s"

definition printed_hash :: "bytes \<Rightarrow> string option" where
  "printed_hash out =
     (case first_line out of
        None \<Rightarrow> None
      | Some l \<Rightarrow> (case Fields l of f # _ \<Rightarrow> if sha256Pattern f then Some (to_lower f) else None | [] \<Rightarrow> None))"

text \<open>The object streamed back and hashed.\<close>

definition cat_hash :: "'w uploader \<Rightarrow> string \<Rightarrow> 'w \<Rightarrow> string result \<times> 'w" where
  "cat_hash ul remote w =
     (case ul_exec ul (rclone_command ul (cat_args ul remote)) w of
        (p, w') \<Rightarrow>
          ((if pr_pipe_error p then Inl (errors_New ''remote_verify: pipe'')
            else case pr_start_error p of
              Some e \<Rightarrow> Inl (errors_New (''remote_verify: '' @ classifyError e []))
            | None \<Rightarrow>
               if pr_read_error p then Inl (errors_New ''remote_verify: read'')
               else (case pr_wait_error p of
                  Some e \<Rightarrow> Inl (errors_New (if pr_expired p then ''remote_verify: timeout''
                     else ''remote_verify: '' @ classifyError e (limited 8192 (pr_stderr p))))
                | None \<Rightarrow> Inr (ce_sha (ul_env ul) (concat (pr_stdout p))))), w'))"

definition remoteHash :: "'w uploader \<Rightarrow> string \<Rightarrow> 'w \<Rightarrow> string result \<times> 'w" where
  "remoteHash ul remote w =
     (case runInto ul (hashsum_args ul remote) w of
        ((out, err), w1) \<Rightarrow>
          (case (if err = None then printed_hash out else None) of
             Some h \<Rightarrow> (Inr h, w1)
           | None \<Rightarrow> cat_hash ul remote w1))"

definition equal_fold :: "string \<Rightarrow> string \<Rightarrow> bool" where
  "equal_fold a b \<longleftrightarrow> to_lower a = to_lower b"

definition copyAndVerify :: "'w uploader \<Rightarrow> string \<Rightarrow> string \<Rightarrow> string \<Rightarrow> 'w \<Rightarrow> go_error option \<times> 'w" where
  "copyAndVerify ul loc remote expectedHash w =
     (case runInto ul (copy_args ul loc remote) w of
        ((_, Some e), w1) \<Rightarrow> (Some e, w1)
      | ((_, None), w1) \<Rightarrow>
          (case remoteHash ul remote w1 of
             (Inl e, w2) \<Rightarrow> (Some e, w2)
           | (Inr actual, w2) \<Rightarrow>
               (if \<not> equal_fold actual expectedHash then Some (errors_New ''remote_integrity: sha256_mismatch'') else None, w2)))"

definition findDestination :: "config \<Rightarrow> string \<Rightarrow> destination_cfg option" where
  "findDestination cfg i = List.find (\<lambda>d. dst_id d = i) (cf_destinations cfg)"

definition local_integrity :: "go_error \<Rightarrow> go_error" where
  "local_integrity e = err_wrap ''local_integrity'' e"

definition manifest_place :: "'w uploader \<Rightarrow> compaction \<Rightarrow> string" where
  "manifest_place ul c = Join [st_root (cf_storage (ul_cfg ul)), cp_manifest_path c]"

definition prepareRemoteDir :: "'w uploader \<Rightarrow> fs \<Rightarrow> compaction \<Rightarrow> destination_cfg \<Rightarrow> (manifest \<times> string) result" where
  "prepareRemoteDir ul fs c dest =
     (case os_readfile fs (manifest_place ul c) of
        Inl e \<Rightarrow> Inl (local_integrity e)
      | Inr b \<Rightarrow>
         (case ce_decode_manifest (ul_env ul) b of
            Inl e \<Rightarrow> Inl (local_integrity e)
          | Inr m \<Rightarrow> bind_res (hiveDir (ul_parse_url ul) (dst_remote dest) m (ul_cfg ul)) (\<lambda>dir. Inr (m, dir))))"

fun publish_files :: "'w uploader \<Rightarrow> string \<Rightarrow> string \<Rightarrow> artifact list \<Rightarrow> 'w \<Rightarrow> go_error option \<times> 'w" where
  "publish_files ul manifestAbs remoteDir [] w = (None, w)"
| "publish_files ul manifestAbs remoteDir (a # as) w =
     (case copyAndVerify ul (Join [Dir manifestAbs, Base (art_path a)]) (remoteJoin remoteDir [Base (art_path a)]) (art_sha256 a) w of
        (Some e, w1) \<Rightarrow> (Some e, w1)
      | (None, w1) \<Rightarrow> publish_files ul manifestAbs remoteDir as w1)"

definition publish :: "'w uploader \<Rightarrow> fs \<Rightarrow> compaction \<Rightarrow> manifest \<Rightarrow> string \<Rightarrow> 'w \<Rightarrow> go_error option \<times> 'w" where
  "publish ul fs c m remoteDir w =
     (case VerifyDirectory (ul_env ul) fs (st_root (cf_storage (ul_cfg ul))) c of
        Inl e \<Rightarrow> (Some (local_integrity e), w)
      | Inr _ \<Rightarrow>
         (let manifestAbs = manifest_place ul c in
          case os_readfile fs manifestAbs of
            Inl e \<Rightarrow> (Some (local_integrity e), w)
          | Inr b \<Rightarrow>
             (case publish_files ul manifestAbs remoteDir (man_files m) w of
                (Some e, w1) \<Rightarrow> (Some e, w1)
              | (None, w1) \<Rightarrow> copyAndVerify ul manifestAbs (remoteJoin remoteDir [''manifest.json'']) (ce_sha (ul_env ul) b) w1)))"

section \<open>The queue\<close>

text \<open>The row of an upload that failed with an error.\<close>

definition mark_failure :: "'w uploader \<Rightarrow> nat \<Rightarrow> upload \<Rightarrow> go_error \<Rightarrow> db \<Rightarrow> db" where
  "mark_failure ul n item err db =
     (let category = errorCategory err in
      if isPermanent category
      then MarkUploadFailed (up_id item) ''permanent_failure'' category (add_years (ul_local ul) (ul_done_at ul n) 100) db
      else MarkUploadFailed (up_id item) ''retry'' category (ul_done_at ul n + backoff (ul_draw ul n) (up_attempts item + 1)) db)"

text \<open>One item: the database, the error that ends the loop, and the world.\<close>

definition process_item :: "'w uploader \<Rightarrow> fs \<Rightarrow> nat \<Rightarrow> upload \<Rightarrow> db \<Rightarrow> 'w \<Rightarrow> (db \<times> go_error option) \<times> 'w" where
  "process_item ul fs n item db w =
     (case findDestination (ul_cfg ul) (up_destination item) of
        None \<Rightarrow> ((MarkUploadFailed (up_id item) ''retry'' ''destination_not_configured''
                   (ul_done_at ul n + backoff (ul_draw ul n) (up_attempts item + 1)) db, None), w)
      | Some dest \<Rightarrow>
         (case CompactionByID (up_compaction item) db of
            Inl e \<Rightarrow> ((db, Some e), w)
          | Inr c \<Rightarrow>
             (case prepareRemoteDir ul fs c dest of
                Inl e \<Rightarrow> ((mark_failure ul n item e db, None), w)
              | Inr (m, remoteDir) \<Rightarrow>
                 (let db1 = MarkUploadAttempt (up_id item) ''uploading'' '''' remoteDir (ul_attempt_at ul n) db in
                  case publish ul fs c m remoteDir w of
                    (Some e, w1) \<Rightarrow> ((mark_failure ul n item e db1, None), w1)
                  | (None, w1) \<Rightarrow>
                     (case MarkUploadVerified (up_id item) remoteDir (ul_done_at ul n) db1 of
                        Inl e \<Rightarrow> ((db1, Some e), w1)
                      | Inr db2 \<Rightarrow> ((db2, None), w1))))))"

record 'w upload_run =
  ur_processed :: nat
  ur_db :: db
  ur_error :: "go_error option"
  ur_world :: 'w

fun process_items :: "'w uploader \<Rightarrow> fs \<Rightarrow> upload list \<Rightarrow> 'w upload_run \<Rightarrow> 'w upload_run" where
  "process_items ul fs [] r = r"
| "process_items ul fs (item # items) r =
     (case ul_ctx ul (ur_processed r) of
        Some e \<Rightarrow> r\<lparr>ur_error := Some e\<rparr>
      | None \<Rightarrow>
         (case process_item ul fs (ur_processed r) item (ur_db r) (ur_world r) of
            ((db', Some e), w') \<Rightarrow> r\<lparr>ur_db := db', ur_error := Some e, ur_world := w'\<rparr>
          | ((db', None), w') \<Rightarrow>
              process_items ul fs items (r\<lparr>ur_processed := ur_processed r + 1, ur_db := db', ur_world := w'\<rparr>)))"

definition ProcessPending :: "'w uploader \<Rightarrow> string \<Rightarrow> instant \<Rightarrow> fs \<Rightarrow> db \<Rightarrow> 'w \<Rightarrow> 'w upload_run" where
  "ProcessPending ul destination now fs db w =
     process_items ul fs (PendingUploads destination now db) \<lparr>ur_processed = 0, ur_db = db, ur_error = None, ur_world = w\<rparr>"

section \<open>Preflight\<close>

definition cut_before :: "char \<Rightarrow> string \<Rightarrow> string" where
  "cut_before d s = takeWhile (\<lambda>c. c \<noteq> d) s"

definition preflight_run :: "'w uploader \<Rightarrow> string \<Rightarrow> int \<Rightarrow> string list \<Rightarrow> 'w \<Rightarrow> bytes result \<times> 'w" where
  "preflight_run ul what limit args w =
     (case ul_exec ul (rclone_command ul args) w of
        (p, w') \<Rightarrow>
          (case run_error p of
             Some e \<Rightarrow> (Inl (errors_New (what @ '' failed: '' @ (if pr_expired p then ''timeout'' else classifyError e []))), w')
           | None \<Rightarrow> (Inr (limited limit (pr_stdout p)), w')))"

definition Preflight :: "'w uploader \<Rightarrow> fs \<Rightarrow> 'w \<Rightarrow> go_error option \<times> 'w" where
  "Preflight ul fs w =
     (let ds = cf_destinations (ul_cfg ul) in
      if length ds = 0 then (None, w)
      else case os_stat fs (rc_config_file (cf_rclone (ul_cfg ul))) of
        Inl e \<Rightarrow> (Some (err_wrap ''rclone config'' e), w)
      | Inr _ \<Rightarrow>
         (case preflight_run ul ''rclone preflight'' 4096 [''version''] w of
            (Inl e, w1) \<Rightarrow> (Some e, w1)
          | (Inr _, w1) \<Rightarrow>
             (case preflight_run ul ''rclone remote validation'' 65536 (''listremotes'' # config_args ul) w1 of
                (Inl e, w2) \<Rightarrow> (Some e, w2)
              | (Inr remotes, w2) \<Rightarrow>
                 (let configured = map trim_space (split_on (char_of (10::nat)) remotes) in
                  case List.find (\<lambda>d. cut_before (CHR '':'') (dst_remote d) @ '':'' \<notin> set configured) ds of
                    Some d \<Rightarrow> (Some (errors_New (''rclone remote for destination '' @ dst_id d @ '' is not configured'')), w2)
                  | None \<Rightarrow> (None, w2)))))"

end
