(* ===== verification/Upload_Props.thy ===== *)
theory Upload_Props
  imports Upload State_Props Raw_Store "HOL-Library.Multiset"
begin

text \<open>
  What the upload worker promises: the categories and delays of failures, that it drives the queue
  by honest calls of the store, that it leaves no upload half done, and that an upload it marks
  verified lies at the remote.
\<close>

section \<open>Output and failures\<close>

lemma limited_fold:
  "lw_content (fold limited_Write writes w) = lw_content w @ take (nat (lw_remaining w)) (concat writes)"
proof (induction writes arbitrary: w)
  case (Cons p ps)
  then show ?case by (auto simp: limited_Write_def Let_def min_def nat_diff_distrib)
qed simp

lemma limited_prefix: "limited n writes = take (nat n) (concat writes)"
  by (simp add: limited_def limited_fold)

text \<open>The category under which a failed rclone command is recorded is the one that classifyError
  found in its output, also when the failure came from reading the remote object back; it stops the
  retries exactly when rclone reported a conflict with an immutable object before any deadline.\<close>

theorem failure_category:
  assumes "p = '''' \<or> p = ''remote_verify: ''"
  shows "errorCategory (errors_New (p @ classifyError e stderr)) = classifyError e stderr \<and>
    (isPermanent (classifyError e stderr) \<longleftrightarrow> \<not> errors_Is e ErrDeadlineExceeded \<and> str_contains (to_lower stderr) ''immutable'' \<and>
      (str_contains (to_lower stderr) ''modified'' \<or> str_contains (to_lower stderr) ''different''))"
proof -
  let ?cs = "[''timeout'', ''remote_integrity'', ''configuration'', ''permission'', ''authentication'', ''remote_not_found'', ''throttled'', ''network'']"
  have "classifyError e stderr \<in> set ?cs" by (simp add: classifyError_def Let_def)
  moreover have "list_all (\<lambda>c. errorCategory (errors_New c) = c \<and> errorCategory (errors_New (''remote_verify: '' @ c)) = c) ?cs"
    by code_simp
  ultimately have "errorCategory (errors_New (p @ classifyError e stderr)) = classifyError e stderr"
    using assms by (auto simp: list_all_iff simp del: set_simps list.set)
  then show ?thesis by (auto simp: isPermanent_def classifyError_def Let_def)
qed

text \<open>The delay before a retry is a draw between nothing and five minutes doubled at every attempt up
  to the seventh; it never exceeds 320 minutes, so the cap of six hours is never what bounds it.\<close>

theorem backoff_bounds:
  assumes "\<forall>n > 0. 0 \<le> draw n \<and> draw n < n"
  shows "0 \<le> backoff draw attempt \<and> backoff draw attempt \<le> 2 ^ nat (min (max attempt 1 - 1) 6) * (5 * minute) \<and>
    backoff draw attempt \<le> 320 * minute \<and> backoff draw attempt < 6 * hour"
proof -
  define k where "k = nat (min (max attempt 1 - 1) 6)"
  have k: "k \<le> 6" "0 < (2::int) ^ k" by (simp_all add: k_def)
  have "(2::int) ^ k \<le> 2 ^ 6" by (rule power_increasing) (use k in simp_all)
  then have m: "2 ^ k * (5 * minute) \<le> 320 * minute" by simp
  have "(if attempt < 1 then 1 else attempt) = max attempt 1" by simp
  then have "backoff draw attempt = draw (2 ^ k * (5 * minute) + 1)"
    unfolding backoff_def Let_def k_def using m [unfolded k_def] by (simp only:) (simp add: max_def)
  moreover have "0 < 2 ^ k * (5 * minute) + (1::int)" using k by (simp add: add_pos_pos)
  ultimately have "0 \<le> backoff draw attempt" "backoff draw attempt \<le> 2 ^ k * (5 * minute)"
    using assms [rule_format, of "2 ^ k * (5 * minute) + 1"] by simp_all
  then show ?thesis using m unfolding k_def by linarith
qed

section \<open>An honest rclone\<close>

text \<open>What rclone documents, with \<open>content\<close> the objects of the remotes: hashsum prints the hash of the
  object and its name, or no SHA-256 hash where the backend has none; cat prints the object; both
  change nothing. copyto with \<open>--immutable\<close> leaves every object that exists as it is.\<close>

definition honest_hashsum :: "'w uploader \<Rightarrow> ('w \<Rightarrow> string \<Rightarrow> bytes option) \<Rightarrow> bool" where
  "honest_hashsum ul content \<longleftrightarrow> (\<forall>remote w p w'. ul_exec ul (rclone_command ul (hashsum_args ul remote)) w = (p, w') \<longrightarrow>
     content w' = content w \<and> (run_error p = None \<longrightarrow> printed_hash (limited 65536 (pr_stdout p)) = None \<or>
       (\<exists>b name. content w remote = Some b \<and> concat (pr_stdout p) = ce_sha (ul_env ul) b @ ''  '' @ name)))"

definition honest_cat :: "'w uploader \<Rightarrow> ('w \<Rightarrow> string \<Rightarrow> bytes option) \<Rightarrow> bool" where
  "honest_cat ul content \<longleftrightarrow> (\<forall>remote w p w'. ul_exec ul (rclone_command ul (cat_args ul remote)) w = (p, w') \<longrightarrow>
     content w' = content w \<and> (\<not> pr_pipe_error p \<and> run_error p = None \<and> \<not> pr_read_error p \<longrightarrow>
       content w remote = Some (concat (pr_stdout p))))"

definition keeps :: "('w \<Rightarrow> string \<Rightarrow> bytes option) \<Rightarrow> 'w \<Rightarrow> 'w \<Rightarrow> bool" where
  "keeps content w w' \<longleftrightarrow> (\<forall>r b. content w r = Some b \<longrightarrow> content w' r = Some b)"

definition honest_copyto :: "'w uploader \<Rightarrow> ('w \<Rightarrow> string \<Rightarrow> bytes option) \<Rightarrow> bool" where
  "honest_copyto ul content \<longleftrightarrow> (\<forall>loc remote w p w'.
     ul_exec ul (rclone_command ul (copy_args ul loc remote)) w = (p, w') \<longrightarrow> keeps content w w')"

definition honest_remote :: "'w uploader \<Rightarrow> ('w \<Rightarrow> string \<Rightarrow> bytes option) \<Rightarrow> bool" where
  "honest_remote ul content \<longleftrightarrow> honest_hashsum ul content \<and> honest_cat ul content \<and> honest_copyto ul content \<and>
     (\<forall>b. is_hex (ce_sha (ul_env ul) b) \<and> ce_sha (ul_env ul) b \<noteq> [])"

lemma keeps_refl [simp]: "keeps content w w"
  by (simp add: keeps_def)

lemma keeps_trans: "keeps content a b \<Longrightarrow> keeps content b c \<Longrightarrow> keeps content a c"
  by (simp add: keeps_def)

subsection \<open>The hash of a remote object\<close>

lemma fields_word:
  assumes "h \<noteq> []" "\<forall>c \<in> set h. c \<notin> set white_space"
  shows "Fields h = [h]" "Fields (h @ '' '' @ t) = h # Fields t"
proof -
  let ?m = "map (\<lambda>c. if c \<in> set white_space then CHR '' '' else c)"
  have m: "?m h = h" using assms(2) by (induction h) auto
  have s: "CHR '' '' \<notin> set h" using assms(2) by (auto simp: white_space_def)
  have w: "CHR '' '' \<in> set white_space" by (simp add: white_space_def)
  show "Fields h = [h]" unfolding Fields_def m using split_on_plain [OF s] assms(1) by simp
  show "Fields (h @ '' '' @ t) = h # Fields t"
    unfolding Fields_def map_append m using split_on_append [OF s, of "?m t"] assms(1) w by simp
qed

lemma hex_plain: "is_hex h \<Longrightarrow> c \<in> set h \<Longrightarrow> c \<notin> set white_space"
proof -
  have "\<not> list_ex (\<lambda>c. CHR ''0'' \<le> c \<and> c \<le> CHR ''9'' \<or> CHR ''a'' \<le> c \<and> c \<le> CHR ''f'' \<or> CHR ''A'' \<le> c \<and> c \<le> CHR ''F'') white_space"
    by code_simp
  then show "is_hex h \<Longrightarrow> c \<in> set h \<Longrightarrow> c \<notin> set white_space" by (auto simp: is_hex_def list_all_iff list_ex_iff)
qed

lemma printed_hash_of:
  assumes h: "is_hex h" "h \<noteq> []" and g: "printed_hash (take 65536 (h @ ''  '' @ name)) = Some g"
  shows "g = to_lower h"
proof -
  let ?nl = "char_of (10::nat) :: char" and ?cr = "char_of (13::nat) :: char"
  have ws: "?nl \<in> set white_space" "?cr \<in> set white_space" by (simp_all add: white_space_def)
  have plain: "\<forall>c \<in> set h. c \<notin> set white_space" using hex_plain [OF h(1)] by blast
  show ?thesis
  proof (cases "length h < 65536")
    case False
    then have t: "take 65536 (h @ ''  '' @ name) = take 65536 h" by simp
    have tw: "takeWhile (\<lambda>c. c \<noteq> ?nl) (take 65536 h) = take 65536 h"
      by (rule takeWhile_eq_all_conv [THEN iffD2]) (use plain ws in \<open>auto dest: in_set_takeD\<close>)
    have "first_line (take 65536 h) = None" unfolding first_line_def Let_def tw using False by simp
    with g show ?thesis unfolding t printed_hash_def by simp
  next
    case True
    then obtain n where n: "65536 - length h = Suc n" by (metis Suc_diff_Suc)
    define t where "t = take n ('' '' @ name)"
    have out: "take 65536 (h @ ''  '' @ name) = h @ '' '' @ t" using n by (simp add: t_def)
    define l where "l = takeWhile (\<lambda>c. c \<noteq> ?nl) t"
    have tw: "takeWhile (\<lambda>c. c \<noteq> ?nl) (h @ '' '' @ t) = h @ '' '' @ l"
    proof -
      have "takeWhile (\<lambda>c. c \<noteq> ?nl) (h @ '' '' @ t) = h @ takeWhile (\<lambda>c. c \<noteq> ?nl) ('' '' @ t)"
        by (rule takeWhile_append2) (use plain ws in auto)
      moreover have "CHR '' '' \<noteq> ?nl" by code_simp
      ultimately show ?thesis by (simp add: l_def)
    qed
    have "first_line (h @ '' '' @ t) = None \<or> (\<exists>f. first_line (h @ '' '' @ t) = Some f \<and> (f = h \<or> (\<exists>r. f = h @ '' '' @ r)))"
    proof -
      have "butlast (h @ '' '' @ l) = h \<or> (\<exists>r. butlast (h @ '' '' @ l) = h @ '' '' @ r)"
        by (cases l rule: rev_cases) (simp_all add: butlast_append)
      then show ?thesis unfolding first_line_def tw by (auto simp: Let_def)
    qed
    then show ?thesis
    proof
      assume "first_line (h @ '' '' @ t) = None"
      with g show ?thesis unfolding out by (simp add: printed_hash_def)
    next
      assume "\<exists>f. first_line (h @ '' '' @ t) = Some f \<and> (f = h \<or> (\<exists>r. f = h @ '' '' @ r))"
      then obtain f where f: "first_line (h @ '' '' @ t) = Some f" "f = h \<or> (\<exists>r. f = h @ '' '' @ r)" by blast
      then obtain fs where "Fields f = h # fs" using fields_word [OF h(2) plain] by auto
      with g f(1) show ?thesis unfolding out by (simp add: printed_hash_def split: if_splits)
    qed
  qed
qed

lemma to_lower_idem [simp]: "to_lower (to_lower s) = to_lower s"
proof -
  have "lower_char (lower_char c) = lower_char c" for c
    by (cases "CHR ''A'' \<le> c \<and> c \<le> CHR ''Z''") (auto simp: lower_char_def less_eq_char_def)
  then show ?thesis by (simp add: to_lower_def)
qed

lemma cat_hash_honest:
  assumes "honest_cat ul content" "cat_hash ul remote w = (r, w')"
  shows "content w' = content w \<and> (\<forall>h. r = Inr h \<longrightarrow> (\<exists>b. content w remote = Some b \<and> h = ce_sha (ul_env ul) b))"
proof -
  obtain p w1 where x: "ul_exec ul (rclone_command ul (cat_args ul remote)) w = (p, w1)" by force
  with assms have "content w1 = content w" "w' = w1"
    and c: "\<not> pr_pipe_error p \<and> run_error p = None \<and> \<not> pr_read_error p \<Longrightarrow> content w remote = Some (concat (pr_stdout p))"
    unfolding honest_cat_def by (auto simp: cat_hash_def)
  moreover have "r = Inr h \<Longrightarrow> \<not> pr_pipe_error p \<and> run_error p = None \<and> \<not> pr_read_error p \<and> h = ce_sha (ul_env ul) (concat (pr_stdout p))" for h
    using assms(2) x by (auto simp: cat_hash_def run_error_def split: if_splits option.splits)
  ultimately show ?thesis by blast
qed

lemma remoteHash_honest:
  assumes "honest_remote ul content" "remoteHash ul remote w = (r, w')"
  shows "content w' = content w \<and> (\<forall>h. r = Inr h \<longrightarrow> (\<exists>b. content w remote = Some b \<and> equal_fold h (ce_sha (ul_env ul) b)))"
proof -
  have hs: "honest_hashsum ul content" and hc: "honest_cat ul content"
    and hex: "\<And>b. is_hex (ce_sha (ul_env ul) b) \<and> ce_sha (ul_env ul) b \<noteq> []" using assms(1) by (simp_all add: honest_remote_def)
  obtain p w1 where x: "ul_exec ul (rclone_command ul (hashsum_args ul remote)) w = (p, w1)" by force
  note q = hs [unfolded honest_hashsum_def, rule_format, OF x]
  obtain err where run: "runInto ul (hashsum_args ul remote) w = ((limited 65536 (pr_stdout p), err), w1)"
    and err: "err = None \<longleftrightarrow> run_error p = None" using x by (auto simp: runInto_def split: option.splits)
  show ?thesis
  proof (cases "if err = None then printed_hash (limited 65536 (pr_stdout p)) else None")
    case None
    then have "cat_hash ul remote w1 = (r, w')" using assms(2) run unfolding remoteHash_def by simp
    from cat_hash_honest [OF hc this] q show ?thesis by (auto simp: equal_fold_def)
  next
    case (Some h)
    then have r: "r = Inr h" "w' = w1" using assms(2) run unfolding remoteHash_def by simp_all
    have ph: "printed_hash (limited 65536 (pr_stdout p)) = Some h" "run_error p = None" using Some err by (auto split: if_splits)
    then obtain b name where b: "content w remote = Some b" "concat (pr_stdout p) = ce_sha (ul_env ul) b @ ''  '' @ name" using q by auto
    have "h = to_lower (ce_sha (ul_env ul) b)"
      by (rule printed_hash_of [of _ name]) (use hex ph b(2) in \<open>simp_all add: limited_prefix\<close>)
    then show ?thesis using q b(1) r by (simp add: equal_fold_def)
  qed
qed

definition holds :: "'w uploader \<Rightarrow> ('w \<Rightarrow> string \<Rightarrow> bytes option) \<Rightarrow> 'w \<Rightarrow> string \<Rightarrow> string \<Rightarrow> bool" where
  "holds ul content w remote hash \<longleftrightarrow> (\<exists>b. content w remote = Some b \<and> equal_fold (ce_sha (ul_env ul) b) hash)"

lemma holds_keeps: "holds ul content w r h \<Longrightarrow> keeps content w w' \<Longrightarrow> holds ul content w' r h"
  unfolding holds_def keeps_def by blast

lemma runInto_copy_keeps:
  "honest_remote ul content \<Longrightarrow> runInto ul (copy_args ul loc remote) w = (x, w') \<Longrightarrow> keeps content w w'"
  by (cases "ul_exec ul (rclone_command ul (copy_args ul loc remote)) w")
    (auto simp: runInto_def honest_remote_def honest_copyto_def)

lemma copyAndVerify_holds:
  assumes "honest_remote ul content" "copyAndVerify ul loc remote hash w = (r, w')"
  shows "keeps content w w' \<and> (r = None \<longrightarrow> holds ul content w' remote hash)"
proof -
  obtain out err w1 where run: "runInto ul (copy_args ul loc remote) w = ((out, err), w1)" by (metis prod.exhaust)
  note k1 = runInto_copy_keeps [OF assms(1) run]
  show ?thesis
  proof (cases err)
    case (Some e)
    with assms(2) run k1 show ?thesis by (auto simp: copyAndVerify_def)
  next
    case None
    obtain h w2 where rh: "remoteHash ul remote w1 = (h, w2)" by (cases "remoteHash ul remote w1")
    note q = remoteHash_honest [OF assms(1) rh]
    have w2: "w' = w2" using assms(2) run None rh by (auto simp: copyAndVerify_def split: sum.splits)
    have "keeps content w1 w2" using q by (simp add: keeps_def)
    then have "keeps content w w'" unfolding w2 by (rule keeps_trans [OF k1])
    moreover have "holds ul content w' remote hash" if ok: "r = None"
    proof -
      obtain a where "h = Inr a" "equal_fold a hash" using assms(2) run None rh ok by (auto simp: copyAndVerify_def split: sum.splits if_splits)
      with q show ?thesis unfolding w2 holds_def by (auto simp: equal_fold_def)
    qed
    ultimately show ?thesis by blast
  qed
qed

lemma publish_files_hold:
  assumes "honest_remote ul content" "publish_files ul place dir as w = (r, w')"
  shows "keeps content w w' \<and> (r = None \<longrightarrow> (\<forall>a \<in> set as. holds ul content w' (remoteJoin dir [Base (art_path a)]) (art_sha256 a)))"
  using assms(2)
proof (induction as arbitrary: w)
  case (Cons a as)
  obtain e w1 where c: "copyAndVerify ul (Join [Dir place, Base (art_path a)]) (remoteJoin dir [Base (art_path a)]) (art_sha256 a) w = (e, w1)"
    by (metis prod.exhaust)
  note q = copyAndVerify_holds [OF assms(1) c]
  show ?case
  proof (cases e)
    case (Some x)
    with Cons.prems c q show ?thesis by (auto simp del: Join.simps)
  next
    case None
    then have rest: "publish_files ul place dir as w1 = (r, w')" using Cons.prems c by (simp del: Join.simps)
    note ih = Cons.IH [OF rest]
    have k: "keeps content w w'" by (rule keeps_trans [OF conjunct1 [OF q] conjunct1 [OF ih]])
    have "holds ul content w1 (remoteJoin dir [Base (art_path a)]) (art_sha256 a)" using q None by blast
    then have "holds ul content w' (remoteJoin dir [Base (art_path a)]) (art_sha256 a)" by (rule holds_keeps [OF _ conjunct1 [OF ih]])
    with ih k show ?thesis by (simp del: Join.simps)
  qed
qed simp

text \<open>What a verified upload stands for, in terms of the remote's content.\<close>

definition at_remote :: "'w uploader \<Rightarrow> ('w \<Rightarrow> string \<Rightarrow> bytes option) \<Rightarrow> fs \<Rightarrow> string \<Rightarrow> string \<Rightarrow> 'w \<Rightarrow> bool" where
  "at_remote ul content fs place dir w \<longleftrightarrow> (\<exists>b m. os_readfile fs place = Inr b \<and> ce_decode_manifest (ul_env ul) b = Inr m \<and>
     (\<forall>a \<in> set (man_files m). holds ul content w (remoteJoin dir [Base (art_path a)]) (art_sha256 a)) \<and>
     holds ul content w (remoteJoin dir [''manifest.json'']) (ce_sha (ul_env ul) b))"

lemma at_remote_keeps: "at_remote ul content fs place dir w \<Longrightarrow> keeps content w w' \<Longrightarrow> at_remote ul content fs place dir w'"
  unfolding at_remote_def by (elim exE conjE) (intro exI conjI ballI; auto elim: holds_keeps)

lemma publish_holds:
  assumes h: "honest_remote ul content" and p: "publish ul fs c m dir w = (r, w')"
    and prep: "prepareRemoteDir ul fs c dest = Inr (m, dir)"
  shows "keeps content w w' \<and> (r = None \<longrightarrow> at_remote ul content fs (manifest_place ul c) dir w' \<and>
    VerifyDirectory (ul_env ul) fs (st_root (cf_storage (ul_cfg ul))) c = Inr ())"
proof -
  obtain b where b: "os_readfile fs (manifest_place ul c) = Inr b" "ce_decode_manifest (ul_env ul) b = Inr m"
    using prep by (auto simp: prepareRemoteDir_def bind_res_Inr split: sum.splits)
  show ?thesis
  proof (cases "VerifyDirectory (ul_env ul) fs (st_root (cf_storage (ul_cfg ul))) c")
    case (Inl e)
    with p show ?thesis by (auto simp: publish_def)
  next
    case (Inr u)
    obtain e w1 where f: "publish_files ul (manifest_place ul c) dir (man_files m) w = (e, w1)" by (metis prod.exhaust)
    note q = publish_files_hold [OF h f]
    show ?thesis
    proof (cases e)
      case (Some x)
      with p Inr b f q show ?thesis by (auto simp: publish_def Let_def)
    next
      case None
      then have c: "copyAndVerify ul (manifest_place ul c) (remoteJoin dir [''manifest.json'']) (ce_sha (ul_env ul) b) w1 = (r, w')"
        using p Inr b f by (simp add: publish_def Let_def)
      note q2 = copyAndVerify_holds [OF h c]
      have k: "keeps content w w'" by (rule keeps_trans [OF conjunct1 [OF q] conjunct1 [OF q2]])
      have files: "\<forall>a \<in> set (man_files m). holds ul content w' (remoteJoin dir [Base (art_path a)]) (art_sha256 a)"
        using q None holds_keeps [OF _ conjunct1 [OF q2]] by blast
      have "r = None \<Longrightarrow> at_remote ul content fs (manifest_place ul c) dir w'"
        using files q2 b unfolding at_remote_def by blast
      with k Inr show ?thesis by simp
    qed
  qed
qed

section \<open>The rows of a pass\<close>

definition upload_ident :: "upload_row \<Rightarrow> int \<times> int \<times> string" where
  "upload_ident u = (up_id u, up_compaction u, up_destination u)"

definition place_ident :: "compaction_row \<Rightarrow> int \<times> string" where
  "place_ident c = (cp_id c, cp_manifest_path c)"

text \<open>A change of the one upload row \<open>i\<close>, and of nothing of a compaction but its publication.\<close>

definition touches :: "int \<Rightarrow> (upload_row \<Rightarrow> bool) \<Rightarrow> db \<Rightarrow> db \<Rightarrow> bool" where
  "touches i P db db' \<longleftrightarrow> map upload_ident (db_uploads db') = map upload_ident (db_uploads db) \<and>
     map place_ident (db_compactions db') = map place_ident (db_compactions db) \<and>
     (\<forall>u \<in> set (db_uploads db'). u \<in> set (db_uploads db) \<and> up_id u \<noteq> i \<or> up_id u = i \<and> P u)"

lemma touches_update:
  assumes "db_uploads db' = update_where (\<lambda>u. up_id u = i) f (db_uploads db)" "\<And>u. upload_ident (f u) = upload_ident u"
    and "map place_ident (db_compactions db') = map place_ident (db_compactions db)" "\<And>u. u \<in> set (db_uploads db) \<Longrightarrow> up_id u = i \<Longrightarrow> P (f u)"
  shows "touches i P db db'"
proof -
  have "up_id (f u) = up_id u" for u using assms(2) [of u] by (simp add: upload_ident_def)
  then show ?thesis
    using assms by (auto simp: touches_def set_update_where update_where_key)
qed

lemma touches_trans: "touches i P db db1 \<Longrightarrow> touches i Q db1 db' \<Longrightarrow> touches i Q db db'"
  unfolding touches_def by force

lemma touches_mono: "touches i P db db' \<Longrightarrow> (\<And>u. u \<in> set (db_uploads db') \<Longrightarrow> up_id u = i \<Longrightarrow> P u \<Longrightarrow> Q u) \<Longrightarrow> touches i Q db db'"
  unfolding touches_def by blast

lemma MarkUploadFailed_touches: "touches i (\<lambda>u. up_status u = st) db (MarkUploadFailed i st d t db)"
  by (rule touches_update [where f = "\<lambda>u. u\<lparr>up_status := st, up_error := d, up_next := encodeTime t\<rparr>"])
    (simp_all add: MarkUploadFailed_def upload_ident_def)

lemma MarkUploadAttempt_touches: "touches i (\<lambda>u. up_status u = st) db (MarkUploadAttempt i st d r t db)"
  by (rule touches_update [where f = "\<lambda>u. u\<lparr>up_status := st, up_attempts := up_attempts u + 1, up_error := d,
        up_remote := r, up_next := encodeTime t\<rparr>"])
    (simp_all add: MarkUploadAttempt_def upload_ident_def)

lemma MarkUploadVerified_touches:
  "MarkUploadVerified i r t db = Inr db' \<Longrightarrow> touches i (\<lambda>u. up_status u = ''verified'' \<and> up_remote u = r) db db'"
  by (rule touches_update [where f = "\<lambda>u. u\<lparr>up_status := ''verified'', up_error := '''', up_remote := r, up_completed := Some (encodeTime t)\<rparr>"])
    (auto simp: MarkUploadVerified_def Let_def upload_ident_def place_ident_def update_where_def split: option.splits if_splits)

lemma mark_failure_touches:
  "touches (up_id item) (\<lambda>u. up_status u = ''retry'' \<or> up_status u = ''permanent_failure'') db (mark_failure ul n item e db)"
proof -
  note f = MarkUploadFailed_touches [of "up_id item" "''permanent_failure''" db] MarkUploadFailed_touches [of "up_id item" "''retry''" db]
  show ?thesis by (auto simp: mark_failure_def Let_def intro: touches_mono [OF f(1)] touches_mono [OF f(2)])
qed

lemma mark_failure_call: "open_upload (up_id item) db \<Longrightarrow> store_call db (mark_failure ul n item e db)"
  by (auto simp: mark_failure_def Let_def intro: store_call.upload_failed)

text \<open>What one item leaves: its row is verified with its files at the remote, or waits for its next
  attempt; the errors that end the loop apart.\<close>

definition item_done :: "'w uploader \<Rightarrow> ('w \<Rightarrow> string \<Rightarrow> bytes option) \<Rightarrow> fs \<Rightarrow> db \<Rightarrow> 'w \<Rightarrow> upload_row \<Rightarrow> bool" where
  "item_done ul content fs db w u \<longleftrightarrow>
     up_status u = ''retry'' \<or> up_status u = ''permanent_failure'' \<or> up_status u = ''uploading'' \<or>
     up_status u = ''verified'' \<and> (\<exists>dest c m. findDestination (ul_cfg ul) (up_destination u) = Some dest \<and>
       CompactionByID (up_compaction u) db = Inr c \<and> prepareRemoteDir ul fs c dest = Inr (m, up_remote u) \<and>
       VerifyDirectory (ul_env ul) fs (st_root (cf_storage (ul_cfg ul))) c = Inr () \<and>
       at_remote ul content fs (manifest_place ul c) (up_remote u) w)"

lemma process_item_touches:
  assumes h: "honest_remote ul content" and p: "process_item ul fs n item db w = ((db', e), w')"
    and row: "u0 \<in> set (db_uploads db)" "upload_ident u0 = (up_id item, up_compaction item, up_destination item)"
    and uniq: "distinct (map up_id (db_uploads db))"
  shows "keeps content w w' \<and> (db' = db \<and> e \<noteq> None \<or>
    touches (up_id item) (\<lambda>u. item_done ul content fs db w' u \<and> (e = None \<longrightarrow> up_status u \<noteq> ''uploading'')) db db')"
    (is "_ \<and> (_ \<or> touches _ ?Q db db')")
proof -
  have failed: "touches (up_id item) ?Q db (mark_failure ul n item err db)" for err
    by (rule touches_mono [OF mark_failure_touches]) (auto simp: item_done_def)
  show ?thesis
  proof (cases "findDestination (ul_cfg ul) (up_destination item)")
    case None
    with p have db': "db' = MarkUploadFailed (up_id item) ''retry'' ''destination_not_configured'' (ul_done_at ul n + backoff (ul_draw ul n) (up_attempts item + 1)) db"
      and "w' = w" by (simp_all add: process_item_def)
    have "touches (up_id item) ?Q db db'" unfolding db'
      by (rule touches_mono [OF MarkUploadFailed_touches]) (auto simp: item_done_def)
    with \<open>w' = w\<close> show ?thesis by simp
  next
    case dest: (Some dest)
    show ?thesis
    proof (cases "CompactionByID (up_compaction item) db")
      case (Inl err)
      with p dest show ?thesis by (auto simp: process_item_def)
    next
      case c: (Inr c)
      show ?thesis
      proof (cases "prepareRemoteDir ul fs c dest")
        case (Inl err)
        with p dest c have "db' = mark_failure ul n item err db" "w' = w" by (simp_all add: process_item_def)
        with failed show ?thesis by auto
      next
        case (Inr md)
        obtain m dir where prep: "prepareRemoteDir ul fs c dest = Inr (m, dir)" using Inr by (cases md) simp
        define db1 where "db1 = MarkUploadAttempt (up_id item) ''uploading'' '''' dir (ul_attempt_at ul n) db"
        have t1: "touches (up_id item) (\<lambda>u. up_status u = ''uploading'') db db1" unfolding db1_def by (rule MarkUploadAttempt_touches)
        obtain r w1 where pub: "publish ul fs c m dir w = (r, w1)" by (metis prod.exhaust)
        note q = publish_holds [OF h pub prep]
        show ?thesis
        proof (cases r)
          case (Some err)
          with p dest c prep pub have "db' = mark_failure ul n item err db1" "w' = w1" by (simp_all add: process_item_def Let_def flip: db1_def)
          moreover have "touches (up_id item) ?Q db (mark_failure ul n item err db1)"
            by (rule touches_trans [OF t1], rule touches_mono [OF mark_failure_touches]) (auto simp: item_done_def)
          ultimately show ?thesis using q by simp
        next
          case None
          show ?thesis
          proof (cases "MarkUploadVerified (up_id item) dir (ul_done_at ul n) db1")
            case (Inl err)
            with p dest c prep pub None have "db' = db1" "e = Some err" "w' = w1" by (simp_all add: process_item_def Let_def flip: db1_def)
            moreover have "touches (up_id item) ?Q db db1" by (rule touches_mono [OF t1]) (simp add: item_done_def \<open>e = Some err\<close>)
            ultimately show ?thesis using q by simp
          next
            case (Inr db2)
            with p dest c prep pub None have db': "db' = db2" "e = None" "w' = w1" by (simp_all add: process_item_def Let_def flip: db1_def)
            have t2: "touches (up_id item) (\<lambda>u. up_status u = ''verified'' \<and> up_remote u = dir) db db2"
              by (rule touches_trans [OF t1 MarkUploadVerified_touches [OF Inr]])
            have "touches (up_id item) ?Q db db2"
            proof (rule touches_mono [OF t2])
              fix u assume u: "u \<in> set (db_uploads db2)" "up_id u = up_id item" "up_status u = ''verified'' \<and> up_remote u = dir"
              have "upload_ident u \<in> set (map upload_ident (db_uploads db))" using t2 u(1) unfolding touches_def by (metis image_eqI set_map)
              then obtain v where v: "v \<in> set (db_uploads db)" "upload_ident v = upload_ident u" by auto
              have "up_id v = up_id u0" using v(2) u(2) row(2) by (simp add: upload_ident_def)
              with uniq v(1) row(1) have "v = u0" by (metis distinct_map inj_onD)
              then have "up_compaction u = up_compaction item" "up_destination u = up_destination item"
                using v(2) row(2) by (simp_all add: upload_ident_def)
              then show "item_done ul content fs db w' u \<and> (e = None \<longrightarrow> up_status u \<noteq> ''uploading'')"
                using u(3) dest c prep q None db' by (simp add: item_done_def)
            qed
            with q db' show ?thesis by simp
          qed
        qed
      qed
    qed
  qed
qed

section \<open>A pass\<close>

lemma attempt_open: "open_upload i (MarkUploadAttempt i ''uploading'' d r t db)"
proof -
  have "\<not> settled ''uploading''" by code_simp
  then have "up_status u = ''uploading''" if "u \<in> set (db_uploads (MarkUploadAttempt i ''uploading'' d r t db))" "up_id u = i" for u
    using MarkUploadAttempt_touches [of i "''uploading''" db d r t] that unfolding touches_def by blast
  with \<open>\<not> settled ''uploading''\<close> show ?thesis unfolding open_upload_def by metis
qed

lemma touches_open: "touches i P db db' \<Longrightarrow> k \<noteq> i \<Longrightarrow> open_upload k db \<Longrightarrow> open_upload k db'"
  unfolding touches_def open_upload_def by blast

lemma touches_ids: "touches i P db db' \<Longrightarrow> map up_id (db_uploads db') = map up_id (db_uploads db)"
proof -
  assume "touches i P db db'"
  then have "map fst (map upload_ident (db_uploads db')) = map fst (map upload_ident (db_uploads db))" by (simp only: touches_def)
  then show ?thesis by (simp add: upload_ident_def comp_def)
qed

lemma process_item_calls:
  assumes p: "process_item ul fs n item db w = ((db', e), w')" and op: "open_upload (up_id item) db"
  shows "store_call\<^sup>*\<^sup>* db db' \<and>
    touches (up_id item) (\<lambda>u. e = None \<longrightarrow> up_status u \<in> set [''verified'', ''retry'', ''permanent_failure'']) db db'"
    (is "_ \<and> touches _ ?Q db db'")
proof -
  have failed: "touches (up_id item) ?Q db0 (mark_failure ul n item err db0)" for err db0
    by (rule touches_mono [OF mark_failure_touches]) auto
  have same: "touches (up_id item) ?Q db db" if "e \<noteq> None" using that by (auto simp: touches_def)
  show ?thesis
  proof (cases "findDestination (ul_cfg ul) (up_destination item)")
    case None
    with p have db': "db' = MarkUploadFailed (up_id item) ''retry'' ''destination_not_configured'' (ul_done_at ul n + backoff (ul_draw ul n) (up_attempts item + 1)) db"
      by (simp add: process_item_def)
    have "touches (up_id item) ?Q db db'" unfolding db' by (rule touches_mono [OF MarkUploadFailed_touches]) simp
    with op db' show ?thesis by (auto intro: store_call.upload_failed)
  next
    case dest: (Some dest)
    show ?thesis
    proof (cases "CompactionByID (up_compaction item) db")
      case (Inl err)
      with p dest same show ?thesis by (auto simp: process_item_def)
    next
      case c: (Inr c)
      show ?thesis
      proof (cases "prepareRemoteDir ul fs c dest")
        case (Inl err)
        with p dest c have "db' = mark_failure ul n item err db" by (simp add: process_item_def)
        then show ?thesis using failed [of db err] r_into_rtranclp [of store_call, OF mark_failure_call [OF op, of ul n err]] by simp
      next
        case (Inr md)
        obtain m dir where prep: "prepareRemoteDir ul fs c dest = Inr (m, dir)" using Inr by (cases md) simp
        define db1 where "db1 = MarkUploadAttempt (up_id item) ''uploading'' '''' dir (ul_attempt_at ul n) db"
        have t1: "touches (up_id item) (\<lambda>u. up_status u = ''uploading'') db db1" unfolding db1_def by (rule MarkUploadAttempt_touches)
        have op1: "open_upload (up_id item) db1" unfolding db1_def by (rule attempt_open)
        have c1: "store_call db db1" unfolding db1_def by (rule store_call.upload_attempt [OF op])
        obtain r w1 where pub: "publish ul fs c m dir w = (r, w1)" by (metis prod.exhaust)
        consider (failed) err where "db' = mark_failure ul n item err db1"
          | (stopped) "db' = db1" "e \<noteq> None" | (verified) "MarkUploadVerified (up_id item) dir (ul_done_at ul n) db1 = Inr db'"
          using p dest c prep pub by (auto simp: process_item_def Let_def simp flip: db1_def split: option.splits sum.splits)
        then show ?thesis
        proof cases
          case failed
          have "touches (up_id item) ?Q db db'" unfolding failed by (rule touches_trans [OF t1 \<open>\<And>err db0. touches (up_id item) ?Q db0 (mark_failure ul n item err db0)\<close>])
          moreover have "store_call\<^sup>*\<^sup>* db db'" unfolding failed
            by (rule converse_rtranclp_into_rtranclp [of store_call, OF c1 r_into_rtranclp]) (rule mark_failure_call [OF op1])
          ultimately show ?thesis by blast
        next
          case stopped
          have "touches (up_id item) ?Q db db1" by (rule touches_mono [OF t1]) (use stopped in simp)
          with c1 stopped show ?thesis by auto
        next
          case verified
          have "touches (up_id item) ?Q db db'"
            by (rule touches_mono [OF touches_trans [OF t1 MarkUploadVerified_touches [OF verified]]]) simp
          with c1 store_call.upload_verified [OF verified] show ?thesis by (auto intro: converse_rtranclp_into_rtranclp)
        qed
      qed
    qed
  qed
qed

lemma process_items_calls:
  assumes "distinct (map up_id items)" "\<forall>item \<in> set items. open_upload (up_id item) (ur_db r)" "ur_error r = None"
  shows "store_call\<^sup>*\<^sup>* (ur_db r) (ur_db (process_items ul fs items r)) \<and>
    (\<forall>u \<in> set (db_uploads (ur_db (process_items ul fs items r))).
       up_id u \<notin> up_id ` set items \<longrightarrow> u \<in> set (db_uploads (ur_db r))) \<and>
    (ur_error (process_items ul fs items r) = None \<longrightarrow>
       ur_processed (process_items ul fs items r) = ur_processed r + length items \<and>
       (\<forall>u \<in> set (db_uploads (ur_db (process_items ul fs items r))).
          up_id u \<in> up_id ` set items \<longrightarrow> up_status u \<in> set [''verified'', ''retry'', ''permanent_failure'']))"
  using assms
proof (induction items arbitrary: r)
  case (Cons item items)
  show ?case
  proof (cases "ul_ctx ul (ur_processed r)")
    case (Some e)
    then show ?thesis by simp
  next
    case None
    obtain db' e w' where p: "process_item ul fs (ur_processed r) item (ur_db r) (ur_world r) = ((db', e), w')" by (metis prod.exhaust)
    have "open_upload (up_id item) (ur_db r)" using Cons.prems by simp
    note q = process_item_calls [OF p this]
    have old: "u \<in> set (db_uploads db') \<Longrightarrow> up_id u \<noteq> up_id item \<Longrightarrow> u \<in> set (db_uploads (ur_db r))" for u
      using q unfolding touches_def by blast
    show ?thesis
    proof (cases e)
      case (Some x)
      with None p q old show ?thesis by auto
    next
      case e: None
      define r1 where "r1 = r\<lparr>ur_processed := ur_processed r + 1, ur_db := db', ur_world := w'\<rparr>"
      have eq: "process_items ul fs (item # items) r = process_items ul fs items r1" using None p e by (simp add: r1_def)
      have f: "ur_db r1 = db'" "ur_processed r1 = ur_processed r + 1" "ur_error r1 = None" using Cons.prems by (simp_all add: r1_def)
      have "\<forall>it \<in> set items. open_upload (up_id it) (ur_db r1)"
      proof
        fix it assume it: "it \<in> set items"
        have "up_id it \<in> up_id ` set items" by (rule imageI [OF it])
        then have "up_id it \<noteq> up_id item" "open_upload (up_id it) (ur_db r)" using Cons.prems it by force+
        then show "open_upload (up_id it) (ur_db r1)" unfolding f using q touches_open by blast
      qed
      note ih = Cons.IH [OF _ this f(3), unfolded f]
      let ?r = "process_items ul fs items r1"
      have d: "distinct (map up_id items)" "up_id item \<notin> up_id ` set items" using Cons.prems by auto
      note ih = ih [OF d(1)]
      have "store_call\<^sup>*\<^sup>* (ur_db r) (ur_db ?r)" using q ih by (auto intro: rtranclp_trans)
      moreover have "up_status u \<in> set [''verified'', ''retry'', ''permanent_failure'']"
        if u: "u \<in> set (db_uploads (ur_db ?r))" "up_id u = up_id item" for u
      proof -
        have "u \<in> set (db_uploads db')" using ih u d by metis
        then show ?thesis using q u(2) e unfolding touches_def by blast
      qed
      ultimately show ?thesis unfolding eq using ih old by auto
    qed
  qed
qed simp

lemma pending_row:
  assumes "item \<in> set (PendingUploads dest now db)"
  shows "\<exists>u \<in> set (db_uploads db). upload_ident u = (up_id item, up_compaction item, up_destination item) \<and> \<not> settled (up_status u)"
  using assms by (auto simp: PendingUploads_def upload_from_row_def upload_ident_def settled_def)

lemma pending_ids:
  assumes "db_inv db"
  shows "distinct (map up_id (PendingUploads dest now db))" "\<forall>item \<in> set (PendingUploads dest now db). open_upload (up_id item) db"
proof -
  have d: "distinct (map up_id (db_uploads db))" using db_invD(5) [OF assms] by (simp add: uploads_inv_def)
  let ?xs = "filter (\<lambda>u. up_status u \<in> set [''pending'', ''retry'', ''uploading''] \<and> up_next u \<le> encodeTime now \<and> (dest = '''' \<or> up_destination u = dest)) (db_uploads db)"
  have "distinct (map up_id ?xs)" by (rule distinct_map_filter [OF d])
  then have "distinct (map up_id (sort_key (\<lambda>u. (up_next u, up_id u)) ?xs))"
    using mset_eq_imp_distinct_iff [of "map up_id (sort_key (\<lambda>u. (up_next u, up_id u)) ?xs)" "map up_id ?xs"] by simp
  then show "distinct (map up_id (PendingUploads dest now db))" by (simp add: PendingUploads_def upload_from_row_def comp_def)
  show "\<forall>item \<in> set (PendingUploads dest now db). open_upload (up_id item) db"
  proof
    fix item assume "item \<in> set (PendingUploads dest now db)"
    then obtain u where u: "u \<in> set (db_uploads db)" "up_id u = up_id item" "\<not> settled (up_status u)"
      using pending_row by (fastforce simp: upload_ident_def)
    have "inj_on up_id (set (db_uploads db))" using d by (simp add: distinct_map)
    then have "v = u" if "v \<in> set (db_uploads db)" "up_id v = up_id item" for v
      by (rule inj_onD) (use u that in simp_all)
    with u(3) show "open_upload (up_id item) db" unfolding open_upload_def by blast
  qed
qed

text \<open>However a pass over the queue ends, it has led the database along calls of the store, and
  it only ever reports on uploads that are not settled.\<close>

theorem upload_calls_store:
  assumes "db_inv db"
  shows "store_call\<^sup>*\<^sup>* db (ur_db (ProcessPending ul destination now fs db w))"
  using process_items_calls [of "PendingUploads destination now db" "\<lparr>ur_processed = 0, ur_db = db, ur_error = None, ur_world = w\<rparr>"]
    pending_ids [OF assms] by (simp add: ProcessPending_def)

text \<open>C32. A pass that ends without an error has taken every upload that was due, and left each of them
  verified, waiting for a retry, or failed for good: none stays behind as uploading.\<close>

theorem upload_pass_completes:
  assumes "db_inv db" "ProcessPending ul destination now fs db w = r" "ur_error r = None"
  shows "ur_processed r = length (PendingUploads destination now db) \<and>
    (\<forall>item \<in> set (PendingUploads destination now db). \<forall>u \<in> set (db_uploads (ur_db r)). up_id u = up_id item \<longrightarrow>
       up_status u \<in> set [''verified'', ''retry'', ''permanent_failure''])"
proof -
  define r0 where "r0 = \<lparr>ur_processed = 0, ur_db = db, ur_error = None, ur_world = w\<rparr>"
  have f: "ur_db r0 = db" "ur_error r0 = None" "ur_processed r0 = 0" by (simp_all add: r0_def)
  have r: "process_items ul fs (PendingUploads destination now db) r0 = r" using assms(2) by (simp add: ProcessPending_def r0_def)
  note q = process_items_calls [of "PendingUploads destination now db" r0 ul fs, unfolded f r, OF pending_ids [OF assms(1)] refl]
  show ?thesis using q assms(3) by (metis (no_types, lifting) add_0 imageI)
qed

section \<open>What verified means\<close>

text \<open>A verified row, over the compactions known by \<open>places\<close>.\<close>

definition stored :: "'w uploader \<Rightarrow> ('w \<Rightarrow> string \<Rightarrow> bytes option) \<Rightarrow> fs \<Rightarrow> (int \<times> string) set \<Rightarrow> 'w \<Rightarrow> upload_row \<Rightarrow> bool" where
  "stored ul content fs places w u \<longleftrightarrow> (\<exists>dest c m path. findDestination (ul_cfg ul) (up_destination u) = Some dest \<and>
     (up_compaction u, path) \<in> places \<and> cp_manifest_path c = path \<and> prepareRemoteDir ul fs c dest = Inr (m, up_remote u) \<and>
     VerifyDirectory (ul_env ul) fs (st_root (cf_storage (ul_cfg ul))) c = Inr () \<and>
     at_remote ul content fs (manifest_place ul c) (up_remote u) w)"

lemma item_done_stored:
  assumes "item_done ul content fs db w u" "up_status u = ''verified''"
  shows "stored ul content fs (place_ident ` set (db_compactions db)) w u"
proof -
  obtain dest c m where d: "findDestination (ul_cfg ul) (up_destination u) = Some dest"
       "CompactionByID (up_compaction u) db = Inr c" "prepareRemoteDir ul fs c dest = Inr (m, up_remote u)"
       "VerifyDirectory (ul_env ul) fs (st_root (cf_storage (ul_cfg ul))) c = Inr ()"
       "at_remote ul content fs (manifest_place ul c) (up_remote u) w"
    using assms by (auto simp: item_done_def)
  then obtain k where k: "find (\<lambda>c. cp_id c = up_compaction u) (db_compactions db) = Some k" "c = scanCompaction k"
    by (auto simp: CompactionByID_def split: option.splits)
  have "k \<in> set (db_compactions db)" "cp_id k = up_compaction u" using k(1) by (auto simp: find_Some_iff)
  then have "(up_compaction u, cp_manifest_path c) \<in> place_ident ` set (db_compactions db)"
    by (intro image_eqI [of _ _ k]) (simp_all add: place_ident_def k(2) scanCompaction_def)
  with d show ?thesis unfolding stored_def by blast
qed

lemma stored_keeps: "stored ul content fs places w u \<Longrightarrow> keeps content w w' \<Longrightarrow> stored ul content fs places w' u"
  unfolding stored_def by (elim exE conjE) (intro exI conjI; (assumption | erule (1) at_remote_keeps))

lemma process_items_stored:
  assumes h: "honest_remote ul content"
    and "distinct (map up_id items)" "distinct (map up_id (db_uploads (ur_db r)))"
    and "\<forall>item \<in> set items. (up_id item, up_compaction item, up_destination item) \<in> upload_ident ` set (db_uploads (ur_db r))"
    and "places = place_ident ` set (db_compactions (ur_db r))"
  shows "keeps content (ur_world r) (ur_world (process_items ul fs items r)) \<and>
    (\<forall>u \<in> set (db_uploads (ur_db (process_items ul fs items r))). up_status u = ''verified'' \<longrightarrow>
       u \<in> set (db_uploads (ur_db r)) \<or> stored ul content fs places (ur_world (process_items ul fs items r)) u)"
  using assms(2-)
proof (induction items arbitrary: r)
  case (Cons item items)
  show ?case
  proof (cases "ul_ctx ul (ur_processed r)")
    case (Some e)
    then show ?thesis by simp
  next
    case None
    obtain db' e w' where p: "process_item ul fs (ur_processed r) item (ur_db r) (ur_world r) = ((db', e), w')" by (metis prod.exhaust)
    obtain u0 where u0: "u0 \<in> set (db_uploads (ur_db r))" "upload_ident u0 = (up_id item, up_compaction item, up_destination item)"
      using Cons.prems(3) by auto
    note q = process_item_touches [OF h p u0 Cons.prems(2)]
    have new: "u \<in> set (db_uploads (ur_db r)) \<or> stored ul content fs places w' u"
      if "u \<in> set (db_uploads db')" "up_status u = ''verified''" for u
      using q that item_done_stored [of ul content fs "ur_db r" w' u] Cons.prems(4) unfolding touches_def by blast
    show ?thesis
    proof (cases e)
      case (Some x)
      with None p q new show ?thesis by simp
    next
      case e: None
      define r1 where "r1 = r\<lparr>ur_processed := ur_processed r + 1, ur_db := db', ur_world := w'\<rparr>"
      let ?r = "process_items ul fs items r1"
      have eq: "process_items ul fs (item # items) r = ?r" using None p e by (simp add: r1_def)
      have f: "ur_db r1 = db'" "ur_world r1 = w'" by (simp_all add: r1_def)
      have t: "map upload_ident (db_uploads db') = map upload_ident (db_uploads (ur_db r))"
        "map place_ident (db_compactions db') = map place_ident (db_compactions (ur_db r))"
        "map up_id (db_uploads db') = map up_id (db_uploads (ur_db r))"
        using q e touches_ids unfolding touches_def by blast+
      have "upload_ident ` set (db_uploads db') = upload_ident ` set (db_uploads (ur_db r))"
        "place_ident ` set (db_compactions db') = place_ident ` set (db_compactions (ur_db r))"
        using t(1,2) by (metis set_map)+
      with Cons.prems t(3) have pre: "distinct (map up_id items)" "distinct (map up_id (db_uploads (ur_db r1)))"
        "\<forall>item \<in> set items. (up_id item, up_compaction item, up_destination item) \<in> upload_ident ` set (db_uploads (ur_db r1))"
        "places = place_ident ` set (db_compactions (ur_db r1))" unfolding f by simp_all
      note ih = Cons.IH [OF pre, unfolded f]
      have "keeps content (ur_world r) (ur_world ?r)" by (rule keeps_trans [OF conjunct1 [OF q] conjunct1 [OF ih]])
      moreover have "u \<in> set (db_uploads (ur_db r)) \<or> stored ul content fs places (ur_world ?r) u"
        if "u \<in> set (db_uploads (ur_db ?r))" "up_status u = ''verified''" for u
        using ih that new stored_keeps [OF _ conjunct1 [OF ih]] by blast
      ultimately show ?thesis unfolding eq by blast
    qed
  qed
qed simp

text \<open>C33. Against an rclone that reports honestly and keeps immutable objects, an upload that a pass marks
  verified is at the remote when the pass ends: the revision passed verification on disk, and every
  artifact of its manifest, and the manifest itself, lie in its directory with the recorded hash.\<close>

theorem verified_means_stored:
  assumes "honest_remote ul content" "db_inv db" "ProcessPending ul destination now fs db w = r"
    and "u \<in> set (db_uploads (ur_db r))" "up_status u = ''verified''" "u \<notin> set (db_uploads db)"
  shows "\<exists>dest k b m. findDestination (ul_cfg ul) (up_destination u) = Some dest \<and>
    k \<in> set (db_compactions db) \<and> cp_id k = up_compaction u \<and>
    os_readfile fs (Join [st_root (cf_storage (ul_cfg ul)), cp_manifest_path k]) = Inr b \<and>
    ce_decode_manifest (ul_env ul) b = Inr m \<and>
    hiveDir (ul_parse_url ul) (dst_remote dest) m (ul_cfg ul) = Inr (up_remote u) \<and>
    (\<exists>c :: compaction. cp_manifest_path c = cp_manifest_path k \<and>
       VerifyDirectory (ul_env ul) fs (st_root (cf_storage (ul_cfg ul))) c = Inr ()) \<and>
    (\<forall>a \<in> set (man_files m). \<exists>x. content (ur_world r) (remoteJoin (up_remote u) [Base (art_path a)]) = Some x \<and>
       equal_fold (ce_sha (ul_env ul) x) (art_sha256 a)) \<and>
    (\<exists>x. content (ur_world r) (remoteJoin (up_remote u) [''manifest.json'']) = Some x \<and>
       equal_fold (ce_sha (ul_env ul) x) (ce_sha (ul_env ul) b))"
proof -
  define r0 where "r0 = \<lparr>ur_processed = 0, ur_db = db, ur_error = None, ur_world = w\<rparr>"
  have f: "ur_db r0 = db" by (simp add: r0_def)
  have r: "process_items ul fs (PendingUploads destination now db) r0 = r" using assms(3) by (simp add: ProcessPending_def r0_def)
  have d: "distinct (map up_id (db_uploads db))" using db_invD(5) [OF assms(2)] by (simp add: uploads_inv_def)
  have rows: "\<forall>item \<in> set (PendingUploads destination now db). (up_id item, up_compaction item, up_destination item) \<in> upload_ident ` set (db_uploads db)"
    using pending_row by (metis image_eqI)
  have "stored ul content fs (place_ident ` set (db_compactions db)) (ur_world r) u"
    using process_items_stored [OF assms(1) pending_ids(1) [OF assms(2)], of r0 destination now "place_ident ` set (db_compactions db)" fs, unfolded f r, OF d rows refl] assms(4-6) by blast
  then obtain dest c m path where s: "findDestination (ul_cfg ul) (up_destination u) = Some dest"
     "(up_compaction u, path) \<in> place_ident ` set (db_compactions db)" "cp_manifest_path c = path"
     "prepareRemoteDir ul fs c dest = Inr (m, up_remote u)"
     "VerifyDirectory (ul_env ul) fs (st_root (cf_storage (ul_cfg ul))) c = Inr ()"
     "at_remote ul content fs (manifest_place ul c) (up_remote u) (ur_world r)"
    unfolding stored_def by blast
  from s(2) obtain k where k: "k \<in> set (db_compactions db)" "cp_id k = up_compaction u" "cp_manifest_path k = path"
    by (auto simp: place_ident_def)
  obtain b where b: "os_readfile fs (manifest_place ul c) = Inr b" "ce_decode_manifest (ul_env ul) b = Inr m"
      "hiveDir (ul_parse_url ul) (dst_remote dest) m (ul_cfg ul) = Inr (up_remote u)"
    using s(4) by (auto simp: prepareRemoteDir_def bind_res_Inr split: sum.splits)
  have "manifest_place ul c = Join [st_root (cf_storage (ul_cfg ul)), cp_manifest_path k]"
    unfolding manifest_place_def s(3) k(3) by (rule refl)
  with b(1) have rd: "os_readfile fs (Join [st_root (cf_storage (ul_cfg ul)), cp_manifest_path k]) = Inr b" by simp
  obtain b' m' where a: "os_readfile fs (manifest_place ul c) = Inr b'" "ce_decode_manifest (ul_env ul) b' = Inr m'"
      "\<forall>a \<in> set (man_files m'). holds ul content (ur_world r) (remoteJoin (up_remote u) [Base (art_path a)]) (art_sha256 a)"
      "holds ul content (ur_world r) (remoteJoin (up_remote u) [''manifest.json'']) (ce_sha (ul_env ul) b')"
    using s(6) unfolding at_remote_def by blast
  have "b' = b" "m' = m" using a(1,2) b(1,2) by simp_all
  note at = a(3,4) [unfolded this holds_def]
  have ver: "\<exists>c :: compaction. cp_manifest_path c = cp_manifest_path k \<and>
      VerifyDirectory (ul_env ul) fs (st_root (cf_storage (ul_cfg ul))) c = Inr ()"
    by (rule exI [of _ c]) (simp add: s(3,5) k(3))
  show ?thesis
    by (rule exI [of _ dest], rule exI [of _ k], rule exI [of _ b], rule exI [of _ m], intro conjI)
      (fact s(1) k(1) k(2) rd b(2) b(3) ver at(1) at(2))+
qed

end
