(* ===== verification/Maintenance.thy ===== *)
theory Maintenance
  imports Compact_Verified Retention Upload_Props
begin

text \<open>
  internal/service/maintenance.go. First the search for closed days that need a compaction, with the
  order of the jobs; then the workers as step relations: the pool that compacts under one lock per
  stream, and the uploads under a semaphore. A compaction, an upload pass and a clean-up are one step
  each; the lock archiveMu, held by compactEligible and cleanup from start to end, makes these two
  exclude each other. The context is a function of the position at which it is asked.
\<close>

section \<open>Jobs\<close>

datatype job = Job (jb_source: string) (jb_stream: string) (jb_date: string)

text \<open>The order of sort.Slice in compactEligible.\<close>

instantiation job :: linorder
begin

definition less_job :: "job \<Rightarrow> job \<Rightarrow> bool" where
  "less_job a b \<longleftrightarrow>
     (if jb_date a \<noteq> jb_date b then jb_date a < jb_date b
      else if jb_source a \<noteq> jb_source b then jb_source a < jb_source b
      else jb_stream a < jb_stream b)"

definition less_eq_job :: "job \<Rightarrow> job \<Rightarrow> bool" where
  "less_eq_job a b \<longleftrightarrow> a = b \<or> a < (b :: job)"

instance
  by standard (auto simp: less_job_def less_eq_job_def job.expand split: if_splits)

end

text \<open>The days from \<open>day\<close> on, as long as they have been closed for the delay; the loop need not end in
  every zone, so its value is an option.\<close>

partial_function (option) eligible_days ::
  "instant \<Rightarrow> duration \<Rightarrow> location \<Rightarrow> string \<Rightarrow> string \<Rightarrow> db \<Rightarrow> instant \<Rightarrow> job list option" where
  "eligible_days now delay loc src sm db day =
     (if now < add_days loc day 1 + delay then Some []
      else Option.bind (eligible_days now delay loc src sm db (add_days loc day 1))
        (\<lambda>rest. Some (if DayNeedsCompaction src sm loc day (add_days loc day 1) db
                      then Job src sm (local_date loc day) # rest else rest)))"

definition missing_location :: go_error where
  "missing_location = errors_New ''panic: time: missing Location in call to Time.In''"

definition stream_jobs ::
  "(string \<Rightarrow> location result) \<Rightarrow> config \<Rightarrow> instant \<Rightarrow> db \<Rightarrow> source_cfg \<Rightarrow> stream_cfg \<Rightarrow> job list result option" where
  "stream_jobs ll cfg now db source stream =
     (case EarliestTick (src_id source) (sm_id stream) db of
        Inl _ \<Rightarrow> Some (Inr [])
      | Inr None \<Rightarrow> Some (Inr [])
      | Inr (Some earliest) \<Rightarrow>
          (case EffectiveLocation ll stream source of
             Inl _ \<Rightarrow> Some (Inr [])
           | Inr None \<Rightarrow> Some (Inl missing_location)
           | Inr (Some loc) \<Rightarrow>
               map_option Inr (eligible_days now (st_close_delay (cf_storage cfg)) loc (src_id source) (sm_id stream) db
                 (midnight loc (local_day loc earliest)))))"

fun collect_jobs ::
  "(string \<Rightarrow> location result) \<Rightarrow> config \<Rightarrow> (nat \<Rightarrow> go_error option) \<Rightarrow> nat \<Rightarrow> instant \<Rightarrow> db \<Rightarrow> (source_cfg \<times> stream_cfg) list \<Rightarrow>
   job list result option" where
  "collect_jobs ll cfg ctx n now db [] = Some (Inr [])"
| "collect_jobs ll cfg ctx n now db ((source, stream) # rest) =
     (if ctx n \<noteq> None then Some (Inl (the (ctx n)))
      else case stream_jobs ll cfg now db source stream of
        None \<Rightarrow> None
      | Some (Inl e) \<Rightarrow> Some (Inl e)
      | Some (Inr js) \<Rightarrow>
          (case collect_jobs ll cfg ctx (Suc n) now db rest of
             None \<Rightarrow> None | Some (Inl e) \<Rightarrow> Some (Inl e) | Some (Inr js2) \<Rightarrow> Some (Inr (js @ js2))))"

definition eligible_jobs ::
  "(string \<Rightarrow> location result) \<Rightarrow> config \<Rightarrow> (nat \<Rightarrow> go_error option) \<Rightarrow> instant \<Rightarrow> db \<Rightarrow> job list result option" where
  "eligible_jobs ll cfg ctx now db =
     map_option (map_sum id sort) (collect_jobs ll cfg ctx 0 now db (all_streams cfg))"

section \<open>The days of a stream\<close>

text \<open>A zone in which the clock shows midnight on day \<open>d\<close>: no transition skips it.\<close>

definition has_midnight :: "location \<Rightarrow> int \<Rightarrow> bool" where
  "has_midnight loc d \<longleftrightarrow> local_second loc (midnight loc d) = d * 86400"

lemma midnight_whole [simp]: "midnight loc d mod second = 0"
  by (simp add: midnight_def)

lemma next_midnight: "has_midnight loc d \<Longrightarrow> add_days loc (midnight loc d) 1 = midnight loc (d + 1)"
  by (simp add: has_midnight_def add_days_def) (simp add: midnight_def algebra_simps)

lemma midnight_date: "has_midnight loc d \<Longrightarrow> local_date loc (midnight loc d) = date_only d"
  by (simp add: has_midnight_def local_date_def local_day_def)

definition day_job :: "location \<Rightarrow> string \<Rightarrow> string \<Rightarrow> db \<Rightarrow> int \<Rightarrow> job list" where
  "day_job loc src sm db d =
     (if DayNeedsCompaction src sm loc (midnight loc d) (midnight loc (d + 1)) db then [Job src sm (date_only d)] else [])"

lemma eligible_days_until:
  assumes "d0 \<le> d1" "\<And>d. d0 \<le> d \<Longrightarrow> d \<le> d1 \<Longrightarrow> has_midnight loc d"
    and "\<And>d. d0 \<le> d \<Longrightarrow> d < d1 \<Longrightarrow> midnight loc (d + 1) + delay \<le> now" "now < midnight loc (d1 + 1) + delay"
  shows "eligible_days now delay loc src sm db (midnight loc d0) = Some (concat (map (day_job loc src sm db) [d0..d1 - 1]))"
  using assms
proof (induction "nat (d1 - d0)" arbitrary: d0)
  case 0
  then have d: "d0 = d1" by simp
  have "add_days loc (midnight loc d1) 1 = midnight loc (d1 + 1)" using 0(3) d by (intro next_midnight) simp
  then show ?case using 0(5) by (subst eligible_days.simps) (simp add: d)
next
  case (Suc n)
  then have lt: "d0 < d1" by simp
  have add: "add_days loc (midnight loc d0) 1 = midnight loc (d0 + 1)" by (rule next_midnight) (use Suc.prems in simp)
  have date: "local_date loc (midnight loc d0) = date_only d0" by (rule midnight_date) (use Suc.prems in simp)
  have rest: "eligible_days now delay loc src sm db (midnight loc (d0 + 1)) = Some (concat (map (day_job loc src sm db) [d0 + 1..d1 - 1]))"
    by (rule Suc.hyps(1)) (use Suc.hyps(2) Suc.prems in auto)
  have due: "midnight loc (d0 + 1) + delay \<le> now" using Suc.prems(3) [of d0] lt by simp
  have days: "[d0..d1 - 1] = d0 # [d0 + 1..d1 - 1]" using lt by (simp add: upto_rec1)
  show ?case using due by (subst eligible_days.simps) (simp add: add date rest days day_job_def)
qed

lemma midnight_grows:
  assumes "has_midnight loc d" "\<And>s. \<bar>loc_offset loc s\<bar> \<le> 86400"
  shows "86400000000000 * (d - 1) \<le> midnight loc d"
proof -
  define s where "s = midnight loc d div second"
  have "midnight loc d = s * second" by (simp add: s_def midnight_def)
  moreover have "s + loc_offset loc s = d * 86400" using assms(1) by (simp add: has_midnight_def local_second_def s_def)
  moreover have "loc_offset loc s \<le> 86400" using assms(2) [of s] by simp
  ultimately show ?thesis by simp
qed

text \<open>C39. In a zone whose days all start at midnight the search for days ends, and it finds, in order, exactly
  the days from the first one on that are closed for the configured delay and need a compaction.\<close>

theorem eligible_days_exact:
  assumes "\<And>d. d0 \<le> d \<Longrightarrow> has_midnight loc d" "\<And>s. \<bar>loc_offset loc s\<bar> \<le> 86400"
  shows "\<exists>d1 \<ge> d0. now < midnight loc (d1 + 1) + delay \<and> (\<forall>d. d0 \<le> d \<and> d < d1 \<longrightarrow> midnight loc (d + 1) + delay \<le> now) \<and>
    eligible_days now delay loc src sm db (midnight loc d0) =
      Some (concat (map (\<lambda>d. if DayNeedsCompaction src sm loc (midnight loc d) (midnight loc (d + 1)) db
                             then [Job src sm (date_only d)] else []) [d0..d1 - 1]))"
proof -
  define open_at where "open_at k \<longleftrightarrow> now < midnight loc (d0 + int k + 1) + delay" for k
  have "open_at (nat \<bar>now\<bar> + nat \<bar>delay\<bar> + nat \<bar>d0\<bar> + 1)"
  proof -
    define d where "d = d0 + int (nat \<bar>now\<bar> + nat \<bar>delay\<bar> + nat \<bar>d0\<bar> + 1) + 1"
    have "d - 1 > \<bar>now\<bar> + \<bar>delay\<bar>" "0 \<le> d - 1" by (simp_all add: d_def)
    then have "\<bar>now\<bar> + \<bar>delay\<bar> < 86400000000000 * (d - 1)" using mult_right_mono [of 1 "86400000000000" "d - 1"] by simp
    moreover have "86400000000000 * (d - 1) \<le> midnight loc d" by (rule midnight_grows [OF assms(1) assms(2)]) (simp add: d_def)
    ultimately show ?thesis unfolding open_at_def d_def by linarith
  qed
  then obtain k where k: "open_at k" "\<And>j. j < k \<Longrightarrow> \<not> open_at j" by (metis (no_types, lifting) LeastI not_less_Least)
  define d1 where "d1 = d0 + int k"
  have due: "midnight loc (d + 1) + delay \<le> now" if "d0 \<le> d" "d < d1" for d
  proof -
    have "nat (d - d0) < k" using that by (simp add: d1_def nat_less_iff)
    with k(2) [of "nat (d - d0)"] that show ?thesis by (simp add: open_at_def)
  qed
  have now: "now < midnight loc (d1 + 1) + delay" using k(1) by (simp add: open_at_def d1_def)
  have "eligible_days now delay loc src sm db (midnight loc d0) = Some (concat (map (day_job loc src sm db) [d0..d1 - 1]))"
    by (rule eligible_days_until [OF _ assms(1) due now]) (simp_all add: d1_def)
  then show ?thesis using due now unfolding day_job_def by (intro exI [of _ d1]) (simp add: d1_def)
qed

text \<open>Where the clock jumps over midnight of day \<open>d\<close> by \<open>gap\<close> seconds, the window that AddDate gives to that day ends
  \<open>gap\<close> seconds into the next one, whose own window starts at its midnight: the two windows overlap.\<close>

lemma skipped_midnight_overlaps:
  assumes "local_second loc (midnight loc d) = d * 86400 + gap" "\<And>s. (d + 1) * 86400 - 86400 \<le> s \<Longrightarrow> loc_offset loc s = k" "\<bar>k\<bar> < 43200" "0 \<le> gap"
  shows "add_days loc (midnight loc d) 1 = midnight loc (d + 1) + gap * second"
proof -
  have o: "loc_offset loc (u - k) = k" "loc_offset loc u = k" if "(d + 1) * 86400 \<le> u" for u using assms(2,3) that by auto
  have "add_days loc (midnight loc d) 1 = unix_of_local loc ((d + 1) * 86400 + gap) * second"
    using assms(1) by (simp add: add_days_def algebra_simps)
  also have "unix_of_local loc ((d + 1) * 86400 + gap) = unix_of_local loc ((d + 1) * 86400) + gap"
    using o [of "(d + 1) * 86400 + gap"] o [of "(d + 1) * 86400"] assms(4) by (simp add: unix_of_local_def Let_def)
  finally show ?thesis by (simp add: midnight_def algebra_simps)
qed

lemma utc_midnight: "has_midnight utc d" "midnight utc d = d * 86400 * second"
  by (simp_all add: has_midnight_def midnight_def local_second_def unix_of_local_def utc_def)

lemma eligible_days_exact_witness:
  "\<exists>js. eligible_days 100 0 utc ''s'' ''v'' empty_db (midnight utc 0) = Some js"
  using eligible_days_exact [of 0 utc 100 0 "''s''" "''v''" empty_db] utc_midnight(1) by (auto simp: utc_def)

section \<open>The compaction workers\<close>

text \<open>A worker waits for a job, for the lock of its stream, or compacts; it stops when the queue is closed or
  the context ends. \<open>cw_queue\<close> holds the jobs that the dispatching loop has not handed over.\<close>

datatype worker = Idle | Locking job | Compacting job | Stopped

record pool =
  cw_queue :: "job list"
  cw_workers :: "worker list"
  cw_locks :: "string set"
  cw_done :: "(job \<times> string) list"
  cw_fs :: fs
  cw_db :: db

definition job_key :: "job \<Rightarrow> string" where
  "job_key j = jb_source j @ ''/'' @ jb_stream j"

definition job_request :: "job \<Rightarrow> compact_request" where
  "job_request j = \<lparr>cr_source = jb_source j, cr_stream = jb_stream j, cr_date = jb_date j, cr_revision = 0\<rparr>"

definition start_pool :: "config \<Rightarrow> job list \<Rightarrow> fs \<Rightarrow> db \<Rightarrow> pool" where
  "start_pool cfg jobs fs db =
     \<lparr>cw_queue = jobs, cw_workers = replicate (nat (min (rt_compaction_concurrency (cf_runtime cfg)) (int (length jobs)))) Idle,
      cw_locks = {}, cw_done = [], cw_fs = fs, cw_db = db\<rparr>"

text \<open>\<open>co\<close> gives the compactor of the n-th compaction (its clock and temporary name), \<open>cancelled\<close> says whether the
  context has ended.\<close>

inductive pool_step :: "(nat \<Rightarrow> compactor) \<Rightarrow> (nat \<Rightarrow> nat \<Rightarrow> go_error option) \<Rightarrow> bool \<Rightarrow> pool \<Rightarrow> pool \<Rightarrow> bool"
  for co :: "nat \<Rightarrow> compactor" and ctx :: "nat \<Rightarrow> nat \<Rightarrow> go_error option" and cancelled :: bool where
  hand_over: "i < length (cw_workers p) \<Longrightarrow> cw_workers p ! i = Idle \<Longrightarrow> cw_queue p = j # q \<Longrightarrow>
    pool_step co ctx cancelled p (p\<lparr>cw_queue := q, cw_workers := (cw_workers p)[i := Locking j]\<rparr>)"
| lock: "i < length (cw_workers p) \<Longrightarrow> cw_workers p ! i = Locking j \<Longrightarrow> job_key j \<notin> cw_locks p \<Longrightarrow>
    pool_step co ctx cancelled p (p\<lparr>cw_locks := insert (job_key j) (cw_locks p), cw_workers := (cw_workers p)[i := Compacting j]\<rparr>)"
| compact: "i < length (cw_workers p) \<Longrightarrow> cw_workers p ! i = Compacting j \<Longrightarrow>
    Compact (co (length (cw_done p))) (ctx (length (cw_done p))) (job_request j) (cw_fs p) (cw_db p) = (r, fs', db') \<Longrightarrow>
    pool_step co ctx cancelled p (p\<lparr>cw_locks := cw_locks p - {job_key j}, cw_workers := (cw_workers p)[i := Idle],
      cw_done := cw_done p @ [(j, if is_ok r then ''success'' else ''failure'')], cw_fs := fs', cw_db := db'\<rparr>)"
| closed: "i < length (cw_workers p) \<Longrightarrow> cw_workers p ! i = Idle \<Longrightarrow> cw_queue p = [] \<Longrightarrow>
    pool_step co ctx cancelled p (p\<lparr>cw_workers := (cw_workers p)[i := Stopped]\<rparr>)"
| abandon: "cancelled \<Longrightarrow> pool_step co ctx cancelled p (p\<lparr>cw_queue := []\<rparr>)"
| give_up: "cancelled \<Longrightarrow> i < length (cw_workers p) \<Longrightarrow> cw_workers p ! i = Locking j \<Longrightarrow>
    pool_step co ctx cancelled p (p\<lparr>cw_workers := (cw_workers p)[i := Stopped]\<rparr>)"
| give_up_locked: "cancelled \<Longrightarrow> i < length (cw_workers p) \<Longrightarrow> cw_workers p ! i = Compacting j \<Longrightarrow>
    pool_step co ctx cancelled p (p\<lparr>cw_locks := cw_locks p - {job_key j}, cw_workers := (cw_workers p)[i := Stopped]\<rparr>)"

inductive_cases pool_stepE: "pool_step co ctx cancelled p p'"

definition pool_finished :: "pool \<Rightarrow> bool" where
  "pool_finished p \<longleftrightarrow> cw_queue p = [] \<and> (\<forall>w \<in> set (cw_workers p). w = Stopped)"

text \<open>compactEligible: the jobs, then the pool until every worker has stopped.\<close>

inductive compactEligible ::
  "(string \<Rightarrow> location result) \<Rightarrow> config \<Rightarrow> (nat \<Rightarrow> compactor) \<Rightarrow> (nat \<Rightarrow> nat \<Rightarrow> go_error option) \<Rightarrow> (nat \<Rightarrow> go_error option) \<Rightarrow> bool \<Rightarrow>
   instant \<Rightarrow> fs \<Rightarrow> db \<Rightarrow> fs \<Rightarrow> db \<Rightarrow> bool"
  for ll :: "string \<Rightarrow> location result" and cfg :: config and co :: "nat \<Rightarrow> compactor" and ctx :: "nat \<Rightarrow> nat \<Rightarrow> go_error option"
    and loop_ctx :: "nat \<Rightarrow> go_error option" and cancelled :: bool and now :: instant where
  no_jobs: "eligible_jobs ll cfg loop_ctx now db = Some (Inl e) \<or> eligible_jobs ll cfg loop_ctx now db = Some (Inr []) \<Longrightarrow>
    compactEligible ll cfg co ctx loop_ctx cancelled now fs db fs db"
| some_jobs: "eligible_jobs ll cfg loop_ctx now db = Some (Inr jobs) \<Longrightarrow> jobs \<noteq> [] \<Longrightarrow>
    (pool_step co ctx cancelled)\<^sup>*\<^sup>* (start_pool cfg jobs fs db) p \<Longrightarrow> pool_finished p \<Longrightarrow>
    compactEligible ll cfg co ctx loop_ctx cancelled now fs db (cw_fs p) (cw_db p)"

section \<open>The upload workers\<close>

record 'w upload_pool =
  uw_waiting :: "destination_cfg list"
  uw_active :: "destination_cfg list"
  uw_passes :: nat
  uw_db :: db
  uw_world :: 'w

definition start_uploads :: "config \<Rightarrow> db \<Rightarrow> 'w \<Rightarrow> 'w upload_pool" where
  "start_uploads cfg db w = \<lparr>uw_waiting = cf_destinations cfg, uw_active = [], uw_passes = 0, uw_db = db, uw_world = w\<rparr>"

text \<open>A worker takes a place of the semaphore, or gives up when the context has ended; it leaves the place after
  its pass. \<open>ul\<close> is the uploader of the n-th pass (its clocks and draws).\<close>

inductive upload_step :: "(nat \<Rightarrow> 'w uploader) \<Rightarrow> nat \<Rightarrow> bool \<Rightarrow> instant \<Rightarrow> fs \<Rightarrow> 'w upload_pool \<Rightarrow> 'w upload_pool \<Rightarrow> bool"
  for ul :: "nat \<Rightarrow> 'w uploader" and capacity :: nat and cancelled :: bool and now :: instant and fs :: fs where
  acquire: "d \<in> set (uw_waiting p) \<Longrightarrow> length (uw_active p) < capacity \<Longrightarrow>
    upload_step ul capacity cancelled now fs p (p\<lparr>uw_waiting := remove1 d (uw_waiting p), uw_active := d # uw_active p\<rparr>)"
| decline: "cancelled \<Longrightarrow> d \<in> set (uw_waiting p) \<Longrightarrow>
    upload_step ul capacity cancelled now fs p (p\<lparr>uw_waiting := remove1 d (uw_waiting p)\<rparr>)"
| pass: "d \<in> set (uw_active p) \<Longrightarrow> ProcessPending (ul (uw_passes p)) (dst_id d) now fs (uw_db p) (uw_world p) = r \<Longrightarrow>
    upload_step ul capacity cancelled now fs p (p\<lparr>uw_active := remove1 d (uw_active p), uw_passes := Suc (uw_passes p),
      uw_db := ur_db r, uw_world := ur_world r\<rparr>)"

inductive uploadAll :: "config \<Rightarrow> (nat \<Rightarrow> 'w uploader) \<Rightarrow> bool \<Rightarrow> instant \<Rightarrow> fs \<Rightarrow> db \<Rightarrow> 'w \<Rightarrow> db \<Rightarrow> 'w \<Rightarrow> bool"
  for cfg :: config and ul :: "nat \<Rightarrow> 'w uploader" and cancelled :: bool and now :: instant and fs :: fs where
  no_destinations: "cf_destinations cfg = [] \<Longrightarrow> uploadAll cfg ul cancelled now fs db w db w"
| destinations: "cf_destinations cfg \<noteq> [] \<Longrightarrow>
    (upload_step ul (nat (rt_upload_concurrency (cf_runtime cfg))) cancelled now fs)\<^sup>*\<^sup>* (start_uploads cfg db w) p \<Longrightarrow>
    uw_waiting p = [] \<Longrightarrow> uw_active p = [] \<Longrightarrow> uploadAll cfg ul cancelled now fs db w (uw_db p) (uw_world p)"

section \<open>The three loops\<close>

text \<open>One round of one of the loops.\<close>

inductive maintenance_step ::
  "(string \<Rightarrow> location result) \<Rightarrow> config \<Rightarrow> raw_store \<Rightarrow> fs \<times> db \<times> 'w \<Rightarrow> fs \<times> db \<times> 'w \<Rightarrow> bool"
  for ll :: "string \<Rightarrow> location result" and cfg :: config and raw :: raw_store where
  compaction_round: "compactEligible ll cfg co ctx loop_ctx cancelled now fs db fs' db' \<Longrightarrow>
    maintenance_step ll cfg raw (fs, db, w) (fs', db', w)"
| upload_round: "uploadAll cfg ul cancelled now fs db w db' w' \<Longrightarrow> maintenance_step ll cfg raw (fs, db, w) (fs, db', w')"
| retention_round: "Cleanup ll cfg raw clock now fs db = s \<Longrightarrow> maintenance_step ll cfg raw (fs, db, w) (cs_fs s, cs_db s, w)"

end
