(* ===== verification/Fetch.thy ===== *)
theory Fetch
  imports Config_Validate State_Store Raw_Store Decode
begin

text \<open>
  internal/fetch/fetch.go: one poll of a stream, from the tick's first row to the committed capture.
  The outside (HTTP exchanges, clocks, random draws, the outcome of waits) is a record of functions of
  the attempt number; net/url, net/http, mime and gzip are parameters. Metrics and logging are left
  out.
\<close>

section \<open>Requests and responses\<close>

text \<open>textproto.CanonicalMIMEHeaderKey: names with other bytes than header letters stay as they are.\<close>

definition upper_char :: "char \<Rightarrow> char" where
  "upper_char c = (if CHR ''a'' \<le> c \<and> c \<le> CHR ''z'' then char_of (of_char c - 32 :: nat) else c)"

fun canonical_rest :: "bool \<Rightarrow> string \<Rightarrow> string" where
  "canonical_rest up [] = []"
| "canonical_rest up (c # cs) = (if up then upper_char c else lower_char c) # canonical_rest (c = CHR ''-'') cs"

definition canonical_header :: "string \<Rightarrow> string" where
  "canonical_header name = (if httpgutsValidHeaderName name then canonical_rest True name else name)"

text \<open>A header with the values of its canonical names.\<close>

type_synonym header = "(string \<times> string) list"

definition header_Get :: "header \<Rightarrow> string \<Rightarrow> string" where
  "header_Get h name = (case map_of h (canonical_header name) of None \<Rightarrow> '''' | Some v \<Rightarrow> v)"

definition header_Set :: "string \<Rightarrow> string \<Rightarrow> header \<Rightarrow> header" where
  "header_Set name value h = (canonical_header name, value) # filter (\<lambda>(k, _). k \<noteq> canonical_header name) h"

record http_response =
  rsp_status :: int
  rsp_header :: header
  rsp_content_length :: int
  rsp_body :: bytes
  rsp_body_err :: "go_error option"
  rsp_url :: string

text \<open>The errors of client.Do that classifyNetwork tells apart, by errors.Is and errors.As.\<close>

record network_error =
  ne_error :: go_error
  ne_dns :: bool
  ne_unknown_authority :: bool
  ne_timeout :: bool
  ne_op :: bool

text \<open>gzip: NewReader fails, or the decoded bytes and the error after them; with the number of bytes read.\<close>

datatype gunzipped = NoGzipHeader go_error int | Gunzipped bytes "go_error option" int

record fetcher =
  fe_cfg :: config
  fe_raw :: raw_store
  fe_fingerprint :: string
  fe_version :: string
  fe_protobuf :: string
  fe_sha :: "bytes \<Rightarrow> string"
  fe_decoder :: decoder
  fe_sidecar :: "capture \<Rightarrow> bytes"
  fe_load_location :: "string \<Rightarrow> location result"
  fe_parse_url :: "string \<Rightarrow> url option"
  fe_parse_error :: "string \<Rightarrow> string"
  fe_url_string :: "url \<Rightarrow> string"
  fe_new_request :: "string \<Rightarrow> bool"
  fe_lookup_env :: "string \<Rightarrow> string option"
  fe_read_file :: "string \<Rightarrow> bytes result"
  fe_parse_http_time :: "string \<Rightarrow> instant option"
  fe_media_type :: "string \<Rightarrow> string option"
  fe_gunzip :: "bytes \<Rightarrow> go_error option \<Rightarrow> gunzipped"

text \<open>What happens outside during one poll; the functions take the attempt.\<close>

record outside =
  ou_now :: instant
  ou_tick_random :: "bytes option"
  ou_do :: "int \<Rightarrow> string \<Rightarrow> header \<Rightarrow> network_error + http_response"
  ou_attempt_start :: "int \<Rightarrow> instant"
  ou_retry_now :: "int \<Rightarrow> instant"
  ou_draw :: "int \<Rightarrow> int \<Rightarrow> int"
  ou_wait :: "int \<Rightarrow> duration \<Rightarrow> go_error option"
  ou_temp_name :: "int \<Rightarrow> string"
  ou_completed :: "int \<Rightarrow> instant"
  ou_elapsed :: "int \<Rightarrow> duration"
  ou_capture_random :: "int \<Rightarrow> bytes option"
  ou_failed_at :: instant

section \<open>Retries\<close>

definition retryableStatus :: "int \<Rightarrow> bool" where
  "retryableStatus status \<longleftrightarrow> status = 408 \<or> status = 425 \<or> status = 429 \<or> status \<ge> 500"

definition retryableNetwork :: "network_error \<Rightarrow> bool" where
  "retryableNetwork e \<longleftrightarrow> \<not> errors_Is (ne_error e) ErrCanceled"

definition classifyNetwork :: "network_error \<Rightarrow> string" where
  "classifyNetwork e =
     (if errors_Is (ne_error e) ErrCanceled then ''cancelled''
      else if errors_Is (ne_error e) ErrDeadlineExceeded then ''timeout''
      else if ne_dns e then ''dns''
      else if ne_unknown_authority e then ''tls''
      else if ne_timeout e then ''timeout''
      else if ne_op e then ''connect''
      else ''network'')"

text \<open>The delay of waitBackoff. The shift is one of an int64.\<close>

definition backoff_delay :: "(int \<Rightarrow> int) \<Rightarrow> retry_cfg \<Rightarrow> int \<Rightarrow> duration \<Rightarrow> duration" where
  "backoff_delay draw retry attempt override =
     (if override \<le> 0 then
        (let d0 = int64 (re_initial_backoff retry * 2 ^ nat (attempt - 1));
             d = (if d0 > re_max_backoff retry then re_max_backoff retry else d0)
         in if d > 0 then draw (d + 1) else d)
      else override)"

text \<open>strconv.Atoi.\<close>

definition atoi :: "string \<Rightarrow> int option" where
  "atoi s =
     (let negative = has_prefix s ''-''; digits = (if negative \<or> has_prefix s ''+'' then tl s else s) in
      case parse_dec digits of
        None \<Rightarrow> None
      | Some n \<Rightarrow> (let v = (if negative then - int n else int n)
                   in if - (2 ^ 63) \<le> v \<and> v < 2 ^ 63 then Some v else None))"

text \<open>time.Time.Sub saturates.\<close>

definition time_Sub :: "instant \<Rightarrow> instant \<Rightarrow> duration" where
  "time_Sub t u = max (- (2 ^ 63)) (min (2 ^ 63 - 1) (t - u))"

definition retryAfter :: "(string \<Rightarrow> instant option) \<Rightarrow> instant \<Rightarrow> string \<Rightarrow> duration \<Rightarrow> duration" where
  "retryAfter parse_http_time now value maximum =
     (case atoi (trim_space value) of
        Some seconds \<Rightarrow>
          if seconds \<ge> 0 then (let d = int64 (seconds * second) in if d \<le> maximum then d else maximum)
          else (case parse_http_time value of
                  Some t \<Rightarrow> (let d = time_Sub t now in if d < 0 then 0 else if d > maximum then maximum else d)
                | None \<Rightarrow> 0)
      | None \<Rightarrow>
          (case parse_http_time value of
             Some t \<Rightarrow> (let d = time_Sub t now in if d < 0 then 0 else if d > maximum then maximum else d)
           | None \<Rightarrow> 0))"

section \<open>The request\<close>

fun query_Set :: "string \<Rightarrow> string \<Rightarrow> (string \<times> string list) list \<Rightarrow> (string \<times> string list) list" where
  "query_Set name value [] = [(name, [value])]"
| "query_Set name value ((k, vs) # q) = (if k = name then (k, [value]) # q else (k, vs) # query_Set name value q)"

fun resolve_query :: "fetcher \<Rightarrow> (string \<times> secret_ref) list \<Rightarrow> (string \<times> string list) list \<Rightarrow> (string \<times> string list) list result" where
  "resolve_query f [] query = Inr query"
| "resolve_query f ((name, ref) # refs) query =
     bind_res (SecretRef_Resolve (fe_lookup_env f) (fe_read_file f) ref) (\<lambda>value. resolve_query f refs (query_Set name value query))"

fun resolve_headers :: "fetcher \<Rightarrow> (string \<times> secret_ref) list \<Rightarrow> (string \<times> string) list \<Rightarrow> (string \<times> string) list result" where
  "resolve_headers f [] headers = Inr headers"
| "resolve_headers f ((name, ref) # refs) headers =
     bind_res (SecretRef_Resolve (fe_lookup_env f) (fe_read_file f) ref) (\<lambda>value.
       if contains_any value newline_chars then Inl (errors_New ''secret header value contains a newline'')
       else resolve_headers f refs (headers @ [(name, value)]))"

definition resolveRequest :: "fetcher \<Rightarrow> stream_cfg \<Rightarrow> (url \<times> (string \<times> string) list) result" where
  "resolveRequest f stream =
     (case fe_parse_url f (sm_url stream) of
        None \<Rightarrow> Inl (errors_New (fe_parse_error f (sm_url stream)))
      | Some u \<Rightarrow>
          bind_res (resolve_query f (sm_auth_query stream) (url_query u)) (\<lambda>query.
          bind_res (resolve_headers f (sm_auth_headers stream) []) (\<lambda>headers.
            Inr (u\<lparr>url_query := query\<rparr>, headers))))"

definition request_header :: "fetcher \<Rightarrow> stream_cfg \<Rightarrow> (string \<times> string) list \<Rightarrow> header" where
  "request_header f stream headers =
     (let h1 = fold (\<lambda>(name, value). header_Set name value) (sm_headers stream) [];
          h2 = fold (\<lambda>(name, value). header_Set name value) headers h1;
          h3 = (if header_Get h2 ''Accept'' = '''' then header_Set ''Accept'' ''application/x-protobuf, application/octet-stream'' h2 else h2)
      in header_Set ''User-Agent'' (ht_user_agent (cf_http (fe_cfg f))) (header_Set ''Accept-Encoding'' ''gzip'' h3))"

section \<open>The response\<close>

definition safeHeaders :: "header \<Rightarrow> (string \<times> string) list" where
  "safeHeaders h = filter (\<lambda>(_, v). v \<noteq> '''')
     (map (\<lambda>name. (name, header_Get h name)) [''Content-Type'', ''Content-Length'', ''ETag'', ''Last-Modified'', ''Date''])"

definition protobufContentType :: "fetcher \<Rightarrow> string \<Rightarrow> bool" where
  "protobufContentType f value =
     (case fe_media_type f value of
        None \<Rightarrow> False
      | Some m \<Rightarrow> to_lower m \<in> set [''application/x-protobuf'', ''application/protobuf'', ''application/octet-stream'',
                                     ''application/vnd.google.protobuf''])"

definition appendUnique :: "string list \<Rightarrow> string \<Rightarrow> string list" where
  "appendUnique values value = (if value \<in> set values then values else values @ [value])"

text \<open>What the reader of the body delivers: bytes, the error after them, the error of the set-up, and
  the bytes counted.\<close>

definition decoded_body :: "fetcher \<Rightarrow> string \<Rightarrow> http_response \<Rightarrow> bytes \<times> go_error option \<times> go_error option \<times> int" where
  "decoded_body f encoding resp =
     (if encoding = '''' \<or> encoding = ''identity'' then (rsp_body resp, rsp_body_err resp, None, int (length (rsp_body resp)))
      else if encoding = ''gzip'' \<or> encoding = ''x-gzip'' then
        (case fe_gunzip f (rsp_body resp) (rsp_body_err resp) of
           NoGzipHeader e n \<Rightarrow> ([], Some e, Some e, n)
         | Gunzipped body e n \<Rightarrow> (body, e, None, n))
      else (let e = errors_New ''unsupported content encoding'' in ([], Some e, Some e, 0)))"

definition transport_complete :: "http_response \<Rightarrow> staged \<Rightarrow> go_error option \<Rightarrow> int \<Rightarrow> bool" where
  "transport_complete resp sg setupErr counted \<longleftrightarrow>
     setupErr = None \<and> sg_read_err sg = None \<and> \<not> (rsp_content_length resp \<ge> 0 \<and> counted \<noteq> rsp_content_length resp)"

definition response_flags :: "fetcher \<Rightarrow> http_response \<Rightarrow> bool \<Rightarrow> string list \<Rightarrow> string list" where
  "response_flags f resp whole flags =
     (let flags1 = (if \<not> protobufContentType f (header_Get (rsp_header resp) ''Content-Type'')
                    then appendUnique flags ''unexpected_content_type'' else flags)
      in if \<not> whole then appendUnique flags1 ''transport_incomplete'' else flags1)"

text \<open>The capture before its commit.\<close>

definition response_capture ::
  "fetcher \<Rightarrow> outside \<Rightarrow> source_cfg \<Rightarrow> stream_cfg \<Rightarrow> tick \<Rightarrow> http_response \<Rightarrow> int \<Rightarrow> string \<Rightarrow> bool \<Rightarrow> int \<Rightarrow> bytes \<Rightarrow>
   location \<Rightarrow> string \<Rightarrow> string \<Rightarrow> capture" where
  "response_capture f out source stream t resp attempt encoding whole counted body loc i sanitized =
     (let meta = Decode (fe_decoder f) body (sm_kind stream) (ou_completed out attempt) in
      \<lparr>cap_format = SidecarFormatVersion, cap_id = i, cap_tick_id = tick_id t, cap_source = src_id source, cap_stream = sm_id stream,
       cap_kind = sm_kind stream, cap_scheduled = tick_scheduled t, cap_started = ou_attempt_start out attempt,
       cap_completed = ou_completed out attempt, cap_archive_date = local_date loc (tick_scheduled t), cap_timezone = loc_name loc,
       cap_url = sanitized, cap_http_status = rsp_status resp, cap_headers = safeHeaders (rsp_header resp),
       cap_duration_ms = ou_elapsed out attempt sdiv 1000000, cap_attempts = attempt, cap_advertised_length = rsp_content_length resp,
       cap_encoded_length = counted, cap_decoded_length = 0, cap_encoding = encoding, cap_sha256 = '''', cap_raw_path = '''',
       cap_sidecar_path = '''', cap_transport_complete = whole, cap_parse_status = meta_parse_status meta,
       cap_parse_error = meta_parse_error meta, cap_feed_version = meta_feed_version meta,
       cap_incrementality = map_option sint (meta_incrementality meta), cap_feed_timestamp = meta_feed_timestamp meta,
       cap_entity_count = map_option sint (meta_entity_count meta), cap_flags = response_flags f resp whole (meta_flags meta),
       cap_fingerprint = fe_fingerprint f, cap_app_version = fe_version f, cap_protobuf_revision = fe_protobuf f\<rparr>)"

text \<open>Commit moves the staged file: what staged.Path is when it returns.\<close>

fun writes_done :: "commit_write list \<Rightarrow> fs \<Rightarrow> nat" where
  "writes_done [] fs = 0"
| "writes_done (w # ws) fs = (case do_write w fs of Inl _ \<Rightarrow> 0 | Inr fs' \<Rightarrow> Suc (writes_done ws fs'))"

definition path_after_commit :: "(capture \<Rightarrow> bytes) \<Rightarrow> raw_store \<Rightarrow> staged \<Rightarrow> capture \<Rightarrow> location \<Rightarrow> fs \<Rightarrow> string" where
  "path_after_commit encode s sg c loc fs =
     (case plan_commit encode s sg c loc fs of
        (Inl _, _) \<Rightarrow> sg_path sg
      | (Inr plan, fs1) \<Rightarrow>
          (let n = writes_done (pl_writes plan) fs1 in
           if n = 0 then sg_path sg else if n < 4 then Join [rs_staging s, cap_id c @ ''.pb.tmp''] else ''''))"

text \<open>The body of captureResponse after staging: the result, staged.Path and the file system.\<close>

definition capture_staged ::
  "fetcher \<Rightarrow> outside \<Rightarrow> source_cfg \<Rightarrow> stream_cfg \<Rightarrow> tick \<Rightarrow> http_response \<Rightarrow> int \<Rightarrow> string \<Rightarrow> go_error option \<Rightarrow> int \<Rightarrow>
   staged \<Rightarrow> fs \<Rightarrow> capture result \<times> string \<times> fs" where
  "capture_staged f out source stream t resp attempt encoding setupErr counted sg fs =
     (case os_readfile fs (sg_path sg) of
        Inl e \<Rightarrow> (Inl (err_wrap ''read staged response'' e), sg_path sg, fs)
      | Inr body \<Rightarrow>
          (let whole = transport_complete resp sg setupErr counted in
           case EffectiveLocation (fe_load_location f) stream source of
             Inl e \<Rightarrow> (Inl e, sg_path sg, fs)
           | Inr loc0 \<Rightarrow>
               (case NewID (ou_completed out attempt) (ou_capture_random out attempt) of
                  Inl e \<Rightarrow> (Inl e, sg_path sg, fs)
                | Inr i \<Rightarrow>
                    (case SanitizedStreamURL (fe_parse_url f) (rsp_url resp) of
                       Inl e \<Rightarrow> (Inl e, sg_path sg, fs)
                     | Inr sanitized \<Rightarrow>
                         (case loc0 of
                            None \<Rightarrow> (Inl (errors_New ''panic: time: missing Location in call to Time.In''), sg_path sg, fs)
                          | Some loc \<Rightarrow>
                              (let c = response_capture f out source stream t resp attempt encoding whole counted body loc i sanitized in
                               case Commit (fe_sidecar f) (fe_raw f) sg c loc fs of
                                 (r, fs1) \<Rightarrow> (r, path_after_commit (fe_sidecar f) (fe_raw f) sg c loc fs, fs1)))))))"

definition body_too_large :: go_error where
  "body_too_large = GoError ''decoded body exceeds configured limit'' [ErrBodyTooLarge]"

definition captureResponse ::
  "fetcher \<Rightarrow> outside \<Rightarrow> source_cfg \<Rightarrow> stream_cfg \<Rightarrow> tick \<Rightarrow> http_response \<Rightarrow> int \<Rightarrow> fs \<Rightarrow> capture result \<times> fs" where
  "captureResponse f out source stream t resp attempt fs =
     (let encoding = to_lower (trim_space (header_Get (rsp_header resp) ''Content-Encoding'')) in
      case decoded_body f encoding resp of
        (body, read_err, setupErr, counted) \<Rightarrow>
          (case Stage (fe_sha f) (fe_raw f) (ou_temp_name out attempt) body read_err
                  (EffectiveMaxBytes stream (cf_http (fe_cfg f))) fs of
             Inl e \<Rightarrow> (Inl e, fs)
           | Inr (sg, fs1) \<Rightarrow>
               if sg_too_large sg then (Inl body_too_large, fs1)
               else (case capture_staged f out source stream t resp attempt encoding setupErr counted sg fs1 of
                       (r, path, fs2) \<Rightarrow> (r, snd (Abort (sg\<lparr>sg_path := path\<rparr>) fs2)))))"

section \<open>Fetch\<close>

record fetch_result =
  fr_tick :: tick
  fr_capture :: "capture option"
  fr_error :: "go_error option"
  fr_fs :: fs
  fr_db :: db

definition finishFailure ::
  "outside \<Rightarrow> tick \<Rightarrow> string \<Rightarrow> string \<Rightarrow> int \<Rightarrow> int \<Rightarrow> fs \<Rightarrow> db \<Rightarrow> fetch_result" where
  "finishFailure out t category detail status attempts fs db =
     (let t' = t\<lparr>tick_finished := Some (ou_failed_at out), tick_result := (if category = ''cancelled'' then ''cancelled'' else ''failed''),
                 tick_error_category := category, tick_error_detail := detail, tick_http_status := status, tick_attempts := attempts\<rparr>
      in case RecordTick t' db of
           Inl e \<Rightarrow> \<lparr>fr_tick = t', fr_capture = None, fr_error = Some e, fr_fs = fs, fr_db = db\<rparr>
         | Inr db' \<Rightarrow> \<lparr>fr_tick = t', fr_capture = None, fr_error = Some (errors_New (category @ '': '' @ detail)), fr_fs = fs, fr_db = db'\<rparr>)"

text \<open>What follows a response with a 2xx status.\<close>

definition finish_capture ::
  "fetcher \<Rightarrow> outside \<Rightarrow> source_cfg \<Rightarrow> stream_cfg \<Rightarrow> tick \<Rightarrow> http_response \<Rightarrow> int \<Rightarrow> fs \<Rightarrow> db \<Rightarrow> fetch_result" where
  "finish_capture f out source stream t resp attempt fs db =
     (case captureResponse f out source stream t resp attempt fs of
        (Inl e, fs1) \<Rightarrow>
          if errors_Is e ErrBodyTooLarge
          then finishFailure out t ''body_too_large'' ''response exceeded decoded body limit'' (rsp_status resp) attempt fs1 db
          else finishFailure out t ''local_storage'' ''capture commit failed'' (rsp_status resp) attempt fs1 db
      | (Inr c, fs1) \<Rightarrow>
          (let t' = t\<lparr>tick_finished := Some (cap_completed c), tick_http_status := rsp_status resp,
                      tick_result := (if cap_parse_status c \<noteq> ''valid'' \<or> \<not> cap_transport_complete c then ''captured_invalid'' else ''captured'')\<rparr>
           in case SaveCapture t' c db of
                Inl e \<Rightarrow> \<lparr>fr_tick = t', fr_capture = Some c,
                          fr_error = Some (err_wrap ''capture files committed but state update failed'' e), fr_fs = fs1, fr_db = db\<rparr>
              | Inr db' \<Rightarrow> \<lparr>fr_tick = t', fr_capture = Some c, fr_error = None, fr_fs = fs1, fr_db = db'\<rparr>))"

text \<open>The loop from \<open>attempt\<close> on, with the category and the status of the attempt before.\<close>

function fetch_attempts ::
  "fetcher \<Rightarrow> outside \<Rightarrow> source_cfg \<Rightarrow> stream_cfg \<Rightarrow> string \<Rightarrow> header \<Rightarrow> int \<Rightarrow> string \<Rightarrow> int \<Rightarrow> tick \<Rightarrow> fs \<Rightarrow> db \<Rightarrow> fetch_result" where
  "fetch_attempts f out source stream target header attempt lastCategory lastStatus t0 fs db =
     (let retry = ht_retry (cf_http (fe_cfg f)); attempts = re_attempts retry in
      if attempt > attempts then finishFailure out t0 lastCategory ''request failed'' lastStatus attempts fs db
      else let t = t0\<lparr>tick_attempts := attempt\<rparr> in
        if \<not> fe_new_request f target then finishFailure out t ''configuration'' ''invalid request'' 0 attempt fs db
        else (case ou_do out attempt target header of
          Inl e \<Rightarrow>
            (let category = classifyNetwork e in
             if category = ''cancelled'' then finishFailure out t category ''request cancelled'' 0 attempt fs db
             else if attempt < attempts \<and> retryableNetwork e then
               (case ou_wait out attempt (backoff_delay (ou_draw out attempt) retry attempt 0) of
                  Some _ \<Rightarrow> finishFailure out t ''cancelled'' ''request cancelled'' 0 attempt fs db
                | None \<Rightarrow> fetch_attempts f out source stream target header (attempt + 1) category lastStatus t fs db)
             else finishFailure out t category ''request failed'' 0 attempt fs db)
        | Inr resp \<Rightarrow>
            if rsp_status resp < 200 \<or> rsp_status resp \<ge> 300 then
              (if attempt < attempts \<and> retryableStatus (rsp_status resp) then
                 (case ou_wait out attempt (backoff_delay (ou_draw out attempt) retry attempt
                         (retryAfter (fe_parse_http_time f) (ou_retry_now out attempt) (header_Get (rsp_header resp) ''Retry-After'') (sm_interval stream))) of
                    Some _ \<Rightarrow> finishFailure out t ''cancelled'' ''request cancelled'' (rsp_status resp) attempt fs db
                  | None \<Rightarrow> fetch_attempts f out source stream target header (attempt + 1) lastCategory (rsp_status resp) t fs db)
               else finishFailure out t ''http_status'' (''HTTP '' @ itoa (rsp_status resp)) (rsp_status resp) attempt fs db)
            else finish_capture f out source stream t resp attempt fs db))"
  by pat_completeness auto
termination
  by (relation "measure (\<lambda>(f, out, source, stream, target, header, attempt, lastCategory, lastStatus, t, fs, db).
        nat (re_attempts (ht_retry (cf_http (fe_cfg f))) + 1 - attempt))") auto

declare fetch_attempts.simps [simp del]

definition started_tick :: "fetcher \<Rightarrow> outside \<Rightarrow> source_cfg \<Rightarrow> stream_cfg \<Rightarrow> string \<Rightarrow> instant \<Rightarrow> tick" where
  "started_tick f out source stream i scheduledAt =
     \<lparr>tick_id = i, tick_source = src_id source, tick_stream = sm_id stream, tick_scheduled = scheduledAt,
      tick_started = Some (ou_now out), tick_finished = None, tick_result = ''running'', tick_skip_reason = '''',
      tick_error_category = '''', tick_error_detail = '''', tick_http_status = 0, tick_attempts = 0,
      tick_fingerprint = fe_fingerprint f\<rparr>"

text \<open>An error before the first row is one without a result.\<close>

definition Fetch ::
  "fetcher \<Rightarrow> outside \<Rightarrow> source_cfg \<Rightarrow> stream_cfg \<Rightarrow> instant \<Rightarrow> fs \<Rightarrow> db \<Rightarrow> fetch_result result" where
  "Fetch f out source stream scheduledAt fs db =
     bind_res (NewID (ou_now out) (ou_tick_random out)) (\<lambda>i.
       (let t = started_tick f out source stream i scheduledAt in
        bind_res (RecordTick t db) (\<lambda>db1.
          (case resolveRequest f stream of
             Inl e \<Rightarrow> Inr (finishFailure out t ''configuration'' (err_text e) 0 0 fs db1)
           | Inr (u, headers) \<Rightarrow>
               Inr (fetch_attempts f out source stream (fe_url_string f u) (request_header f stream headers) 1 '''' 0 t fs db1)))))"

end
