(* ===== verification/Fetch_Props.thy ===== *)
theory Fetch_Props
  imports Fetch State_Props Compact_Disk
begin

text \<open>
  What a poll promises: a bounded number of requests, the delays between them, a final row on every
  path, and that a captured response is whole and lies on disk under its hash.
\<close>

section \<open>Delays\<close>

lemma int64_shifted_out: "64 \<le> n \<Longrightarrow> int64 (i * 2 ^ n) = 0"
proof -
  assume "64 \<le> n"
  then obtain k where n: "n = 64 + k" using le_Suc_ex by blast
  define m where "m = i * 2 ^ k"
  have "i * 2 ^ n = 2 ^ 64 * m" unfolding m_def n power_add by (rule mult.left_commute)
  then have "(i * 2 ^ n + 2 ^ 63) mod 2 ^ 64 = (2 ^ 64 * m + 2 ^ 63) mod 2 ^ 64" by (simp only:)
  also have "\<dots> = 2 ^ 63 mod 2 ^ 64" by (rule mod_mult_self4)
  also have "\<dots> = (2 ^ 63 :: int)" by simp
  finally show ?thesis by (simp only: int64_mod)
qed

text \<open>C34. The wait before a retry is the override when the server gave one; otherwise a draw of at most the
  initial delay doubled at every attempt, capped by the maximum, as long as the doubled delay fits an
  int64. The configuration does not bound the attempts, and from the 65th on the shift leaves nothing:
  the request is repeated at once.\<close>

theorem fetch_backoff_bounds:
  assumes "\<forall>n > 0. 0 \<le> draw n \<and> draw n < n" "0 \<le> re_initial_backoff retry" "re_initial_backoff retry \<le> re_max_backoff retry"
    and "1 \<le> attempt"
  shows "(0 < override \<longrightarrow> backoff_delay draw retry attempt override = override) \<and>
    (override \<le> 0 \<and> re_initial_backoff retry * 2 ^ nat (attempt - 1) < 2 ^ 63 \<longrightarrow>
       0 \<le> backoff_delay draw retry attempt override \<and>
       backoff_delay draw retry attempt override \<le> min (re_initial_backoff retry * 2 ^ nat (attempt - 1)) (re_max_backoff retry)) \<and>
    (override \<le> 0 \<and> 65 \<le> attempt \<longrightarrow> backoff_delay draw retry attempt override = 0)"
proof (intro conjI impI)
  assume "0 < override" then show "backoff_delay draw retry attempt override = override" by (simp add: backoff_delay_def)
next
  assume o: "override \<le> 0 \<and> re_initial_backoff retry * 2 ^ nat (attempt - 1) < 2 ^ 63"
  define d0 where "d0 = re_initial_backoff retry * 2 ^ nat (attempt - 1)"
  have d0: "0 \<le> d0" "int64 d0 = d0" using o assms(2) by (simp_all add: d0_def int64_nonneg)
  define d where "d = min d0 (re_max_backoff retry)"
  have "(if d0 > re_max_backoff retry then re_max_backoff retry else d0) = d" by (simp add: d_def)
  then have eq: "backoff_delay draw retry attempt override = (if d > 0 then draw (d + 1) else d)"
    using o d0(2) unfolding d0_def by (simp add: backoff_delay_def Let_def)
  have "0 \<le> d" using d0(1) assms(2,3) by (simp add: d_def)
  then have "0 \<le> backoff_delay draw retry attempt override \<and> backoff_delay draw retry attempt override \<le> d"
    unfolding eq using assms(1) [rule_format, of "d + 1"] by auto
  then show "0 \<le> backoff_delay draw retry attempt override"
    "backoff_delay draw retry attempt override \<le> min (re_initial_backoff retry * 2 ^ nat (attempt - 1)) (re_max_backoff retry)"
    by (simp_all add: d_def d0_def)
next
  assume o: "override \<le> 0 \<and> 65 \<le> attempt"
  then have "int64 (re_initial_backoff retry * 2 ^ nat (attempt - 1)) = 0" by (intro int64_shifted_out) linarith
  moreover have "0 \<le> re_max_backoff retry" using assms by simp
  ultimately show "backoff_delay draw retry attempt override = 0" using o by (simp add: backoff_delay_def)
qed

text \<open>A Retry-After of \<open>seconds\<close> is kept between zero and the maximum while it fits a duration; the first value
  that does not becomes negative, and the request is repeated after the ordinary backoff.\<close>

lemma retry_after_capped:
  assumes "atoi (trim_space value) = Some seconds" "0 \<le> seconds" "seconds \<le> 9223372036" "0 \<le> maximum"
  shows "retryAfter p now value maximum = min (seconds * second) maximum"
  using assms int64_nonneg [of "seconds * second"] by (auto simp: retryAfter_def Let_def min_def)

lemma retry_after_wraps:
  assumes "atoi (trim_space value) = Some 9223372037" "0 \<le> maximum"
  shows "retryAfter p now value maximum = - 9223372036709551616"
proof -
  have "int64 (9223372037 * second) = - 9223372036709551616" by (simp add: int64_def signed_take_bit_eq_if_negative bit_iff_odd take_bit_eq_mod)
  then show ?thesis using assms by (simp add: retryAfter_def Let_def)
qed

section \<open>The loop ends\<close>

lemma finish_same: "finishFailure (out\<lparr>ou_do := g\<rparr>) = finishFailure out"
  by (intro ext) (simp add: finishFailure_def)

lemma capture_staged_same: "capture_staged f (out\<lparr>ou_do := g\<rparr>) = capture_staged f out"
  by (intro ext) (simp add: capture_staged_def response_capture_def cong: sum.case_cong option.case_cong)

lemma capture_same: "captureResponse f (out\<lparr>ou_do := g\<rparr>) = captureResponse f out"
  by (intro ext, unfold captureResponse_def capture_staged_same) simp

lemma finish_capture_same: "finish_capture f (out\<lparr>ou_do := g\<rparr>) = finish_capture f out"
  by (intro ext, unfold finish_capture_def finish_same capture_same) simp

lemma fetch_attempts_same:
  assumes "\<And>k t h. attempt \<le> k \<Longrightarrow> k \<le> re_attempts (ht_retry (cf_http (fe_cfg f))) \<Longrightarrow> g k t h = ou_do out k t h"
  shows "fetch_attempts f (out\<lparr>ou_do := g\<rparr>) source stream target header attempt c st t fs db =
    fetch_attempts f out source stream target header attempt c st t fs db"
  using assms
proof (induction f out source stream target header attempt c st t fs db rule: fetch_attempts.induct)
  case (1 f out source stream target header attempt c st t fs db)
  let ?n = "re_attempts (ht_retry (cf_http (fe_cfg f)))"
  have same: "attempt \<le> ?n \<Longrightarrow> g attempt target header = ou_do out attempt target header" using "1.prems" by simp
  have rest: "\<And>k t h. attempt + 1 \<le> k \<Longrightarrow> k \<le> ?n \<Longrightarrow> g k t h = ou_do out k t h" using "1.prems" by simp
  note simps = fetch_attempts.simps [of f out] fetch_attempts.simps [of f "out\<lparr>ou_do := g\<rparr>"] finish_same finish_capture_same Let_def
  show ?case
  proof (cases "attempt > ?n \<or> \<not> fe_new_request f target")
    case True
    then show ?thesis by (auto simp: simps)
  next
    case ok: False
    show ?thesis
    proof (cases "ou_do out attempt target header")
      case (Inl e)
      show ?thesis using ok same Inl "1.IH"(1) [OF refl refl _ refl _ Inl refl _ _ _ rest] by (auto simp: simps split: option.splits)
    next
      case (Inr resp)
      show ?thesis using ok same Inr "1.IH"(2) [OF refl refl _ refl _ Inr _ _ _ rest] by (auto simp: simps split: option.splits)
    qed
  qed
qed

lemma finish_attempts [simp]: "tick_attempts (fr_tick (finishFailure out t c d st n fs db)) = n"
  by (simp add: finishFailure_def RecordTick_def Let_def)

lemma finish_capture_attempts: "tick_attempts t = n \<Longrightarrow> tick_attempts (fr_tick (finish_capture f out source stream t resp n fs db)) = n"
  by (auto simp: finish_capture_def Let_def split: prod.splits sum.splits)

lemma fetch_attempts_count:
  assumes "1 \<le> attempt" "1 \<le> re_attempts (ht_retry (cf_http (fe_cfg f)))"
  shows "1 \<le> tick_attempts (fr_tick (fetch_attempts f out source stream target header attempt c st t fs db)) \<and>
    tick_attempts (fr_tick (fetch_attempts f out source stream target header attempt c st t fs db)) \<le> re_attempts (ht_retry (cf_http (fe_cfg f)))"
  using assms
proof (induction f out source stream target header attempt c st t fs db rule: fetch_attempts.induct)
  case (1 f out source stream target header attempt c st t fs db)
  let ?n = "re_attempts (ht_retry (cf_http (fe_cfg f)))"
  show ?case
  proof (cases "attempt > ?n \<or> \<not> fe_new_request f target")
    case True
    then show ?thesis using "1.prems" by (auto simp: fetch_attempts.simps [of f out] Let_def)
  next
    case ok: False
    show ?thesis
    proof (cases "ou_do out attempt target header")
      case (Inl e)
      show ?thesis using ok Inl "1.prems" "1.IH"(1) [OF refl refl _ refl _ Inl refl]
        by (auto simp: fetch_attempts.simps [of f out] Let_def split: option.splits)
    next
      case (Inr resp)
      show ?thesis using ok Inr "1.prems" "1.IH"(2) [OF refl refl _ refl _ Inr]
        by (auto simp: fetch_attempts.simps [of f out] Let_def finish_capture_attempts split: option.splits)
    qed
  qed
qed

text \<open>C35. A poll ends after at most the configured number of requests: what the server would answer to any
  further one does not matter, and the recorded number of attempts stays within the bound.\<close>

theorem fetch_bounded:
  assumes "\<And>k t h. 1 \<le> k \<Longrightarrow> k \<le> re_attempts (ht_retry (cf_http (fe_cfg f))) \<Longrightarrow> g k t h = ou_do out k t h"
    and "1 \<le> re_attempts (ht_retry (cf_http (fe_cfg f)))"
  shows "Fetch f (out\<lparr>ou_do := g\<rparr>) source stream sched fs db = Fetch f out source stream sched fs db \<and>
    (\<forall>r. Fetch f out source stream sched fs db = Inr r \<longrightarrow>
       0 \<le> tick_attempts (fr_tick r) \<and> tick_attempts (fr_tick r) \<le> re_attempts (ht_retry (cf_http (fe_cfg f))))"
proof
  have "fetch_attempts f (out\<lparr>ou_do := g\<rparr>) source stream target header 1 c st t fs db' =
      fetch_attempts f out source stream target header 1 c st t fs db'" for target header c st t db'
    by (rule fetch_attempts_same) (use assms(1) in simp)
  then show "Fetch f (out\<lparr>ou_do := g\<rparr>) source stream sched fs db = Fetch f out source stream sched fs db"
    by (simp add: Fetch_def started_tick_def finish_same cong: sum.case_cong)
  show "\<forall>r. Fetch f out source stream sched fs db = Inr r \<longrightarrow>
       0 \<le> tick_attempts (fr_tick r) \<and> tick_attempts (fr_tick r) \<le> re_attempts (ht_retry (cf_http (fe_cfg f)))"
  proof (intro allI impI)
    fix r assume "Fetch f out source stream sched fs db = Inr r"
    then consider (refused) t e db1 where "r = finishFailure out t ''configuration'' (err_text e) 0 0 fs db1"
      | (tried) t u h db1 where "r = fetch_attempts f out source stream (fe_url_string f u) (request_header f stream h) 1 '''' 0 t fs db1"
      by (cases "NewID (ou_now out) (ou_tick_random out)"; cases "resolveRequest f stream") (auto simp: Fetch_def RecordTick_def Let_def)
    then show "0 \<le> tick_attempts (fr_tick r) \<and> tick_attempts (fr_tick r) \<le> re_attempts (ht_retry (cf_http (fe_cfg f)))"
    proof cases
      case refused
      with assms(2) show ?thesis by simp
    next
      case tried
      with fetch_attempts_count [of 1 f out source stream "fe_url_string f u" "request_header f stream h" "''''" 0 t fs db1] assms(2)
      show ?thesis by simp
    qed
  qed
qed

section \<open>A commit that succeeds\<close>

lemma run_commit_done: "run_commit sc n ws fs = (fs', None) \<Longrightarrow> do_writes ws fs = Inr fs' \<and> writes_done ws fs = length ws"
  by (induction ws arbitrary: n fs) (auto split: sum.splits)

lemma tree_put:
  assumes "tree_fs fs" "real_dirs fs d" "d \<noteq> []" "map_of fs (d @ [x]) = None"
  shows "tree_fs (fs_put (d @ [x]) (Reg b) fs)"
  unfolding tree_fs_def
proof (intro allI impI)
  fix p c assume n: "map_of (fs_put (d @ [x]) (Reg b) fs) (p @ [c]) \<noteq> None"
  have dir: "map_of fs d = Some Directory" using assms(2,3) by (cases d rule: rev_cases) (simp_all add: real_dirs_snoc)
  show "p = [] \<or> map_of (fs_put (d @ [x]) (Reg b) fs) p = Some Directory"
  proof (cases "p @ [c] = d @ [x]")
    case True
    then show ?thesis using dir by simp
  next
    case False
    then have m: "map_of fs (p @ [c]) \<noteq> None" using n by (auto split: if_splits)
    then have "p = [] \<or> map_of fs p = Some Directory" using assms(1) m unfolding tree_fs_def by blast
    moreover have "p \<noteq> d @ [x]"
      using m tree_none_below [OF assms(1,4), of "[c]"] by auto
    ultimately show ?thesis by simp
  qed
qed

lemma plan_dirs:
  assumes "plan_commit encode s sg c loc fs0 = (Inr plan, fs)"
  shows "\<exists>d. safePath fs0 (rs_root s) (capture_dir (cap_source c) (cap_stream c) (cap_archive_date c) (local_hour loc (cap_scheduled c))) = Inr d \<and>
    os_mkdirall d fs0 = Inr fs"
  using assms by (auto simp: plan_commit_def Let_def split: if_splits sum.splits)

lemma commit_done:
  assumes cm: "Commit encode s sg c loc fs0 = (Inr c', fs')" and st: "store_at s rcs fs0" and tree: "tree_fs fs0"
    and sg: "sg_path sg = abs_path (rcs @ [''staging'', tmp])" "plain_comp tmp" "map_of fs0 ((rcs @ [''staging'']) @ [tmp]) = Some (Reg body)"
    and hr: "hr = local_hour loc (cap_scheduled c)" and pl: "plain_capture (c\<lparr>cap_sha256 := sg_sha256 sg\<rparr>) hr"
    and tmp: "tmp \<noteq> cap_id c @ ''.pb.tmp''" "tmp \<noteq> cap_id c @ ''.json.tmp''"
    and fresh: "map_of fs0 (at_raw rcs (c\<lparr>cap_sha256 := sg_sha256 sg\<rparr>) hr) = None" "map_of fs0 (at_sidecar rcs (c\<lparr>cap_sha256 := sg_sha256 sg\<rparr>) hr) = None"
      "map_of fs0 (at_raw_tmp rcs c) = None" "map_of fs0 (at_sidecar_tmp rcs c) = None"
  shows "map_of fs' (rcs @ comps (cap_raw_path c')) = Some (Reg body) \<and> map_of fs' (rcs @ comps (cap_sidecar_path c')) = Some (Reg (encode c')) \<and>
    c' = c\<lparr>cap_raw_path := cap_raw_path c', cap_sidecar_path := cap_sidecar_path c', cap_sha256 := sg_sha256 sg, cap_decoded_length := sg_size sg\<rparr> \<and>
    path_after_commit encode s sg c loc fs0 = ''''"
proof -
  obtain plan fs where plan: "plan_commit encode s sg c loc fs0 = (Inr plan, fs)" and run: "run_commit (pl_sidecar_staged plan) 0 (pl_writes plan) fs = (fs', None)"
    and c': "c' = pl_capture plan"
    using cm by (auto simp: Commit_def split: prod.splits sum.splits option.splits)
  note p = plan_commit_ok [OF plan, unfolded Let_def, folded c']
  define c2 where "c2 = c\<lparr>cap_sha256 := sg_sha256 sg\<rparr>"
  have same: "dir_comps c' hr = dir_comps c2 hr" "raw_name c' = raw_name c2" "sidecar_name c' = sidecar_name c2" "cap_id c' = cap_id c" "cap_id c2 = cap_id c"
    "cap_scheduled c' = cap_scheduled c"
    using p by (simp_all add: c2_def dir_comps_def raw_name_def sidecar_name_def)
  have plain: "plain_capture c' hr" using pl unfolding c2_def [symmetric] by (simp add: plain_capture_def same)
  have pld: "\<forall>x \<in> set (dir_comps c' hr). plain_comp x" using plain by (simp add: plain_capture_def)
  have ne: "dir_comps c' hr \<noteq> []" by (simp add: dir_comps_def)
  have pr: "\<forall>x \<in> set rcs. plain_comp x" and sd: "real_dirs fs0 (rcs @ [''staging''])" and nil: "map_of fs0 [] = None" and root: "rs_root s = abs_path rcs"
    using st by (simp_all add: store_at_def)
  have rd: "real_dirs fs0 rcs" by (rule real_dirs_append [OF sd])
  obtain d where d: "safePath fs0 (rs_root s) (capture_dir (cap_source c) (cap_stream c) (cap_archive_date c) hr) = Inr d" "os_mkdirall d fs0 = Inr fs"
    using plan_dirs [OF plan] unfolding hr by blast
  have rel: "capture_dir (cap_source c) (cap_stream c) (cap_archive_date c) hr = join_with ''/'' (dir_comps c' hr)"
  proof -
    have "capture_dir (cap_source c) (cap_stream c) (cap_archive_date c) hr = Join (dir_comps c' hr)" using p by (simp add: capture_dir_def dir_comps_def)
    then show ?thesis using Join_plain [OF ne pld] by simp
  qed
  note sh = safePath_shape [OF pr d(1) [unfolded root rel], unfolded comps_join_plain [OF pld]]
  have "no_links fs0 rcs (dir_comps c' hr)" by (rule check_parts_no_links [OF sh(4) rd tree]) (use pr pld in auto)
  moreover have "comps d = rcs @ dir_comps c' hr" unfolding sh(3) by (rule comps_abs_path) (use pr pld in auto)
  ultimately have made: "real_dirs fs (rcs @ dir_comps c' hr)" "made_dirs (rcs @ dir_comps c' hr) fs0 fs"
    using mkdirall_reach [OF d(2) _ rd] by blast+
  have old: "map_of fs q = map_of fs0 q" if "\<forall>k \<in> {1..length (rcs @ dir_comps c' hr)}. q \<noteq> take k (rcs @ dir_comps c' hr)" for q
    using made(2) that unfolding made_dirs_def by metis
  have long: "\<forall>k \<in> {1..length (rcs @ dir_comps c' hr)}. (rcs @ dir_comps c' hr) @ [x] \<noteq> take k (rcs @ dir_comps c' hr)" for x
  proof
    fix k assume "k \<in> {1..length (rcs @ dir_comps c' hr)}"
    have "length ((rcs @ dir_comps c' hr) @ [x]) \<noteq> length (take k (rcs @ dir_comps c' hr))" by simp
    then show "(rcs @ dir_comps c' hr) @ [x] \<noteq> take k (rcs @ dir_comps c' hr)" by (rule contrapos_nn) (rule arg_cong)
  qed
  have stg: "\<forall>k \<in> {1..length (rcs @ dir_comps c' hr)}. (rcs @ [''staging'']) @ [x] \<noteq> take k (rcs @ dir_comps c' hr)" for x
  proof
    fix k assume "k \<in> {1..length (rcs @ dir_comps c' hr)}"
    show "(rcs @ [''staging'']) @ [x] \<noteq> take k (rcs @ dir_comps c' hr)"
    proof
      assume eq: "(rcs @ [''staging'']) @ [x] = take k (rcs @ dir_comps c' hr)"
      from arg_cong [OF eq, of length] have "k > length rcs" by (simp add: min_def split: if_splits)
      then have "''staging'' # [x] = take (k - length rcs) (dir_comps c' hr)" using eq by simp
      then show False by (cases "k - length rcs") (auto simp: dir_comps_def)
    qed
  qed
  have nil1: "map_of fs [] = None" using old [of "[]"] nil by (auto simp: dir_comps_def)
  have st1: "store_at s rcs fs" by (rule store_at_kept [OF st made_dirs_kept [OF made(2)] nil1])
  have set: "commit_setting s rcs sg tmp c' hr body fs"
    unfolding commit_setting_def
    using st1 made(1) sg tmp fresh old [OF long] old [OF stg] unfolding c2_def [symmetric] by (simp add: at_defs same)
  have hr': "hr = local_hour loc (cap_scheduled c')" using hr same by simp
  obtain w1 w2 w3 w4 w5 where ws: "pl_writes plan = [w1, w2, w3, w4, w5]" using plan_has_five [OF plan] by blast
  note cs = commit_states [OF plan c' plain hr' set ws] and lk = after_lookups [OF set]
  note fin = run_commit_done [OF run]
  have "fs' = after5 rcs tmp c' hr body (encode c') fs" using fin by (simp add: ws cs)
  then have pair: "pair_in_place rcs c' hr body (encode c') fs'" using lk(14) by simp
  have i: "cap_source c = cap_source c'" "cap_stream c = cap_stream c'" "cap_archive_date c = cap_archive_date c'" using p by simp_all
  have rp: "cap_raw_path c' = join_with ''/'' (dir_comps c' hr @ [raw_name c'])" "cap_sidecar_path c' = join_with ''/'' (dir_comps c' hr @ [sidecar_name c'])"
    using p plain_paths [OF plain] unfolding hr [symmetric] i by simp_all
  have cp: "comps (cap_raw_path c') = dir_comps c' hr @ [raw_name c']" "comps (cap_sidecar_path c') = dir_comps c' hr @ [sidecar_name c']"
    unfolding rp by (rule comps_join_plain; use plain in \<open>auto simp: plain_capture_def\<close>)+
  have "writes_done (pl_writes plan) fs = 5" using fin by (simp add: ws)
  then have path: "path_after_commit encode s sg c loc fs0 = ''''" by (simp add: path_after_commit_def plan)
  have "c' = c\<lparr>cap_raw_path := cap_raw_path c', cap_sidecar_path := cap_sidecar_path c', cap_sha256 := sg_sha256 sg, cap_decoded_length := sg_size sg\<rparr>"
    using plan c' by (auto simp: plan_commit_def Let_def simp del: Join.simps split: if_splits sum.splits)
  then show ?thesis using pair cp path by (simp add: pair_in_place_def at_defs)
qed

section \<open>A captured response\<close>

lemma slash_hex_encode: "CHR ''/'' \<notin> set (hex_encode bs)"
proof -
  have "list_all (\<lambda>d. hex_digit d \<noteq> CHR ''/'') [0..<16]" by code_simp
  then have h: "hex_digit d \<noteq> CHR ''/''" if "d < 16" for d using that by (simp add: list_all_iff)
  have "of_char c div 16 < (16::nat)" "of_char c mod 16 < (16::nat)" for c :: char
    using nat_of_char_less_256 [of c] by (simp_all add: less_mult_imp_div_less)
  then show ?thesis using h by (auto simp: hex_encode_def dest: sym)
qed

lemma slash_NewID: "NewID t r = Inr i \<Longrightarrow> CHR ''/'' \<notin> set i"
proof -
  assume "NewID t r = Inr i"
  then obtain bs where i: "i = id_stamp t @ hex_encode bs" by (auto simp: NewID_def split: option.splits)
  obtain y m dm where "civil_of_day (t div second div 86400) = (y, m, dm)" by (metis prod.collapse)
  then have "CHR ''/'' \<notin> set (id_stamp t)"
    using slash_pad_dec slash_nat_str by (simp add: id_stamp_def Let_def year_str_def zero_pad_def)
  then show ?thesis using slash_hex_encode by (simp add: i)
qed

text \<open>Where a poll runs: a store whose root and staging directory are real, identifiers without a slash, a
  hash in hexadecimal, temporary names that are plain, and random capture ids that no file carries.\<close>

definition fetch_setting :: "fetcher \<Rightarrow> outside \<Rightarrow> source_cfg \<Rightarrow> stream_cfg \<Rightarrow> string list \<Rightarrow> fs \<Rightarrow> bool" where
  "fetch_setting f out source stream rcs fs \<longleftrightarrow> store_at (fe_raw f) rcs fs \<and> tree_fs fs \<and> (\<forall>b. is_hex (fe_sha f b)) \<and>
     CHR ''/'' \<notin> set (src_id source) \<and> CHR ''/'' \<notin> set (sm_id stream) \<and> (\<forall>k. plain_comp (ou_temp_name out k)) \<and>
     (\<forall>k i. NewID (ou_completed out k) (ou_capture_random out k) = Inr i \<longrightarrow> \<not> has_prefix (ou_temp_name out k) i \<and>
        (\<forall>p. map_of fs p \<noteq> None \<longrightarrow> p = [] \<or> \<not> has_prefix (last p) i))"

lemma stage_ok:
  assumes "Stage sha s tmp body err n fs = Inr (sg, fs1)" "\<not> sg_too_large sg" "store_at s rcs fs" "plain_comp tmp"
  shows "sg_path sg = abs_path (rcs @ [''staging'', tmp])" "sg_sha256 sg = sha body" "sg_size sg = int (length body)"
    "sg_read_err sg = err" "map_of fs ((rcs @ [''staging'']) @ [tmp]) = None"
    "fs1 = fs_put ((rcs @ [''staging'']) @ [tmp]) (Reg body) (fs_put ((rcs @ [''staging'']) @ [tmp]) (Reg []) fs)"
proof -
  let ?q = "(rcs @ [''staging'']) @ [tmp]" and ?path = "Join [rs_staging s, tmp]"
  have sd: "real_dirs fs (rcs @ [''staging''])" and nil: "map_of fs [] = None" using assms(3) by (simp_all add: store_at_def)
  note path = staging_path [OF assms(3,4)]
  obtain fs2 where c: "os_create_excl ?path fs = Inr fs2" using assms(1) by (auto simp: Stage_def Let_def split: sum.splits)
  have new: "map_of fs ?q = None" and fs2: "fs2 = fs_put ?q (Reg []) fs"
    using c entry_place_real [OF path(2) sd nil] by (auto simp: os_create_excl_def split: option.splits)
  have sd2: "real_dirs fs2 (rcs @ [''staging''])" unfolding fs2 by (rule only_below_real [OF only_below_put _ sd]) simp
  have wr: "os_write ?path b fs2 = Inr (fs_put ?q (Reg b) fs2)" for b
    by (rule write_file [OF path(2) sd2]) (simp add: fs2)
  have small: "length body \<le> nat n" and nn: "0 \<le> n" and lim: "length (take (nat (n + 1)) body) \<le> nat n"
  proof -
    have "\<not> int (length (take (nat (n + 1)) body)) > n"
      using assms(1,2) c wr by (auto simp: Stage_def Let_def simp del: Join.simps split: if_splits)
    then show "length body \<le> nat n" "0 \<le> n" "length (take (nat (n + 1)) body) \<le> nat n" by (auto simp: min_def split: if_splits)
  qed
  have t: "take (nat (n + 1)) body = body" using small nn by simp
  have "\<not> length body \<ge> nat (n + 1)" using small nn by linarith
  then have "sg = \<lparr>sg_path = ?path, sg_size = int (length body), sg_sha256 = sha body, sg_too_large = False, sg_read_err = err\<rparr>"
      "fs1 = fs_put ?q (Reg body) fs2"
    using assms(1,2) c wr t by (auto simp: Stage_def Let_def simp del: Join.simps split: if_splits)
  with path(1) new fs2 show "sg_path sg = abs_path (rcs @ [''staging'', tmp])" "sg_sha256 sg = sha body" "sg_size sg = int (length body)"
    "sg_read_err sg = err" "map_of fs ?q = None" "fs1 = fs_put ?q (Reg body) (fs_put ?q (Reg []) fs)"
    by (simp_all del: Join.simps)
qed

lemma has_prefix_cat: "has_prefix (i @ x) i"
  by (simp add: has_prefix_def)

lemma captureResponse_durable:
  assumes cr: "captureResponse f out source stream t resp k fs = (Inr c, fs')" and set: "fetch_setting f out source stream rcs fs"
  shows "\<exists>body err serr n. decoded_body f (to_lower (trim_space (header_Get (rsp_header resp) ''Content-Encoding''))) resp = (body, err, serr, n) \<and>
    map_of fs' (rcs @ comps (cap_raw_path c)) = Some (Reg body) \<and> map_of fs' (rcs @ comps (cap_sidecar_path c)) = Some (Reg (fe_sidecar f c)) \<and>
    cap_sha256 c = fe_sha f body \<and> cap_decoded_length c = int (length body) \<and>
    cap_parse_status c = meta_parse_status (Decode (fe_decoder f) body (sm_kind stream) (ou_completed out k)) \<and>
    (cap_transport_complete c \<longleftrightarrow> serr = None \<and> err = None \<and> \<not> (rsp_content_length resp \<ge> 0 \<and> n \<noteq> rsp_content_length resp))"
proof -
  define enc where "enc = to_lower (trim_space (header_Get (rsp_header resp) ''Content-Encoding''))"
  obtain body err serr n where b: "decoded_body f enc resp = (body, err, serr, n)" by (metis prod.exhaust)
  have st: "store_at (fe_raw f) rcs fs" and tree: "tree_fs fs" and hex: "is_hex (fe_sha f x)" and tmp: "plain_comp (ou_temp_name out k)"
    and ids: "CHR ''/'' \<notin> set (src_id source)" "CHR ''/'' \<notin> set (sm_id stream)" for x
    using set by (simp_all add: fetch_setting_def)
  obtain sg fs1 where stage: "Stage (fe_sha f) (fe_raw f) (ou_temp_name out k) body err (EffectiveMaxBytes stream (cf_http (fe_cfg f))) fs = Inr (sg, fs1)"
    and small: "\<not> sg_too_large sg"
    using cr b by (auto simp: captureResponse_def Let_def simp flip: enc_def split: sum.splits if_splits)
  note so = stage_ok [OF stage small st tmp]
  let ?q = "(rcs @ [''staging'']) @ [ou_temp_name out k]"
  have sd: "real_dirs fs (rcs @ [''staging''])" using st by (simp add: store_at_def)
  have at: "map_of fs1 ?q = Some (Reg body)" "map_of fs1 p = (if p = ?q then Some (Reg body) else map_of fs p)" for p
    by (simp_all add: so(6))
  have tree1: "tree_fs fs1" unfolding so(6) using tree_put [OF tree sd _ so(5), of body] by (simp add: tree_fs_def)
  have sd1: "real_dirs fs1 (rcs @ [''staging''])"
    by (rule only_below_real [OF _ _ sd, of "rcs @ [''staging'']"]) (simp_all add: so(6) only_below_def)
  have st1: "store_at (fe_raw f) rcs fs1" using st sd1 at(2) by (simp add: store_at_def)
  have plainq: "\<forall>x \<in> set (rcs @ [''staging'', ou_temp_name out k]). plain_comp x" using st tmp by (auto simp: store_at_def plain_comp_def)
  have "comps (sg_path sg) = ?q" unfolding so(1) using comps_abs_path [OF plainq] by simp
  then have rd: "os_readfile fs1 (sg_path sg) = Inr body" by (rule read_file [OF _ sd1 at(1)])
  obtain r path fs2 where cs: "capture_staged f out source stream t resp k enc serr n sg fs1 = (r, path, fs2)" by (metis prod.exhaust)
  have r: "r = Inr c" "fs' = snd (Abort (sg\<lparr>sg_path := path\<rparr>) fs2)"
    using cr b stage small cs by (auto simp: captureResponse_def Let_def simp flip: enc_def)
  obtain i sanitized loc where id: "NewID (ou_completed out k) (ou_capture_random out k) = Inr i" and
    cm: "Commit (fe_sidecar f) (fe_raw f) sg (response_capture f out source stream t resp k enc (transport_complete resp sg serr n) n body loc i sanitized) loc fs1 = (Inr c, fs2)"
    and path: "path = path_after_commit (fe_sidecar f) (fe_raw f) sg (response_capture f out source stream t resp k enc (transport_complete resp sg serr n) n body loc i sanitized) loc fs1"
    using cs r(1) rd by (auto simp: capture_staged_def Let_def split: sum.splits option.splits prod.splits)
  define c0 where "c0 = response_capture f out source stream t resp k enc (transport_complete resp sg serr n) n body loc i sanitized"
  define hr where "hr = local_hour loc (cap_scheduled c0)"
  have c0: "cap_id c0 = i" "cap_source c0 = src_id source" "cap_stream c0 = sm_id stream" "cap_archive_date c0 = local_date loc (tick_scheduled t)"
    "cap_parse_status c0 = meta_parse_status (Decode (fe_decoder f) body (sm_kind stream) (ou_completed out k))"
    "cap_transport_complete c0 = transport_complete resp sg serr n"
    by (simp_all add: c0_def response_capture_def Let_def)
  have fresh: "\<not> has_prefix (ou_temp_name out k) i" "\<And>p x. map_of fs (p @ [i @ x]) = None"
  proof -
    have f: "\<not> has_prefix (ou_temp_name out k) i \<and> (\<forall>p. map_of fs p \<noteq> None \<longrightarrow> p = [] \<or> \<not> has_prefix (last p) i)"
      using set id unfolding fetch_setting_def by blast
    then show "\<not> has_prefix (ou_temp_name out k) i" by blast
    show "map_of fs (p @ [i @ x]) = None" for p x
    proof (rule ccontr)
      assume "map_of fs (p @ [i @ x]) \<noteq> None"
      with f [THEN conjunct2, rule_format, of "p @ [i @ x]"] have "p @ [i @ x] = [] \<or> \<not> has_prefix (last (p @ [i @ x])) i" by blast
      then show False using has_prefix_cat by simp
    qed
  qed
  have none: "map_of fs1 (p @ [i @ x]) = None" for p x
  proof -
    have "i @ x \<noteq> ou_temp_name out k" using fresh(1) has_prefix_cat [of i x] by metis
    then show ?thesis using fresh(2) by (simp add: at(2))
  qed
  have taken: "q \<noteq> [] \<Longrightarrow> has_prefix (last q) i \<Longrightarrow> map_of fs1 q = None" for q
    using none [of "butlast q"] unfolding has_prefix_iff by (metis append_butlast_last_id)
  have si: "CHR ''/'' \<notin> set i" by (rule slash_NewID [OF id])
  have "CHR ''/'' \<notin> set hr" by (simp add: hr_def local_hour_def slash_pad_dec)
  moreover have "CHR ''/'' \<notin> set (local_date loc (tick_scheduled t))" by (simp add: local_date_def slash_date_only)
  moreover have "CHR ''/'' \<notin> set (i @ ''_'' @ take 12 (fe_sha f body))"
    using si slash_hex [OF hex] by (auto dest: in_set_takeD)
  ultimately have pl: "plain_capture (c0\<lparr>cap_sha256 := sg_sha256 sg\<rparr>) hr"
    using ids si plain_with_tail(1) [of "i @ ''_'' @ take 12 (fe_sha f body)"] plain_with_tail(1) [of i] plain_with_tail(2)
    by (simp add: plain_capture_def dir_comps_def raw_name_def sidecar_name_def capture_base_def c0 so(2)) (simp add: plain_comp_def)
  have nt: "ou_temp_name out k \<noteq> cap_id c0 @ x" for x using fresh(1) has_prefix_cat [of i x] unfolding c0 by metis
  note done1 = commit_done [OF cm [folded c0_def] st1 tree1 so(1) tmp at(1) hr_def pl nt nt]
  have fin: "map_of fs2 (rcs @ comps (cap_raw_path c)) = Some (Reg body) \<and> map_of fs2 (rcs @ comps (cap_sidecar_path c)) = Some (Reg (fe_sidecar f c)) \<and>
      c = c0\<lparr>cap_raw_path := cap_raw_path c, cap_sidecar_path := cap_sidecar_path c, cap_sha256 := sg_sha256 sg, cap_decoded_length := sg_size sg\<rparr> \<and>
      path_after_commit (fe_sidecar f) (fe_raw f) sg c0 loc fs1 = ''''"
    by (rule done1; rule taken) (simp_all add: at_defs raw_name_def sidecar_name_def capture_base_def c0)
  have "fs' = fs2" using r(2) fin path unfolding c0_def by (simp add: Abort_def)
  obtain a b' where ceq: "c = c0\<lparr>cap_raw_path := a, cap_sidecar_path := b', cap_sha256 := sg_sha256 sg, cap_decoded_length := sg_size sg\<rparr>"
    using fin by blast
  have "cap_sha256 c = fe_sha f body" "cap_decoded_length c = int (length body)" "cap_parse_status c = cap_parse_status c0"
    "cap_transport_complete c = cap_transport_complete c0"
    unfolding ceq by (simp_all add: so(2,3))
  moreover have "transport_complete resp sg serr n \<longleftrightarrow> serr = None \<and> err = None \<and> \<not> (rsp_content_length resp \<ge> 0 \<and> n \<noteq> rsp_content_length resp)"
    by (simp add: transport_complete_def so(4))
  ultimately show ?thesis using fin b unfolding \<open>fs' = fs2\<close> enc_def [symmetric] c0(5,6) by blast
qed

end
