(* ===== verification/Fetch_Outcome.thy ===== *)
theory Fetch_Outcome
  imports Fetch_Props
begin

text \<open>
  How a poll ends: one row for the poll on every path, the capture row with it when the response was
  archived, and the archived files behind that row.
\<close>

section \<open>The two ends\<close>

text \<open>The loop ends in finishFailure or with a response whose status is 2xx.\<close>

definition poll_end :: "fetcher \<Rightarrow> outside \<Rightarrow> source_cfg \<Rightarrow> stream_cfg \<Rightarrow> tick \<Rightarrow> fs \<Rightarrow> db \<Rightarrow> fetch_result \<Rightarrow> bool" where
  "poll_end f out source stream t fs db r \<longleftrightarrow>
     (\<exists>n category detail status. r = finishFailure out (t\<lparr>tick_attempts := n\<rparr>) category detail status n fs db) \<or>
     (\<exists>n resp target header. ou_do out n target header = Inr resp \<and> 200 \<le> rsp_status resp \<and> rsp_status resp < 300 \<and>
        r = finish_capture f out source stream (t\<lparr>tick_attempts := n\<rparr>) resp n fs db)"

lemma poll_end_failure: "poll_end f out source stream t fs db (finishFailure out (t\<lparr>tick_attempts := m\<rparr>) c d st n fs db)"
proof -
  have "finishFailure out (t\<lparr>tick_attempts := m\<rparr>) c d st n fs db = finishFailure out (t\<lparr>tick_attempts := n\<rparr>) c d st n fs db"
    by (simp add: finishFailure_def)
  then show ?thesis unfolding poll_end_def by blast
qed

lemma poll_end_failure_same: "poll_end f out source stream t fs db (finishFailure out t c d st n fs db)"
  using poll_end_failure [of f out source stream t fs db "tick_attempts t"] by simp

lemma poll_end_attempts: "poll_end f out source stream (t\<lparr>tick_attempts := n\<rparr>) fs db r \<Longrightarrow> poll_end f out source stream t fs db r"
  by (simp add: poll_end_def)

lemma attempts_end: "poll_end f out source stream t fs db (fetch_attempts f out source stream target header attempt c st t fs db)"
proof (induction f out source stream target header attempt c st t fs db rule: fetch_attempts.induct)
  case (1 f out source stream target header attempt c st t fs db)
  let ?n = "re_attempts (ht_retry (cf_http (fe_cfg f)))"
  show ?case
  proof (cases "attempt > ?n \<or> \<not> fe_new_request f target")
    case True
    then show ?thesis by (auto simp: fetch_attempts.simps [of f out] Let_def poll_end_failure poll_end_failure_same)
  next
    case ok: False
    show ?thesis
    proof (cases "ou_do out attempt target header")
      case (Inl e)
      show ?thesis using ok Inl poll_end_attempts [OF "1.IH"(1) [OF refl refl _ refl _ Inl refl]]
        by (auto simp: fetch_attempts.simps [of f out] Let_def poll_end_failure split: option.splits)
    next
      case (Inr resp)
      have cap: "200 \<le> rsp_status resp \<Longrightarrow> rsp_status resp < 300 \<Longrightarrow>
          poll_end f out source stream t fs db (finish_capture f out source stream (t\<lparr>tick_attempts := attempt\<rparr>) resp attempt fs db)"
        unfolding poll_end_def using Inr by blast
      show ?thesis using ok Inr cap poll_end_attempts [OF "1.IH"(2) [OF refl refl _ refl _ Inr]]
        by (auto simp: fetch_attempts.simps [of f out] Let_def poll_end_failure not_less not_le split: option.splits)
    qed
  qed
qed

lemma Fetch_end:
  assumes "Fetch f out source stream sched fs db = Inr r"
  obtains i where "NewID (ou_now out) (ou_tick_random out) = Inr i"
    "poll_end f out source stream (started_tick f out source stream i sched) fs (put_tick (started_tick f out source stream i sched) db) r"
proof -
  obtain i where i: "NewID (ou_now out) (ou_tick_random out) = Inr i"
    using assms by (cases "NewID (ou_now out) (ou_tick_random out)") (auto simp: Fetch_def)
  show thesis
    by (rule that [OF i]) (use assms i in \<open>auto simp: Fetch_def Let_def RecordTick_def attempts_end poll_end_failure_same split: sum.splits\<close>)
qed

section \<open>One row for every poll\<close>

lemma put_tick_new: "tick_id t \<notin> tick_id ` set (db_ticks db) \<Longrightarrow> put_tick t db = db\<lparr>db_ticks := db_ticks db @ [tick_to_row t]\<rparr>"
  by (simp add: put_tick_def upsert_def tick_to_row_def)

lemma put_tick_again:
  assumes "tick_id t \<notin> tick_id ` set (db_ticks db)" "tick_id t' = tick_id t" "tick_source t' = tick_source t" "tick_stream t' = tick_stream t"
    "tick_scheduled t' = tick_scheduled t" "tick_fingerprint t' = tick_fingerprint t"
  shows "put_tick t' (put_tick t db) = db\<lparr>db_ticks := db_ticks db @ [tick_to_row t']\<rparr>"
proof -
  have "update_where (\<lambda>x. tick_id x = tick_id t) (\<lambda>x. merge_tick x (tick_to_row t')) (db_ticks db) = db_ticks db"
    unfolding update_where_def by (rule map_idI) (use assms(1) in \<open>force simp: image_iff\<close>)
  then show ?thesis using assms
    by (simp add: put_tick_new) (simp add: put_tick_def upsert_def update_where_def tick_to_row_def merge_tick_def)
qed

lemma failure_row:
  assumes "tick_id t \<notin> tick_id ` set (db_ticks db)" "r = finishFailure out (t\<lparr>tick_attempts := m\<rparr>) c d st n fs (put_tick t db)"
  shows "fr_capture r = None \<and> fr_error r \<noteq> None \<and> tick_id (fr_tick r) = tick_id t \<and> tick_result (fr_tick r) \<in> set [''failed'', ''cancelled''] \<and>
    fr_db r = db\<lparr>db_ticks := db_ticks db @ [tick_to_row (fr_tick r)]\<rparr>"
  by (simp add: assms(2) finishFailure_def Let_def RecordTick_def put_tick_again [OF assms(1)])

lemma insert_capture_row: "insert_capture c db = Inr db' \<Longrightarrow> db' = db\<lparr>db_captures := db_captures db @ [c]\<rparr>"
  by (auto simp: insert_capture_def unique_insert_def split: if_splits)

lemma capture_names:
  assumes "captureResponse f out source stream t resp n fs = (Inr c, fs')"
  shows "cap_tick_id c = tick_id t \<and> cap_source c = src_id source \<and> cap_stream c = sm_id stream \<and> cap_http_status c = rsp_status resp"
proof -
  have staged: "cap_tick_id c = tick_id t \<and> cap_source c = src_id source \<and> cap_stream c = sm_id stream \<and> cap_http_status c = rsp_status resp"
    if cs: "capture_staged f out source stream t resp n enc e k sg fs1 = (Inr c, p, fs2)" for enc e k sg fs1 p fs2
  proof -
    obtain w body loc i u where cm: "Commit (fe_sidecar f) (fe_raw f) sg (response_capture f out source stream t resp n enc w k body loc i u) loc fs1 = (Inr c, fs2)"
      using cs by (auto simp: capture_staged_def Let_def split: sum.splits option.splits prod.splits)
    obtain plan fs' where plan: "plan_commit (fe_sidecar f) (fe_raw f) sg (response_capture f out source stream t resp n enc w k body loc i u) loc fs1 = (Inr plan, fs')"
      and c: "c = pl_capture plan" using cm by (auto simp: Commit_def split: prod.splits sum.splits option.splits)
    show ?thesis using plan c
      by (auto simp: plan_commit_def response_capture_def Let_def simp del: Join.simps split: if_splits sum.splits)
  qed
  show ?thesis using assms
    by (auto simp: captureResponse_def Let_def split: prod.splits sum.splits if_splits dest: staged)
qed

text \<open>What a result says of a poll that was announced by the row of \<open>t\<close>.\<close>

definition poll_recorded :: "tick \<Rightarrow> db \<Rightarrow> fetch_result \<Rightarrow> bool" where
  "poll_recorded t db r \<longleftrightarrow> tick_id (fr_tick r) = tick_id t \<and>
     (case fr_capture r of
        None \<Rightarrow> fr_error r \<noteq> None \<and> tick_result (fr_tick r) \<in> set [''failed'', ''cancelled''] \<and>
          fr_db r = db\<lparr>db_ticks := db_ticks db @ [tick_to_row (fr_tick r)]\<rparr>
      | Some c \<Rightarrow> cap_tick_id c = tick_id t \<and>
          tick_result (fr_tick r) = (if cap_parse_status c = ''valid'' \<and> cap_transport_complete c then ''captured'' else ''captured_invalid'') \<and>
          (if fr_error r = None
           then fr_db r = db\<lparr>db_ticks := db_ticks db @ [tick_to_row (fr_tick r)], db_captures := db_captures db @ [capture_to_row c]\<rparr>
           else fr_db r = db\<lparr>db_ticks := db_ticks db @ [tick_to_row t]\<rparr>))"

lemma SaveCapture_row:
  assumes "SaveCapture t' c (put_tick t db) = Inr db'" "tick_id t \<notin> tick_id ` set (db_ticks db)" "tick_id t' = tick_id t"
    "tick_source t' = tick_source t" "tick_stream t' = tick_stream t" "tick_scheduled t' = tick_scheduled t" "tick_fingerprint t' = tick_fingerprint t"
  shows "db' = db\<lparr>db_ticks := db_ticks db @ [tick_to_row t'], db_captures := db_captures db @ [capture_to_row c]\<rparr>"
  using assms(1) unfolding SaveCapture_def put_tick_again [OF assms(2-)] by (auto split: sum.splits dest!: insert_capture_row)

lemma capture_recorded:
  assumes "tick_id t \<notin> tick_id ` set (db_ticks db)"
    and "r = finish_capture f out source stream (t\<lparr>tick_attempts := n\<rparr>) resp n fs (put_tick t db)"
  shows "poll_recorded t db r"
proof (cases "captureResponse f out source stream (t\<lparr>tick_attempts := n\<rparr>) resp n fs")
  case (Pair res fs1)
  have fail: "poll_recorded t db (finishFailure out (t\<lparr>tick_attempts := n\<rparr>) c d st n fs1 (put_tick t db))" for c d st
    using failure_row [OF assms(1) refl] by (simp add: poll_recorded_def)
  show ?thesis
  proof (cases res)
    case (Inl e)
    then show ?thesis using Pair fail by (simp add: assms(2) finish_capture_def)
  next
    case (Inr c)
    note names = capture_names [OF Pair [unfolded Inr]]
    define t' where "t' = t\<lparr>tick_attempts := n, tick_finished := Some (cap_completed c), tick_http_status := rsp_status resp,
      tick_result := (if cap_parse_status c \<noteq> ''valid'' \<or> \<not> cap_transport_complete c then ''captured_invalid'' else ''captured'')\<rparr>"
    have t': "tick_id t' = tick_id t" "tick_source t' = tick_source t" "tick_stream t' = tick_stream t" "tick_scheduled t' = tick_scheduled t"
      "tick_fingerprint t' = tick_fingerprint t"
      "tick_result t' = (if cap_parse_status c = ''valid'' \<and> cap_transport_complete c then ''captured'' else ''captured_invalid'')"
      by (simp_all add: t'_def)
    show ?thesis
    proof (cases "SaveCapture t' c (put_tick t db)")
      case e: (Inl e)
      then have "r = \<lparr>fr_tick = t', fr_capture = Some c, fr_error = Some (err_wrap ''capture files committed but state update failed'' e), fr_fs = fs1, fr_db = put_tick t db\<rparr>"
        using Pair Inr by (simp add: assms(2) finish_capture_def Let_def t'_def)
      then show ?thesis using names by (simp add: poll_recorded_def t' put_tick_new [OF assms(1)])
    next
      case db': (Inr db')
      then have "r = \<lparr>fr_tick = t', fr_capture = Some c, fr_error = None, fr_fs = fs1, fr_db = db'\<rparr>"
        using Pair Inr by (simp add: assms(2) finish_capture_def Let_def t'_def)
      then show ?thesis using names SaveCapture_row [OF db' assms(1) t'(1-5)] by (simp add: poll_recorded_def t')
    qed
  qed
qed

text \<open>C36. A poll leaves exactly one row for itself, under a new identifier: with its capture when the response
  was archived, as failed or cancelled, with an error, when it was not. When the files of the capture are
  in place and only its row is refused, the poll stays recorded as running and the error is reported: that
  capture is left to the reconciliation of the next start.\<close>

theorem fetch_outcome:
  assumes "Fetch f out source stream sched fs db = Inr r"
    and "NewID (ou_now out) (ou_tick_random out) = Inr i" "i \<notin> tick_id ` set (db_ticks db)"
  shows "poll_recorded (started_tick f out source stream i sched) db r"
proof -
  let ?t = "started_tick f out source stream i sched"
  have new: "tick_id ?t \<notin> tick_id ` set (db_ticks db)" using assms(3) by (simp add: started_tick_def)
  have "poll_end f out source stream ?t fs (put_tick ?t db) r" using Fetch_end [OF assms(1)] assms(2) by (metis sum.inject(2))
  then consider (failed) n c d st where "r = finishFailure out (?t\<lparr>tick_attempts := n\<rparr>) c d st n fs (put_tick ?t db)"
    | (captured) n resp where "r = finish_capture f out source stream (?t\<lparr>tick_attempts := n\<rparr>) resp n fs (put_tick ?t db)"
    unfolding poll_end_def by blast
  then show ?thesis
  proof cases
    case failed
    from failure_row [OF new failed] show ?thesis by (simp add: poll_recorded_def)
  qed (rule capture_recorded [OF new])
qed

section \<open>What captured means\<close>

text \<open>C37. A poll that reports a capture has its payload and its sidecar on disk, the payload under its own
  hash and length; and it reports \<open>captured\<close> only for a response that arrived whole (no decoding error, as
  many bytes as announced) and decodes as a valid feed.\<close>

theorem captured_durable:
  assumes "Fetch f out source stream sched fs db = Inr r" "fr_capture r = Some c" "fetch_setting f out source stream rcs fs"
  shows "\<exists>body k target header resp err serr n. ou_do out k target header = Inr resp \<and> 200 \<le> rsp_status resp \<and> rsp_status resp < 300 \<and>
    decoded_body f (to_lower (trim_space (header_Get (rsp_header resp) ''Content-Encoding''))) resp = (body, err, serr, n) \<and>
    map_of (fr_fs r) (rcs @ comps (cap_raw_path c)) = Some (Reg body) \<and>
    map_of (fr_fs r) (rcs @ comps (cap_sidecar_path c)) = Some (Reg (fe_sidecar f c)) \<and>
    cap_sha256 c = fe_sha f body \<and> cap_decoded_length c = int (length body) \<and>
    (tick_result (fr_tick r) = ''captured'' \<longleftrightarrow>
       meta_parse_status (Decode (fe_decoder f) body (sm_kind stream) (ou_completed out k)) = ''valid'' \<and>
       serr = None \<and> err = None \<and> (rsp_content_length resp < 0 \<or> n = rsp_content_length resp))"
proof -
  obtain t db1 where pe: "poll_end f out source stream t fs db1 r" using Fetch_end [OF assms(1)] by blast
  have "\<not> r = finishFailure out t' ca d st n fs db1" for t' ca d st n
    using assms(2) by (auto simp: finishFailure_def RecordTick_def Let_def)
  then obtain n resp target header where st: "ou_do out n target header = Inr resp" "200 \<le> rsp_status resp" "rsp_status resp < 300"
    and r: "r = finish_capture f out source stream (t\<lparr>tick_attempts := n\<rparr>) resp n fs db1"
    using pe unfolding poll_end_def by blast
  obtain fs1 where cr: "captureResponse f out source stream (t\<lparr>tick_attempts := n\<rparr>) resp n fs = (Inr c, fs1)"
    and rest: "fr_fs r = fs1" "tick_result (fr_tick r) = (if cap_parse_status c \<noteq> ''valid'' \<or> \<not> cap_transport_complete c then ''captured_invalid'' else ''captured'')"
    using r assms(2) by (auto simp: finish_capture_def finishFailure_def RecordTick_def Let_def split: prod.splits sum.splits if_splits)
  obtain body err serr m where b: "decoded_body f (to_lower (trim_space (header_Get (rsp_header resp) ''Content-Encoding''))) resp = (body, err, serr, m)"
    and d: "map_of fs1 (rcs @ comps (cap_raw_path c)) = Some (Reg body)" "map_of fs1 (rcs @ comps (cap_sidecar_path c)) = Some (Reg (fe_sidecar f c))"
      "cap_sha256 c = fe_sha f body" "cap_decoded_length c = int (length body)"
      "cap_parse_status c = meta_parse_status (Decode (fe_decoder f) body (sm_kind stream) (ou_completed out n))"
      "cap_transport_complete c \<longleftrightarrow> serr = None \<and> err = None \<and> \<not> (rsp_content_length resp \<ge> 0 \<and> m \<noteq> rsp_content_length resp)"
    using captureResponse_durable [OF cr assms(3)] by blast
  have "tick_result (fr_tick r) = ''captured'' \<longleftrightarrow> cap_parse_status c = ''valid'' \<and> cap_transport_complete c" by (simp add: rest(2))
  also have "\<dots> \<longleftrightarrow> meta_parse_status (Decode (fe_decoder f) body (sm_kind stream) (ou_completed out n)) = ''valid'' \<and>
       serr = None \<and> err = None \<and> (rsp_content_length resp < 0 \<or> m = rsp_content_length resp)"
    unfolding d(5,6) by (simp add: not_le)
  finally show ?thesis using st b d(1-4) rest(1) by blast
qed

text \<open>A poll moves the database along calls of the store.\<close>

lemma fetch_calls_store:
  assumes "Fetch f out source stream sched fs db = Inr r"
  shows "store_call\<^sup>*\<^sup>* db (fr_db r)"
proof -
  obtain i where pe: "poll_end f out source stream (started_tick f out source stream i sched) fs (put_tick (started_tick f out source stream i sched) db) r"
    using Fetch_end [OF assms] by blast
  define db1 where "db1 = put_tick (started_tick f out source stream i sched) db"
  have "store_call db db1" by (rule record_tick) (simp add: db1_def RecordTick_def)
  moreover have fail: "store_call\<^sup>*\<^sup>* db1 (fr_db (finishFailure out t c d st n fs' db1))" for t c d st n fs'
    by (rule r_into_rtranclp, rule record_tick) (simp add: finishFailure_def RecordTick_def Let_def)
  moreover have "store_call\<^sup>*\<^sup>* db1 (fr_db (finish_capture f out source stream t resp n fs db1))" for t resp n
    using fail by (auto simp: finish_capture_def Let_def split: prod.splits sum.splits intro: save_capture)
  ultimately show ?thesis using pe unfolding poll_end_def db1_def [symmetric]
    by (metis converse_rtranclp_into_rtranclp)
qed

end
