(* ===== verification/Reconcile_All.thy ===== *)
theory Reconcile_All
  imports Compact
begin

text \<open>
  internal/reconcile/reconcile.go: the raw store's reconciliation, then a walk over the parquet tree
  that checks the revisions the database knows and adopts those it does not. The walk goes through
  the entries in the order of filepath.WalkDir; \<open>ctx n\<close> is the error of the context at the n-th entry.
\<close>

record reconcile_result =
  rr_registered :: nat
  rr_adopted :: nat
  rr_corrupt :: nat
  rr_db :: db
  rr_error :: "go_error option"

text \<open>The row that a manifest describes, before its artifact is filled in.\<close>

definition adopted_base :: "manifest \<Rightarrow> string \<Rightarrow> compaction" where
  "adopted_base m directory =
     \<lparr>cp_id = 0, cp_source = man_source m, cp_stream = man_stream m, cp_archive_date = man_archive_date m,
      cp_revision = man_revision m, cp_status = ''ready'', cp_directory = directory, cp_data_path = '''',
      cp_manifest_path = Join [directory, ''manifest.json''], cp_data_sha256 = '''', cp_data_bytes = 0,
      cp_rows = man_captured_responses m, cp_entities = man_entity_total m, cp_excluded = 0,
      cp_required = man_required_destinations m, cp_created = man_created m, cp_published = None\<rparr>"

text \<open>\<open>None\<close>: more than one artifact, or one that is not a plain name.\<close>

definition adopted_artifact :: "manifest \<Rightarrow> string \<Rightarrow> compaction \<Rightarrow> compaction option" where
  "adopted_artifact m directory c =
     (case man_files m of
        [] \<Rightarrow> Some c
      | [a] \<Rightarrow> if Base (art_path a) \<noteq> art_path a then None
               else Some (c\<lparr>cp_data_path := Join [directory, art_path a], cp_data_sha256 := art_sha256 a,
                            cp_data_bytes := art_bytes a\<rparr>)
      | _ \<Rightarrow> None)"

definition adopted_destinations :: "manifest \<Rightarrow> (string \<times> bool) list" where
  "adopted_destinations m =
     (let ds = fold (\<lambda>d. put_destination (md_id d) (md_required d)) (man_destinations m) []
      in if length (man_destinations m) = 0
         then fold (\<lambda>i. put_destination i True) (man_required_destinations m) ds else ds)"

definition adopted_published :: "config \<Rightarrow> manifest \<Rightarrow> compaction \<Rightarrow> compaction" where
  "adopted_published cfg m c =
     (if length (man_required_destinations m) = 0 \<and> st_local_only_cleanup (cf_storage cfg)
      then c\<lparr>cp_status := ''published'', cp_published := Some (man_created m)\<rparr> else c)"

datatype adoption = NotAManifest | BadRevision | Known | Adopted db | AdoptionError go_error

text \<open>The part of the visit that follows the decoding of the manifest.\<close>

definition adopt_manifest ::
  "compact_env \<Rightarrow> config \<Rightarrow> instant \<Rightarrow> raw_store \<Rightarrow> fs \<Rightarrow> string \<Rightarrow> manifest \<Rightarrow> db \<Rightarrow> adoption" where
  "adopt_manifest env cfg now raw fs manifestPath m db =
     (if man_format m \<noteq> ParquetFormatVersion \<or> man_revision m < 1 \<or> man_source m = '''' \<or> man_stream m = '''' \<or>
         man_archive_date m = '''' then BadRevision
      else if HasCompaction (man_source m) (man_stream m) (man_archive_date m) (man_revision m) db then
        (case CompactionForRevision (man_source m) (man_stream m) (man_archive_date m) (man_revision m) db of
           Inl _ \<Rightarrow> BadRevision
         | Inr existing \<Rightarrow> if is_ok (VerifyDirectory env fs (rs_root raw) existing) then Known else BadRevision)
      else
        (case Rel (rs_root raw) (Dir manifestPath) of
           None \<Rightarrow> BadRevision
         | Some directory \<Rightarrow>
            if has_prefix directory ''..'' then BadRevision
            else if Clean directory \<noteq> revision_dir (man_source m) (man_stream m) (man_archive_date m) (man_revision m) \<or>
                    int (length (man_inputs m)) \<noteq> man_captured_responses m then BadRevision
            else
              (case adopted_artifact m directory (adopted_base m directory) of
                 None \<Rightarrow> BadRevision
               | Some c \<Rightarrow>
                  if \<not> is_ok (VerifyDirectory env fs (rs_root raw) c) then BadRevision
                  else
                    (case AdoptCompaction (adopted_published cfg m c) (man_inputs m)
                            (\<lambda>i. i \<in> ex_id ` set (man_excluded m)) (adopted_destinations m) now db of
                       Inl e \<Rightarrow> AdoptionError (err_wrap (''adopt compaction '' @ directory) e)
                     | Inr (_, db') \<Rightarrow> Adopted db'))))"

definition visit_parquet ::
  "compact_env \<Rightarrow> config \<Rightarrow> instant \<Rightarrow> raw_store \<Rightarrow> fs \<Rightarrow> string list \<times> node \<Rightarrow> db \<Rightarrow> adoption" where
  "visit_parquet env cfg now raw fs entry db =
     (case snd entry of
        Symlink _ \<Rightarrow> BadRevision
      | Directory \<Rightarrow> NotAManifest
      | Reg _ \<Rightarrow>
         if fst entry = [] \<or> last (fst entry) \<noteq> ''manifest.json'' then NotAManifest
         else (let manifestPath = abs_path (fst entry) in
           case os_readfile fs manifestPath of
             Inl _ \<Rightarrow> BadRevision
           | Inr b \<Rightarrow>
              (case ce_decode_manifest env b of
                 Inl _ \<Rightarrow> BadRevision
               | Inr m \<Rightarrow> adopt_manifest env cfg now raw fs manifestPath m db)))"

fun walk_parquet ::
  "compact_env \<Rightarrow> config \<Rightarrow> (nat \<Rightarrow> go_error option) \<Rightarrow> instant \<Rightarrow> raw_store \<Rightarrow> fs \<Rightarrow> nat \<Rightarrow> (string list \<times> node) list \<Rightarrow>
   reconcile_result \<Rightarrow> reconcile_result" where
  "walk_parquet env cfg ctx now raw fs n [] r = r"
| "walk_parquet env cfg ctx now raw fs n (e # es) r =
     (case ctx n of
        Some err \<Rightarrow> r\<lparr>rr_error := Some err\<rparr>
      | None \<Rightarrow>
         (case visit_parquet env cfg now raw fs e (rr_db r) of
            AdoptionError err \<Rightarrow> r\<lparr>rr_error := Some err\<rparr>
          | Adopted db' \<Rightarrow> walk_parquet env cfg ctx now raw fs (Suc n) es (r\<lparr>rr_adopted := rr_adopted r + 1, rr_db := db'\<rparr>)
          | BadRevision \<Rightarrow> walk_parquet env cfg ctx now raw fs (Suc n) es (r\<lparr>rr_corrupt := rr_corrupt r + 1\<rparr>)
          | _ \<Rightarrow> walk_parquet env cfg ctx now raw fs (Suc n) es r))"

text \<open>A parquet directory that does not exist, or another error that is ErrNotExist, is no error.\<close>

definition All ::
  "compact_env \<Rightarrow> (bytes \<Rightarrow> capture option) \<Rightarrow> (string \<Rightarrow> location result) \<Rightarrow> config \<Rightarrow> (nat \<Rightarrow> go_error option) \<Rightarrow> instant \<Rightarrow>
   raw_store \<Rightarrow> db \<Rightarrow> fs \<Rightarrow> reconcile_result \<times> fs" where
  "All env decode load_location cfg ctx now raw db fs =
     (case Reconcile (ce_sha env) decode load_location raw db fs of
        (r, fs1) \<Rightarrow>
          (let result = \<lparr>rr_registered = rec_registered r, rr_adopted = 0, rr_corrupt = rec_corrupt r,
                         rr_db = rec_db r, rr_error = rec_error r\<rparr> in
           if rec_error r \<noteq> None then (result, fs1)
           else
             (let parquetRoot = Join [rs_root raw, ''parquet''];
                  walked = (case os_lstat fs1 parquetRoot of
                    Inl e \<Rightarrow> if errors_Is e ErrNotExist then result else result\<lparr>rr_error := Some e\<rparr>
                  | Inr _ \<Rightarrow> walk_parquet env cfg ctx now raw fs1 0 (walk_dir fs1 (comps parquetRoot)) result)
              in (case rr_error walked of
                    Some e \<Rightarrow> (if errors_Is e ErrNotExist then walked\<lparr>rr_error := None\<rparr> else walked, fs1)
                  | None \<Rightarrow> (walked, fs1)))))"

end
