(* ===== verification/Observability.thy ===== *)
theory Observability
  imports Config_Facts Raw_Store State_Store
begin

text \<open>
  internal/observability/observability.go: the metrics as tables from label values to counters, gauges
  and the list of observations of a histogram (the bucketing is Prometheus' own), the monitor of disk
  pressure, and the answers of the health endpoints. Percentages are exact here and rounded in the
  code.
\<close>

section \<open>Metrics\<close>

type_synonym labels = "string list"

record metrics =
  fetchAttempts :: "labels \<Rightarrow> nat"
  fetchDuration :: "labels \<Rightarrow> duration list"
  fetchBytes :: "labels \<Rightarrow> int list"
  lastCapture :: "labels \<Rightarrow> instant option"
  lastValidCapture :: "labels \<Rightarrow> int option"
  lastFeedTimestamp :: "labels \<Rightarrow> 64 word option"
  me_validation :: "labels \<Rightarrow> nat"
  me_skipped :: "labels \<Rightarrow> nat"
  me_compactions :: "labels \<Rightarrow> nat"
  compactionDuration :: "labels \<Rightarrow> duration list"
  me_uploads :: "labels \<Rightarrow> nat"
  uploadDuration :: "labels \<Rightarrow> duration list"
  pendingUploads :: int
  storageUsed :: "64 word"
  storageFree :: "64 word"
  storagePercent :: float_value
  paused_gauge :: nat

definition inc :: "labels \<Rightarrow> (labels \<Rightarrow> nat) \<Rightarrow> labels \<Rightarrow> nat" where
  "inc l f = f(l := f l + 1)"

definition observe :: "labels \<Rightarrow> 'a \<Rightarrow> (labels \<Rightarrow> 'a list) \<Rightarrow> labels \<Rightarrow> 'a list" where
  "observe l x f = f(l := f l @ [x])"

definition NewMetrics :: metrics where
  "NewMetrics = \<lparr>fetchAttempts = \<lambda>_. 0, fetchDuration = \<lambda>_. [], fetchBytes = \<lambda>_. [], lastCapture = Map.empty,
     lastValidCapture = Map.empty, lastFeedTimestamp = Map.empty, me_validation = \<lambda>_. 0, me_skipped = \<lambda>_. 0, me_compactions = \<lambda>_. 0,
     compactionDuration = \<lambda>_. [], me_uploads = \<lambda>_. 0, uploadDuration = \<lambda>_. [], pendingUploads = 0, storageUsed = 0,
     storageFree = 0, storagePercent = Finite 0, paused_gauge = 0\<rparr>"

definition ObserveFetch :: "instant \<Rightarrow> string \<Rightarrow> string \<Rightarrow> string \<Rightarrow> duration \<Rightarrow> int \<Rightarrow> metrics \<Rightarrow> metrics" where
  "ObserveFetch now src sm outcome d bytes m =
     (let m1 = m\<lparr>fetchAttempts := inc [src, sm, outcome] (fetchAttempts m), fetchDuration := observe [src, sm] d (fetchDuration m)\<rparr>;
          m2 = (if bytes \<ge> 0 then m1\<lparr>fetchBytes := observe [src, sm] bytes (fetchBytes m1)\<rparr> else m1)
      in if outcome = ''captured'' \<or> outcome = ''captured_invalid''
         then m2\<lparr>lastCapture := (lastCapture m2)([src, sm] \<mapsto> now)\<rparr> else m2)"

definition ObserveValidation :: "string \<Rightarrow> string \<Rightarrow> string \<Rightarrow> metrics \<Rightarrow> metrics" where
  "ObserveValidation src sm flag m = m\<lparr>me_validation := inc [src, sm, flag] (me_validation m)\<rparr>"

definition ObserveFeedMetadata :: "string \<Rightarrow> string \<Rightarrow> instant \<Rightarrow> 64 word option \<Rightarrow> bool \<Rightarrow> metrics \<Rightarrow> metrics" where
  "ObserveFeedMetadata src sm observed feedTimestamp valid m =
     (if \<not> valid then m
      else (let m1 = m\<lparr>lastValidCapture := (lastValidCapture m)([src, sm] \<mapsto> observed div second)\<rparr>
            in case feedTimestamp of None \<Rightarrow> m1 | Some t \<Rightarrow> m1\<lparr>lastFeedTimestamp := (lastFeedTimestamp m1)([src, sm] \<mapsto> t)\<rparr>))"

definition ObserveSkipped :: "string \<Rightarrow> string \<Rightarrow> string \<Rightarrow> metrics \<Rightarrow> metrics" where
  "ObserveSkipped src sm reason m =
     m\<lparr>me_skipped := inc [src, sm, reason] (me_skipped m), fetchAttempts := inc [src, sm, ''skipped''] (fetchAttempts m)\<rparr>"

definition ObserveCompaction :: "string \<Rightarrow> string \<Rightarrow> string \<Rightarrow> duration \<Rightarrow> metrics \<Rightarrow> metrics" where
  "ObserveCompaction src sm outcome d m =
     m\<lparr>me_compactions := inc [src, sm, outcome] (me_compactions m), compactionDuration := observe [src, sm] d (compactionDuration m)\<rparr>"

definition ObserveUpload :: "string \<Rightarrow> string \<Rightarrow> duration \<Rightarrow> metrics \<Rightarrow> metrics" where
  "ObserveUpload dest outcome d m =
     m\<lparr>me_uploads := inc [dest, outcome] (me_uploads m), uploadDuration := observe [dest] d (uploadDuration m)\<rparr>"

section \<open>The monitor\<close>

record monitor =
  mo_storage :: storage_cfg
  mo_metrics :: metrics
  mo_paused :: bool
  mo_healthy :: bool
  mo_last_err :: string

definition NewMonitor :: "config \<Rightarrow> metrics \<Rightarrow> monitor" where
  "NewMonitor cfg m = \<lparr>mo_storage = cf_storage cfg, mo_metrics = m, mo_paused = False, mo_healthy = True, mo_last_err = ''''\<rparr>"

definition Paused :: "monitor \<Rightarrow> bool" where
  "Paused m = mo_paused m"

definition Ready :: "monitor \<Rightarrow> bool" where
  "Ready m \<longleftrightarrow> mo_healthy m \<and> \<not> mo_paused m"

text \<open>One check, from what DiskUsage and Status return.\<close>

definition Check :: "disk_usage result \<Rightarrow> state_status result \<Rightarrow> monitor \<Rightarrow> monitor" where
  "Check usage status m =
     (case usage of
        Inl _ \<Rightarrow> m\<lparr>mo_healthy := False, mo_last_err := ''storage_unavailable''\<rparr>
      | Inr u \<Rightarrow>
          (let wasPaused = mo_paused m; st = mo_storage m;
               m1 = m\<lparr>mo_metrics := (mo_metrics m)\<lparr>storageUsed := du_used u, storageFree := du_free u, storagePercent := du_percent u\<rparr>\<rparr>;
               m2 = (if \<not> wasPaused \<and> du_percent u \<ge> st_pause_percent st then m1\<lparr>mo_paused := True\<rparr> else m1);
               m3 = (if wasPaused \<and> du_percent u \<le> st_resume_percent st then m2\<lparr>mo_paused := False\<rparr> else m2);
               m4 = m3\<lparr>mo_metrics := (mo_metrics m3)\<lparr>paused_gauge := (if mo_paused m3 then 1 else 0)\<rparr>\<rparr>
           in case status of
                Inl _ \<Rightarrow> m4\<lparr>mo_healthy := False, mo_last_err := ''state_unavailable''\<rparr>
              | Inr s \<Rightarrow> m4\<lparr>mo_metrics := (mo_metrics m4)\<lparr>pendingUploads := ss_pending s + ss_failed s\<rparr>,
                           mo_healthy := True, mo_last_err := ''''\<rparr>))"

text \<open>Run: a check at the start and one at every tick until the context ends.\<close>

definition monitor_Run :: "(disk_usage result \<times> state_status result) list \<Rightarrow> monitor \<Rightarrow> monitor" where
  "monitor_Run readings m = fold (\<lambda>(u, s). Check u s) readings m"

section \<open>The health endpoints\<close>

record health =
  he_status :: nat
  he_ok :: bool
  he_reason :: string

definition healthz :: "monitor \<Rightarrow> health" where
  "healthz m = \<lparr>he_status = 200, he_ok = True, he_reason = ''''\<rparr>"

definition readyz :: "monitor \<Rightarrow> health" where
  "readyz m =
     (if \<not> Ready m then
        (let reason = (if mo_last_err m = '''' \<and> mo_paused m then ''disk_pressure'' else mo_last_err m)
         in \<lparr>he_status = 503, he_ok = False, he_reason = reason\<rparr>)
      else \<lparr>he_status = 200, he_ok = True, he_reason = ''''\<rparr>)"

section \<open>Hysteresis\<close>

text \<open>The readings of the disk that the monitor got, latest first.\<close>

definition percents :: "(disk_usage result \<times> state_status result) list \<Rightarrow> float_value list" where
  "percents readings = rev (concat (map (\<lambda>(u, _). case u of Inl _ \<Rightarrow> [] | Inr d \<Rightarrow> [du_percent d]) readings))"

text \<open>Reference: the last reading outside the band between the watermarks decides.\<close>

fun pressure :: "float_value \<Rightarrow> float_value \<Rightarrow> float_value list \<Rightarrow> bool" where
  "pressure resume pause [] = False"
| "pressure resume pause (p # ps) = (if p \<ge> pause then True else if p \<le> resume then False else pressure resume pause ps)"

lemma monitor_Run_simps [simp]: "monitor_Run [] m = m" "monitor_Run (rs @ [(u, s)]) m = Check u s (monitor_Run rs m)"
  by (simp_all add: monitor_Run_def)

lemma percents_snoc [simp]: "percents [] = []"
  "percents (rs @ [(u, s)]) = (case u of Inl _ \<Rightarrow> percents rs | Inr d \<Rightarrow> du_percent d # percents rs)"
  by (simp_all add: percents_def split: sum.split)

lemma Check_storage [simp]: "mo_storage (Check u s m) = mo_storage m"
  by (simp add: Check_def Let_def split: sum.split)

lemma Check_paused:
  "mo_paused (Check u s m) = (case u of Inl _ \<Rightarrow> mo_paused m
     | Inr d \<Rightarrow> if mo_paused m then \<not> du_percent d \<le> st_resume_percent (mo_storage m) else du_percent d \<ge> st_pause_percent (mo_storage m))"
  by (simp add: Check_def Let_def split: sum.split)

lemma Check_healthy: "mo_healthy (Check u s m) \<longleftrightarrow> (\<exists>d x. u = Inr d \<and> s = Inr x)"
  by (simp add: Check_def Let_def split: sum.split)

lemma run_storage [simp]: "mo_storage (monitor_Run rs m) = mo_storage m"
  by (induction rs rule: rev_induct) (auto simp: split: prod.split)

text \<open>C40. Under an accepted configuration polling is paused exactly when, of the disk readings outside the
  band between the two watermarks, the last one was at or above the upper watermark: inside the band
  nothing changes. (No reading is at or beyond a watermark that is not a number.) The readiness endpoint says 200 exactly while the last check succeeded and polling is
  not paused.\<close>

theorem pause_hysteresis:
  assumes "config_ok cfg"
  shows "Paused (monitor_Run readings (NewMonitor cfg m)) =
      pressure (st_resume_percent (cf_storage cfg)) (st_pause_percent (cf_storage cfg)) (percents readings) \<and>
    (he_status (readyz (monitor_Run readings (NewMonitor cfg m))) = 200 \<longleftrightarrow>
      (readings = [] \<or> (\<exists>d s. last readings = (Inr d, Inr s))) \<and>
      \<not> pressure (st_resume_percent (cf_storage cfg)) (st_pause_percent (cf_storage cfg)) (percents readings))"
proof -
  let ?r = "st_resume_percent (cf_storage cfg)" and ?p = "st_pause_percent (cf_storage cfg)"
  have band: "\<not> (?p \<le> x \<and> x \<le> ?r)" for x
    using assms float_le_trans [of ?p x ?r] by (auto simp: config_ok_def watermarks_ok_def less_float_value_def)
  have paused: "mo_paused (monitor_Run readings (NewMonitor cfg m)) = pressure ?r ?p (percents readings)"
  proof (induction readings rule: rev_induct)
    case Nil
    show ?case by (simp add: NewMonitor_def)
  next
    case (snoc x rs)
    have st: "mo_storage (NewMonitor cfg m) = cf_storage cfg" by (simp add: NewMonitor_def)
    show ?case using snoc band by (cases x) (auto simp: Check_paused st split: sum.split)
  qed
  have healthy: "mo_healthy (monitor_Run readings (NewMonitor cfg m)) \<longleftrightarrow> readings = [] \<or> (\<exists>d s. last readings = (Inr d, Inr s))"
  proof (cases readings rule: rev_cases)
    case (snoc rs x)
    then show ?thesis by (cases x) (simp add: Check_healthy)
  qed (simp add: NewMonitor_def)
  show ?thesis using paused healthy by (simp add: Paused_def readyz_def Ready_def Let_def)
qed

lemma pause_hysteresis_witness:
  "Paused (monitor_Run [(Inr (DiskUsage 100 5 1), Inl no_rows), (Inr (DiskUsage 100 15 1), Inl no_rows)]
     (NewMonitor (sample_config\<lparr>cf_sources := [sample_source\<lparr>src_location := Some utc\<rparr>]\<rparr>) NewMetrics))"
proof -
  have "du_percent (DiskUsage 100 5 1) = Finite 95" "du_percent (DiskUsage 100 15 1) = Finite 85" by (simp_all add: DiskUsage_def)
  then show ?thesis
    using conjunct1 [OF pause_hysteresis [OF sample_config_ok, of "[(Inr (DiskUsage 100 5 1), Inl no_rows), (Inr (DiskUsage 100 15 1), Inl no_rows)]" NewMetrics]]
    by (simp add: percents_def sample_config_def Defaults_def)
qed

end
