(* ===== verification/Scheduler.thy ===== *)
theory Scheduler
  imports Config_Facts
begin

text \<open>
  internal/scheduler/scheduler.go: the phase of a stream (FNV-1a), the next tick, the lateness
  bound, and the loop runStream as a step relation over all streams, the two kinds of semaphore
  (channels used as counters), the clock, the pause flag and the cancellation of the context.
  A step is one decision of one stream's goroutine, or a move of its environment.
\<close>

unbundle bit_operations_syntax

section \<open>Phase and ticks\<close>

text \<open>hash/fnv New64a.\<close>

definition fnv_offset64 :: "64 word" where "fnv_offset64 = 14695981039346656037"
definition fnv_prime64 :: "64 word" where "fnv_prime64 = 1099511628211"

fun fnv64a :: "64 word \<Rightarrow> bytes \<Rightarrow> 64 word" where
  "fnv64a h [] = h"
| "fnv64a h (c # cs) = fnv64a ((h XOR of_nat (of_char c)) * fnv_prime64) cs"

definition StablePhase :: "string \<Rightarrow> duration \<Rightarrow> duration" where
  "StablePhase key interval =
     (if interval \<le> 0 then 0 else sint (fnv64a fnv_offset64 key mod (of_int interval :: 64 word)))"

definition floorMod :: "int \<Rightarrow> int \<Rightarrow> int" where
  "floorMod value divisor = (let r = value smod divisor in if r < 0 then int64 (r + divisor) else r)"

text \<open>NextTick panics (\<open>None\<close>) on an interval that is not positive; the arithmetic is that of int64.\<close>

definition NextTick :: "instant \<Rightarrow> duration \<Rightarrow> duration \<Rightarrow> instant option" where
  "NextTick now interval phase =
     (if interval \<le> 0 then None
      else (let n = int64 now; p = phase smod interval;
                base = int64 (n - floorMod (int64 (n - p)) interval)
            in Some (if base \<le> n then int64 (base + interval) else base)))"

definition effectiveLateness :: "duration \<Rightarrow> duration \<Rightarrow> duration" where
  "effectiveLateness configured interval =
     (if configured \<le> 0 then 0 else if configured \<ge> interval then interval sdiv 2 else configured)"

definition streamCount :: "config \<Rightarrow> nat" where
  "streamCount cfg = length (filter (\<lambda>(src, sm). IsEnabled sm) (all_streams cfg))"

lemma sint_small: "uint w < 2 ^ 63 \<Longrightarrow> sint (w :: 64 word) = uint w"
  using int64_id [of "uint w"] uint_ge_0 [of w] by (simp add: sint_uint int64_def)

lemma StablePhase_eq:
  assumes "0 < interval" "interval < 2 ^ 63"
  shows "StablePhase key interval = uint (fnv64a fnv_offset64 key) mod interval"
proof -
  let ?h = "fnv64a fnv_offset64 key" and ?w = "of_int interval :: 64 word"
  have w: "uint ?w = interval" using assms by (simp add: uint_word_of_int take_bit_int_eq_self)
  have eq: "uint (?h mod ?w) = uint ?h mod interval" by (simp add: uint_mod w)
  have "uint ?h mod interval < 2 ^ 63" by (rule less_trans [OF pos_mod_bound [OF assms(1)] assms(2)])
  then show ?thesis using sint_small [of "?h mod ?w"] assms(1) unfolding StablePhase_def eq by simp
qed

lemma StablePhase_bounds:
  assumes "0 < interval" "interval < 2 ^ 63"
  shows "0 \<le> StablePhase key interval" "StablePhase key interval < interval"
  unfolding StablePhase_eq [OF assms] using assms(1) by simp_all

lemma floorMod_mod:
  assumes "0 < d" "d < 2 ^ 63" "- (2 ^ 63) \<le> v" "v < 2 ^ 63"
  shows "floorMod v d = v mod d"
proof -
  have r: "v smod d = (if v < 0 then - ((- v) mod d) else v mod d)"
    using assms by (simp add: signed_modulo_int_def signed_divide_int_def minus_div_mult_eq_mod [symmetric] sgn_if abs_if)
  have b: "0 \<le> (- v) mod d" "(- v) mod d < d" using assms by simp_all
  have "0 < (- v) mod d \<Longrightarrow> v mod d = d - (- v) mod d"
    using zmod_zminus1_eq_if [of "- v" d] by auto
  moreover have "(- v) mod d = 0 \<Longrightarrow> v mod d = 0"
    using zmod_zminus1_eq_if [of "- v" d] by auto
  moreover have "0 \<le> v mod d" using assms by simp
  ultimately show ?thesis
    using assms b int64_id [of "d - (- v) mod d"] unfolding floorMod_def Let_def r by (cases "v < 0"; cases "(- v) mod d = 0") auto
qed

lemma NextTick_eq:
  assumes "0 < interval" "0 \<le> phase" "phase < interval" "0 \<le> now" "now + interval < 2 ^ 63"
  shows "NextTick now interval phase = Some (now - (now - phase) mod interval + interval)"
proof -
  have p: "phase smod interval = phase"
    using assms by (simp add: signed_modulo_int_def signed_divide_int_def sgn_if)
  have m: "0 \<le> (now - phase) mod interval" "(now - phase) mod interval < interval" using assms by simp_all
  have i: "int64 now = now" "int64 (now - phase) = now - phase"
    using assms by (auto intro!: int64_id)
  have f: "floorMod (now - phase) interval = (now - phase) mod interval"
    using assms by (intro floorMod_mod) auto
  have a: "int64 (now - r) = now - r \<and> int64 (now - r + interval) = now - r + interval"
    if "0 \<le> r" "r < interval" for r
    using assms that by (auto intro!: int64_id)
  note j = a [OF m, THEN conjunct1] a [OF m, THEN conjunct2]
  show ?thesis unfolding NextTick_def Let_def p i f j using assms m by simp
qed

text \<open>C10. For every interval, key and clock reading (before the year 2262) the scheduled tick lies
  after the clock and at most one interval after it, and all ticks of a stream are congruent to its
  phase modulo the interval: a restart resumes the same grid.\<close>

theorem next_tick_grid:
  assumes "0 < interval" "0 \<le> now" "now + interval < 2 ^ 63"
  shows "\<exists>t. NextTick now interval (StablePhase key interval) = Some t \<and> now < t \<and> t \<le> now + interval \<and>
    t mod interval = StablePhase key interval"
proof -
  let ?p = "StablePhase key interval"
  have i: "interval < 2 ^ 63" using assms by simp
  note p = StablePhase_bounds [OF assms(1) i, of key]
  have m: "0 \<le> (now - ?p) mod interval" "(now - ?p) mod interval < interval" using assms by simp_all
  have "now - (now - ?p) mod interval + interval = ?p + (now - ?p) div interval * interval + interval"
    using div_mult_mod_eq [of "now - ?p" interval] by linarith
  then have "(now - (now - ?p) mod interval + interval) mod interval = ?p mod interval" by simp
  with p m NextTick_eq [OF assms(1) p assms(2,3)] show ?thesis by simp
qed

lemma next_tick_grid_witness:
  "\<exists>t. NextTick 100 30 (StablePhase ''a/b'' 30) = Some t \<and> 100 < t \<and> t \<le> 130 \<and> t mod 30 = StablePhase ''a/b'' 30"
  using next_tick_grid [of 30 100 "''a/b''"] by simp

lemma effectiveLateness_bounds:
  "0 < interval \<Longrightarrow> 0 \<le> effectiveLateness c interval \<and> effectiveLateness c interval < interval"
  by (auto simp: effectiveLateness_def signed_divide_int_def)

end
