(* ===== verification/Scheduler_Loop.thy ===== *)
theory Scheduler_Loop
  imports Scheduler
begin

text \<open>
  Scheduler.New and runStream. A stream's goroutine is a program counter that carries the tick
  \<open>next\<close>; the semaphores are channels of which only the number of elements matters. Sends and
  receives go through the interface \<open>semaphore\<close>, interpreted for the global channel and for the
  channel of each host.
\<close>

section \<open>Channels as semaphores\<close>

definition chan_send :: "nat \<Rightarrow> nat \<Rightarrow> nat option" where
  "chan_send cap n = (if n < cap then Some (Suc n) else None)"

definition chan_recv :: "nat \<Rightarrow> nat option" where
  "chan_recv n = (case n of 0 \<Rightarrow> None | Suc m \<Rightarrow> Some m)"

definition holders :: "('p \<Rightarrow> bool) \<Rightarrow> 'p list \<Rightarrow> nat" where
  "holders P xs = length (filter P xs)"

lemma holders_update:
  "i < length xs \<Longrightarrow> holders P (xs[i := x]) + (if P (xs ! i) then 1 else 0) = holders P xs + (if P x then 1 else 0)"
proof (induction xs arbitrary: i)
  case (Cons y ys)
  then show ?case by (cases i) (auto simp: holders_def)
qed simp

lemma holders_same: "i < length xs \<Longrightarrow> P (xs ! i) = P x \<Longrightarrow> holders P (xs[i := x]) = holders P xs"
  using holders_update [of i xs P x] by (auto split: if_splits)

text \<open>What a client of a semaphore relies on: a send succeeds only below the capacity and counts one
  more, a receive counts one less, and blocks only on an empty channel.\<close>

locale semaphore =
  fixes used :: "'s \<Rightarrow> nat" and acquire release :: "'s \<Rightarrow> 's option" and cap :: nat
  assumes acquire_used: "acquire s = Some t \<Longrightarrow> used s < cap \<and> used t = Suc (used s)"
    and release_used: "release s = Some t \<Longrightarrow> used s = Suc (used t)"
    and release_blocks: "release s = None \<Longrightarrow> used s = 0"
begin

lemma acquire_holders:
  assumes "acquire s = Some t" "used s = holders P xs" "i < length xs" "\<not> P (xs ! i)" "P x"
  shows "used t = holders P (xs[i := x])" "used t \<le> cap"
  using acquire_used [OF assms(1)] holders_update [of i xs P x] assms by auto

lemma release_holders:
  assumes "release s = Some t" "used s = holders P xs" "i < length xs" "P (xs ! i)" "\<not> P x"
  shows "used t = holders P (xs[i := x])" "used t \<le> used s"
  using release_used [OF assms(1)] holders_update [of i xs P x] assms by auto

lemma holder_can_release:
  assumes "used s = holders P xs" "i < length xs" "P (xs ! i)"
  shows "\<exists>t. release s = Some t"
proof (rule ccontr)
  assume "\<not> ?thesis"
  then have "release s = None" by (cases "release s") auto
  then have "holders P xs = 0" using release_blocks assms(1) by simp
  then show False using assms(2,3) by (auto simp: holders_def filter_empty_conv)
qed

end

section \<open>State\<close>

datatype pc =
    Waiting instant | Sleeping instant | Due instant
  | AtGlobal instant | InGlobal instant | AtHost instant | InHost instant
  | Holding instant | Fetching instant | Stopped instant

fun pc_tick :: "pc \<Rightarrow> instant" where
  "pc_tick (Waiting t) = t" | "pc_tick (Sleeping t) = t" | "pc_tick (Due t) = t"
| "pc_tick (AtGlobal t) = t" | "pc_tick (InGlobal t) = t" | "pc_tick (AtHost t) = t"
| "pc_tick (InHost t) = t" | "pc_tick (Holding t) = t" | "pc_tick (Fetching t) = t"
| "pc_tick (Stopped t) = t"

fun holds_global :: "pc \<Rightarrow> bool" where
  "holds_global (AtHost _) = True" | "holds_global (InHost _) = True"
| "holds_global (Holding _) = True" | "holds_global (Fetching _) = True" | "holds_global _ = False"

fun holds_host :: "pc \<Rightarrow> bool" where
  "holds_host (Holding _) = True" | "holds_host (Fetching _) = True" | "holds_host _ = False"

text \<open>What runStream computes before its loop: interval, first tick, lateness, and the host whose
  semaphore it uses (\<open>None\<close>: a nil channel).\<close>

record stream_loop =
  lp_source :: string
  lp_stream :: string
  lp_interval :: duration
  lp_first :: instant
  lp_lateness :: duration
  lp_host :: "string option"

record scheduler =
  sc_loops :: "stream_loop list"
  sc_global_cap :: nat
  sc_host_cap :: "string \<rightharpoonup> nat"

datatype outcome = Skipped string | Fetched

record sched =
  sd_now :: instant
  sd_cancelled :: bool
  sd_paused :: bool
  sd_global :: nat
  sd_host :: "string \<Rightarrow> nat"
  sd_pcs :: "pc list"
  sd_log :: "(nat \<times> instant \<times> outcome) list"

text \<open>New: one channel per host name of a URL that parses, disabled streams included.\<close>

fun perHost :: "(string \<Rightarrow> url option) \<Rightarrow> nat \<Rightarrow> (source_cfg \<times> stream_cfg) list \<Rightarrow> (string \<rightharpoonup> nat) \<Rightarrow> (string \<rightharpoonup> nat)" where
  "perHost parse_url cap [] m = m"
| "perHost parse_url cap ((src, sm) # rest) m =
     perHost parse_url cap rest
       (case parse_url (sm_url sm) of None \<Rightarrow> m
        | Some u \<Rightarrow> if m (url_hostname u) = None then m(url_hostname u \<mapsto> cap) else m)"

definition stream_loop_of ::
  "(string \<Rightarrow> url option) \<Rightarrow> (string \<rightharpoonup> nat) \<Rightarrow> http_cfg \<Rightarrow> instant \<Rightarrow> source_cfg \<Rightarrow> stream_cfg \<Rightarrow> stream_loop option" where
  "stream_loop_of parse_url hosts http now src sm =
     (let interval = sm_interval sm;
          phase = StablePhase (src_id src @ ''/'' @ sm_id sm) interval;
          host = (case parse_url (sm_url sm) of None \<Rightarrow> '''' | Some u \<Rightarrow> url_hostname u)
      in case NextTick now interval phase of None \<Rightarrow> None
         | Some t \<Rightarrow> Some \<lparr>lp_source = src_id src, lp_stream = sm_id sm, lp_interval = interval, lp_first = t,
             lp_lateness = effectiveLateness (EffectiveLateness sm http) interval,
             lp_host = (if hosts host = None then None else Some host)\<rparr>)"

text \<open>Run starts one goroutine per enabled stream; \<open>None\<close> is the panic of NextTick.\<close>

fun start_loops ::
  "(string \<Rightarrow> url option) \<Rightarrow> (string \<rightharpoonup> nat) \<Rightarrow> http_cfg \<Rightarrow> instant \<Rightarrow> (source_cfg \<times> stream_cfg) list \<Rightarrow> stream_loop list option" where
  "start_loops pu hosts http now [] = Some []"
| "start_loops pu hosts http now ((src, sm) # rest) =
     (if \<not> IsEnabled sm then start_loops pu hosts http now rest
      else (case stream_loop_of pu hosts http now src sm of None \<Rightarrow> None
            | Some l \<Rightarrow> map_option (\<lambda>ls. l # ls) (start_loops pu hosts http now rest)))"

definition New :: "(string \<Rightarrow> url option) \<Rightarrow> config \<Rightarrow> instant \<Rightarrow> scheduler option" where
  "New parse_url cfg now =
     (let streams = all_streams cfg;
          hosts = perHost parse_url (nat (rt_per_host_concurrency (cf_runtime cfg))) streams Map.empty
      in map_option (\<lambda>ls. \<lparr>sc_loops = ls, sc_global_cap = nat (rt_fetch_concurrency (cf_runtime cfg)), sc_host_cap = hosts\<rparr>)
           (start_loops parse_url hosts (cf_http cfg) now streams))"

definition start :: "scheduler \<Rightarrow> instant \<Rightarrow> sched" where
  "start sch now = \<lparr>sd_now = now, sd_cancelled = False, sd_paused = False, sd_global = 0,
     sd_host = (\<lambda>_. 0), sd_pcs = map (\<lambda>l. Waiting (lp_first l)) (sc_loops sch), sd_log = []\<rparr>"

section \<open>Steps\<close>

definition acquire_global :: "scheduler \<Rightarrow> sched \<Rightarrow> sched option" where
  "acquire_global sch s = map_option (\<lambda>n. s\<lparr>sd_global := n\<rparr>) (chan_send (sc_global_cap sch) (sd_global s))"

definition release_global :: "sched \<Rightarrow> sched option" where
  "release_global s = map_option (\<lambda>n. s\<lparr>sd_global := n\<rparr>) (chan_recv (sd_global s))"

definition acquire_host :: "scheduler \<Rightarrow> string \<Rightarrow> sched \<Rightarrow> sched option" where
  "acquire_host sch h s = map_option (\<lambda>n. s\<lparr>sd_host := (sd_host s)(h := n)\<rparr>)
     (chan_send (case sc_host_cap sch h of None \<Rightarrow> 0 | Some c \<Rightarrow> c) (sd_host s h))"

definition release_host :: "string option \<Rightarrow> sched \<Rightarrow> sched option" where
  "release_host ho s = (case ho of None \<Rightarrow> Some s
     | Some h \<Rightarrow> map_option (\<lambda>n. s\<lparr>sd_host := (sd_host s)(h := n)\<rparr>) (chan_recv (sd_host s h)))"

definition set_pc :: "nat \<Rightarrow> pc \<Rightarrow> sched \<Rightarrow> sched" where
  "set_pc i p s = s\<lparr>sd_pcs := (sd_pcs s)[i := p]\<rparr>"

definition note_outcome :: "nat \<Rightarrow> instant \<Rightarrow> outcome \<Rightarrow> sched \<Rightarrow> sched" where
  "note_outcome i t out s = s\<lparr>sd_log := (i, t, out) # sd_log s\<rparr>"

text \<open>\<open>recordSkip\<close> and \<open>next = next.Add(interval)\<close>.\<close>

definition skip_tick :: "stream_loop \<Rightarrow> nat \<Rightarrow> instant \<Rightarrow> string \<Rightarrow> sched \<Rightarrow> sched" where
  "skip_tick l i t reason s = set_pc i (Waiting (t + lp_interval l)) (note_outcome i t (Skipped reason) s)"

text \<open>The two tests before the semaphores.\<close>

definition early_skip :: "stream_loop \<Rightarrow> instant \<Rightarrow> instant \<Rightarrow> bool \<Rightarrow> string option" where
  "early_skip l started t paused =
     (if started - t > lp_lateness l then Some ''late''
      else if paused then Some ''disk_pressure'' else None)"

definition deadline_of :: "stream_loop \<Rightarrow> instant \<Rightarrow> instant" where
  "deadline_of l t = t + lp_lateness l"

text \<open>One step of the goroutine of stream \<open>i\<close>. Where the code selects between several ready cases,
  each is a possible step; a blocking send is a step that is not enabled.\<close>

inductive stream_step :: "scheduler \<Rightarrow> nat \<Rightarrow> stream_loop \<Rightarrow> sched \<Rightarrow> sched \<Rightarrow> bool"
  for sch :: scheduler and i :: nat and l :: stream_loop where
  wait_over: "sd_pcs s ! i = Waiting t \<Longrightarrow> t \<le> sd_now s \<Longrightarrow> stream_step sch i l s (set_pc i (Due t) s)"
| wait_sleep: "sd_pcs s ! i = Waiting t \<Longrightarrow> sd_now s < t \<Longrightarrow> stream_step sch i l s (set_pc i (Sleeping t) s)"
| woken: "sd_pcs s ! i = Sleeping t \<Longrightarrow> t \<le> sd_now s \<Longrightarrow> stream_step sch i l s (set_pc i (Due t) s)"
| wait_cancelled: "sd_pcs s ! i = Sleeping t \<Longrightarrow> sd_cancelled s \<Longrightarrow> stream_step sch i l s (set_pc i (Stopped t) s)"
| skip_early: "sd_pcs s ! i = Due t \<Longrightarrow> early_skip l (sd_now s) t (sd_paused s) = Some reason \<Longrightarrow>
    stream_step sch i l s (skip_tick l i t reason s)"
| go_on: "sd_pcs s ! i = Due t \<Longrightarrow> early_skip l (sd_now s) t (sd_paused s) = None \<Longrightarrow>
    stream_step sch i l s (set_pc i (AtGlobal t) s)"
| global_expired: "sd_pcs s ! i = AtGlobal t \<Longrightarrow> deadline_of l t \<le> sd_now s \<Longrightarrow>
    stream_step sch i l s (skip_tick l i t ''global_concurrency'' s)"
| global_select: "sd_pcs s ! i = AtGlobal t \<Longrightarrow> sd_now s < deadline_of l t \<Longrightarrow>
    stream_step sch i l s (set_pc i (InGlobal t) s)"
| global_acquired: "sd_pcs s ! i = InGlobal t \<Longrightarrow> acquire_global sch s = Some s' \<Longrightarrow>
    stream_step sch i l s (set_pc i (if lp_host l = None then Holding t else AtHost t) s')"
| global_timeout: "sd_pcs s ! i = InGlobal t \<Longrightarrow> deadline_of l t \<le> sd_now s \<or> sd_cancelled s \<Longrightarrow>
    stream_step sch i l s (skip_tick l i t ''global_concurrency'' s)"
| host_expired: "sd_pcs s ! i = AtHost t \<Longrightarrow> deadline_of l t \<le> sd_now s \<Longrightarrow> release_global s = Some s' \<Longrightarrow>
    stream_step sch i l s (skip_tick l i t ''host_concurrency'' s')"
| host_select: "sd_pcs s ! i = AtHost t \<Longrightarrow> sd_now s < deadline_of l t \<Longrightarrow>
    stream_step sch i l s (set_pc i (InHost t) s)"
| host_acquired: "sd_pcs s ! i = InHost t \<Longrightarrow> lp_host l = Some h \<Longrightarrow> acquire_host sch h s = Some s' \<Longrightarrow>
    stream_step sch i l s (set_pc i (Holding t) s')"
| host_timeout: "sd_pcs s ! i = InHost t \<Longrightarrow> deadline_of l t \<le> sd_now s \<or> sd_cancelled s \<Longrightarrow>
    release_global s = Some s' \<Longrightarrow> stream_step sch i l s (skip_tick l i t ''host_concurrency'' s')"
| give_up: "sd_pcs s ! i = Holding t \<Longrightarrow> sd_cancelled s \<Longrightarrow> release_host (lp_host l) s = Some s' \<Longrightarrow>
    release_global s' = Some s'' \<Longrightarrow> stream_step sch i l s (set_pc i (Stopped t) s'')"
| fetch_start: "sd_pcs s ! i = Holding t \<Longrightarrow> \<not> sd_cancelled s \<Longrightarrow>
    stream_step sch i l s (set_pc i (Fetching t) (note_outcome i t Fetched s))"
| fetch_end: "sd_pcs s ! i = Fetching t \<Longrightarrow> release_host (lp_host l) s = Some s' \<Longrightarrow>
    release_global s' = Some s'' \<Longrightarrow> stream_step sch i l s (set_pc i (Waiting (t + lp_interval l)) s'')"

inductive sched_step :: "scheduler \<Rightarrow> sched \<Rightarrow> sched \<Rightarrow> bool" for sch :: scheduler where
  clock: "sd_now s \<le> t \<Longrightarrow> sched_step sch s (s\<lparr>sd_now := t\<rparr>)"
| pause: "sched_step sch s (s\<lparr>sd_paused := b\<rparr>)"
| cancel: "sched_step sch s (s\<lparr>sd_cancelled := True\<rparr>)"
| stream: "i < length (sc_loops sch) \<Longrightarrow> stream_step sch i (sc_loops sch ! i) s s' \<Longrightarrow> sched_step sch s s'"

inductive_cases stream_stepE: "stream_step sch i l s s'"
inductive_cases sched_stepE: "sched_step sch s s'"

abbreviation sched_steps :: "scheduler \<Rightarrow> sched \<Rightarrow> sched \<Rightarrow> bool" where
  "sched_steps sch \<equiv> (sched_step sch)\<^sup>*\<^sup>*"

section \<open>Interpretations of the semaphore interface\<close>

interpretation global_sem: semaphore sd_global "acquire_global sch" release_global "sc_global_cap sch" for sch
  by unfold_locales
    (auto simp: acquire_global_def release_global_def chan_send_def chan_recv_def split: if_splits nat.splits)

definition host_cap :: "scheduler \<Rightarrow> string \<Rightarrow> nat" where
  "host_cap sch h = (case sc_host_cap sch h of None \<Rightarrow> 0 | Some c \<Rightarrow> c)"

interpretation host_sem: semaphore "\<lambda>s. sd_host s h" "acquire_host sch h" "release_host (Some h)" "host_cap sch h" for sch h
  by unfold_locales
    (auto simp: acquire_host_def release_host_def host_cap_def chan_send_def chan_recv_def split: if_splits nat.splits)

section \<open>Invariant\<close>

text \<open>The clients of the channel of host \<open>h\<close>: the streams whose host it is, paired with their loop.\<close>

definition host_client :: "string \<Rightarrow> stream_loop \<times> pc \<Rightarrow> bool" where
  "host_client h lp = (lp_host (fst lp) = Some h \<and> holds_host (snd lp))"

definition loops_with_pc :: "scheduler \<Rightarrow> sched \<Rightarrow> (stream_loop \<times> pc) list" where
  "loops_with_pc sch s = zip (sc_loops sch) (sd_pcs s)"

text \<open>The ticks that stream \<open>i\<close> has decided, oldest first, and the tick it has not decided yet.\<close>

definition decided :: "nat \<Rightarrow> sched \<Rightarrow> instant list" where
  "decided i s = rev (map (\<lambda>e. fst (snd e)) (filter (\<lambda>e. fst e = i) (sd_log s)))"

fun open_tick :: "duration \<Rightarrow> pc \<Rightarrow> instant" where
  "open_tick d (Fetching t) = t + d"
| "open_tick d p = pc_tick p"

definition grid :: "instant \<Rightarrow> duration \<Rightarrow> nat \<Rightarrow> instant list" where
  "grid t d n = map (\<lambda>k. t + int k * d) [0..<n]"

definition stream_inv :: "nat \<Rightarrow> stream_loop \<Rightarrow> sched \<Rightarrow> bool" where
  "stream_inv i l s \<longleftrightarrow>
     decided i s = grid (lp_first l) (lp_interval l) (length (decided i s)) \<and>
     open_tick (lp_interval l) (sd_pcs s ! i) = lp_first l + int (length (decided i s)) * lp_interval l"

definition host_ok :: "scheduler \<Rightarrow> sched \<Rightarrow> string \<Rightarrow> bool" where
  "host_ok sch s h \<longleftrightarrow>
     sd_host s h = holders (host_client h) (loops_with_pc sch s) \<and> sd_host s h \<le> host_cap sch h"

definition sched_inv :: "scheduler \<Rightarrow> sched \<Rightarrow> bool" where
  "sched_inv sch s \<longleftrightarrow>
     length (sd_pcs s) = length (sc_loops sch) \<and>
     sd_global s = holders holds_global (sd_pcs s) \<and> sd_global s \<le> sc_global_cap sch \<and>
     (\<forall>h. host_ok sch s h) \<and>
     (\<forall>i < length (sc_loops sch). stream_inv i (sc_loops sch ! i) s)"

lemmas step_defs = set_pc_def note_outcome_def skip_tick_def loops_with_pc_def

lemma sd_set_pc [simp]:
  "sd_pcs (set_pc i p s) = (sd_pcs s)[i := p]" "sd_global (set_pc i p s) = sd_global s"
  "sd_host (set_pc i p s) = sd_host s" "sd_log (set_pc i p s) = sd_log s" "sd_now (set_pc i p s) = sd_now s"
  "sd_cancelled (set_pc i p s) = sd_cancelled s"
  by (simp_all add: set_pc_def)

lemma sd_note [simp]:
  "sd_pcs (note_outcome i t out s) = sd_pcs s" "sd_global (note_outcome i t out s) = sd_global s"
  "sd_host (note_outcome i t out s) = sd_host s" "sd_now (note_outcome i t out s) = sd_now s"
  "sd_log (note_outcome i t out s) = (i, t, out) # sd_log s"
  by (simp_all add: note_outcome_def)

lemma grid_Suc: "grid t d (Suc n) = grid t d n @ [t + int n * d]"
  by (simp add: grid_def)

lemma length_grid [simp]: "length (grid t d n) = n"
  by (simp add: grid_def)

lemma stream_inv_other:
  "j \<noteq> i \<Longrightarrow> sd_pcs s' = (sd_pcs s)[i := p] \<Longrightarrow> sd_log s' = sd_log s \<or> (\<exists>t out. sd_log s' = (i, t, out) # sd_log s) \<Longrightarrow>
    stream_inv j l s' = stream_inv j l s"
  by (auto simp: stream_inv_def decided_def)

lemma stream_inv_quiet:
  "i < length (sd_pcs s) \<Longrightarrow> sd_pcs s' = (sd_pcs s)[i := p] \<Longrightarrow> sd_log s' = sd_log s \<Longrightarrow>
    open_tick (lp_interval l) p = open_tick (lp_interval l) (sd_pcs s ! i) \<Longrightarrow> stream_inv i l s \<Longrightarrow> stream_inv i l s'"
  by (simp add: stream_inv_def decided_def)

lemma stream_inv_decide:
  assumes "i < length (sd_pcs s)" "sd_pcs s' = (sd_pcs s)[i := p]" "sd_log s' = (i, t, out) # sd_log s"
    "open_tick (lp_interval l) (sd_pcs s ! i) = t" "open_tick (lp_interval l) p = t + lp_interval l" "stream_inv i l s"
  shows "stream_inv i l s'"
proof -
  have "decided i s' = decided i s @ [t]" using assms(3) by (simp add: decided_def)
  moreover have "t = lp_first l + int (length (decided i s)) * lp_interval l"
    using assms(4,6) by (simp add: stream_inv_def)
  ultimately show ?thesis
    using assms by (simp add: stream_inv_def grid_Suc algebra_simps)
qed

lemma loops_with_pc_update:
  "sd_pcs s' = (sd_pcs s)[i := p] \<Longrightarrow>
    loops_with_pc sch s' = (loops_with_pc sch s)[i := (sc_loops sch ! i, p)]"
  using zip_update [of "sc_loops sch" i "sc_loops sch ! i" "sd_pcs s" p] by (simp add: loops_with_pc_def)

lemma sched_invD:
  assumes "sched_inv sch s"
  shows "length (sd_pcs s) = length (sc_loops sch)" "sd_global s = holders holds_global (sd_pcs s)"
    "sd_global s \<le> sc_global_cap sch" "host_ok sch s h"
    "i < length (sc_loops sch) \<Longrightarrow> stream_inv i (sc_loops sch ! i) s"
    "length (loops_with_pc sch s) = length (sc_loops sch)"
    "i < length (sc_loops sch) \<Longrightarrow> loops_with_pc sch s ! i = (sc_loops sch ! i, sd_pcs s ! i)"
  using assms by (auto simp: sched_inv_def loops_with_pc_def)

text \<open>The invariant after a step of stream \<open>i\<close>: the counts and the stream's own ticks are what has
  to be shown.\<close>

lemma sched_inv_update:
  assumes "sched_inv sch s" "i < length (sc_loops sch)" "sd_pcs s' = (sd_pcs s)[i := p]"
    and "sd_global s' = holders holds_global (sd_pcs s')" "sd_global s' \<le> sc_global_cap sch"
    and "\<And>h. host_ok sch s' h"
    and "sd_log s' = sd_log s \<or> (\<exists>t out. sd_log s' = (i, t, out) # sd_log s)"
    and "stream_inv i (sc_loops sch ! i) s'"
  shows "sched_inv sch s'"
proof -
  have "stream_inv j (sc_loops sch ! j) s'" if "j < length (sc_loops sch)" for j
  proof (cases "j = i")
    case True
    with assms(8) show ?thesis by simp
  next
    case False
    then show ?thesis
      using stream_inv_other [OF False assms(3,7)] sched_invD(5) [OF assms(1) that] by simp
  qed
  moreover have "length (sd_pcs s') = length (sc_loops sch)"
    using assms(3) sched_invD(1) [OF assms(1)] by simp
  ultimately show ?thesis using assms(4-6) unfolding sched_inv_def by blast
qed

text \<open>The counts of a step that keeps the clients of a channel.\<close>

lemma global_same:
  assumes "sched_inv sch s" "i < length (sc_loops sch)" "sd_pcs s' = (sd_pcs s)[i := p]"
    and "sd_global s' = sd_global s" "holds_global (sd_pcs s ! i) = holds_global p"
  shows "sd_global s' = holders holds_global (sd_pcs s')" "sd_global s' \<le> sc_global_cap sch"
  using assms(3-5) sched_invD(1-3) [OF assms(1)] assms(2) by (simp_all add: holders_same)

lemma host_same:
  assumes "sched_inv sch s" "i < length (sc_loops sch)" "sd_pcs s' = (sd_pcs s)[i := p]" "sd_host s' h = sd_host s h"
    and "host_client h (sc_loops sch ! i, sd_pcs s ! i) = host_client h (sc_loops sch ! i, p)"
  shows "host_ok sch s' h"
proof -
  have "holders (host_client h) (loops_with_pc sch s') = holders (host_client h) (loops_with_pc sch s)"
    unfolding loops_with_pc_update [OF assms(3)]
    by (rule holders_same) (simp_all add: sched_invD(6,7) [OF assms(1)] assms(2,5))
  then show ?thesis using sched_invD(4) [OF assms(1), of h] assms(4) by (simp add: host_ok_def)
qed

lemma sched_inv_quiet:
  assumes "sched_inv sch s" "i < length (sc_loops sch)"
    and "holds_global p = holds_global (sd_pcs s ! i)" "holds_host p = holds_host (sd_pcs s ! i)"
    and "\<And>d. open_tick d p = open_tick d (sd_pcs s ! i)"
  shows "sched_inv sch (set_pc i p s)"
proof (rule sched_inv_update [OF assms(1,2), where p = p])
  have len: "i < length (sd_pcs s)" using sched_invD(1) [OF assms(1)] assms(2) by simp
  show "stream_inv i (sc_loops sch ! i) (set_pc i p s)"
    by (rule stream_inv_quiet [OF len, where p = p]) (simp_all add: assms(5) sched_invD(5) [OF assms(1,2)])
  show "sd_global (set_pc i p s) = holders holds_global (sd_pcs (set_pc i p s))"
    "sd_global (set_pc i p s) \<le> sc_global_cap sch"
    by (rule global_same [OF assms(1,2), where p = p]; simp add: assms(3))+
  show "host_ok sch (set_pc i p s) h" for h
    by (rule host_same [OF assms(1,2), where p = p]) (simp_all add: assms(4) host_client_def)
qed simp_all

lemma release_hostE:
  assumes "release_host ho s = Some s'"
  obtains "ho = None" "s' = s"
  | h where "ho = Some h" "sd_pcs s' = sd_pcs s" "sd_global s' = sd_global s" "sd_log s' = sd_log s"
      "\<And>g. g \<noteq> h \<Longrightarrow> sd_host s' g = sd_host s g"
  using assms by (cases ho) (auto simp: release_host_def)

lemma sem_frame:
  "acquire_global sch s = Some s' \<Longrightarrow> sd_pcs s' = sd_pcs s \<and> sd_host s' = sd_host s \<and> sd_log s' = sd_log s"
  "release_global s = Some s' \<Longrightarrow> sd_pcs s' = sd_pcs s \<and> sd_host s' = sd_host s \<and> sd_log s' = sd_log s"
  "acquire_host sch h s = Some s' \<Longrightarrow> sd_pcs s' = sd_pcs s \<and> sd_global s' = sd_global s \<and> sd_log s' = sd_log s \<and>
     (\<forall>g. g \<noteq> h \<longrightarrow> sd_host s' g = sd_host s g)"
  by (auto simp: acquire_global_def release_global_def acquire_host_def)

lemma skip_tick_fields [simp]:
  "sd_pcs (skip_tick l i t r s) = (sd_pcs s)[i := Waiting (t + lp_interval l)]"
  "sd_global (skip_tick l i t r s) = sd_global s" "sd_host (skip_tick l i t r s) = sd_host s"
  "sd_log (skip_tick l i t r s) = (i, t, Skipped r) # sd_log s"
  by (simp_all add: skip_tick_def)

lemma skip_stream_inv:
  assumes "sched_inv sch s" "i < length (sc_loops sch)" "sd_pcs s' = (sd_pcs s)[i := p]"
    and "sd_log s' = (i, t, out) # sd_log s" "\<And>d. open_tick d (sd_pcs s ! i) = t"
    and "open_tick (lp_interval (sc_loops sch ! i)) p = t + lp_interval (sc_loops sch ! i)"
  shows "stream_inv i (sc_loops sch ! i) s'"
  by (rule stream_inv_decide [OF _ assms(3,4)])
    (use assms(2,5,6) sched_invD(1,5) [OF assms(1)] in simp_all)

lemma sched_inv_skip:
  assumes inv: "sched_inv sch s" and i: "i < length (sc_loops sch)"
    and q: "\<not> holds_global (sd_pcs s ! i)" "\<not> holds_host (sd_pcs s ! i)" "\<And>d. open_tick d (sd_pcs s ! i) = t"
  shows "sched_inv sch (skip_tick (sc_loops sch ! i) i t r s)"
proof (rule sched_inv_update [OF inv i])
  let ?s = "skip_tick (sc_loops sch ! i) i t r s"
  show pcs: "sd_pcs ?s = (sd_pcs s)[i := Waiting (t + lp_interval (sc_loops sch ! i))]" by simp
  show "sd_global ?s = holders holds_global (sd_pcs ?s)" "sd_global ?s \<le> sc_global_cap sch"
    by (rule global_same [OF inv i pcs]; simp add: q)+
  show "host_ok sch ?s h" for h
    by (rule host_same [OF inv i pcs]) (simp_all add: q host_client_def)
  show "stream_inv i (sc_loops sch ! i) ?s"
    by (rule skip_stream_inv [OF inv i pcs]) (simp_all add: q)
qed simp

lemma sched_inv_skip_release:
  assumes inv: "sched_inv sch s" and i: "i < length (sc_loops sch)" and rel: "release_global s = Some s'"
    and q: "holds_global (sd_pcs s ! i)" "\<not> holds_host (sd_pcs s ! i)" "\<And>d. open_tick d (sd_pcs s ! i) = t"
  shows "sched_inv sch (skip_tick (sc_loops sch ! i) i t r s')"
proof (rule sched_inv_update [OF inv i])
  let ?s = "skip_tick (sc_loops sch ! i) i t r s'" and ?p = "Waiting (t + lp_interval (sc_loops sch ! i))"
  note fr = sem_frame(2) [OF rel]
  show pcs: "sd_pcs ?s = (sd_pcs s)[i := ?p]" using fr by simp
  have "sd_global s' = holders holds_global ((sd_pcs s)[i := ?p])" "sd_global s' \<le> sd_global s"
    using global_sem.release_holders [OF rel sched_invD(2) [OF inv], of i ?p] sched_invD(1) [OF inv] i q by simp_all
  then show "sd_global ?s = holders holds_global (sd_pcs ?s)" "sd_global ?s \<le> sc_global_cap sch"
    using sched_invD(3) [OF inv] fr by simp_all
  show "host_ok sch ?s h" for h
    by (rule host_same [OF inv i pcs]) (simp_all add: q fr host_client_def)
  show "sd_log ?s = sd_log s \<or> (\<exists>t out. sd_log ?s = (i, t, out) # sd_log s)" using fr by simp
  show "stream_inv i (sc_loops sch ! i) ?s"
    by (rule skip_stream_inv [OF inv i pcs]) (simp_all add: q fr)
qed

lemma sched_inv_acquire_global:
  assumes inv: "sched_inv sch s" and i: "i < length (sc_loops sch)" and acq: "acquire_global sch s = Some s'"
    and q: "sd_pcs s ! i = InGlobal t" and p: "p = (if lp_host (sc_loops sch ! i) = None then Holding t else AtHost t)"
  shows "sched_inv sch (set_pc i p s')"
proof (rule sched_inv_update [OF inv i])
  note fr = sem_frame(1) [OF acq]
  show pcs: "sd_pcs (set_pc i p s') = (sd_pcs s)[i := p]" using fr by simp
  have "sd_global s' = holders holds_global ((sd_pcs s)[i := p])" "sd_global s' \<le> sc_global_cap sch"
    using global_sem.acquire_holders [OF acq sched_invD(2) [OF inv], of i p] sched_invD(1) [OF inv] i q p by simp_all
  then show "sd_global (set_pc i p s') = holders holds_global (sd_pcs (set_pc i p s'))"
    "sd_global (set_pc i p s') \<le> sc_global_cap sch" using fr by simp_all
  show "host_ok sch (set_pc i p s') h" for h
    by (rule host_same [OF inv i pcs]) (simp_all add: q p fr host_client_def)
  show "sd_log (set_pc i p s') = sd_log s \<or> (\<exists>t out. sd_log (set_pc i p s') = (i, t, out) # sd_log s)" using fr by simp
  have len: "i < length (sd_pcs s)" using sched_invD(1) [OF inv] i by simp
  show "stream_inv i (sc_loops sch ! i) (set_pc i p s')"
    by (rule stream_inv_quiet [OF len pcs]) (simp_all add: fr p q sched_invD(5) [OF inv i])
qed

lemma sched_inv_acquire_host:
  assumes inv: "sched_inv sch s" and i: "i < length (sc_loops sch)" and acq: "acquire_host sch g s = Some s'"
    and q: "sd_pcs s ! i = InHost t" and g: "lp_host (sc_loops sch ! i) = Some g"
  shows "sched_inv sch (set_pc i (Holding t) s')"
proof (rule sched_inv_update [OF inv i])
  let ?s = "set_pc i (Holding t) s'"
  note fr = sem_frame(3) [OF acq]
  show pcs: "sd_pcs ?s = (sd_pcs s)[i := Holding t]" using fr by simp
  show "sd_global ?s = holders holds_global (sd_pcs ?s)" "sd_global ?s \<le> sc_global_cap sch"
    by (rule global_same [OF inv i pcs]; simp add: q fr)+
  show "host_ok sch ?s h" for h
  proof (cases "h = g")
    case True
    have "sd_host s g = holders (host_client g) (loops_with_pc sch s)"
      using sched_invD(4) [OF inv, of g] by (simp add: host_ok_def)
    then show ?thesis
      unfolding host_ok_def loops_with_pc_update [OF pcs]
      using host_sem.acquire_holders [OF acq, of "host_client g" "loops_with_pc sch s" i "(sc_loops sch ! i, Holding t)"]
        True g q i by (simp add: sched_invD(6,7) [OF inv] host_client_def)
  next
    case False
    with g show ?thesis by (intro host_same [OF inv i pcs]) (simp_all add: fr host_client_def)
  qed
  show "sd_log ?s = sd_log s \<or> (\<exists>t out. sd_log ?s = (i, t, out) # sd_log s)" using fr by simp
  have len: "i < length (sd_pcs s)" using sched_invD(1) [OF inv] i by simp
  show "stream_inv i (sc_loops sch ! i) ?s"
    by (rule stream_inv_quiet [OF len pcs]) (simp_all add: fr q sched_invD(5) [OF inv i])
qed

lemma sched_inv_release_both:
  assumes inv: "sched_inv sch s" and i: "i < length (sc_loops sch)"
    and relh: "release_host (lp_host (sc_loops sch ! i)) s = Some s1" and relg: "release_global s1 = Some s'"
    and q: "holds_global (sd_pcs s ! i)" "holds_host (sd_pcs s ! i)"
    and p: "\<not> holds_global p" "\<not> holds_host p"
      "\<And>d. d = lp_interval (sc_loops sch ! i) \<Longrightarrow> open_tick d p = open_tick d (sd_pcs s ! i)"
  shows "sched_inv sch (set_pc i p s')"
proof (rule sched_inv_update [OF inv i])
  let ?s = "set_pc i p s'" and ?l = "sc_loops sch ! i"
  note fr = sem_frame(2) [OF relg]
  have s1: "sd_pcs s1 = sd_pcs s" "sd_global s1 = sd_global s" "sd_log s1 = sd_log s"
    by (rule release_hostE [OF relh]; simp)+
  show pcs: "sd_pcs ?s = (sd_pcs s)[i := p]" using fr s1 by simp
  have "sd_global s' = holders holds_global ((sd_pcs s)[i := p])" "sd_global s' \<le> sd_global s1"
    using global_sem.release_holders [OF relg, of holds_global "sd_pcs s" i p] sched_invD(1,2) [OF inv] i q p s1 by simp_all
  then show "sd_global ?s = holders holds_global (sd_pcs ?s)" "sd_global ?s \<le> sc_global_cap sch"
    using sched_invD(3) [OF inv] fr s1 by simp_all
  show "host_ok sch ?s h" for h
  proof (cases "lp_host ?l = Some h")
    case True
    have "sd_host s h = holders (host_client h) (loops_with_pc sch s)" "sd_host s h \<le> host_cap sch h"
      using sched_invD(4) [OF inv, of h] by (simp_all add: host_ok_def)
    then show ?thesis
      unfolding host_ok_def loops_with_pc_update [OF pcs]
      using host_sem.release_holders [OF relh [unfolded True], of "host_client h" "loops_with_pc sch s" i "(?l, p)"]
        True q p i fr by (simp add: sched_invD(6,7) [OF inv] host_client_def)
  next
    case False
    have "sd_host s1 h = sd_host s h" by (rule release_hostE [OF relh]) (use False in auto)
    with False show ?thesis by (intro host_same [OF inv i pcs]) (simp_all add: fr host_client_def)
  qed
  show "sd_log ?s = sd_log s \<or> (\<exists>t out. sd_log ?s = (i, t, out) # sd_log s)" using fr s1 by simp
  have len: "i < length (sd_pcs s)" using sched_invD(1) [OF inv] i by simp
  show "stream_inv i ?l ?s"
    by (rule stream_inv_quiet [OF len pcs]) (simp_all add: fr s1 p sched_invD(5) [OF inv i])
qed

lemma sched_inv_fetch:
  assumes inv: "sched_inv sch s" and i: "i < length (sc_loops sch)" and q: "sd_pcs s ! i = Holding t"
  shows "sched_inv sch (set_pc i (Fetching t) (note_outcome i t Fetched s))"
proof (rule sched_inv_update [OF inv i])
  let ?s = "set_pc i (Fetching t) (note_outcome i t Fetched s)"
  show pcs: "sd_pcs ?s = (sd_pcs s)[i := Fetching t]" by simp
  show "sd_global ?s = holders holds_global (sd_pcs ?s)" "sd_global ?s \<le> sc_global_cap sch"
    by (rule global_same [OF inv i pcs]; simp add: q)+
  show "host_ok sch ?s h" for h
    by (rule host_same [OF inv i pcs]) (simp_all add: q host_client_def)
  show "stream_inv i (sc_loops sch ! i) ?s"
    by (rule skip_stream_inv [OF inv i pcs]) (simp_all add: q)
qed simp

section \<open>Every step keeps the invariant\<close>

lemma stream_step_inv:
  assumes "stream_step sch i (sc_loops sch ! i) s s'" and inv: "sched_inv sch s" and i: "i < length (sc_loops sch)"
  shows "sched_inv sch s'"
  using assms(1)
proof cases
  case (skip_early t reason)
  then show ?thesis using sched_inv_skip [OF inv i] by simp
next
  case (global_acquired t s1)
  then show ?thesis using sched_inv_acquire_global [OF inv i global_acquired(3,2) refl] by simp
next
  case (host_acquired t h s1)
  then show ?thesis using sched_inv_acquire_host [OF inv i host_acquired(4,2,3)] by simp
next
  case (host_expired t s1)
  then show ?thesis using sched_inv_skip_release [OF inv i host_expired(4)] by simp
next
  case (host_timeout t s1)
  then show ?thesis using sched_inv_skip_release [OF inv i host_timeout(4)] by simp
next
  case (give_up t s1 s2)
  then show ?thesis using sched_inv_release_both [OF inv i give_up(4,5)] by simp
next
  case (fetch_start t)
  then show ?thesis using sched_inv_fetch [OF inv i] by simp
next
  case (fetch_end t s1 s2)
  then show ?thesis using sched_inv_release_both [OF inv i fetch_end(3,4)] by simp
qed (simp_all add: sched_inv_quiet [OF inv i] sched_inv_skip [OF inv i])

lemma sched_inv_env:
  "sched_inv sch (s\<lparr>sd_now := t\<rparr>) = sched_inv sch s" "sched_inv sch (s\<lparr>sd_paused := b\<rparr>) = sched_inv sch s"
  "sched_inv sch (s\<lparr>sd_cancelled := c\<rparr>) = sched_inv sch s"
  by (simp_all add: sched_inv_def host_ok_def loops_with_pc_def stream_inv_def decided_def)

lemma sched_step_inv: "sched_step sch s s' \<Longrightarrow> sched_inv sch s \<Longrightarrow> sched_inv sch s'"
  by (erule sched_stepE) (simp_all add: sched_inv_env stream_step_inv)

lemma holders_none: "\<forall>x \<in> set xs. \<not> P x \<Longrightarrow> holders P xs = 0"
  by (simp add: holders_def filter_empty_conv)

lemma start_inv: "sched_inv sch (start sch now)"
proof -
  have "holders holds_global (map (\<lambda>l. Waiting (lp_first l)) (sc_loops sch)) = 0"
    by (rule holders_none) simp
  moreover have "host_ok sch (start sch now) h" for h
  proof -
    have "\<forall>x \<in> set (zip (sc_loops sch) (map (\<lambda>l. Waiting (lp_first l)) (sc_loops sch))). \<not> host_client h x"
      by (auto simp: host_client_def dest!: set_zip_rightD)
    from holders_none [OF this] show ?thesis by (simp add: host_ok_def loops_with_pc_def start_def)
  qed
  ultimately show ?thesis
    by (simp add: sched_inv_def start_def stream_inv_def decided_def grid_def)
qed

lemma reachable_inv: "sched_steps sch (start sch now) s \<Longrightarrow> sched_inv sch s"
  by (induction rule: rtranclp_induct) (simp_all add: start_inv sched_step_inv)

section \<open>Properties\<close>

text \<open>C7. In every state that the streams, the clock, pauses and a cancellation can lead to, the
  streams that hold a slot of the global semaphore (all fetches in flight among them) are at most
  runtime.fetch_concurrency, and those fetching from one host at most the capacity of its
  semaphore; the number of elements of each channel is the number of its holders.\<close>

theorem concurrency_bounds:
  assumes "sched_steps sch (start sch now) s"
  shows "length (filter holds_global (sd_pcs s)) \<le> sc_global_cap sch \<and>
    length (filter (host_client h) (zip (sc_loops sch) (sd_pcs s))) \<le> host_cap sch h \<and>
    sd_global s = length (filter holds_global (sd_pcs s))"
  using sched_invD(2,3) [OF reachable_inv [OF assms]] sched_invD(4) [OF reachable_inv [OF assms], of h]
  by (simp add: holders_def host_ok_def loops_with_pc_def)

text \<open>C8. Each stream decides each of its ticks exactly once and in order, by a fetch or by a skip:
  the ticks decided so far are the first tick and its successors on the interval's grid without a
  gap or a repetition.\<close>

theorem ticks_decided_once:
  assumes "sched_steps sch (start sch now) s" "i < length (sc_loops sch)"
  shows "\<exists>n. decided i s = map (\<lambda>k. lp_first (sc_loops sch ! i) + int k * lp_interval (sc_loops sch ! i)) [0..<n]"
  using sched_invD(5) [OF reachable_inv [OF assms(1)] assms(2)] unfolding stream_inv_def grid_def by blast

section \<open>Progress\<close>

lemma host_has_cap:
  assumes "sched_inv sch s" "i < length (sc_loops sch)" "holds_host (sd_pcs s ! i)"
  shows "\<exists>t. release_host (lp_host (sc_loops sch ! i)) s = Some t"
proof (cases "lp_host (sc_loops sch ! i)")
  case None
  then show ?thesis by (simp add: release_host_def)
next
  case (Some h)
  then show ?thesis
    using host_sem.holder_can_release [of s h "host_client h" "loops_with_pc sch s" i] assms
      sched_invD(4) [OF assms(1), of h] sched_invD(6,7) [OF assms(1)] by (simp add: host_ok_def host_client_def)
qed

lemma global_can_release:
  "sched_inv sch s \<Longrightarrow> i < length (sc_loops sch) \<Longrightarrow> holds_global (sd_pcs s ! i) \<Longrightarrow> \<exists>t. release_global s = Some t"
  using global_sem.holder_can_release [of s holds_global "sd_pcs s" i] sched_invD(1,2) by metis

lemma release_both:
  assumes "sched_inv sch s" "i < length (sc_loops sch)" "holds_global (sd_pcs s ! i)" "holds_host (sd_pcs s ! i)"
  shows "\<exists>s1 s2. release_host (lp_host (sc_loops sch ! i)) s = Some s1 \<and> release_global s1 = Some s2"
proof -
  obtain s1 where s1: "release_host (lp_host (sc_loops sch ! i)) s = Some s1"
    using host_has_cap [OF assms(1,2,4)] by blast
  have "sd_global s1 = sd_global s" by (rule release_hostE [OF s1]; simp)
  moreover obtain t where "release_global s = Some t" using global_can_release [OF assms(1-3)] by blast
  ultimately show ?thesis using s1 by (auto simp: release_global_def)
qed

definition advance :: "instant \<Rightarrow> sched \<Rightarrow> sched" where
  "advance t s = s\<lparr>sd_now := max (sd_now s) t\<rparr>"

text \<open>The instant at which a blocked stream can go on at the latest.\<close>

fun wake :: "stream_loop \<Rightarrow> pc \<Rightarrow> instant" where
  "wake l (Sleeping t) = t"
| "wake l (InGlobal t) = deadline_of l t"
| "wake l (InHost t) = deadline_of l t"
| "wake l p = pc_tick p"

text \<open>C9. No stream is ever stuck: from every reachable state, a stream that has not stopped has a
  step of its own as soon as the clock has passed its wake-up time (its tick while it sleeps, its
  deadline while it waits for a slot), whatever the other streams hold; its receives from the
  semaphores never block.\<close>

theorem stream_progress:
  assumes "sched_steps sch (start sch now) s" "i < length (sc_loops sch)" "\<forall>t. sd_pcs s ! i \<noteq> Stopped t"
  shows "\<exists>s'. stream_step sch i (sc_loops sch ! i) (advance (wake (sc_loops sch ! i) (sd_pcs s ! i)) s) s'"
proof -
  let ?l = "sc_loops sch ! i"
  define a where "a = advance (wake ?l (sd_pcs s ! i)) s"
  have inv: "sched_inv sch a"
    using reachable_inv [OF assms(1)] by (simp add: a_def advance_def sched_inv_env)
  have pcs: "sd_pcs a = sd_pcs s" and now: "wake ?l (sd_pcs s ! i) \<le> sd_now a"
    by (simp_all add: a_def advance_def)
  have "\<exists>s'. stream_step sch i ?l a s'"
  proof (cases "sd_pcs s ! i")
    case (Due t)
    then show ?thesis
      by (cases "early_skip ?l (sd_now a) t (sd_paused a)") (metis pcs go_on, metis pcs skip_early)
  next
    case (AtGlobal t)
    then show ?thesis
      by (cases "deadline_of ?l t \<le> sd_now a") (metis pcs global_expired, metis pcs global_select not_le)
  next
    case (AtHost t)
    then obtain b where "release_global a = Some b" using global_can_release [OF inv assms(2)] pcs by auto
    with AtHost show ?thesis
      by (cases "deadline_of ?l t \<le> sd_now a") (metis pcs host_expired, metis pcs host_select not_le)
  next
    case (InHost t)
    then obtain b where "release_global a = Some b" using global_can_release [OF inv assms(2)] pcs by auto
    with InHost now show ?thesis by (metis pcs host_timeout wake.simps(3))
  next
    case (Holding t)
    then obtain b c where "release_host (lp_host ?l) a = Some b" "release_global b = Some c"
      using release_both [OF inv assms(2)] pcs by auto
    with Holding show ?thesis by (cases "sd_cancelled a") (metis pcs give_up, metis pcs fetch_start)
  next
    case (Fetching t)
    then obtain b c where "release_host (lp_host ?l) a = Some b" "release_global b = Some c"
      using release_both [OF inv assms(2)] pcs by auto
    with Fetching show ?thesis by (metis pcs fetch_end)
  next
    case (Waiting t)
    with now show ?thesis by (auto intro!: exI wait_over simp: pcs)
  next
    case (Sleeping t)
    with now show ?thesis by (auto intro!: exI woken simp: pcs)
  next
    case (InGlobal t)
    with now show ?thesis by (auto intro!: exI global_timeout simp: pcs)
  qed (use assms(3) in simp)
  then show ?thesis by (simp add: a_def)
qed

section \<open>A run\<close>

text \<open>Two streams of one host with a single slot: the first fetches while the second waits for the
  host's slot.\<close>

definition example_loop :: "string \<Rightarrow> stream_loop" where
  "example_loop sm = \<lparr>lp_source = ''s'', lp_stream = sm, lp_interval = 30, lp_first = 10, lp_lateness = 5,
     lp_host = Some ''h''\<rparr>"

definition example_scheduler :: scheduler where
  "example_scheduler = \<lparr>sc_loops = [example_loop ''a'', example_loop ''b''], sc_global_cap = 2, sc_host_cap = [''h'' \<mapsto> 1]\<rparr>"

definition example_state :: sched where
  "example_state = \<lparr>sd_now = 10, sd_cancelled = False, sd_paused = False, sd_global = 2, sd_host = (\<lambda>_. 0)(''h'' := 1),
     sd_pcs = [Fetching 10, InHost 10], sd_log = [(0, 10, Fetched)]\<rparr>"

lemma sched_steps_stream:
  "sched_steps sch a s \<Longrightarrow> i < length (sc_loops sch) \<Longrightarrow> stream_step sch i (sc_loops sch ! i) s s' \<Longrightarrow> s' = t \<Longrightarrow> sched_steps sch a t"
  by (metis sched_step.stream rtranclp.rtrancl_into_rtrancl)

lemmas example_defs = example_scheduler_def example_loop_def start_def step_defs deadline_of_def early_skip_def
  acquire_global_def acquire_host_def chan_send_def

lemma example_run: "sched_steps example_scheduler (start example_scheduler 0) example_state"
proof -
  let ?S = "\<lambda>g h ps lg. \<lparr>sd_now = 10, sd_cancelled = False, sd_paused = False, sd_global = g, sd_host = h, sd_pcs = ps, sd_log = lg\<rparr>"
  let ?z = "\<lambda>_. 0 :: nat" and ?o = "(\<lambda>_. 0 :: nat)(''h'' := 1)"
  let ?run = "sched_steps example_scheduler (start example_scheduler 0)"
  have "?run (?S 0 ?z [Waiting 10, Waiting 10] [])"
    by (rule r_into_rtranclp, rule sched_step.clock [where t = 10, THEN back_subst [of "sched_step _ _"]]) (simp_all add: example_defs)
  from sched_steps_stream [OF this, of 0, OF _ wait_over [of _ _ 10]]
  have "?run (?S 0 ?z [Due 10, Waiting 10] [])" by (simp add: example_defs)
  from sched_steps_stream [OF this, of 0, OF _ go_on [of _ _ 10]]
  have "?run (?S 0 ?z [AtGlobal 10, Waiting 10] [])" by (simp add: example_defs)
  from sched_steps_stream [OF this, of 0, OF _ global_select [of _ _ 10]]
  have "?run (?S 0 ?z [InGlobal 10, Waiting 10] [])" by (simp add: example_defs)
  from sched_steps_stream [OF this, of 0, OF _ global_acquired [of _ _ 10]]
  have "?run (?S 1 ?z [AtHost 10, Waiting 10] [])" by (simp add: example_defs)
  from sched_steps_stream [OF this, of 0, OF _ host_select [of _ _ 10]]
  have "?run (?S 1 ?z [InHost 10, Waiting 10] [])" by (simp add: example_defs)
  from sched_steps_stream [OF this, of 0, OF _ host_acquired [of _ _ 10 _ "''h''"]]
  have "?run (?S 1 ?o [Holding 10, Waiting 10] [])" by (simp add: example_defs)
  from sched_steps_stream [OF this, of 0, OF _ fetch_start [of _ _ 10]]
  have "?run (?S 1 ?o [Fetching 10, Waiting 10] [(0, 10, Fetched)])" by (simp add: example_defs)
  from sched_steps_stream [OF this, of 1, OF _ wait_over [of _ _ 10]]
  have "?run (?S 1 ?o [Fetching 10, Due 10] [(0, 10, Fetched)])" by (simp add: example_defs)
  from sched_steps_stream [OF this, of 1, OF _ go_on [of _ _ 10]]
  have "?run (?S 1 ?o [Fetching 10, AtGlobal 10] [(0, 10, Fetched)])" by (simp add: example_defs)
  from sched_steps_stream [OF this, of 1, OF _ global_select [of _ _ 10]]
  have "?run (?S 1 ?o [Fetching 10, InGlobal 10] [(0, 10, Fetched)])" by (simp add: example_defs)
  from sched_steps_stream [OF this, of 1, OF _ global_acquired [of _ _ 10]]
  have "?run (?S 2 ?o [Fetching 10, AtHost 10] [(0, 10, Fetched)])" by (simp add: example_defs)
  from sched_steps_stream [OF this, of 1, OF _ host_select [of _ _ 10]]
  show ?thesis by (simp add: example_defs example_state_def)
qed

lemma concurrency_bounds_witness:
  "length (filter (host_client ''h'') (zip (sc_loops example_scheduler) (sd_pcs example_state))) \<le> 1"
  using concurrency_bounds [OF example_run, of "''h''"] by (simp add: host_cap_def example_scheduler_def)

lemma ticks_decided_once_witness: "\<exists>n. decided 0 example_state = map (\<lambda>k. 10 + int k * 30) [0..<n]"
  using ticks_decided_once [OF example_run, of 0] by (simp add: example_scheduler_def example_loop_def)

lemma stream_progress_witness:
  "\<exists>s'. stream_step example_scheduler 1 (example_loop ''b'') (advance 15 example_state) s'"
  using stream_progress [OF example_run, of 1]
  by (simp add: example_scheduler_def example_state_def example_loop_def deadline_of_def)

end
