(* ===== verification/Scheduler_Record.thy ===== *)
theory Scheduler_Record
  imports Scheduler_Loop State_Props
begin

text \<open>
  recordSkip of internal/scheduler/scheduler.go: the skip of a tick as a row of the store. \<open>random\<close>
  is what the random generator delivers; the result is the database, and the reason reported to the
  observer when the row was written.
\<close>

definition skipped_tick :: "string \<Rightarrow> instant \<Rightarrow> string \<Rightarrow> string \<Rightarrow> instant \<Rightarrow> string \<Rightarrow> string \<Rightarrow> tick" where
  "skipped_tick i now src sm scheduled reason fingerprint =
     \<lparr>tick_id = i, tick_source = src, tick_stream = sm, tick_scheduled = scheduled, tick_started = Some now,
      tick_finished = Some now, tick_result = ''skipped'', tick_skip_reason = reason, tick_error_category = '''',
      tick_error_detail = '''', tick_http_status = 0, tick_attempts = 0, tick_fingerprint = fingerprint\<rparr>"

definition recordSkip ::
  "instant \<Rightarrow> bytes option \<Rightarrow> instant \<Rightarrow> string \<Rightarrow> string \<Rightarrow> string \<Rightarrow> instant \<Rightarrow> string \<Rightarrow> db \<Rightarrow> db \<times> string option" where
  "recordSkip id_now random now fingerprint src sm scheduled reason db =
     (case NewID id_now random of
        Inl _ \<Rightarrow> (db, None)
      | Inr i \<Rightarrow>
         (case RecordTick (skipped_tick i now src sm scheduled reason fingerprint) db of
            Inl _ \<Rightarrow> (db, None)
          | Inr db' \<Rightarrow> (db', Some reason)))"

text \<open>With a working random generator a skip is always recorded: the row of the new identifier
  says when and why the tick was skipped, every other tick keeps its row, and nothing else of the
  database changes.\<close>

theorem skip_recorded:
  assumes "random = Some bs" "id_stamp id_now @ hex_encode bs \<notin> tick_id ` set (db_ticks db)"
  shows "\<exists>r. recordSkip id_now random now fp src sm scheduled reason db = (db\<lparr>db_ticks := db_ticks db @ [r]\<rparr>, Some reason) \<and>
    tick_result r = ''skipped'' \<and> tick_skip_reason r = reason \<and> tick_scheduled r = encodeTime scheduled \<and>
    of_stream src sm r \<and> tick_started r = Some (encodeTime now)"
proof -
  let ?t = "skipped_tick (id_stamp id_now @ hex_encode bs) now src sm scheduled reason fp"
  have i: "tick_id (tick_to_row ?t) = id_stamp id_now @ hex_encode bs" by (simp add: skipped_tick_def)
  have "recordSkip id_now random now fp src sm scheduled reason db = (db\<lparr>db_ticks := db_ticks db @ [tick_to_row ?t]\<rparr>, Some reason)"
    using assms i by (simp add: recordSkip_def NewID_def RecordTick_def put_tick_def upsert_def)
  moreover have "tick_result (tick_to_row ?t) = ''skipped'' \<and> tick_skip_reason (tick_to_row ?t) = reason \<and>
      tick_scheduled (tick_to_row ?t) = encodeTime scheduled \<and> of_stream src sm (tick_to_row ?t) \<and>
      tick_started (tick_to_row ?t) = Some (encodeTime now)"
    by (simp add: tick_to_row_def skipped_tick_def of_stream_def encodeTimePtr_def)
  ultimately show ?thesis by blast
qed

lemma skip_recorded_witness:
  "\<exists>r. recordSkip 0 (Some ''r'') 5 ''f'' ''s'' ''v'' 3 ''late'' empty_db = (empty_db\<lparr>db_ticks := [r]\<rparr>, Some ''late'')"
  using skip_recorded [of "Some ''r''" "''r''" 0 empty_db 5 "''f''" "''s''" "''v''" 3 "''late''"]
  by (auto simp: empty_db_def)

end
