(* ===== verification/App.thy ===== *)
theory App
  imports Maintenance Fetch_Outcome Reconcile_All Observability Scheduler_Record
begin

text \<open>
  internal/app/app.go: the commands over the whole state of the archiver. Flags are parsed the way package
  flag does it; a command reads its configuration, opens the data directory and the store, and calls the
  components. Standard output is a list of lines; log records and usage texts on standard error are left
  out. A world has one state database, the one at \<open>storage.state_db\<close> of the configuration at hand; its files
  are not nodes of the file system, and of SQLite's part in opening it only the outcome is modelled.
\<close>

section \<open>Flags\<close>

datatype flag_value = StringFlag string | IntFlag int | BoolFlag bool

type_synonym flag_set = "(string \<times> flag_value) list"

definition flag_string :: "flag_set \<Rightarrow> string \<Rightarrow> string" where
  "flag_string fs name = (case map_of fs name of Some (StringFlag s) \<Rightarrow> s | _ \<Rightarrow> '''')"

definition flag_int :: "flag_set \<Rightarrow> string \<Rightarrow> int" where
  "flag_int fs name = (case map_of fs name of Some (IntFlag i) \<Rightarrow> i | _ \<Rightarrow> 0)"

definition flag_bool :: "flag_set \<Rightarrow> string \<Rightarrow> bool" where
  "flag_bool fs name = (case map_of fs name of Some (BoolFlag b) \<Rightarrow> b | _ \<Rightarrow> False)"

text \<open>strconv.ParseBool; the parser of integers (base prefixes, underscores) is an argument.\<close>

definition parse_bool :: "string \<Rightarrow> bool option" where
  "parse_bool s =
     (if s \<in> set [''1'', ''t'', ''T'', ''true'', ''TRUE'', ''True''] then Some True
      else if s \<in> set [''0'', ''f'', ''F'', ''false'', ''FALSE'', ''False''] then Some False else None)"

definition set_flag :: "(string \<Rightarrow> int option) \<Rightarrow> string \<Rightarrow> flag_value \<Rightarrow> string \<Rightarrow> flag_value result" where
  "set_flag parse_int name old value =
     (case old of
        StringFlag _ \<Rightarrow> Inr (StringFlag value)
      | IntFlag _ \<Rightarrow> (case parse_int value of Some i \<Rightarrow> Inr (IntFlag i)
                      | None \<Rightarrow> Inl (errors_New (''invalid value '' @ quote value @ '' for flag -'' @ name)))
      | BoolFlag _ \<Rightarrow> (case parse_bool value of Some b \<Rightarrow> Inr (BoolFlag b)
                      | None \<Rightarrow> Inl (errors_New (''invalid boolean value '' @ quote value @ '' for -'' @ name))))"

text \<open>A flag's text without its dashes: the name, and the value after the first equals sign that is not the
  first character.\<close>

definition split_flag :: "string \<Rightarrow> string \<times> string option" where
  "split_flag t =
     (let name = hd t # takeWhile (\<lambda>c. c \<noteq> CHR ''='') (tl t); rest = dropWhile (\<lambda>c. c \<noteq> CHR ''='') (tl t)
      in (name, if rest = [] then None else Some (tl rest)))"

definition update_flag :: "string \<Rightarrow> flag_value \<Rightarrow> flag_set \<Rightarrow> flag_set" where
  "update_flag name v fs = map (\<lambda>(n, x). (n, if n = name then v else x)) fs"

fun parse_flags :: "(string \<Rightarrow> int option) \<Rightarrow> flag_set \<Rightarrow> string list \<Rightarrow> flag_set result" where
  "parse_flags parse_int fs [] = Inr fs"
| "parse_flags parse_int fs (s # args) =
     (if length s < 2 \<or> hd s \<noteq> CHR ''-'' then Inr fs
      else if s = ''--'' then Inr fs
      else (let t = (if s ! 1 = CHR ''-'' then drop 2 s else drop 1 s) in
        if t = [] \<or> hd t = CHR ''-'' \<or> hd t = CHR ''='' then Inl (errors_New (''bad flag syntax: '' @ s))
        else (case split_flag t of (name, value) \<Rightarrow>
          (case map_of fs name of
             None \<Rightarrow> if name = ''help'' \<or> name = ''h'' then Inl (errors_New ''flag: help requested'')
                     else Inl (errors_New (''flag provided but not defined: -'' @ name))
           | Some (BoolFlag b) \<Rightarrow>
               (case set_flag parse_int name (BoolFlag b) (case value of None \<Rightarrow> ''true'' | Some v \<Rightarrow> v) of
                  Inl e \<Rightarrow> Inl e | Inr v \<Rightarrow> parse_flags parse_int (update_flag name v fs) args)
           | Some old \<Rightarrow>
               (case value of
                  Some v \<Rightarrow> (case set_flag parse_int name old v of
                               Inl e \<Rightarrow> Inl e | Inr v' \<Rightarrow> parse_flags parse_int (update_flag name v' fs) args)
                | None \<Rightarrow>
                    (case args of
                       [] \<Rightarrow> Inl (errors_New (''flag needs an argument: -'' @ name))
                     | v # args' \<Rightarrow> (case set_flag parse_int name old v of
                               Inl e \<Rightarrow> Inl e | Inr v' \<Rightarrow> parse_flags parse_int (update_flag name v' fs) args')))))))"

section \<open>The environment and the state\<close>

record 'w env =
  en_decode_yaml :: "config \<Rightarrow> bytes \<Rightarrow> config result"
  en_next_yaml :: "bytes \<Rightarrow> next_document"
  en_parse_url :: "string \<Rightarrow> url option"
  en_load_location :: "string \<Rightarrow> location result"
  en_lookup_env :: "string \<Rightarrow> string option"
  en_parse_int :: "string \<Rightarrow> int option"
  en_eval_symlinks :: "fs \<Rightarrow> string \<Rightarrow> string result"
  en_opened :: instant
  en_open_state :: "string \<Rightarrow> go_error option"
  en_integrity :: "go_error option"
  en_mtime :: "string \<Rightarrow> instant option"
  en_statfs :: "disk_usage result"
  en_decode_sidecar :: "bytes \<Rightarrow> capture option"
  en_ctx :: "nat \<Rightarrow> go_error option"
  en_now :: "nat \<Rightarrow> instant"
  en_fetcher :: fetcher
  en_outside :: "nat \<Rightarrow> outside"
  en_compactor :: "nat \<Rightarrow> compactor"
  en_uploader :: "'w uploader"
  en_fingerprint :: "config \<Rightarrow> string"
  en_version_json :: string
  en_status_json :: "state_status \<Rightarrow> disk_usage \<Rightarrow> string"
  en_percent :: "float_value \<Rightarrow> string"

record 'w world =
  wo_fs :: fs
  wo_db :: db
  wo_remote :: 'w
  wo_migrations :: migrations
  wo_locks :: "lock_place list"
  wo_stdout :: "string list"

datatype outcome = Exit_ok | Exit_error go_error | Exit_panic

definition print_line :: "string \<Rightarrow> 'w world \<Rightarrow> 'w world" where
  "print_line s wo = wo\<lparr>wo_stdout := wo_stdout wo @ [s]\<rparr>"

text \<open>The constructors of the components.\<close>

definition new_fetcher :: "'w env \<Rightarrow> config \<Rightarrow> raw_store \<Rightarrow> fetcher" where
  "new_fetcher en cfg raw = (en_fetcher en)\<lparr>fe_cfg := cfg, fe_raw := raw, fe_fingerprint := en_fingerprint en cfg\<rparr>"

definition new_compactor :: "'w env \<Rightarrow> config \<Rightarrow> raw_store \<Rightarrow> nat \<Rightarrow> compactor" where
  "new_compactor en cfg raw n = (en_compactor en n)\<lparr>co_cfg := cfg, co_raw := raw\<rparr>"

definition new_uploader :: "'w env \<Rightarrow> config \<Rightarrow> 'w uploader" where
  "new_uploader en cfg = (en_uploader en)\<lparr>ul_cfg := cfg\<rparr>"

section \<open>Configuration and runtime\<close>

definition loadConfig :: "'w env \<Rightarrow> fs \<Rightarrow> string \<Rightarrow> load_outcome" where
  "loadConfig en fs path =
     (if trim_space path = '''' then LoadFailed (errors_New ''--config is required'')
      else Load (os_readfile fs) (en_decode_yaml en) (en_next_yaml en) (en_parse_url en) (en_load_location en) (Clean path))"

definition with_config :: "'w env \<Rightarrow> string \<Rightarrow> (config \<Rightarrow> 'w world \<Rightarrow> outcome \<times> 'w world) \<Rightarrow> 'w world \<Rightarrow> outcome \<times> 'w world" where
  "with_config en path body wo =
     (case loadConfig en (wo_fs wo) path of
        LoadPanicked \<Rightarrow> (Exit_panic, wo)
      | LoadFailed e \<Rightarrow> (Exit_error e, wo)
      | Loaded cfg \<Rightarrow> body cfg wo)"

definition with_secrets :: "'w env \<Rightarrow> config \<Rightarrow> ('w world \<Rightarrow> outcome \<times> 'w world) \<Rightarrow> 'w world \<Rightarrow> outcome \<times> 'w world" where
  "with_secrets en cfg body wo =
     (case ResolveSecrets (en_lookup_env en) (os_readfile (wo_fs wo)) (cf_sources cfg) of
        Inl e \<Rightarrow> (Exit_error e, wo) | Inr _ \<Rightarrow> body wo)"

text \<open>state.Open: the directory of the database, the pragmas and the schema (\<open>en_open_state\<close> is the error of
  SQLite), and the row of the migration.\<close>

definition state_Open :: "'w env \<Rightarrow> string \<Rightarrow> 'w world \<Rightarrow> go_error option \<times> 'w world" where
  "state_Open en path wo =
     (case os_mkdirall (Dir path) (wo_fs wo) of
        Inl e \<Rightarrow> (Some (err_wrap ''create state directory'' e), wo)
      | Inr fs1 \<Rightarrow>
          (case en_open_state en path of
             Some e \<Rightarrow> (Some e, wo\<lparr>wo_fs := fs1\<rparr>)
           | None \<Rightarrow> (None, wo\<lparr>wo_fs := fs1, wo_migrations := initialize (en_opened en) (wo_migrations wo)\<rparr>)))"

definition close_runtime :: "lock_place option \<Rightarrow> 'w world \<Rightarrow> 'w world" where
  "close_runtime lock wo = (case lock of None \<Rightarrow> wo | Some f \<Rightarrow> wo\<lparr>wo_locks := Lock_Close f (wo_locks wo)\<rparr>)"

text \<open>The lock of the root, when it is asked for; then the raw store and the database. A failure releases the
  lock.\<close>

definition openRuntime :: "'w env \<Rightarrow> config \<Rightarrow> bool \<Rightarrow> 'w world \<Rightarrow> (raw_store \<times> lock_place option) result \<times> 'w world" where
  "openRuntime en cfg exclusive wo =
     (case (if exclusive
            then (case AcquireLock (st_root (cf_storage cfg)) (wo_locks wo) (wo_fs wo) of
                    (Inl e, locks, fs1) \<Rightarrow> (Inl e, wo\<lparr>wo_locks := locks, wo_fs := fs1\<rparr>)
                  | (Inr f, locks, fs1) \<Rightarrow> (Inr (Some f), wo\<lparr>wo_locks := locks, wo_fs := fs1\<rparr>))
            else (Inr None, wo)) of
        (Inl e, wo1) \<Rightarrow> (Inl e, wo1)
      | (Inr lock, wo1) \<Rightarrow>
          (case Open (en_eval_symlinks en) (st_root (cf_storage cfg)) (wo_fs wo1) of
             (Inl e, fs2) \<Rightarrow> (Inl e, close_runtime lock (wo1\<lparr>wo_fs := fs2\<rparr>))
           | (Inr raw, fs2) \<Rightarrow>
               (case state_Open en (st_state_db (cf_storage cfg)) (wo1\<lparr>wo_fs := fs2\<rparr>) of
                  (Some e, wo3) \<Rightarrow> (Inl e, close_runtime lock wo3)
                | (None, wo3) \<Rightarrow>
                    (case en_integrity en of
                       Some e \<Rightarrow> (Inl e, close_runtime lock wo3)
                     | None \<Rightarrow> (Inr (raw, lock), wo3)))))"

definition with_runtime :: "'w env \<Rightarrow> config \<Rightarrow> bool \<Rightarrow> (raw_store \<Rightarrow> 'w world \<Rightarrow> outcome \<times> 'w world) \<Rightarrow> 'w world \<Rightarrow> outcome \<times> 'w world" where
  "with_runtime en cfg exclusive body wo =
     (case openRuntime en cfg exclusive wo of
        (Inl e, wo1) \<Rightarrow> (Exit_error e, wo1)
      | (Inr (raw, lock), wo1) \<Rightarrow> (case body raw wo1 of (r, wo2) \<Rightarrow> (r, close_runtime lock wo2)))"

definition selectStreams :: "config \<Rightarrow> string \<Rightarrow> string \<Rightarrow> (source_cfg \<times> stream_cfg) list result" where
  "selectStreams cfg sourceID streamID =
     (let chosen = filter (\<lambda>(source, stream). (sourceID = '''' \<or> src_id source = sourceID) \<and> (streamID = '''' \<or> sm_id stream = streamID))
                     (all_streams cfg)
      in if length chosen = 0 then Inl (errors_New ''no configured streams match the selection'') else Inr chosen)"

definition configuredDestination :: "config \<Rightarrow> string \<Rightarrow> destination_cfg option" where
  "configuredDestination cfg i = List.find (\<lambda>d. dst_id d = i) (cf_destinations cfg)"

definition countStreams :: "config \<Rightarrow> nat" where
  "countStreams cfg = sum_list (map (\<lambda>source. length (src_streams source)) (cf_sources cfg))"

end
