(* ===== verification/App_Commands.thy ===== *)
theory App_Commands
  imports App
begin

text \<open>
  The commands of internal/app/app.go, one definition each, and the service as a relation between worlds:
  its start, the rounds of its three workers, and its end.
\<close>

section \<open>Commands on the configuration\<close>

definition flags_of :: "'w env \<Rightarrow> flag_set \<Rightarrow> string list \<Rightarrow> (flag_set \<Rightarrow> 'w world \<Rightarrow> outcome \<times> 'w world) \<Rightarrow> 'w world \<Rightarrow> outcome \<times> 'w world" where
  "flags_of en fs args body wo = (case parse_flags (en_parse_int en) fs args of Inl e \<Rightarrow> (Exit_error e, wo) | Inr fl \<Rightarrow> body fl wo)"

definition validateConfig :: "'w env \<Rightarrow> string list \<Rightarrow> 'w world \<Rightarrow> outcome \<times> 'w world" where
  "validateConfig en args =
     flags_of en [(''config'', StringFlag '''')] args (\<lambda>fl.
     with_config en (flag_string fl ''config'') (\<lambda>cfg.
     with_secrets en cfg (\<lambda>wo.
       (case Preflight (new_uploader en cfg) (wo_fs wo) (wo_remote wo) of
          (Some e, w) \<Rightarrow> (Exit_error e, wo\<lparr>wo_remote := w\<rparr>)
        | (None, w) \<Rightarrow> (Exit_ok, print_line (''configuration valid: '' @ itoa (int (length (cf_sources cfg))) @ '' sources, '' @
            itoa (int (countStreams cfg)) @ '' streams, '' @ itoa (int (length (cf_destinations cfg))) @ '' destinations, fingerprint '' @
            en_fingerprint en cfg) (wo\<lparr>wo_remote := w\<rparr>))))))"

section \<open>Commands on the archive\<close>

text \<open>The loop of fetch-once; a result without a capture would be a nil dereference.\<close>

fun fetch_each :: "'w env \<Rightarrow> fetcher \<Rightarrow> nat \<Rightarrow> (source_cfg \<times> stream_cfg) list \<Rightarrow> 'w world \<Rightarrow> outcome \<times> 'w world" where
  "fetch_each en f n [] wo = (Exit_ok, wo)"
| "fetch_each en f n ((source, stream) # rest) wo =
     (case Fetch f (en_outside en n) source stream (en_now en n) (wo_fs wo) (wo_db wo) of
        Inl e \<Rightarrow> (Exit_error e, wo)
      | Inr r \<Rightarrow>
          (let wo1 = wo\<lparr>wo_fs := fr_fs r, wo_db := fr_db r\<rparr> in
           case fr_error r of
             Some e \<Rightarrow> (Exit_error e, wo1)
           | None \<Rightarrow>
               (case fr_capture r of
                  None \<Rightarrow> (Exit_panic, wo1)
                | Some c \<Rightarrow> fetch_each en f (Suc n) rest (print_line (src_id source @ ''/'' @ sm_id stream @ '' capture='' @ cap_id c @
                    '' status='' @ cap_parse_status c @ '' bytes='' @ itoa (cap_decoded_length c)) wo1))))"

definition fetchOnce :: "'w env \<Rightarrow> string list \<Rightarrow> 'w world \<Rightarrow> outcome \<times> 'w world" where
  "fetchOnce en args =
     flags_of en [(''config'', StringFlag ''''), (''source'', StringFlag ''''), (''stream'', StringFlag '''')] args (\<lambda>fl.
     with_config en (flag_string fl ''config'') (\<lambda>cfg.
     with_secrets en cfg (
     with_runtime en cfg True (\<lambda>raw wo.
       (case selectStreams cfg (flag_string fl ''source'') (flag_string fl ''stream'') of
          Inl e \<Rightarrow> (Exit_error e, wo)
        | Inr bindings \<Rightarrow> fetch_each en (new_fetcher en cfg raw) 0 bindings wo)))))"

definition compact_line :: "compaction \<Rightarrow> string" where
  "compact_line c = cp_source c @ ''/'' @ cp_stream c @ '' date='' @ cp_archive_date c @ '' revision='' @ itoa (cp_revision c) @
     '' rows='' @ itoa (cp_rows c) @ '' excluded='' @ itoa (cp_excluded c) @ '' manifest='' @ cp_manifest_path c"

fun compact_each :: "'w env \<Rightarrow> (nat \<Rightarrow> compactor) \<Rightarrow> string \<Rightarrow> int \<Rightarrow> nat \<Rightarrow> (source_cfg \<times> stream_cfg) list \<Rightarrow> 'w world \<Rightarrow> outcome \<times> 'w world" where
  "compact_each en co date revision n [] wo = (Exit_ok, wo)"
| "compact_each en co date revision n ((source, stream) # rest) wo =
     (case Compact (co n) (en_ctx en) \<lparr>cr_source = src_id source, cr_stream = sm_id stream, cr_date = date, cr_revision = revision\<rparr>
             (wo_fs wo) (wo_db wo) of
        (Inl e, fs', db') \<Rightarrow> (Exit_error e, wo\<lparr>wo_fs := fs', wo_db := db'\<rparr>)
      | (Inr c, fs', db') \<Rightarrow> compact_each en co date revision (Suc n) rest (print_line (compact_line c) (wo\<lparr>wo_fs := fs', wo_db := db'\<rparr>)))"

definition bad_date :: go_error where
  "bad_date = errors_New ''--date must be YYYY-MM-DD''"

definition compact_command :: "'w env \<Rightarrow> string list \<Rightarrow> 'w world \<Rightarrow> outcome \<times> 'w world" where
  "compact_command en args =
     flags_of en [(''config'', StringFlag ''''), (''date'', StringFlag ''''), (''source'', StringFlag ''''), (''stream'', StringFlag ''''),
                  (''revision'', IntFlag 0)] args (\<lambda>fl wo.
       if parse_date_only (flag_string fl ''date'') = None then (Exit_error bad_date, wo)
       else with_config en (flag_string fl ''config'') (\<lambda>cfg.
            with_runtime en cfg True (\<lambda>raw wo.
              (case selectStreams cfg (flag_string fl ''source'') (flag_string fl ''stream'') of
                 Inl e \<Rightarrow> (Exit_error e, wo)
               | Inr bindings \<Rightarrow> compact_each en (new_compactor en cfg raw) (flag_string fl ''date'') (flag_int fl ''revision'') 0 bindings wo))) wo)"

definition upload_pass :: "'w env \<Rightarrow> config \<Rightarrow> string \<Rightarrow> int \<Rightarrow> 'w world \<Rightarrow> outcome \<times> 'w world" where
  "upload_pass en cfg destination queued wo =
     (case Preflight (new_uploader en cfg) (wo_fs wo) (wo_remote wo) of
        (Some e, w) \<Rightarrow> (Exit_error e, wo\<lparr>wo_remote := w\<rparr>)
      | (None, w) \<Rightarrow>
          (let r = ProcessPending (new_uploader en cfg) destination (en_now en 0) (wo_fs wo) (wo_db wo) w;
               wo1 = wo\<lparr>wo_db := ur_db r, wo_remote := ur_world r\<rparr> in
           case ur_error r of
             Some e \<Rightarrow> (Exit_error e, wo1)
           | None \<Rightarrow> (Exit_ok, print_line (''queued '' @ itoa queued @ '' historical upload(s), processed '' @ itoa (int (ur_processed r)) @ '' upload(s)'') wo1)))"

definition upload_command :: "'w env \<Rightarrow> string list \<Rightarrow> 'w world \<Rightarrow> outcome \<times> 'w world" where
  "upload_command en args =
     flags_of en [(''config'', StringFlag ''''), (''destination'', StringFlag '''')] args (\<lambda>fl.
     with_config en (flag_string fl ''config'') (\<lambda>cfg.
     with_runtime en cfg True (\<lambda>raw wo.
       (let destination = flag_string fl ''destination'' in
        if destination \<noteq> '''' then
          (case configuredDestination cfg destination of
             None \<Rightarrow> (Exit_error (errors_New (''destination '' @ quote destination @ '' is not configured'')), wo)
           | Some _ \<Rightarrow>
               (case EnsureDestinationBackfill destination (en_now en 0) (wo_db wo) of
                  (queued, db') \<Rightarrow> upload_pass en cfg destination queued (wo\<lparr>wo_db := db'\<rparr>)))
        else upload_pass en cfg destination 0 wo))))"

fun verify_each :: "'w env \<Rightarrow> config \<Rightarrow> string \<Rightarrow> (source_cfg \<times> stream_cfg) list \<Rightarrow> 'w world \<Rightarrow> outcome \<times> 'w world" where
  "verify_each en cfg date [] wo = (Exit_ok, wo)"
| "verify_each en cfg date ((source, stream) # rest) wo =
     (case LatestCompaction (src_id source) (sm_id stream) date (wo_db wo) of
        Inl e \<Rightarrow> (Exit_error e, wo)
      | Inr c \<Rightarrow>
          (case VerifyDirectory (co_env (en_compactor en 0)) (wo_fs wo) (st_root (cf_storage cfg)) c of
             Inl e \<Rightarrow> (Exit_error e, wo)
           | Inr _ \<Rightarrow> verify_each en cfg date rest (print_line (cp_source c @ ''/'' @ cp_stream c @ '' date='' @ cp_archive_date c @
               '' revision='' @ itoa (cp_revision c) @ '' verified'') wo)))"

definition verify_command :: "'w env \<Rightarrow> string list \<Rightarrow> 'w world \<Rightarrow> outcome \<times> 'w world" where
  "verify_command en args =
     flags_of en [(''config'', StringFlag ''''), (''date'', StringFlag ''''), (''source'', StringFlag ''''), (''stream'', StringFlag '''')] args (\<lambda>fl wo.
       if parse_date_only (flag_string fl ''date'') = None then (Exit_error bad_date, wo)
       else with_config en (flag_string fl ''config'') (\<lambda>cfg.
            with_runtime en cfg False (\<lambda>raw wo.
              (case selectStreams cfg (flag_string fl ''source'') (flag_string fl ''stream'') of
                 Inl e \<Rightarrow> (Exit_error e, wo)
               | Inr bindings \<Rightarrow> verify_each en cfg (flag_string fl ''date'') bindings wo))) wo)"

definition status_line :: "'w env \<Rightarrow> state_status \<Rightarrow> disk_usage \<Rightarrow> string" where
  "status_line en s u = ''ticks='' @ itoa (ss_ticks s) @ '' captures='' @ itoa (ss_captures s) @ '' summarized_days='' @ itoa (ss_summarized_days s) @
     '' compactions='' @ itoa (ss_compactions s) @ '' uploads_pending='' @ itoa (ss_pending s) @ '' uploads_failed='' @ itoa (ss_failed s) @
     '' uploads_verified='' @ itoa (ss_verified s) @ '' uploads_retired='' @ itoa (ss_retired s) @ '' disk_used='' @ en_percent en (du_percent u) @ ''%''"

definition status_command :: "'w env \<Rightarrow> string list \<Rightarrow> 'w world \<Rightarrow> outcome \<times> 'w world" where
  "status_command en args =
     flags_of en [(''config'', StringFlag ''''), (''json'', BoolFlag False)] args (\<lambda>fl.
     with_config en (flag_string fl ''config'') (\<lambda>cfg.
     with_runtime en cfg False (\<lambda>raw wo.
       (case en_statfs en of
          Inl e \<Rightarrow> (Exit_error e, wo)
        | Inr u \<Rightarrow> (Exit_ok, print_line (if flag_bool fl ''json'' then en_status_json en (Status (wo_db wo)) u
                                        else status_line en (Status (wo_db wo)) u) wo)))))"

definition reconcile_all :: "'w env \<Rightarrow> config \<Rightarrow> raw_store \<Rightarrow> 'w world \<Rightarrow> reconcile_result \<times> fs" where
  "reconcile_all en cfg raw wo =
     All (co_env (en_compactor en 0)) (en_decode_sidecar en) (en_load_location en) cfg (en_ctx en) (en_now en 0) raw (wo_db wo) (wo_fs wo)"

definition repair_note :: "reconcile_result \<Rightarrow> string" where
  "repair_note r = ''captures='' @ itoa (int (rr_registered r)) @ '' compactions='' @ itoa (int (rr_adopted r)) @ '' corrupt='' @ itoa (int (rr_corrupt r))"

definition repair_command :: "'w env \<Rightarrow> string list \<Rightarrow> 'w world \<Rightarrow> outcome \<times> 'w world" where
  "repair_command en args wo =
     (if length args = 0 \<or> hd args \<noteq> ''reconcile'' then (Exit_error (errors_New ''repair currently requires the reconcile subcommand''), wo)
      else flags_of en [(''config'', StringFlag '''')] (tl args) (\<lambda>fl.
        with_config en (flag_string fl ''config'') (\<lambda>cfg.
        with_runtime en cfg True (\<lambda>raw wo.
          (case reconcile_all en cfg raw wo of
             (r, fs') \<Rightarrow>
               (let wo1 = wo\<lparr>wo_fs := fs', wo_db := rr_db r\<rparr> in
                case rr_error r of
                  Some e \<Rightarrow> (Exit_error e, wo1)
                | None \<Rightarrow> (Exit_ok, print_line (''captures_registered='' @ itoa (int (rr_registered r)) @ '' compactions_adopted='' @
                    itoa (int (rr_adopted r)) @ '' corrupt='' @ itoa (int (rr_corrupt r)))
                    (wo1\<lparr>wo_db := RecordRepair ''reconcile'' (repair_note r) ''manual repair command'' (en_now en 1) (wo_db wo1)\<rparr>))))))) wo)"

definition reason_problem :: "string \<Rightarrow> string \<Rightarrow> go_error option" where
  "reason_problem destination cleanReason =
     (if \<not> ValidID destination then Some (errors_New ''--destination must be a configured-style safe ID'')
      else if cleanReason = '''' then Some (errors_New ''--reason is required'')
      else if length cleanReason > 500 \<or> contains_any cleanReason (CHR 0x00 # newline_chars)
      then Some (errors_New ''--reason must be at most 500 characters without control newlines'')
      else None)"

definition retireDestination_command :: "'w env \<Rightarrow> string list \<Rightarrow> 'w world \<Rightarrow> outcome \<times> 'w world" where
  "retireDestination_command en args =
     flags_of en [(''config'', StringFlag ''''), (''destination'', StringFlag ''''), (''reason'', StringFlag '''')] args (\<lambda>fl wo.
       (let destination = flag_string fl ''destination''; cleanReason = trim_space (flag_string fl ''reason'') in
        case reason_problem destination cleanReason of
          Some e \<Rightarrow> (Exit_error e, wo)
        | None \<Rightarrow>
            with_config en (flag_string fl ''config'') (\<lambda>cfg.
            with_runtime en cfg True (\<lambda>raw wo.
              (case RetireDestination destination cleanReason (en_now en 0) (wo_db wo) of
                 (retired, db') \<Rightarrow> (Exit_ok, print_line (''retired '' @ itoa retired @ '' required upload(s) for destination '' @ destination)
                                    (wo\<lparr>wo_db := db'\<rparr>))))) wo))"

section \<open>The service\<close>

text \<open>The start of runService, up to the workers: the configuration, the store, and the world they start in.\<close>

datatype service_start = Not_started outcome | Started config raw_store "lock_place option"

definition start_service :: "'w env \<Rightarrow> config \<Rightarrow> 'w world \<Rightarrow> service_start \<times> 'w world" where
  "start_service en cfg wo =
     (case openRuntime en cfg True wo of
        (Inl e, wo1) \<Rightarrow> (Not_started (Exit_error e), wo1)
      | (Inr (raw, lock), wo1) \<Rightarrow>
          (case Preflight (new_uploader en cfg) (wo_fs wo1) (wo_remote wo1) of
             (Some e, w) \<Rightarrow> (Not_started (Exit_error e), close_runtime lock (wo1\<lparr>wo_remote := w\<rparr>))
           | (None, w) \<Rightarrow>
               (case reconcile_all en cfg raw wo1 of
                  (r, fs') \<Rightarrow>
                    (let wo2 = wo1\<lparr>wo_fs := fs', wo_db := rr_db r, wo_remote := w\<rparr> in
                     case rr_error r of
                       Some e \<Rightarrow> (Not_started (Exit_error (err_wrap ''startup reconciliation'' e)), close_runtime lock wo2)
                     | None \<Rightarrow>
                         (case RemoveExpiredStaging (en_mtime en) raw (en_now en 1 - 24 * hour) (wo_fs wo2) of
                            Inl e \<Rightarrow> (Not_started (Exit_error (err_wrap ''clean staging'' e)), close_runtime lock wo2)
                          | Inr (removed, fs'') \<Rightarrow> (Started cfg raw lock, wo2\<lparr>wo_fs := fs''\<rparr>))))))"

text \<open>One step of a running service: a poll or a skip of the scheduler, or a round of the maintenance; the monitor
  does not write. Clocks, draws and contexts are those of the step.\<close>

inductive service_step :: "'w env \<Rightarrow> config \<Rightarrow> raw_store \<Rightarrow> 'w world \<Rightarrow> 'w world \<Rightarrow> bool"
  for en :: "'w env" and cfg :: config and raw :: raw_store where
  poll: "Fetch (new_fetcher en cfg raw) out source stream scheduled (wo_fs wo) (wo_db wo) = Inr r \<Longrightarrow>
    service_step en cfg raw wo (wo\<lparr>wo_fs := fr_fs r, wo_db := fr_db r\<rparr>)"
| skip: "recordSkip id_now random now (en_fingerprint en cfg) src sm scheduled reason (wo_db wo) = (db', reported) \<Longrightarrow>
    service_step en cfg raw wo (wo\<lparr>wo_db := db'\<rparr>)"
| maintain: "maintenance_step (en_load_location en) cfg raw (wo_fs wo, wo_db wo, wo_remote wo) (fs', db', w') \<Longrightarrow>
    service_step en cfg raw wo (wo\<lparr>wo_fs := fs', wo_db := db', wo_remote := w'\<rparr>)"

text \<open>The end: a failed health server, workers that do not stop in time, or a failed checkpoint.\<close>

definition service_outcome :: "go_error option \<Rightarrow> bool \<Rightarrow> go_error option \<Rightarrow> outcome" where
  "service_outcome server_error stopped checkpoint_error =
     (if \<not> stopped then Exit_error (errors_New ''workers did not stop within shutdown timeout'')
      else case checkpoint_error of
        Some e \<Rightarrow> Exit_error (err_wrap ''checkpoint state'' e)
      | None \<Rightarrow> (case server_error of Some e \<Rightarrow> Exit_error (err_wrap ''health server'' e) | None \<Rightarrow> Exit_ok))"

inductive runService :: "'w env \<Rightarrow> string list \<Rightarrow> 'w world \<Rightarrow> outcome \<Rightarrow> 'w world \<Rightarrow> bool" for en :: "'w env" where
  bad_flags: "parse_flags (en_parse_int en) [(''config'', StringFlag '''')] args = Inl e \<Longrightarrow> runService en args wo (Exit_error e) wo"
| bad_config: "parse_flags (en_parse_int en) [(''config'', StringFlag '''')] args = Inr fl \<Longrightarrow>
    (case loadConfig en (wo_fs wo) (flag_string fl ''config'') of LoadPanicked \<Rightarrow> out = Exit_panic | LoadFailed e \<Rightarrow> out = Exit_error e | Loaded cfg \<Rightarrow> False) \<Longrightarrow>
    runService en args wo out wo"
| bad_secrets: "parse_flags (en_parse_int en) [(''config'', StringFlag '''')] args = Inr fl \<Longrightarrow>
    loadConfig en (wo_fs wo) (flag_string fl ''config'') = Loaded cfg \<Longrightarrow>
    ResolveSecrets (en_lookup_env en) (os_readfile (wo_fs wo)) (cf_sources cfg) = Inl e \<Longrightarrow> runService en args wo (Exit_error e) wo"
| not_started: "parse_flags (en_parse_int en) [(''config'', StringFlag '''')] args = Inr fl \<Longrightarrow>
    loadConfig en (wo_fs wo) (flag_string fl ''config'') = Loaded cfg \<Longrightarrow>
    ResolveSecrets (en_lookup_env en) (os_readfile (wo_fs wo)) (cf_sources cfg) = Inr () \<Longrightarrow>
    start_service en cfg wo = (Not_started out, wo1) \<Longrightarrow> runService en args wo out wo1"
| served: "parse_flags (en_parse_int en) [(''config'', StringFlag '''')] args = Inr fl \<Longrightarrow>
    loadConfig en (wo_fs wo) (flag_string fl ''config'') = Loaded cfg \<Longrightarrow>
    ResolveSecrets (en_lookup_env en) (os_readfile (wo_fs wo)) (cf_sources cfg) = Inr () \<Longrightarrow>
    start_service en cfg wo = (Started cfg' raw lock, wo1) \<Longrightarrow> (service_step en cfg' raw)\<^sup>*\<^sup>* wo1 wo2 \<Longrightarrow>
    runService en args wo (service_outcome server_error stopped checkpoint_error) (close_runtime lock wo2)"

section \<open>Run\<close>

definition run_command :: "'w env \<Rightarrow> string list \<Rightarrow> 'w world \<Rightarrow> outcome \<times> 'w world" where
  "run_command en args wo =
     (case args of
        [] \<Rightarrow> (Exit_error (errors_New ''a command is required''), wo)
      | c # rest \<Rightarrow>
          if c = ''validate-config'' then validateConfig en rest wo
          else if c = ''fetch-once'' then fetchOnce en rest wo
          else if c = ''compact'' then compact_command en rest wo
          else if c = ''upload'' then upload_command en rest wo
          else if c = ''verify'' then verify_command en rest wo
          else if c = ''status'' then status_command en rest wo
          else if c = ''repair'' then repair_command en rest wo
          else if c = ''retire-destination'' then retireDestination_command en rest wo
          else if c = ''version'' then (Exit_ok, print_line (en_version_json en) wo)
          else if c \<in> set [''help'', ''-h'', ''--help''] then (Exit_ok, wo)
          else (Exit_error (errors_New (''unknown command '' @ quote c)), wo))"

inductive app_run :: "'w env \<Rightarrow> string list \<Rightarrow> 'w world \<Rightarrow> outcome \<Rightarrow> 'w world \<Rightarrow> bool" for en :: "'w env" where
  service: "runService en args wo out wo' \<Longrightarrow> app_run en (''run'' # args) wo out wo'"
| other: "args = [] \<or> hd args \<noteq> ''run'' \<Longrightarrow> run_command en args wo = (out, wo') \<Longrightarrow> app_run en args wo out wo'"

end
