(* ===== verification/Maintenance_Props.thy ===== *)
theory Maintenance_Props
  imports Maintenance "HOL-Library.Multiset"
begin

text \<open>
  The compaction workers: mutual exclusion per stream, the bound on workers, every job once, progress,
  and the upload workers under their semaphore. Both keep to the calls of the store.
\<close>

section \<open>The invariant of the pool\<close>

fun held :: "worker \<Rightarrow> job list" where
  "held (Locking j) = [j]"
| "held (Compacting j) = [j]"
| "held _ = []"

fun locked :: "worker \<Rightarrow> job list" where
  "locked (Compacting j) = [j]"
| "locked _ = []"

lemma split_worker:
  assumes "i < length ws" "ws ! i = w"
  obtains as bs where "ws = as @ w # bs" "\<And>w'. ws[i := w'] = as @ w' # bs"
  using id_take_nth_drop [OF assms(1)] upd_conv_take_nth_drop [OF assms(1)] assms(2) that by metis

definition accounted :: "pool \<Rightarrow> job multiset" where
  "accounted p = mset (cw_queue p) + mset (concat (map held (cw_workers p))) + mset (map fst (cw_done p))"

definition locks_kept :: "pool \<Rightarrow> bool" where
  "locks_kept p \<longleftrightarrow> cw_locks p = job_key ` set (concat (map locked (cw_workers p))) \<and> distinct (map job_key (concat (map locked (cw_workers p))))"

definition pool_inv :: "bool \<Rightarrow> job list \<Rightarrow> db \<Rightarrow> nat \<Rightarrow> pool \<Rightarrow> bool" where
  "pool_inv cancelled jobs db n p \<longleftrightarrow> length (cw_workers p) = n \<and> locks_kept p \<and> accounted p \<subseteq># mset jobs \<and>
     (\<not> cancelled \<longrightarrow> accounted p = mset jobs) \<and> (\<not> cancelled \<longrightarrow> Stopped \<in> set (cw_workers p) \<longrightarrow> cw_queue p = []) \<and>
     store_call\<^sup>*\<^sup>* db (cw_db p)"

lemma compact_store:
  assumes "Compact co ctx req fs db = (r, fs', db')" "store_call\<^sup>*\<^sup>* db0 db"
  shows "store_call\<^sup>*\<^sup>* db0 db'"
  using compact_calls_store [OF assms(1)] assms(2) by (auto split: sum.splits intro: rtranclp.rtrancl_into_rtrancl)

text \<open>What one step does to the parts of the invariant.\<close>

lemma step_length: "pool_step co ctx cancelled p p' \<Longrightarrow> length (cw_workers p') = length (cw_workers p)"
  by (induction rule: pool_step.induct) simp_all

lemma unlock:
  assumes "locks_kept p" "cw_workers p = as @ Compacting j # bs" "locked w = []"
  shows "locks_kept (p\<lparr>cw_locks := cw_locks p - {job_key j}, cw_workers := as @ w # bs\<rparr>)"
proof -
  define A B where "A = concat (map locked as)" and "B = concat (map locked bs)"
  have "cw_locks p = job_key ` set (A @ j # B)" "distinct (map job_key (A @ j # B))"
    using assms(1,2) by (simp_all add: locks_kept_def A_def B_def)
  then have "cw_locks p - {job_key j} = job_key ` set (A @ B)" "distinct (map job_key (A @ B))" by (auto simp: image_iff)
  then show ?thesis using assms(3) by (simp add: locks_kept_def A_def B_def)
qed

lemma locks_kept_same: "cw_locks q = cw_locks p \<Longrightarrow> cw_workers q = cw_workers p \<Longrightarrow> locks_kept q = locks_kept p"
  by (simp add: locks_kept_def)

lemma step_locks: "pool_step co ctx cancelled p p' \<Longrightarrow> locks_kept p \<Longrightarrow> locks_kept p'"
proof (induction rule: pool_step.induct)
  case (hand_over i p j q)
  from split_worker [OF hand_over(1,2)] obtain as bs where "cw_workers p = as @ Idle # bs" "\<And>w'. (cw_workers p)[i := w'] = as @ w' # bs" by metis
  with hand_over(4) show ?case by (simp add: locks_kept_def)
next
  case (lock i p j)
  from split_worker [OF lock(1,2)] obtain as bs where "cw_workers p = as @ Locking j # bs" "\<And>w'. (cw_workers p)[i := w'] = as @ w' # bs" by metis
  with lock(3,4) show ?case by (auto simp: locks_kept_def)
next
  case (compact i p j)
  from split_worker [OF compact(1,2)] obtain as bs where "cw_workers p = as @ Compacting j # bs" "\<And>w'. (cw_workers p)[i := w'] = as @ w' # bs" by metis
  from unlock [OF compact(4) this(1), of Idle] this show ?case by (simp add: locks_kept_def)
next
  case (closed i p)
  from split_worker [OF closed(1,2)] obtain as bs where "cw_workers p = as @ Idle # bs" "\<And>w'. (cw_workers p)[i := w'] = as @ w' # bs" by metis
  with closed(4) show ?case by (simp add: locks_kept_def)
next
  case (give_up i p j)
  from split_worker [OF give_up(2,3)] obtain as bs where "cw_workers p = as @ Locking j # bs" "\<And>w'. (cw_workers p)[i := w'] = as @ w' # bs" by metis
  with give_up(4) show ?case by (simp add: locks_kept_def)
next
  case (give_up_locked i p j)
  from split_worker [OF give_up_locked(2,3)] obtain as bs where "cw_workers p = as @ Compacting j # bs" "\<And>w'. (cw_workers p)[i := w'] = as @ w' # bs" by metis
  from unlock [OF give_up_locked(4) this(1), of Stopped] this show ?case by simp
qed (simp add: locks_kept_def)

lemma step_accounted: "pool_step co ctx cancelled p p' \<Longrightarrow> accounted p' \<subseteq># accounted p \<and> (\<not> cancelled \<longrightarrow> accounted p' = accounted p)"
proof (induction rule: pool_step.induct)
  case (hand_over i p j q)
  from split_worker [OF hand_over(1,2)] obtain as bs where "cw_workers p = as @ Idle # bs" "\<And>w'. (cw_workers p)[i := w'] = as @ w' # bs" by metis
  with hand_over(3) show ?case by (simp add: accounted_def)
next
  case (lock i p j)
  from split_worker [OF lock(1,2)] obtain as bs where "cw_workers p = as @ Locking j # bs" "\<And>w'. (cw_workers p)[i := w'] = as @ w' # bs" by metis
  then show ?case by (simp add: accounted_def)
next
  case (compact i p j)
  from split_worker [OF compact(1,2)] obtain as bs where "cw_workers p = as @ Compacting j # bs" "\<And>w'. (cw_workers p)[i := w'] = as @ w' # bs" by metis
  then show ?case by (simp add: accounted_def)
next
  case (closed i p)
  from split_worker [OF closed(1,2)] obtain as bs where "cw_workers p = as @ Idle # bs" "\<And>w'. (cw_workers p)[i := w'] = as @ w' # bs" by metis
  then show ?case by (simp add: accounted_def)
next
  case (abandon p)
  then show ?case by (simp add: accounted_def)
next
  case (give_up i p j)
  from split_worker [OF give_up(2,3)] obtain as bs where "cw_workers p = as @ Locking j # bs" "\<And>w'. (cw_workers p)[i := w'] = as @ w' # bs" by metis
  with give_up(1) show ?case by (simp add: accounted_def)
next
  case (give_up_locked i p j)
  from split_worker [OF give_up_locked(2,3)] obtain as bs where "cw_workers p = as @ Compacting j # bs" "\<And>w'. (cw_workers p)[i := w'] = as @ w' # bs" by metis
  with give_up_locked(1) show ?case by (simp add: accounted_def)
qed

lemma step_stopped:
  assumes "pool_step co ctx False p p'" "Stopped \<in> set (cw_workers p) \<longrightarrow> cw_queue p = []"
  shows "Stopped \<in> set (cw_workers p') \<longrightarrow> cw_queue p' = []"
  using assms by (induction rule: pool_step.induct) (auto dest: set_update_subset_insert [THEN subsetD])

lemma pool_step_inv:
  assumes "pool_step co ctx cancelled p p'" "pool_inv cancelled jobs db n p"
  shows "pool_inv cancelled jobs db n p'"
proof -
  have "store_call\<^sup>*\<^sup>* db (cw_db p) \<Longrightarrow> store_call\<^sup>*\<^sup>* db (cw_db p')"
    using assms(1) by (induction rule: pool_step.induct) (auto dest: compact_store)
  moreover have "\<not> cancelled \<longrightarrow> Stopped \<in> set (cw_workers p') \<longrightarrow> cw_queue p' = []"
    using assms step_stopped [of co ctx p p'] by (cases cancelled) (auto simp: pool_inv_def)
  ultimately show ?thesis
    using step_length [OF assms(1)] step_locks [OF assms(1)] step_accounted [OF assms(1)] assms(2)
    unfolding pool_inv_def by (metis subset_mset.order_trans)
qed

lemma start_pool_inv: "pool_inv cancelled jobs db (nat (min (rt_compaction_concurrency (cf_runtime cfg)) (int (length jobs)))) (start_pool cfg jobs fs db)"
proof -
  have "concat (map held (replicate n Idle)) = []" "concat (map locked (replicate n Idle)) = []" for n by (induction n) simp_all
  then show ?thesis by (auto simp: pool_inv_def locks_kept_def accounted_def start_pool_def)
qed

lemma pool_reach_inv:
  assumes "(pool_step co ctx cancelled)\<^sup>*\<^sup>* (start_pool cfg jobs fs db) p"
  shows "pool_inv cancelled jobs db (nat (min (rt_compaction_concurrency (cf_runtime cfg)) (int (length jobs)))) p"
  using assms by (induction rule: rtranclp_induct) (blast intro: start_pool_inv pool_step_inv)+

section \<open>Progress\<close>

fun worker_weight :: "worker \<Rightarrow> nat" where
  "worker_weight (Locking j) = 3"
| "worker_weight (Compacting j) = 2"
| "worker_weight Idle = 1"
| "worker_weight Stopped = 0"

definition pool_weight :: "pool \<Rightarrow> nat" where
  "pool_weight p = 4 * length (cw_queue p) + sum_list (map worker_weight (cw_workers p))"

lemma step_weight: "pool_step co ctx False p p' \<Longrightarrow> pool_weight p' < pool_weight p"
proof (induction rule: pool_step.induct)
  case (hand_over i p j q)
  from split_worker [OF hand_over(1,2)] obtain as bs where "cw_workers p = as @ Idle # bs" "\<And>w'. (cw_workers p)[i := w'] = as @ w' # bs" by metis
  with hand_over(3) show ?case by (simp add: pool_weight_def)
next
  case (lock i p j)
  from split_worker [OF lock(1,2)] obtain as bs where "cw_workers p = as @ Locking j # bs" "\<And>w'. (cw_workers p)[i := w'] = as @ w' # bs" by metis
  then show ?case by (simp add: pool_weight_def)
next
  case (compact i p j)
  from split_worker [OF compact(1,2)] obtain as bs where "cw_workers p = as @ Compacting j # bs" "\<And>w'. (cw_workers p)[i := w'] = as @ w' # bs" by metis
  then show ?case by (simp add: pool_weight_def)
next
  case (closed i p)
  from split_worker [OF closed(1,2)] obtain as bs where "cw_workers p = as @ Idle # bs" "\<And>w'. (cw_workers p)[i := w'] = as @ w' # bs" by metis
  then show ?case by (simp add: pool_weight_def)
qed simp_all

lemma steps_weight: "(pool_step co ctx False ^^ k) p p' \<Longrightarrow> k + pool_weight p' \<le> pool_weight p"
proof (induction k arbitrary: p')
  case (Suc k)
  then obtain q where "(pool_step co ctx False ^^ k) p q" "pool_step co ctx False q p'" by auto
  with Suc.IH [of q] step_weight show ?case by fastforce
qed simp

lemma pool_progress:
  assumes "pool_inv cancelled jobs db n p" "0 < n \<or> cw_queue p = []" "\<not> pool_finished p"
  shows "\<exists>p'. pool_step co ctx cancelled p p'"
proof -
  consider (compacting) j where "Compacting j \<in> set (cw_workers p)"
    | (locking) j where "Locking j \<in> set (cw_workers p)" "\<forall>k. Compacting k \<notin> set (cw_workers p)"
    | (idle) "Idle \<in> set (cw_workers p)"
    | (stopped) "\<forall>w \<in> set (cw_workers p). w = Stopped"
    by (metis worker.exhaust)
  then show ?thesis
  proof cases
    case (compacting j)
    then obtain i where "i < length (cw_workers p)" "cw_workers p ! i = Compacting j" by (auto simp: in_set_conv_nth)
    moreover obtain r fs' db' where "Compact (co (length (cw_done p))) (ctx (length (cw_done p))) (job_request j) (cw_fs p) (cw_db p) = (r, fs', db')"
      by (metis prod.exhaust)
    ultimately show ?thesis by (blast intro: pool_step.compact)
  next
    case (locking j)
    then obtain i where "i < length (cw_workers p)" "cw_workers p ! i = Locking j" by (auto simp: in_set_conv_nth)
    moreover have "locked w = []" if "w \<in> set (cw_workers p)" for w using locking(2) that by (cases w) auto
    then have "cw_locks p = {}" using assms(1) by (simp add: pool_inv_def locks_kept_def)
    ultimately show ?thesis by (blast intro: pool_step.lock)
  next
    case idle
    then obtain i where "i < length (cw_workers p)" "cw_workers p ! i = Idle" by (auto simp: in_set_conv_nth)
    then show ?thesis by (cases "cw_queue p") (blast intro: pool_step.closed pool_step.hand_over)+
  next
    case stopped
    then have q: "cw_queue p \<noteq> []" using assms(3) by (simp add: pool_finished_def)
    then have "cw_workers p \<noteq> []" using assms(1,2) by (auto simp: pool_inv_def)
    then have "Stopped \<in> set (cw_workers p)" using stopped by (cases "cw_workers p") auto
    then have cancelled using assms(1) q by (auto simp: pool_inv_def)
    then show ?thesis by (blast intro: pool_step.abandon)
  qed
qed

text \<open>C38. However the compaction workers interleave, no two of them compact the same stream, there are never
  more of them than configured, and no job is compacted twice. As long as the pool is not finished it can
  move on; without a cancellation it finishes after a bounded number of steps, and then every job has been
  compacted exactly once.\<close>

theorem compaction_pool:
  assumes "(pool_step co ctx cancelled ^^ k) (start_pool cfg jobs fs db) p" "1 \<le> rt_compaction_concurrency (cf_runtime cfg)"
  shows "distinct (map job_key (concat (map locked (cw_workers p)))) \<and>
    int (length (concat (map locked (cw_workers p)))) \<le> rt_compaction_concurrency (cf_runtime cfg) \<and>
    mset (map fst (cw_done p)) \<subseteq># mset jobs \<and>
    (pool_finished p \<or> (\<exists>p'. pool_step co ctx cancelled p p')) \<and>
    (cancelled \<or> k \<le> 5 * length jobs \<and> (pool_finished p \<longrightarrow> mset (map fst (cw_done p)) = mset jobs))"
proof -
  let ?n = "nat (min (rt_compaction_concurrency (cf_runtime cfg)) (int (length jobs)))"
  have inv: "pool_inv cancelled jobs db ?n p" by (rule pool_reach_inv [OF relpowp_imp_rtranclp [OF assms(1)]])
  have len: "length (concat (map locked ws)) \<le> length ws" for ws
  proof (induction ws)
    case (Cons w ws)
    then show ?case by (cases w) auto
  qed simp
  have "int (length (concat (map locked (cw_workers p)))) \<le> rt_compaction_concurrency (cf_runtime cfg)"
    using len [of "cw_workers p"] inv assms(2) by (simp add: pool_inv_def)
  moreover have "distinct (map job_key (concat (map locked (cw_workers p))))" using inv by (simp add: pool_inv_def locks_kept_def)
  moreover have sub: "mset (map fst (cw_done p)) \<subseteq># mset jobs"
    using inv unfolding pool_inv_def accounted_def by (metis mset_subset_eq_add_right subset_mset.order_trans)
  moreover have "pool_finished p \<or> (\<exists>p'. pool_step co ctx cancelled p p')"
  proof (cases "jobs = []")
    case True
    then have "cw_queue p = []" using inv by (simp add: pool_inv_def accounted_def)
    then show ?thesis using pool_progress [OF inv] by blast
  next
    case False
    then have "0 < ?n" using assms(2) by simp
    then show ?thesis using pool_progress [OF inv] by blast
  qed
  moreover have "k \<le> 5 * length jobs \<and> (pool_finished p \<longrightarrow> mset (map fst (cw_done p)) = mset jobs)" if c: "\<not> cancelled"
  proof
    have "k + pool_weight p \<le> pool_weight (start_pool cfg jobs fs db)" using steps_weight assms(1) c by simp
    moreover have "pool_weight (start_pool cfg jobs fs db) = 4 * length jobs + ?n" by (simp add: pool_weight_def start_pool_def sum_list_replicate)
    moreover have "?n \<le> length jobs" by simp
    ultimately show "k \<le> 5 * length jobs" by linarith
    show "pool_finished p \<longrightarrow> mset (map fst (cw_done p)) = mset jobs"
    proof
      assume f: "pool_finished p"
      then have "held w = []" if "w \<in> set (cw_workers p)" for w using that by (auto simp: pool_finished_def)
      then have m: "mset (concat (map held (cw_workers p))) = {#}" by simp
      show "mset (map fst (cw_done p)) = mset jobs" using inv c f by (simp add: pool_inv_def accounted_def pool_finished_def m)
    qed
  qed
  ultimately show ?thesis by blast
qed

lemma compactEligible_calls_store:
  assumes "compactEligible ll cfg co ctx loop_ctx cancelled now fs db fs' db'"
  shows "store_call\<^sup>*\<^sup>* db db'"
  using assms
proof cases
  case (some_jobs jobs p)
  from pool_reach_inv [OF some_jobs(5)] show ?thesis using some_jobs(2) by (simp add: pool_inv_def)
qed simp

section \<open>Uploads and rounds\<close>

lemma upload_step_inv:
  assumes "upload_step ul capacity cancelled now fs p p'" "db_inv (uw_db p)" "length (uw_active p) \<le> capacity"
  shows "store_call\<^sup>*\<^sup>* (uw_db p) (uw_db p') \<and> length (uw_active p') \<le> capacity"
  using assms by (induction rule: upload_step.induct) (auto simp: length_remove1 intro: upload_calls_store)

lemma store_calls_inv: "store_call\<^sup>*\<^sup>* db db' \<Longrightarrow> db_inv db \<Longrightarrow> db_inv db'"
  by (induction rule: rtranclp_induct) (auto intro: store_call_inv)

lemma upload_steps_inv:
  assumes "(upload_step ul capacity cancelled now fs)\<^sup>*\<^sup>* p p'" "db_inv (uw_db p)" "length (uw_active p) \<le> capacity"
  shows "store_call\<^sup>*\<^sup>* (uw_db p) (uw_db p') \<and> length (uw_active p') \<le> capacity"
  using assms
proof (induction rule: rtranclp_induct)
  case (step q q')
  then have q: "store_call\<^sup>*\<^sup>* (uw_db p) (uw_db q)" "length (uw_active q) \<le> capacity" by auto
  from upload_step_inv [OF step.hyps(2) store_calls_inv [OF q(1) step.prems(1)] q(2)] q(1) show ?case by auto
qed simp

lemma uploadAll_calls_store:
  assumes "uploadAll cfg ul cancelled now fs db w db' w'" "db_inv db"
  shows "store_call\<^sup>*\<^sup>* db db'"
  using assms(1)
proof cases
  case (destinations p)
  from upload_steps_inv [OF destinations(4)] assms(2) destinations(1,2) show ?thesis by (simp add: start_uploads_def)
qed simp

lemma maintenance_calls_store:
  assumes "maintenance_step ll cfg raw (fs, db, w) (fs', db', w')" "db_inv db"
  shows "store_call\<^sup>*\<^sup>* db db'"
  using assms(1)
proof cases
  case compaction_round
  then show ?thesis by (blast intro: compactEligible_calls_store)
next
  case upload_round
  then show ?thesis using assms(2) by (blast intro: uploadAll_calls_store)
next
  case retention_round
  then show ?thesis using cleanup_calls_store by auto
qed

end
