(* ===== verification/Adoption.thy ===== *)
theory Adoption
  imports Compact_Verified Reconcile_All
begin

text \<open>
  Reconciliation closes the gap that a crash of Compact leaves: a revision directory that is in
  place while its row is missing is adopted with the row, the inputs and the queue that Compact
  would have recorded. Whatever it finds on disk, reconciliation changes the database by honest
  calls of the store only.
\<close>

section \<open>Destinations\<close>

lemma put_destination_new: "k \<notin> fst ` set acc \<Longrightarrow> put_destination k v acc = acc @ [(k, v)]"
  by (induction acc) auto

lemma fold_put_destination:
  assumes "distinct (map f ds)" "\<forall>d \<in> set ds. f d \<notin> fst ` set acc"
  shows "fold (\<lambda>d. put_destination (f d) (g d)) ds acc = acc @ map (\<lambda>d. (f d, g d)) ds"
  using assms
proof (induction ds arbitrary: acc)
  case (Cons d ds)
  have "put_destination (f d) (g d) acc = acc @ [(f d, g d)]" by (rule put_destination_new) (use Cons.prems in simp)
  moreover have "fold (\<lambda>d. put_destination (f d) (g d)) ds (acc @ [(f d, g d)]) = (acc @ [(f d, g d)]) @ map (\<lambda>d. (f d, g d)) ds"
    by (rule Cons.IH) (use Cons.prems in \<open>auto simp: image_iff\<close>)
  ultimately show ?case by simp
qed simp

lemma same_destinations:
  assumes d: "distinct (map dst_id ds)" and "man_destinations m = manifestDestinations ds"
    and "man_required_destinations m = requiredDestinationIDs ds"
  shows "set (adopted_destinations m) = set (destination_map ds)" "distinct (map fst (adopted_destinations m))"
proof -
  define xs where "xs = map (\<lambda>d. \<lparr>md_id = dst_id d, md_required = IsRequired d\<rparr>) ds"
  have md: "man_destinations m = sort_key md_id xs" using assms(2) by (simp add: manifestDestinations_def xs_def)
  have "map md_id xs = map dst_id ds" by (simp add: xs_def)
  moreover have "mset (map md_id (sort_key md_id xs)) = mset (map md_id xs)" by (simp only: mset_map mset_sort)
  ultimately have dx: "distinct (map md_id (sort_key md_id xs))" using d mset_eq_imp_distinct_iff by metis
  have a: "adopted_destinations m = map (\<lambda>d. (md_id d, md_required d)) (sort_key md_id xs)"
  proof (cases ds)
    case Nil
    then have "man_destinations m = []" "man_required_destinations m = []"
      using assms(2,3) by (simp_all add: manifestDestinations_def requiredDestinationIDs_def)
    then show ?thesis using md by (simp add: adopted_destinations_def)
  next
    case (Cons x y)
    then have "xs \<noteq> []" by (simp add: xs_def)
    with fold_put_destination [OF dx, of "[]" md_required] show ?thesis by (simp add: adopted_destinations_def md Let_def)
  qed
  show "distinct (map fst (adopted_destinations m))" unfolding a using dx by (simp add: comp_def)
  have "destination_map ds = map (\<lambda>d. (dst_id d, IsRequired d)) ds"
    using fold_put_destination [OF d, of "[]" IsRequired] by (simp add: destination_map_def)
  then show "set (adopted_destinations m) = set (destination_map ds)" unfolding a by (simp add: xs_def image_image)
qed

lemma check_snapshot_result:
  "check_snapshot ds seen req = Inr r \<Longrightarrow> r = req @ map md_id (filter md_required ds) \<and> (\<forall>d \<in> set ds. md_id d \<noteq> '''')"
  by (induction ds seen req rule: check_snapshot.induct) (auto split: if_splits)

lemma join_with_Nil: "\<forall>x \<in> set xs. x \<noteq> [] \<Longrightarrow> join_with sep xs = [] \<Longrightarrow> xs = []"
  by (induction sep xs rule: join_with.induct) auto

lemma flags_fold: "\<forall>p \<in> set acc. \<not> snd p \<Longrightarrow> \<forall>d \<in> set ds. \<not> g d \<Longrightarrow>
    \<forall>p \<in> set (fold (\<lambda>d. put_destination (f d) (g d)) ds acc). \<not> snd p"
proof (induction ds arbitrary: acc)
  case (Cons d ds)
  have "\<forall>p \<in> set (put_destination (f d) (g d) acc). \<not> snd p" by (rule put_destination_flags) (use Cons.prems in simp_all)
  with Cons show ?case by simp
qed simp

lemma adopted_flags:
  assumes "check_destinations m = Inr ()" "man_required_destinations m = []"
  shows "list_all (\<lambda>(_, required). \<not> required) (adopted_destinations m)"
proof (cases "man_destinations m = []")
  case False
  then obtain r where r: "check_snapshot (man_destinations m) [] [] = Inr r" "join_with [char_of (0::nat)] (sort r) = []"
    using assms by (auto simp: check_destinations_def bind_res_Inr split: if_splits)
  note s = check_snapshot_result [OF r(1)]
  have "sort r = []" by (rule join_with_Nil [OF _ r(2)]) (use s in auto)
  then have "filter md_required (man_destinations m) = []" using s by (metis append_Nil list.map_disc_iff set_empty set_sort)
  then have "\<forall>d \<in> set (man_destinations m). \<not> md_required d" by (simp add: filter_empty_conv)
  with flags_fold [of "[]" "man_destinations m" md_required md_id] False show ?thesis
    by (auto simp: adopted_destinations_def list_all_iff)
qed (simp add: adopted_destinations_def assms(2))

section \<open>Adoption repeats the call that was lost\<close>

lemma adopt_inputs_eq:
  assumes "\<forall>ic \<in> set ics. capture_hash (ic_id ic) db = Some (ic_sha256 ic)"
    and "insert_inputs cid (map ic_id ics) db = Inr db'"
  shows "adopt_inputs cid ics excluded db = Inr db'"
  using assms
proof (induction ics arbitrary: db)
  case (Cons ic ics)
  obtain db1 where i: "insert_input cid (ic_id ic) db = Inr db1" "insert_inputs cid (map ic_id ics) db1 = Inr db'"
    using Cons.prems(2) by (auto split: sum.splits)
  have "db_captures db1 = db_captures db" using i(1) by (auto simp: insert_input_ok)
  then have "\<forall>ic \<in> set ics. capture_hash (ic_id ic) db1 = Some (ic_sha256 ic)" using Cons.prems(1) by (simp add: capture_hash_def)
  from Cons.IH [OF this i(2)] Cons.prems(1) i(1) show ?case by simp
qed simp

lemma insert_uploads_fresh:
  assumes "distinct (map fst ds)" "cid \<in> cp_id ` set (db_compactions db)" "\<forall>d \<in> fst ` set ds. (cid, d) \<notin> upload_key ` set (db_uploads db)"
  shows "\<exists>db'. insert_uploads cid ds now db = Inr db'"
  using assms
proof (induction ds arbitrary: db)
  case (Cons d ds)
  obtain dest req where d: "d = (dest, req)" by (cases d)
  define db1 where "db1 = db\<lparr>db_uploads := db_uploads db @ [new_upload (db_upload_seq db + 1) cid dest req now], db_upload_seq := db_upload_seq db + 1\<rparr>"
  have "insert_upload cid dest req now db = Inr db1" using Cons.prems d by (auto simp: insert_upload_ok db1_def)
  moreover have "\<exists>db'. insert_uploads cid ds now db1 = Inr db'"
    by (rule Cons.IH) (use Cons.prems d in \<open>auto simp: db1_def\<close>)
  ultimately show ?case by (auto simp: d)
qed simp

text \<open>What a queue promises.\<close>

definition upload_promise :: "upload_row \<Rightarrow> int \<times> string \<times> bool \<times> string" where
  "upload_promise u = (up_compaction u, up_destination u, up_required u, up_status u)"

lemma adoption_repeats_save:
  assumes save: "SaveCompaction c inputs ds now db = Inr (c', db')" and inv: "db_inv db"
    and ics: "map ic_id ics = inputs" "\<forall>ic \<in> set ics. capture_hash (ic_id ic) db = Some (ic_sha256 ic)"
    and ds': "set ds' = set ds" "distinct (map fst ds')"
  shows "\<exists>a db''. AdoptCompaction (c\<lparr>cp_excluded := n\<rparr>) ics ex ds' t db = Inr (a, db'') \<and>
    db_compactions db'' = db_compactions db' \<and> db_inputs db'' = db_inputs db' \<and> db_captures db'' = db_captures db' \<and>
    upload_promise ` set (db_uploads db'') = upload_promise ` set (db_uploads db')"
proof -
  from save obtain i db1 db2 where 1: "insert_compaction c db = Inr (i, db1)"
    and 2: "insert_inputs i inputs db1 = Inr db2" and 3: "insert_uploads i ds now db2 = Inr db'"
    by (auto simp: SaveCompaction_def split: sum.splits)
  have tab: "tables_inv db" using inv by (simp add: db_inv_tables)
  have one: "insert_compaction (c\<lparr>cp_excluded := n\<rparr>) db = Inr (i, db1)"
    using 1 by (simp add: insert_compaction_ok compaction_to_row_def)
  have cap: "db_captures db1 = db_captures db" using 1 by (simp add: insert_compaction_ok)
  have two: "adopt_inputs i ics ex db1 = Inr db2"
    by (rule adopt_inputs_eq) (use 2 ics cap in \<open>auto simp: capture_hash_def\<close>)
  note t1 = insert_compaction_tables [OF 1 tab]
  note t2 = insert_inputs_tables [OF 2 t1(1)]
  have fresh: "(i, d) \<notin> upload_key ` set (db_uploads db2)" for d
  proof
    assume "(i, d) \<in> upload_key ` set (db_uploads db2)"
    then obtain u where u: "u \<in> set (db_uploads db)" "up_compaction u = i"
      using t2 1 by (auto simp: insert_compaction_ok upload_key_def)
    then have "i \<in> cp_id ` set (db_compactions db)" using tables_invD(5) [OF tab] by (auto simp: uploads_inv_def)
    with fresh_id [OF tables_invD(3) [OF tab]] 1 show False by (simp add: insert_compaction_ok)
  qed
  have "i \<in> cp_id ` set (db_compactions db2)" using t2 1 by (auto simp: insert_compaction_ok compaction_to_row_def)
  then obtain db'' where three: "insert_uploads i ds' t db2 = Inr db''"
    using insert_uploads_fresh [OF ds'(2), of i db2 t] fresh by blast
  note u = insert_uploads_tables [OF 3 conjunct1 [OF t2]] and u' = insert_uploads_tables [OF three conjunct1 [OF t2]]
  obtain us where us: "db_uploads db' = db_uploads db2 @ us" "map upload_promise us = map (\<lambda>(d, r). (i, d, r, ''pending'')) ds"
    using u by (auto simp: upload_promise_def [abs_def])
  obtain us' where us': "db_uploads db'' = db_uploads db2 @ us'" "map upload_promise us' = map (\<lambda>(d, r). (i, d, r, ''pending'')) ds'"
    using u' by (auto simp: upload_promise_def [abs_def])
  have "upload_promise ` set us' = upload_promise ` set us"
    using arg_cong [OF us(2), of set] arg_cong [OF us'(2), of set] ds'(1) by simp
  then have "upload_promise ` set (db_uploads db'') = upload_promise ` set (db_uploads db')"
    unfolding us(1) us'(1) by (simp add: image_Un)
  moreover have "AdoptCompaction (c\<lparr>cp_excluded := n\<rparr>) ics ex ds' t db = Inr (c\<lparr>cp_excluded := n\<rparr>\<lparr>cp_id := i\<rparr>, db'')"
    by (simp add: AdoptCompaction_def one two three)
  ultimately show ?thesis using u u' by auto
qed

section \<open>A crash between the rename and the row\<close>

lemma adopted_record:
  assumes "man_captured_responses m = int (length cs)" "man_created m = co_now co"
    and "man_files m = [] \<or> (\<exists>a. man_files m = [a] \<and> Base (art_path a) = art_path a)"
  shows "\<exists>c. adopted_artifact m rel (adopted_base m rel) = Some c \<and>
    adopted_published (co_cfg co) m c = (compaction_record co rel cs (man_excluded m) m)\<lparr>cp_excluded := 0\<rparr> \<and>
    (let r = compaction_record co rel cs (man_excluded m) m in
      cp_source c = cp_source r \<and> cp_stream c = cp_stream r \<and> cp_archive_date c = cp_archive_date r \<and>
      cp_revision c = cp_revision r \<and> cp_rows c = cp_rows r \<and> cp_entities c = cp_entities r \<and>
      cp_manifest_path c = cp_manifest_path r \<and> cp_directory c = cp_directory r \<and> cp_data_path c = cp_data_path r \<and>
      cp_data_sha256 c = cp_data_sha256 r \<and> cp_data_bytes c = cp_data_bytes r)"
  using assms
  by (auto simp: adopted_artifact_def adopted_published_def adopted_base_def compaction_record_def Let_def simp del: Join.simps)

lemma find_distinct: "distinct (map f xs) \<Longrightarrow> r \<in> set xs \<Longrightarrow> find (\<lambda>x. f x = f r) xs = Some r"
  by (induction xs) (auto simp: image_iff)

lemma captured_hash:
  assumes "CapturesForDay src sm date db = Inr cs" "db_inv db" "c \<in> set cs"
  shows "capture_hash (cap_id c) db = Some (cap_sha256 c)"
proof -
  let ?rows = "sort_key (\<lambda>c. (cap_scheduled c, cap_id c)) (filter (in_day src sm date) (db_captures db))"
  have d: "distinct (map cap_id (db_captures db))" using db_invD(2) [OF assms(2)] by (simp add: captures_inv_def)
  have "decode_rows rs = Inr cs' \<Longrightarrow> c \<in> set cs' \<Longrightarrow> \<exists>r \<in> set rs. cap_id c = cap_id r \<and> cap_sha256 c = cap_sha256 r" for rs cs'
    by (induction rs arbitrary: cs') (auto simp: bind_res_Inr capture_from_row_def)
  from this [of ?rows cs] assms(1,3) obtain r where r: "r \<in> set (db_captures db)" "cap_id c = cap_id r" "cap_sha256 c = cap_sha256 r"
    by (auto simp: CapturesForDay_def)
  have "find (\<lambda>x. cap_id x = cap_id r) (db_captures db) = Some r"
    by (rule find_distinct [OF d r(1)])
  then show ?thesis by (simp add: capture_hash_def r)
qed

lemma prefix_parquet: "\<not> has_prefix (join_with ''/'' (rev_comps src sm date k)) ''..''"
  by (simp add: rev_comps_def has_prefix_iff)

lemma committed_facts:
  assumes r: "compact_ready co rcs fs db" and p: "prepare co req fs db = Inr p"
    and kept: "core_kept (cpl_manifest p\<lparr>man_url := url, man_attribution := attribution\<rparr>) m2"
    and m: "m = fold add_input (cpl_captures p) m2" and pos: "\<forall>c \<in> set (db_compactions db). 0 \<le> cp_revision c"
  shows "man_format m = ParquetFormatVersion" "man_revision m \<ge> 1" "man_source m \<noteq> ''''" "man_stream m \<noteq> ''''" "man_archive_date m \<noteq> ''''"
    "cpl_rel_dir p = revision_dir (man_source m) (man_stream m) (man_archive_date m) (man_revision m)"
    "\<not> has_prefix (cpl_rel_dir p) ''..''" "Clean (cpl_rel_dir p) = cpl_rel_dir p"
    "int (length (man_inputs m)) = man_captured_responses m" "man_captured_responses m = int (length (cpl_captures p))"
    "man_created m = co_now co" "man_destinations m = manifestDestinations (cf_destinations (co_cfg co))"
    "man_required_destinations m = requiredDestinationIDs (cf_destinations (co_cfg co))"
    "man_inputs m = map (\<lambda>c. \<lparr>ic_id = cap_id c, ic_sha256 = cap_sha256 c, ic_bytes = cap_decoded_length c\<rparr>) (cpl_captures p)"
proof -
  obtain loc day revision stats where find: "FindSourceStream (co_cfg co) (cr_source req) (cr_stream req) = Inr (cpl_source p, cpl_stream p)"
    and date: "parse_in_location (cr_date req) loc = Some day"
    and sel: "select_revision (cr_revision req) (NextRevision (src_id (cpl_source p)) (sm_id (cpl_stream p)) (cr_date req) db) = Inr revision"
    and man0: "cpl_manifest p = initial_manifest co (cpl_source p) (cpl_stream p) loc (cr_date req) revision day (add_days loc day 1) (cpl_captures p) stats"
    and rel: "cpl_rel_dir p = revision_dir (src_id (cpl_source p)) (sm_id (cpl_stream p)) (cr_date req) revision"
    using prepare_ok [OF p] by (auto simp: Let_def)
  have core: "man_core m = man_core m2" by (simp add: m fold_inputs)
  note f = kept core_fields [OF core]
  have ids: "man_source m = src_id (cpl_source p)" "man_stream m = sm_id (cpl_stream p)" "man_archive_date m = cr_date req" "man_revision m = revision"
    using f by (simp_all add: core_kept_def man0 initial_manifest_def)
  have mem: "(cpl_source p, cpl_stream p) \<in> set (all_streams (co_cfg co))" by (rule find_in_streams [OF find])
  have ok: "config_ok (co_cfg co)" using r by (simp add: compact_ready_def)
  show "man_format m = ParquetFormatVersion" "man_captured_responses m = int (length (cpl_captures p))" "man_created m = co_now co"
    "man_destinations m = manifestDestinations (cf_destinations (co_cfg co))"
    "man_required_destinations m = requiredDestinationIDs (cf_destinations (co_cfg co))"
    using f by (simp_all add: core_kept_def man0 initial_manifest_def)
  show inputs: "man_inputs m = map (\<lambda>c. \<lparr>ic_id = cap_id c, ic_sha256 = cap_sha256 c, ic_bytes = cap_decoded_length c\<rparr>) (cpl_captures p)"
    using kept by (simp add: m fold_inputs core_kept_def man0 initial_manifest_def)
  show "int (length (man_inputs m)) = man_captured_responses m" unfolding inputs using f by (simp add: core_kept_def man0 initial_manifest_def)
  show "man_source m \<noteq> ''''" "man_stream m \<noteq> ''''"
  proof -
    have "ValidID (man_source m)" "ValidID (man_stream m)"
      using ok mem by (auto simp: ids all_streams_def config_ok_def source_ok_def stream_ok_def)
    then show "man_source m \<noteq> ''''" "man_stream m \<noteq> ''''" by auto
  qed
  show "man_archive_date m \<noteq> ''''"
    using date by (auto simp: ids parse_in_location_def parse_date_only_def take_date_def take_num_def split: option.splits Option.bind_splits if_splits)
  have "NextRevision (src_id (cpl_source p)) (sm_id (cpl_stream p)) (cr_date req) db \<ge> 1"
  proof (cases "highest_revision (day_compactions (src_id (cpl_source p)) (sm_id (cpl_stream p)) (cr_date req) db)")
    case (Some k)
    then have "k \<in> set (db_compactions db)" using highest_revision_Some [OF Some] by (simp add: day_compactions_def)
    with Some pos show ?thesis by (simp add: NextRevision_def)
  qed (simp add: NextRevision_def)
  then show "man_revision m \<ge> 1" using sel by (auto simp: ids select_revision_def split: if_splits)
  show rd: "cpl_rel_dir p = revision_dir (man_source m) (man_stream m) (man_archive_date m) (man_revision m)" by (simp only: ids rel)
  note plain = rev_comps_plain [OF stream_ids_ok [OF ok mem] date_no_slash [OF date], of revision]
  have j: "cpl_rel_dir p = join_with ''/'' (rev_comps (src_id (cpl_source p)) (sm_id (cpl_stream p)) (cr_date req) revision)"
    unfolding rel by (rule plain(2))
  show "\<not> has_prefix (cpl_rel_dir p) ''..''" unfolding j by (rule prefix_parquet)
  show "Clean (cpl_rel_dir p) = cpl_rel_dir p"
    unfolding j by (rule Clean_join_plain) (use plain(1) in \<open>simp_all add: rev_comps_def\<close>)
qed

lemma visit_committed:
  assumes pr: "\<forall>c \<in> set rcs. plain_comp c" and pv: "vs \<noteq> []" "\<forall>c \<in> set vs. plain_comp c" and root: "rs_root raw = abs_path rcs"
    and dir: "real_dirs fs (rcs @ vs)" and man: "map_of fs (rcs @ vs @ [''manifest.json'']) = Some (Reg b)"
    and dec: "ce_decode_manifest env b = Inr m" and rel: "rel = join_with ''/'' vs" "\<not> has_prefix rel ''..''" "Clean rel = rel"
    and m: "man_format m = ParquetFormatVersion" "man_revision m \<ge> 1" "man_source m \<noteq> ''''" "man_stream m \<noteq> ''''" "man_archive_date m \<noteq> ''''"
      "rel = revision_dir (man_source m) (man_stream m) (man_archive_date m) (man_revision m)" "int (length (man_inputs m)) = man_captured_responses m"
    and new: "\<not> HasCompaction (man_source m) (man_stream m) (man_archive_date m) (man_revision m) db"
    and art: "adopted_artifact m rel (adopted_base m rel) = Some c" and ver: "VerifyDirectory env fs (abs_path rcs) c = Inr ()"
    and adopt: "AdoptCompaction (adopted_published cfg m c) (man_inputs m) (\<lambda>i. i \<in> ex_id ` set (man_excluded m)) (adopted_destinations m) now db = Inr (a, db')"
  shows "visit_parquet env cfg now raw fs (rcs @ vs @ [''manifest.json''], Reg b) db = Adopted db'"
proof -
  have pm: "plain_comp ''manifest.json''" by (simp add: plain_comp_def)
  have rd: "os_readfile fs (abs_path (rcs @ vs @ [''manifest.json''])) = Inr b"
    by (rule committed_manifest(3) [OF pr pv dir man, of "adopted_base m rel"]) (simp add: adopted_base_def rel(1) del: Join.simps join_with.simps)
  have "Dir (abs_path (rcs @ vs @ [''manifest.json''])) = abs_path (rcs @ vs)"
    using Dir_abs_path_eq [of "rcs @ vs" "''manifest.json''"] pr pv pm by auto
  then have rl: "Rel (rs_root raw) (Dir (abs_path (rcs @ vs @ [''manifest.json'']))) = Some rel"
    unfolding root rel(1) using Rel_root_plain [OF pr pv] by simp
  have "adopt_manifest env cfg now raw fs (abs_path (rcs @ vs @ [''manifest.json''])) m db = Adopted db'"
    unfolding adopt_manifest_def rl option.case using m new rel(2,3) art ver adopt root by (simp del: Join.simps)
  then show ?thesis by (simp add: visit_parquet_def rd dec)
qed

text \<open>C28. If the archiver stops after Compact has renamed the revision directory and before the row is
  written, the next reconciliation adopts the directory: the walk's visit of its manifest leaves the same
  compactions and inputs in the database and queues the same uploads as the call that was lost.\<close>

theorem compact_recovered:
  assumes "Compact co ctx req fs db = (Inr c, fs', db')" and "compact_ready co rcs fs db"
    and "\<forall>k \<in> set (db_compactions db). 0 \<le> cp_revision k"
  shows "\<exists>place m. map_of fs' place = Some (Reg (ce_encode_manifest (co_env co) m)) \<and>
    (\<forall>env t. ce_sha env = ce_sha (co_env co) \<and> ce_decode_manifest env (ce_encode_manifest (co_env co) m) = Inr m \<longrightarrow>
      (\<exists>db''. visit_parquet env (co_cfg co) t (co_raw co) fs' (place, Reg (ce_encode_manifest (co_env co) m)) db = Adopted db'' \<and>
        db_compactions db'' = db_compactions db' \<and> db_inputs db'' = db_inputs db' \<and> db_captures db'' = db_captures db' \<and>
        upload_promise ` set (db_uploads db'') = upload_promise ` set (db_uploads db')))"
proof -
  have root: "rs_root (co_raw co) = abs_path rcs" and pr: "\<forall>c \<in> set rcs. plain_comp c" and hex: "\<forall>b. is_hex (ce_sha (co_env co) b)"
    and inv: "db_inv db" and cfg: "config_ok (co_cfg co)"
    using assms(2) by (simp_all add: compact_ready_def store_at_def)
  show ?thesis
  proof (rule compact_committed [OF assms(1,2)])
    fix p vs m m2 url attribution
    assume p: "prepare co req fs db = Inr p" and vs: "vs \<noteq> []" "\<forall>x \<in> set vs. plain_comp x"
      and rel: "cpl_rel_dir p = join_with ''/'' vs" and r5: "real_dirs fs' (rcs @ vs)"
      and man5: "map_of fs' (rcs @ vs @ [''manifest.json'']) = Some (Reg (ce_encode_manifest (co_env co) m))"
      and ds: "dataset_ok co fs' (rcs @ vs) (cpl_captures p) m" and m: "m = fold add_input (cpl_captures p) m2"
      and kept: "core_kept (cpl_manifest p\<lparr>man_url := url, man_attribution := attribution\<rparr>) m2"
      and save: "SaveCompaction (compaction_record co (cpl_rel_dir p) (cpl_captures p) (man_excluded m) m) (map cap_id (cpl_captures p))
        (destination_map (cf_destinations (co_cfg co))) (co_save_time co) db = Inr (c, db')"
    note facts = committed_facts [OF assms(2) p kept m assms(3)]
    note row = committed_row [OF assms(2) p kept m save]
    let ?r = "compaction_record co (cpl_rel_dir p) (cpl_captures p) (man_excluded m) m"
    have base: "man_files m = [] \<or> (\<exists>a. man_files m = [a] \<and> Base (art_path a) = art_path a)"
    proof (cases "man_files m = []")
      case False
      with ds obtain b a where "man_files m = [a]" "art_path a = ''data-'' @ ce_sha (co_env co) b @ ''.parquet''"
        by (auto simp: dataset_ok_def)
      moreover have "Base (''data-'' @ ce_sha (co_env co) b @ ''.parquet'') = ''data-'' @ ce_sha (co_env co) b @ ''.parquet''"
        by (rule Base_plain [OF slash_free_data]) (simp add: hex)
      ultimately show ?thesis by simp
    qed simp
    obtain c0 where art: "adopted_artifact m (cpl_rel_dir p) (adopted_base m (cpl_rel_dir p)) = Some c0"
      and pub: "adopted_published (co_cfg co) m c0 = ?r\<lparr>cp_excluded := 0\<rparr>"
      and same: "cp_source c0 = cp_source ?r" "cp_stream c0 = cp_stream ?r" "cp_archive_date c0 = cp_archive_date ?r"
        "cp_revision c0 = cp_revision ?r" "cp_rows c0 = cp_rows ?r" "cp_entities c0 = cp_entities ?r"
        "cp_manifest_path c0 = cp_manifest_path ?r" "cp_directory c0 = cp_directory ?r" "cp_data_path c0 = cp_data_path ?r"
        "cp_data_sha256 c0 = cp_data_sha256 ?r" "cp_data_bytes c0 = cp_data_bytes ?r"
      using adopted_record [OF facts(10,11) base, of "cpl_rel_dir p"] unfolding Let_def by blast
    obtain i where c: "c = ?r\<lparr>cp_id := i\<rparr>" using row(4) by blast
    have "check_header m c0 = check_header m c" unfolding check_header_def c by (simp add: same)
    then have header: "check_header m c0 = Inr ()" using row(3) by simp
    note paths = committed_paths [OF c rel]
    have key: "(man_source m, man_stream m, man_archive_date m, man_revision m) \<notin> revision_key ` set (db_compactions db)"
      using save by (auto simp: SaveCompaction_def insert_compaction_ok record_fields split: sum.splits)
    have new: "\<not> HasCompaction (man_source m) (man_stream m) (man_archive_date m) (man_revision m) db"
    proof
      assume "HasCompaction (man_source m) (man_stream m) (man_archive_date m) (man_revision m) db"
      then obtain k where k: "k \<in> set (db_compactions db)" "revision_key k = (man_source m, man_stream m, man_archive_date m, man_revision m)"
        by (auto simp: HasCompaction_def list_ex_iff of_day_def revision_key_def)
      with key show False by (metis image_eqI)
    qed
    note dests = same_destinations [OF _ facts(12,13)]
    have hashes: "\<forall>ic \<in> set (man_inputs m). capture_hash (ic_id ic) db = Some (ic_sha256 ic)"
      using prepare_ok [OF p] captured_hash inv by (auto simp: facts(14) Let_def)
    show ?thesis
    proof (rule exI [of _ "rcs @ vs @ [''manifest.json'']"], rule exI [of _ m], intro conjI allI impI, rule man5)
      fix env :: compact_env and t assume e: "ce_sha env = ce_sha (co_env co) \<and> ce_decode_manifest env (ce_encode_manifest (co_env co) m) = Inr m"
      have "dataset_ok (co\<lparr>co_env := env\<rparr>) fs' (rcs @ vs) (cpl_captures p) m" using ds e by (simp add: dataset_ok_def)
      from verify_committed [OF pr vs r5 man5 _ header row(1,2) this] e hex paths
      have ver: "VerifyDirectory env fs' (abs_path rcs) c0 = Inr ()" by (simp add: same c del: Join.simps)
      obtain a db'' where ad: "AdoptCompaction (?r\<lparr>cp_excluded := 0\<rparr>) (man_inputs m) (\<lambda>i. i \<in> ex_id ` set (man_excluded m)) (adopted_destinations m) t db = Inr (a, db'')"
        and eq: "db_compactions db'' = db_compactions db'" "db_inputs db'' = db_inputs db'" "db_captures db'' = db_captures db'"
          "upload_promise ` set (db_uploads db'') = upload_promise ` set (db_uploads db')"
        using adoption_repeats_save [OF save inv row(1) hashes dests] cfg unfolding config_ok_def by metis
      have "visit_parquet env (co_cfg co) t (co_raw co) fs' (rcs @ vs @ [''manifest.json''], Reg (ce_encode_manifest (co_env co) m)) db = Adopted db''"
        by (rule visit_committed [OF pr vs root r5 man5 _ rel facts(7,8,1-6,9) new art ver]) (use e ad pub in simp_all)
      with eq show "\<exists>db''. visit_parquet env (co_cfg co) t (co_raw co) fs' (rcs @ vs @ [''manifest.json''], Reg (ce_encode_manifest (co_env co) m)) db = Adopted db'' \<and>
        db_compactions db'' = db_compactions db' \<and> db_inputs db'' = db_inputs db' \<and> db_captures db'' = db_captures db' \<and>
        upload_promise ` set (db_uploads db'') = upload_promise ` set (db_uploads db')" by blast
    qed
  qed
qed

section \<open>Reconciliation makes honest calls only\<close>

definition plain_fs :: "fs \<Rightarrow> bool" where
  "plain_fs fs \<longleftrightarrow> (\<forall>e \<in> set fs. \<forall>c \<in> set (fst e). plain_comp c)"

lemma adopted_published_keeps: "cp_manifest_path (adopted_published cfg m c) = cp_manifest_path c"
  by (simp add: adopted_published_def)

lemma adopted_honest:
  assumes art: "adopted_artifact m rel (adopted_base m rel) = Some c" and dest: "check_destinations m = Inr ()"
  shows "saved_honestly (adopted_published cfg m c) (adopted_destinations m)"
proof -
  have none: "cp_published c = None"
    using art by (auto simp: adopted_artifact_def adopted_base_def simp del: Join.simps split: list.splits if_splits)
  show ?thesis
  proof (cases "man_required_destinations m = []")
    case True
    then show ?thesis using adopted_flags [OF dest] by (simp add: saved_honestly_def)
  qed (simp add: saved_honestly_def adopted_published_def none)
qed

lemma visit_calls_store:
  assumes v: "visit_parquet env cfg now raw fs (q, n) db = Adopted db'" and root: "rs_root raw = abs_path rcs"
    and q: "q = rcs @ ''parquet'' # r" and plain: "\<forall>c \<in> set q. plain_comp c"
  shows "store_call db db'"
proof -
  let ?path = "abs_path q"
  obtain b m where last: "last q = ''manifest.json''" and b: "os_readfile fs ?path = Inr b" and m: "ce_decode_manifest env b = Inr m"
    and ad: "adopt_manifest env cfg now raw fs ?path m db = Adopted db'"
    using v by (auto simp: visit_parquet_def Let_def split: node.splits if_splits sum.splits)
  define vs where "vs = butlast (''parquet'' # r)"
  have rne: "r \<noteq> []" using last q by auto
  then have qs: "q = (rcs @ vs) @ [''manifest.json'']" using last q by (simp add: vs_def) (metis append_butlast_last_id)
  have pv: "vs \<noteq> []" "\<forall>c \<in> set vs. plain_comp c" and pr: "\<forall>c \<in> set rcs. plain_comp c" and pm: "plain_comp ''manifest.json''"
    using plain qs rne by (auto simp: vs_def)
  have "Dir ?path = abs_path (rcs @ vs)" unfolding qs by (rule Dir_abs_path_eq) (use plain qs pv in auto)
  then have rl: "Rel (rs_root raw) (Dir ?path) = Some (join_with ''/'' vs)" unfolding root using Rel_root_plain [OF pr pv] by simp
  obtain c a where art: "adopted_artifact m (join_with ''/'' vs) (adopted_base m (join_with ''/'' vs)) = Some c"
    and ver: "VerifyDirectory env fs (rs_root raw) c = Inr ()"
    and adopt: "AdoptCompaction (adopted_published cfg m c) (man_inputs m) (\<lambda>i. i \<in> ex_id ` set (man_excluded m)) (adopted_destinations m) now db = Inr (a, db')"
    using ad unfolding adopt_manifest_def rl option.case by (auto simp: is_ok_iff split: if_splits sum.splits option.splits)
  have "cp_manifest_path c = Join [join_with ''/'' vs, ''manifest.json'']"
    using art by (auto simp: adopted_artifact_def adopted_base_def simp del: Join.simps join_with.simps split: list.splits if_splits)
  then have "cp_manifest_path c = join_with ''/'' (vs @ [''manifest.json''])" using Join_below [OF pv pm] by simp
  then have "safeRootPath (abs_path rcs) (cp_manifest_path c) = Inr ?path"
    using safeRootPath_plain [OF pr, of "vs @ [''manifest.json'']"] pv pm by (simp add: qs)
  then have "check_destinations m = Inr ()"
    using ver b m by (auto simp: VerifyDirectory_def root bind_res_Inr)
  with art have "saved_honestly (adopted_published cfg m c) (adopted_destinations m)" by (rule adopted_honest)
  with adopt show ?thesis by (rule store_call.adopt_compaction)
qed

lemma walk_parquet_calls:
  assumes "rs_root raw = abs_path rcs" "plain_fs fs" "\<forall>e \<in> set es. \<exists>r. fst e = rcs @ ''parquet'' # r \<and> (\<forall>c \<in> set (fst e). plain_comp c)"
  shows "store_call\<^sup>*\<^sup>* (rr_db s) (rr_db (walk_parquet env cfg ctx now raw fs n es s))"
  using assms(3)
proof (induction es arbitrary: n s)
  case (Cons e es)
  obtain q node where e: "e = (q, node)" by (cases e)
  show ?case
  proof (cases "visit_parquet env cfg now raw fs e (rr_db s)")
    case (Adopted db')
    obtain r where "q = rcs @ ''parquet'' # r" "\<forall>c \<in> set q. plain_comp c" using Cons.prems e by auto
    with visit_calls_store [OF Adopted [unfolded e] assms(1)] have "store_call (rr_db s) db'" by blast
    moreover have "store_call\<^sup>*\<^sup>* db' (rr_db (walk_parquet env cfg ctx now raw fs (Suc n) es (s\<lparr>rr_adopted := rr_adopted s + 1, rr_db := db'\<rparr>)))"
      using Cons.IH [of "s\<lparr>rr_adopted := rr_adopted s + 1, rr_db := db'\<rparr>" "Suc n"] Cons.prems by simp
    ultimately have "store_call\<^sup>*\<^sup>* (rr_db s) (rr_db (walk_parquet env cfg ctx now raw fs (Suc n) es (s\<lparr>rr_adopted := rr_adopted s + 1, rr_db := db'\<rparr>)))"
      by (rule converse_rtranclp_into_rtranclp)
    then show ?thesis using Adopted by (simp split: option.split)
  next
    case BadRevision
    then show ?thesis using Cons.IH [of "s\<lparr>rr_corrupt := rr_corrupt s + 1\<rparr>" "Suc n"] Cons.prems by (simp split: option.split)
  qed (use Cons.IH [of s "Suc n"] Cons.prems in \<open>simp_all split: option.split\<close>)
qed simp

lemma walk_raw_calls: "store_call\<^sup>*\<^sup>* db (rec_db (walk_raw sha decode ll s fs es db))"
proof (induction es arbitrary: db)
  case (Cons e es)
  show ?case
  proof (cases "visit_raw sha decode ll s fs e db")
    case (Registered db')
    then obtain c where "SaveCapture (sidecar_tick c) c db = Inr db'"
      by (auto simp: visit_raw_def Let_def split: node.splits if_splits sum.splits option.splits)
    then have "store_call db db'" by (rule store_call.save_capture)
    with Cons.IH [of db'] Registered show ?thesis by (simp add: Let_def)
  qed (use Cons.IH [of db] in \<open>simp_all add: Let_def\<close>)
qed simp

lemma raw_reconcile_calls: "Reconcile sha decode ll s db fs = (r, fs') \<Longrightarrow> store_call\<^sup>*\<^sup>* db (rec_db r)"
  using walk_raw_calls by (auto simp: Reconcile_def Let_def simp del: Join.simps split: prod.splits option.splits sum.splits if_splits)

lemma walk_dir_plain:
  assumes "plain_fs fs" "e \<in> set (walk_dir fs (rcs @ [''parquet'']))"
  shows "\<exists>r. fst e = rcs @ ''parquet'' # r \<and> (\<forall>c \<in> set (fst e). plain_comp c)"
proof -
  obtain n where n: "(fst e, n) \<in> set fs" "take (length (rcs @ [''parquet''])) (fst e) = rcs @ [''parquet'']"
    using assms(2) by (auto simp: walk_dir_def)
  then have "fst e = rcs @ ''parquet'' # drop (length (rcs @ [''parquet''])) (fst e)" by (metis append_Cons append_Nil append_assoc append_take_drop_id)
  moreover have "\<forall>c \<in> set (fst e). plain_comp c" using assms(1) n(1) unfolding plain_fs_def by fastforce
  ultimately show ?thesis by blast
qed

text \<open>Whatever lies below the root, a reconciliation takes the database along calls of the store that
  respect its contract, also when it stops with an error: no manifest on disk can make a revision
  published that still owes an upload to a required destination.\<close>

theorem reconcile_calls_store:
  assumes "All env decode ll cfg ctx now raw db fs = (r, fs')"
    and "rs_root raw = abs_path rcs" "\<forall>c \<in> set rcs. plain_comp c" "plain_fs fs'"
  shows "store_call\<^sup>*\<^sup>* db (rr_db r)"
proof -
  obtain rr fs1 where R: "Reconcile (ce_sha env) decode ll raw db fs = (rr, fs1)" by force
  have fs1: "fs1 = fs'" using assms(1) R by (auto simp: All_def Let_def split: if_splits option.splits)
  note calls = raw_reconcile_calls [OF R]
  let ?s = "\<lparr>rr_registered = rec_registered rr, rr_adopted = 0, rr_corrupt = rec_corrupt rr, rr_db = rec_db rr, rr_error = rec_error rr\<rparr>"
  have "plain_comp ''parquet''" by (simp add: plain_comp_def)
  then have "comps (Join [rs_root raw, ''parquet'']) = rcs @ [''parquet'']"
    unfolding assms(2) using Join_one [OF assms(3)] comps_abs_path [of "rcs @ [''parquet'']"] assms(3) by simp
  then have "\<forall>e \<in> set (walk_dir fs1 (comps (Join [rs_root raw, ''parquet'']))).
      \<exists>q. fst e = rcs @ ''parquet'' # q \<and> (\<forall>c \<in> set (fst e). plain_comp c)"
    using walk_dir_plain [of fs1] assms(4) fs1 by metis
  from walk_parquet_calls [OF assms(2) _ this, where s = ?s and env = env and cfg = cfg and ctx = ctx and now = now and n = 0] assms(4) fs1
  have walk: "store_call\<^sup>*\<^sup>* (rec_db rr) (rr_db (walk_parquet env cfg ctx now raw fs1 0 (walk_dir fs1 (comps (Join [rs_root raw, ''parquet'']))) ?s))"
    by simp
  have "rr_db r = rec_db rr \<or> rr_db r = rr_db (walk_parquet env cfg ctx now raw fs1 0 (walk_dir fs1 (comps (Join [rs_root raw, ''parquet'']))) ?s)"
    using assms(1) R by (auto simp: All_def Let_def simp del: Join.simps split: if_splits option.splits sum.splits)
  then show ?thesis using calls walk by (metis rtranclp_trans)
qed

end
