(* ===== verification/Plain_Names.thy ===== *)
theory Plain_Names
  imports Adoption
begin

text \<open>
  Directory entries have plain names, and the calls that start-up makes keep it so: opening the data
  directory, finishing interrupted commits, reconciliation. With it reconciliation needs no condition
  but the one of an absolute root.
\<close>

lemma plain_fsD: "plain_fs fs \<Longrightarrow> map_of fs p = Some n \<Longrightarrow> \<forall>c \<in> set p. plain_comp c"
  by (auto simp: plain_fs_def dest!: map_of_SomeD)

lemma realpath_plain: "realpath n fs follow cur cs = Inr q \<Longrightarrow> plain_fs fs \<Longrightarrow> \<forall>c \<in> set cur. plain_comp c \<Longrightarrow> \<forall>c \<in> set q. plain_comp c"
proof (induction n fs follow cur cs arbitrary: q rule: realpath.induct)
  case (2 n fs follow cur c cs)
  show ?case
  proof (cases "map_of fs (cur @ [c])")
    case None
    then show ?thesis using "2.prems" by simp
  next
    case (Some x)
    note p = plain_fsD [OF "2.prems"(2) Some]
    show ?thesis using "2.prems" "2.IH" Some p by (cases x) (auto split: if_splits nat.splits)
  qed
qed simp

lemma plain_put: "plain_fs fs \<Longrightarrow> \<forall>c \<in> set p. plain_comp c \<Longrightarrow> plain_fs (fs_put p n fs)"
  by (auto simp: plain_fs_def fs_put_def)

lemma plain_del: "plain_fs fs \<Longrightarrow> plain_fs (fs_del p fs)"
  by (auto simp: plain_fs_def fs_del_def)

lemma plain_move: "plain_fs fs \<Longrightarrow> \<forall>c \<in> set new. plain_comp c \<Longrightarrow> plain_fs (move_tree old new fs)"
  by (force simp: plain_fs_def move_tree_def dest: in_set_dropD)

lemma entry_place_plain: "entry_place fs p = Inr q \<Longrightarrow> plain_fs fs \<Longrightarrow> IsAbs p \<Longrightarrow> \<forall>c \<in> set q. plain_comp c"
  by (auto simp: entry_place_def Let_def bind_res_Inr split: if_splits dest!: realpath_plain comps_rooted)

lemma remove_plain: "os_remove p fs = Inr fs' \<Longrightarrow> plain_fs fs \<Longrightarrow> plain_fs fs'"
  by (auto simp: os_remove_def bind_res_Inr plain_del split: if_splits)

lemma rename_plain: "os_rename old new fs = Inr fs' \<Longrightarrow> plain_fs fs \<Longrightarrow> IsAbs new \<Longrightarrow> plain_fs fs'"
proof -
  assume rn: "os_rename old new fs = Inr fs'" and p: "plain_fs fs" and new: "IsAbs new"
  then obtain src dst where s: "realpath link_limit fs False [] (comps old) = Inr src" and d: "entry_place fs new = Inr dst"
    by (auto simp: os_rename_def bind_res_Inr)
  have "fs' \<in> {move_tree src dst fs, fs, fs_put dst (node_at fs src) (fs_del src fs)}"
    using rn s d by (auto simp: os_rename_def split: node.splits option.splits if_splits)
  then show "plain_fs fs'" using p plain_move [OF p] plain_put [OF plain_del [OF p]] entry_place_plain [OF d p new] by blast
qed

lemma mkdirs_plain: "mkdirs cur cs fs = Inr fs' \<Longrightarrow> plain_fs fs \<Longrightarrow> \<forall>c \<in> set cs. plain_comp c \<Longrightarrow> plain_fs fs'"
proof (induction cur cs fs arbitrary: fs' rule: mkdirs.induct)
  case (2 cur c cs fs)
  obtain d where d: "realpath link_limit fs True [] cur = Inr d" using "2.prems"(1) by (auto simp: bind_res_Inr)
  have pd: "\<forall>c \<in> set d. plain_comp c" by (rule realpath_plain [OF d "2.prems"(2)]) simp
  show ?case
  proof (cases "map_of fs (d @ [c])")
    case None
    have "plain_fs (fs_put (d @ [c]) Directory fs)" by (rule plain_put) (use "2.prems" pd in auto)
    then show ?thesis using "2.prems" "2.IH"(1) [OF None] d None by (simp add: bind_res_def)
  next
    case (Some x)
    then show ?thesis using "2.prems" "2.IH"(2) [OF Some] d by (auto simp: bind_res_Inr split: if_splits)
  qed
qed simp

lemma mkdirall_plain: "os_mkdirall p fs = Inr fs' \<Longrightarrow> plain_fs fs \<Longrightarrow> IsAbs p \<Longrightarrow> plain_fs fs'"
  unfolding os_mkdirall_def by (erule mkdirs_plain) (simp_all add: comps_rooted)

section \<open>Reconciliation\<close>

fun after :: "recovery \<Rightarrow> fs" where
  "after (Passed fs) = fs"
| "after (Corrupt fs) = fs"
| "after (Failed fs e) = fs"

lemma remove_ignoring_plain: "plain_fs fs \<Longrightarrow> plain_fs (remove_ignoring p fs)"
  by (auto simp: remove_ignoring_def split: sum.splits dest: remove_plain)

lemma place_pair_plain:
  assumes "plain_fs fs" "IsAbs (Dir rawFinal)" "IsAbs rawFinal" "IsAbs sidecarFinal"
  shows "plain_fs (after (place_pair rawSource rawFinal sidecarStaged sidecarFinal fs))"
proof (cases "os_mkdirall (Dir rawFinal) fs")
  case (Inr fs1)
  have p1: "plain_fs fs1" by (rule mkdirall_plain [OF Inr assms(1,2)])
  show ?thesis
  proof (cases "if rawSource \<noteq> rawFinal then os_rename rawSource rawFinal fs1 else Inr fs1")
    case r2: (Inr fs2)
    have p2: "plain_fs fs2" using r2 rename_plain [OF _ p1 assms(3)] p1 by (auto split: if_splits)
    then show ?thesis
      using rename_plain [OF _ p2 assms(4)] Inr r2 by (auto simp: place_pair_def split: sum.splits)
  qed (use Inr p1 in \<open>simp add: place_pair_def\<close>)
qed (use assms(1) in \<open>simp add: place_pair_def\<close>)

lemma safePath_abs:
  assumes "\<forall>c \<in> set rcs. plain_comp c" "safePath fs (abs_path rcs) rel = Inr p"
  shows "IsAbs p" "IsAbs (Dir p)"
proof -
  note sh = safePath_shape [OF assms]
  show "IsAbs p" by (simp add: sh(3))
  define cs x where "cs = rcs @ butlast (comps rel)" and "x = last (comps rel)"
  have p: "p = abs_path (cs @ [x])" using sh(1) by (simp add: sh(3) cs_def x_def)
  have plain: "\<forall>c \<in> set (cs @ [x]). plain_comp c" using sh(1,2) assms(1) by (auto simp: cs_def x_def dest: in_set_butlastD)
  show "IsAbs (Dir p)"
  proof (cases "cs = []")
    case True
    have "split_on (CHR ''/'') (abs_path [x]) = [[], x]" using plain True split_join_plain [of "[x]"] by (simp add: abs_path_def)
    moreover have "IsAbs (Clean ''/'')" by code_simp
    ultimately show ?thesis by (simp add: p True Dir_def)
  qed (simp add: p Dir_abs_path_eq [OF plain])
qed

lemma finish_entry_plain:
  assumes "plain_fs fs" "rs_root s = abs_path rcs" "\<forall>c \<in> set rcs. plain_comp c"
  shows "plain_fs (after (finish_entry sha decode ll s entry fs))"
proof -
  have pair: "plain_fs (after (place_pair src r sc d fs))" if "safePath fs (abs_path rcs) x = Inr r" "safePath fs (abs_path rcs) y = Inr d" for src r sc d x y
    by (rule place_pair_plain [OF assms(1)]) (use safePath_abs [OF assms(3)] that in blast)+
  show ?thesis
    unfolding finish_entry_def assms(2) Let_def
    using assms(1) pair by (auto simp: remove_ignoring_plain split: sum.split option.split simp del: Join.simps)
qed

lemma finish_entries_plain:
  assumes "rs_root s = abs_path rcs" "\<forall>c \<in> set rcs. plain_comp c"
  shows "finish_entries sha decode ll s es fs = (n, fs', e) \<Longrightarrow> plain_fs fs \<Longrightarrow> plain_fs fs'"
proof (induction es arbitrary: fs n fs' e)
  case (Cons x es)
  have p: "plain_fs (after (finish_entry sha decode ll s x fs))" by (rule finish_entry_plain [OF Cons.prems(2) assms])
  show ?case
  proof (cases "finish_entry sha decode ll s x fs")
    case (Passed fs1)
    then show ?thesis using Cons p by simp
  next
    case (Corrupt fs1)
    then show ?thesis using Cons p by (auto split: prod.splits)
  next
    case (Failed fs1 err)
    then show ?thesis using Cons.prems p by simp
  qed
qed simp

lemma reconcile_plain:
  assumes "Reconcile sha decode ll s db fs = (r, fs')" "plain_fs fs" "rs_root s = abs_path rcs" "\<forall>c \<in> set rcs. plain_comp c"
  shows "plain_fs fs'"
proof -
  obtain n fs1 e where f: "finishInterruptedCommits sha decode ll s fs = (n, fs1, e)" by (metis prod.exhaust)
  have "plain_fs fs1" using f assms(2) finish_entries_plain [OF assms(3,4)] by (auto simp: finishInterruptedCommits_def split: sum.splits)
  moreover have "fs' = fs1" using assms(1) f by (auto simp: Reconcile_def Let_def simp del: Join.simps split: option.splits if_splits)
  ultimately show ?thesis by simp
qed

lemma all_plain:
  assumes "All env decode ll cfg ctx now raw db fs = (r, fs')" "plain_fs fs" "rs_root raw = abs_path rcs" "\<forall>c \<in> set rcs. plain_comp c"
  shows "plain_fs fs'"
proof -
  obtain rr fs1 where R: "Reconcile (ce_sha env) decode ll raw db fs = (rr, fs1)" by force
  have "fs1 = fs'" using assms(1) R by (auto simp: All_def Let_def split: if_splits option.splits)
  with reconcile_plain [OF R assms(2-4)] show ?thesis by simp
qed

lemma all_calls_store:
  assumes "All env decode ll cfg ctx now raw db fs = (r, fs')" "plain_fs fs" "rs_root raw = abs_path rcs" "\<forall>c \<in> set rcs. plain_comp c"
  shows "store_call\<^sup>*\<^sup>* db (rr_db r)"
  by (rule reconcile_calls_store [OF assms(1,3,4) all_plain [OF assms]])

section \<open>Opening the data directory\<close>

lemma Join_abs:
  assumes "IsAbs a"
  shows "IsAbs (Join (a # es))"
proof -
  have "\<exists>rest. join_with ''/'' (a # es) = a @ rest" by (cases es) simp_all
  moreover have ne: "a \<noteq> []" using assms by (auto simp: IsAbs_def has_prefix_def)
  ultimately have "IsAbs (join_with ''/'' (a # es))" "join_with ''/'' (a # es) \<noteq> []"
    using assms by (auto simp: IsAbs_def has_prefix_def neq_Nil_conv)
  then have "IsAbs (Clean (join_with ''/'' (a # es)))" by (simp add: Clean_def unsplit_def) (simp add: IsAbs_def has_prefix_def)
  then show ?thesis using ne by simp
qed

lemma open_dirs_plain: "open_dirs rdir names fs = (r, fs') \<Longrightarrow> plain_fs fs \<Longrightarrow> IsAbs rdir \<Longrightarrow> plain_fs fs'"
proof (induction names arbitrary: fs)
  case (Cons name names)
  show ?case
  proof (cases "os_lstat fs (Join [rdir, name])")
    case (Inl e)
    have put: "plain_fs (fs_put q Directory fs)" if "entry_place fs (Join [rdir, name]) = Inr q" for q
      by (rule plain_put [OF Cons.prems(2) entry_place_plain [OF that Cons.prems(2) Join_abs [OF Cons.prems(3)]]])
    show ?thesis
      using Cons.prems Inl Cons.IH [OF _ put] by (auto simp del: Join.simps split: if_splits sum.splits)
  next
    case (Inr n)
    then show ?thesis using Cons by (cases n) (auto simp del: Join.simps)
  qed
qed simp

lemma Open_plain:
  assumes "Open eval rdir fs = (r, fs')" "plain_fs fs" "IsAbs rdir" "\<And>fs c. eval fs rdir = Inr c \<Longrightarrow> IsAbs c"
  shows "plain_fs fs'" "r = Inr raw \<Longrightarrow> \<exists>fs0. eval fs0 rdir = Inr (rs_root raw)"
proof -
  have mk: "plain_fs fs1" if "os_mkdirall rdir fs = Inr fs1" for fs1 by (rule mkdirall_plain [OF that assms(2,3)])
  have dirs: "plain_fs fs2" if "os_mkdirall rdir fs = Inr fs1" "eval fs1 rdir = Inr c" "open_dirs c names fs1 = (x, fs2)" for fs1 fs2 c names x
    by (rule open_dirs_plain [OF that(3) mk [OF that(1)] assms(4) [OF that(2)]])
  show "plain_fs fs'"
    using assms(1,2) mk dirs by (auto simp: Open_def simp del: Join.simps open_dirs.simps split: sum.splits prod.splits)
  show "\<exists>fs0. eval fs0 rdir = Inr (rs_root raw)" if "r = Inr raw"
    using assms(1) that by (auto simp: Open_def simp del: Join.simps open_dirs.simps split: sum.splits prod.splits)
qed

lemma open_nofollow_plain:
  assumes "os_open_nofollow p fs = Inr (f, fs')" "plain_fs fs" "IsAbs p"
  shows "plain_fs fs'"
proof -
  obtain q where q: "entry_place fs p = Inr q" using assms(1) by (auto simp: os_open_nofollow_def bind_res_Inr)
  have "fs' = fs \<or> fs' = fs_put q (Reg []) fs"
    using assms(1) q by (cases "map_of fs q"; cases "the (map_of fs q)") (auto simp: os_open_nofollow_def bind_res_def)
  then show ?thesis using assms(2) plain_put [OF assms(2) entry_place_plain [OF q assms(2,3)]] by blast
qed

lemma AcquireLock_plain: "AcquireLock rdir locks fs = (r, locks', fs') \<Longrightarrow> plain_fs fs \<Longrightarrow> IsAbs rdir \<Longrightarrow> plain_fs fs'"
  using Join_abs [of rdir "[''lock'']"]
  by (auto simp: AcquireLock_def simp del: Join.simps split: sum.splits if_splits dest: mkdirall_plain open_nofollow_plain)

lemma Clean_abs: "IsAbs p \<Longrightarrow> IsAbs (Clean p)"
  by (simp add: Clean_def unsplit_def) (auto simp: IsAbs_def has_prefix_def)

lemma Dir_abs: "IsAbs p \<Longrightarrow> IsAbs (Dir p)"
proof -
  assume p: "IsAbs p"
  then obtain q where q: "p = CHR ''/'' # q" by (cases p) (auto simp: IsAbs_def has_prefix_def)
  obtain x xs where s: "split_on (CHR ''/'') q = x # xs" by (cases "split_on (CHR ''/'') q") simp_all
  have "split_on (CHR ''/'') p = [] # split_on (CHR ''/'') q" by (simp add: q)
  then have "concat (map (\<lambda>w. w @ ''/'') (butlast (split_on (CHR ''/'') p))) = CHR ''/'' # concat (map (\<lambda>w. w @ ''/'') (butlast (x # xs)))"
    by (simp add: s)
  then show ?thesis unfolding Dir_def Let_def by (intro Clean_abs) (simp add: IsAbs_def has_prefix_def)
qed

end
