(* ===== verification/App_Props.thy ===== *)
theory App_Props
  imports App_Commands Maintenance_Props Plain_Names Retention
begin

text \<open>
  The commands together: whatever is run, the database stays one that calls of the store can reach, so
  that what holds of every reachable database holds after every command.
\<close>

section \<open>What a command keeps\<close>

text \<open>EvalSymlinks of an absolute path is an absolute, clean path.\<close>

definition env_ok :: "'w env \<Rightarrow> bool" where
  "env_ok en \<longleftrightarrow> (\<forall>fs p r. IsAbs p \<longrightarrow> en_eval_symlinks en fs p = Inr r \<longrightarrow> (\<exists>rcs. r = abs_path rcs \<and> (\<forall>c \<in> set rcs. plain_comp c)))"

definition keeps_store :: "('w world \<Rightarrow> outcome \<times> 'w world) \<Rightarrow> bool" where
  "keeps_store body \<longleftrightarrow> (\<forall>wo. plain_fs (wo_fs wo) \<longrightarrow> reachable_db (wo_db wo) \<longrightarrow> reachable_db (wo_db (snd (body wo))))"

lemma reachable_calls: "store_call\<^sup>*\<^sup>* db db' \<Longrightarrow> reachable_db db \<Longrightarrow> reachable_db db'"
  unfolding reachable_db_def by (rule rtranclp_trans [rotated])

lemma keeps_storeI: "(\<And>wo. plain_fs (wo_fs wo) \<Longrightarrow> reachable_db (wo_db wo) \<Longrightarrow> reachable_db (wo_db (snd (body wo)))) \<Longrightarrow> keeps_store body"
  by (simp add: keeps_store_def)

lemma keeps_storeD: "keeps_store body \<Longrightarrow> plain_fs (wo_fs wo) \<Longrightarrow> reachable_db (wo_db wo) \<Longrightarrow> reachable_db (wo_db (snd (body wo)))"
  by (simp add: keeps_store_def)

lemma print_line_simps [simp]: "wo_db (print_line s wo) = wo_db wo" "wo_fs (print_line s wo) = wo_fs wo" "wo_locks (print_line s wo) = wo_locks wo"
  "wo_migrations (print_line s wo) = wo_migrations wo"
  by (simp_all add: print_line_def)

lemma close_runtime_simps [simp]: "wo_db (close_runtime x wo) = wo_db wo" "wo_fs (close_runtime x wo) = wo_fs wo"
  "wo_migrations (close_runtime x wo) = wo_migrations wo" "close_runtime None wo = wo"
  by (simp_all add: close_runtime_def split: option.split)

lemma flags_keep: "(\<And>fl. keeps_store (body fl)) \<Longrightarrow> keeps_store (flags_of en fs args body)"
  by (auto simp: keeps_store_def flags_of_def split: sum.split)

lemma secrets_keep: "keeps_store body \<Longrightarrow> keeps_store (with_secrets en cfg body)"
  by (auto simp: keeps_store_def with_secrets_def split: sum.split)

lemma loaded_abs:
  assumes "loadConfig en fs path = Loaded cfg"
  shows "IsAbs (st_root (cf_storage cfg)) \<and> IsAbs (st_state_db (cf_storage cfg))"
proof -
  obtain c where v: "Validate (en_parse_url en) (en_load_location en) c = Accepted cfg"
    using assms by (auto simp: loadConfig_def Load_def Let_def simp del: Join.simps split: if_splits sum.splits next_document.splits validation.splits)
  obtain srcs where c: "cfg = c\<lparr>cf_sources := srcs\<rparr>" "global_problems c = []" by (rule Validate_Accepted [OF v])
  have "IsAbs (st_root (cf_storage c)) \<and> IsAbs (st_state_db (cf_storage c))"
    using c(2) unfolding global_problems_def Let_def append_is_Nil_conv problem_if_Nil by blast
  then show ?thesis by (simp add: c(1))
qed

lemma config_keep:
  fixes body :: "config \<Rightarrow> 'w world \<Rightarrow> outcome \<times> 'w world"
  assumes "\<And>cfg. IsAbs (st_root (cf_storage cfg)) \<and> IsAbs (st_state_db (cf_storage cfg)) \<Longrightarrow> keeps_store (body cfg)"
  shows "keeps_store (with_config en path body)"
proof (rule keeps_storeI)
  fix wo :: "'w world" assume wo: "plain_fs (wo_fs wo)" "reachable_db (wo_db wo)"
  show "reachable_db (wo_db (snd (with_config en path body wo)))"
    using wo keeps_storeD [OF assms [OF loaded_abs] wo] by (auto simp: with_config_def split: load_outcome.split)
qed

text \<open>An opened store has an absolute root, and the file system and the database are as before but for the
  directories of the store, its lock file and the directory of the database.\<close>

lemma state_Open_keeps:
  assumes "state_Open en path wo = (r, wo1)"
  shows "wo_db wo1 = wo_db wo" "wo_locks wo1 = wo_locks wo"
    "wo_migrations wo1 = wo_migrations wo \<or> wo_migrations wo1 = initialize (en_opened en) (wo_migrations wo)"
    "plain_fs (wo_fs wo) \<Longrightarrow> IsAbs path \<Longrightarrow> plain_fs (wo_fs wo1)"
  using assms by (auto simp: state_Open_def split: sum.splits option.splits dest: mkdirall_plain intro: Dir_abs)

text \<open>The world in which openRuntime opens the store.\<close>

definition locked_world :: "config \<Rightarrow> bool \<Rightarrow> 'w world \<Rightarrow> 'w world" where
  "locked_world cfg exclusive wo =
     (if exclusive
      then (case AcquireLock (st_root (cf_storage cfg)) (wo_locks wo) (wo_fs wo) of (r, locks, fs1) \<Rightarrow> wo\<lparr>wo_locks := locks, wo_fs := fs1\<rparr>)
      else wo)"

lemma openRuntime_cases:
  assumes "openRuntime en cfg exclusive wo = (r, wo1)"
  obtains (refused) e where "r = Inl e" "wo1 = locked_world cfg exclusive wo"
  | (store_failed) e lock fs2 where "r = Inl e" "Open (en_eval_symlinks en) (st_root (cf_storage cfg)) (wo_fs (locked_world cfg exclusive wo)) = (Inl e, fs2)"
      "wo1 = close_runtime lock ((locked_world cfg exclusive wo)\<lparr>wo_fs := fs2\<rparr>)" "exclusive \<or> lock = None"
  | (opened) raw lock fs2 x wo3 where "Open (en_eval_symlinks en) (st_root (cf_storage cfg)) (wo_fs (locked_world cfg exclusive wo)) = (Inr raw, fs2)"
      "state_Open en (st_state_db (cf_storage cfg)) ((locked_world cfg exclusive wo)\<lparr>wo_fs := fs2\<rparr>) = (x, wo3)"
      "r = Inr (raw, lock) \<and> wo1 = wo3 \<or> (\<exists>e. r = Inl e \<and> wo1 = close_runtime lock wo3)" "exclusive \<or> lock = None"
proof -
  define l where "l = (if exclusive
            then (case AcquireLock (st_root (cf_storage cfg)) (wo_locks wo) (wo_fs wo) of
                    (Inl e, locks, fs1) \<Rightarrow> (Inl e, wo\<lparr>wo_locks := locks, wo_fs := fs1\<rparr>)
                  | (Inr f, locks, fs1) \<Rightarrow> (Inr (Some f), wo\<lparr>wo_locks := locks, wo_fs := fs1\<rparr>))
            else (Inr None, wo))"
  have w: "snd l = locked_world cfg exclusive wo" by (auto simp: l_def locked_world_def split: prod.split sum.split)
  have n: "fst l = Inr lock \<Longrightarrow> exclusive \<or> lock = None" for lock by (cases exclusive) (simp_all add: l_def)
  note o = assms [unfolded openRuntime_def, folded l_def]
  show thesis
  proof (cases "fst l")
    case (Inl e)
    then show thesis using o w refused by (cases l) auto
  next
    case (Inr lock)
    obtain y fs2 where op: "Open (en_eval_symlinks en) (st_root (cf_storage cfg)) (wo_fs (locked_world cfg exclusive wo)) = (y, fs2)"
      by (metis prod.exhaust)
    show thesis
    proof (cases y)
      case y: (Inl e)
      show thesis by (rule store_failed [OF _ op [unfolded y], of lock]) (use o w Inr op y n in \<open>cases l; auto\<close>)+
    next
      case y: (Inr raw)
      obtain x wo3 where so: "state_Open en (st_state_db (cf_storage cfg)) ((locked_world cfg exclusive wo)\<lparr>wo_fs := fs2\<rparr>) = (x, wo3)"
        by (metis prod.exhaust)
      show thesis
        by (rule opened [OF op [unfolded y] so, of lock])
          (use o w Inr op y so n in \<open>cases l; auto split: option.splits\<close>)+
    qed
  qed
qed

lemma locked_world_keeps:
  "wo_db (locked_world cfg exclusive wo) = wo_db wo" "wo_migrations (locked_world cfg exclusive wo) = wo_migrations wo"
  "plain_fs (wo_fs wo) \<Longrightarrow> IsAbs (st_root (cf_storage cfg)) \<Longrightarrow> plain_fs (wo_fs (locked_world cfg exclusive wo))"
  by (auto simp: locked_world_def split: prod.split dest: AcquireLock_plain)

lemma openRuntime_db: "wo_db (snd (openRuntime en cfg exclusive wo)) = wo_db wo"
proof -
  obtain r wo1 where o: "openRuntime en cfg exclusive wo = (r, wo1)" by (metis prod.exhaust)
  from o have "wo_db wo1 = wo_db wo"
    by (rule openRuntime_cases) (auto simp: locked_world_keeps dest: state_Open_keeps(1))
  then show ?thesis by (simp add: o)
qed

lemma runtime_opened:
  assumes "openRuntime en cfg exclusive wo = (Inr (raw, lock), wo1)" "env_ok en"
    and "IsAbs (st_root (cf_storage cfg)) \<and> IsAbs (st_state_db (cf_storage cfg))" "plain_fs (wo_fs wo)"
  shows "wo_db wo1 = wo_db wo" "plain_fs (wo_fs wo1)" "\<exists>rcs. rs_root raw = abs_path rcs \<and> (\<forall>c \<in> set rcs. plain_comp c)"
proof -
  obtain fs2 x where o: "Open (en_eval_symlinks en) (st_root (cf_storage cfg)) (wo_fs (locked_world cfg exclusive wo)) = (Inr raw, fs2)"
      "state_Open en (st_state_db (cf_storage cfg)) ((locked_world cfg exclusive wo)\<lparr>wo_fs := fs2\<rparr>) = (x, wo1)"
    using assms(1) by (rule openRuntime_cases) auto
  have root: "IsAbs (st_root (cf_storage cfg))" using assms(3) by simp
  note eval = assms(2) [unfolded env_ok_def, rule_format, OF root]
  have abs: "en_eval_symlinks en fs (st_root (cf_storage cfg)) = Inr r \<Longrightarrow> IsAbs r" for fs r using eval by fastforce
  have p: "plain_fs fs2"
    by (rule Open_plain(1) [OF o(1) locked_world_keeps(3) [OF assms(4) root] root]) (erule abs)
  show "wo_db wo1 = wo_db wo" using openRuntime_db [of en cfg exclusive wo] assms(1) by simp
  show "plain_fs (wo_fs wo1)" using state_Open_keeps(4) [OF o(2)] p assms(3) by simp
  show "\<exists>rcs. rs_root raw = abs_path rcs \<and> (\<forall>c \<in> set rcs. plain_comp c)"
  proof -
    have "\<exists>fs0. en_eval_symlinks en fs0 (st_root (cf_storage cfg)) = Inr (rs_root raw)"
      by (rule Open_plain(2) [OF o(1) locked_world_keeps(3) [OF assms(4) root] root _ refl]) (erule abs)
    then show ?thesis using eval by blast
  qed
qed

lemma runtime_keep:
  fixes body :: "raw_store \<Rightarrow> 'w world \<Rightarrow> outcome \<times> 'w world"
  assumes "env_ok en" "IsAbs (st_root (cf_storage cfg)) \<and> IsAbs (st_state_db (cf_storage cfg))"
    and "\<And>raw rcs. rs_root raw = abs_path rcs \<Longrightarrow> \<forall>c \<in> set rcs. plain_comp c \<Longrightarrow> keeps_store (body raw)"
  shows "keeps_store (with_runtime en cfg exclusive body)"
proof (rule keeps_storeI)
  fix wo :: "'w world" assume wo: "plain_fs (wo_fs wo)" "reachable_db (wo_db wo)"
  obtain r wo1 where o: "openRuntime en cfg exclusive wo = (r, wo1)" by (metis prod.exhaust)
  show "reachable_db (wo_db (snd (with_runtime en cfg exclusive body wo)))"
  proof (cases r)
    case (Inl e)
    then show ?thesis using o openRuntime_db [of en cfg exclusive wo] wo(2) by (simp add: with_runtime_def)
  next
    case (Inr opened)
    obtain raw lock where opened: "opened = (raw, lock)" by (cases opened)
    note ro = runtime_opened [OF o [unfolded Inr opened] assms(1,2) wo(1)]
    have "keeps_store (body raw)" using ro(3) assms(3) by blast
    then have "reachable_db (wo_db (snd (body raw wo1)))" by (rule keeps_storeD) (use ro wo in simp_all)
    then show ?thesis using o Inr opened by (auto simp: with_runtime_def split: prod.split)
  qed
qed

section \<open>The commands\<close>

lemma Compact_reachable: "Compact co ctx req fs db = (r, fs', db') \<Longrightarrow> reachable_db db \<Longrightarrow> reachable_db db'"
  using compact_calls_store [of co ctx req fs db r fs' db'] by (auto split: sum.splits intro: reachable_call)

lemma upload_reachable: "reachable_db db \<Longrightarrow> reachable_db (ur_db (ProcessPending ul d now fs db w))"
  by (rule reachable_calls [OF upload_calls_store [OF reachable_db_inv]])

lemma fetch_each_db: "reachable_db (wo_db wo) \<Longrightarrow> reachable_db (wo_db (snd (fetch_each en f n bs wo)))"
proof (induction bs arbitrary: n wo)
  case (Cons b bs)
  obtain source stream where b: "b = (source, stream)" by (cases b)
  show ?case
  proof (cases "Fetch f (en_outside en n) source stream (en_now en n) (wo_fs wo) (wo_db wo)")
    case (Inr r)
    have "reachable_db (fr_db r)" by (rule reachable_calls [OF fetch_calls_store [OF Inr] Cons.prems])
    then show ?thesis using Inr Cons.IH by (simp add: b Let_def split: option.split)
  qed (use Cons.prems b in simp)
qed simp

lemma compact_each_db: "reachable_db (wo_db wo) \<Longrightarrow> reachable_db (wo_db (snd (compact_each en co date revision n bs wo)))"
proof (induction bs arbitrary: n wo)
  case (Cons b bs)
  obtain source stream where b: "b = (source, stream)" by (cases b)
  obtain r fs' db' where c: "Compact (co n) (en_ctx en) \<lparr>cr_source = src_id source, cr_stream = sm_id stream, cr_date = date, cr_revision = revision\<rparr>
      (wo_fs wo) (wo_db wo) = (r, fs', db')" by (metis prod.exhaust)
  have "reachable_db db'" by (rule Compact_reachable [OF c Cons.prems])
  then show ?case using c Cons.IH by (simp add: b split: sum.split)
qed simp

lemma verify_each_same: "wo_db (snd (verify_each en cfg date bs wo)) = wo_db wo \<and> wo_locks (snd (verify_each en cfg date bs wo)) = wo_locks wo \<and>
    wo_migrations (snd (verify_each en cfg date bs wo)) = wo_migrations wo"
  by (induction bs arbitrary: wo) (auto split: sum.split)

lemma upload_pass_keep: "reachable_db (wo_db wo) \<Longrightarrow> reachable_db (wo_db (snd (upload_pass en cfg d queued wo)))"
  by (auto simp: upload_pass_def Let_def upload_reachable split: prod.split option.split)

lemma reconcile_reachable:
  assumes "reconcile_all en cfg raw wo = (r, fs')" "plain_fs (wo_fs wo)" "reachable_db (wo_db wo)" "rs_root raw = abs_path rcs" "\<forall>c \<in> set rcs. plain_comp c"
  shows "reachable_db (rr_db r)"
  by (rule reachable_calls [OF all_calls_store [OF assms(1) [unfolded reconcile_all_def] assms(2,4,5)] assms(3)])

lemma repair_reachable: "reachable_db db \<Longrightarrow> reachable_db (RecordRepair a t reason now db)"
  by (rule reachable_call [OF _ store_call.repair])

lemma retire_reachable: "reachable_db db \<Longrightarrow> RetireDestination d reason now db = (n, db') \<Longrightarrow> reachable_db db'"
  by (rule reachable_call [OF _ store_call.retire])

lemma backfill_reachable: "reachable_db db \<Longrightarrow> EnsureDestinationBackfill d now db = (n, db') \<Longrightarrow> reachable_db db'"
  by (rule reachable_call [OF _ store_call.backfill])

lemma refuse_keep: "keeps_store body \<Longrightarrow> keeps_store (\<lambda>wo. if b then (out, wo) else body wo)"
  by (simp add: keeps_store_def)

lemma reason_keep: "keeps_store body \<Longrightarrow> keeps_store (\<lambda>wo. case problem of Some e \<Rightarrow> (Exit_error e, wo) | None \<Rightarrow> body wo)"
  by (simp add: keeps_store_def split: option.split)

lemma command_keeps:
  assumes "env_ok en"
  shows "keeps_store (validateConfig en args)" "keeps_store (fetchOnce en args)" "keeps_store (compact_command en args)"
    "keeps_store (upload_command en args)" "keeps_store (verify_command en args)" "keeps_store (status_command en args)"
    "keeps_store (repair_command en args)" "keeps_store (retireDestination_command en args)"
proof -
  note keep = flags_keep config_keep secrets_keep runtime_keep [OF assms] refuse_keep reason_keep
  show "keeps_store (validateConfig en args)" unfolding validateConfig_def
    by (intro keep) (auto intro!: keeps_storeI split: prod.split option.split)
  show "keeps_store (fetchOnce en args)" unfolding fetchOnce_def
    by (intro keep) (auto intro!: keeps_storeI fetch_each_db split: sum.split)
  show "keeps_store (status_command en args)" unfolding status_command_def
    by (intro keep) (auto intro!: keeps_storeI split: sum.split)
  show "keeps_store (upload_command en args)" unfolding upload_command_def
    by (intro keep, auto intro!: keeps_storeI upload_pass_keep simp: Let_def split: option.split prod.split) (metis backfill_reachable)
  show "keeps_store (compact_command en args)" unfolding compact_command_def
    by (intro keep) (auto intro!: keeps_storeI compact_each_db split: sum.split)
  show "keeps_store (verify_command en args)" unfolding verify_command_def
    by (intro keep) (auto intro!: keeps_storeI simp: verify_each_same split: sum.split)
  show "keeps_store (retireDestination_command en args)" unfolding retireDestination_command_def Let_def
    by (intro keep) (auto intro!: keeps_storeI split: prod.split dest: retire_reachable)
  show "keeps_store (repair_command en args)" unfolding repair_command_def
    by (intro keep) (auto intro!: keeps_storeI repair_reachable simp: Let_def split: option.split prod.split dest: reconcile_reachable)
qed

lemma run_command_keeps: "env_ok en \<Longrightarrow> keeps_store (run_command en args)"
proof (cases args)
  case (Cons c rest)
  assume "env_ok en"
  note command_keeps [OF this, of rest]
  then show ?thesis by (auto simp: keeps_store_def run_command_def Cons)
qed (simp add: keeps_store_def run_command_def)

section \<open>The service\<close>

lemma started_reachable:
  assumes "start_service en cfg wo = (st, wo1)" "env_ok en"
    "IsAbs (st_root (cf_storage cfg)) \<and> IsAbs (st_state_db (cf_storage cfg))" "plain_fs (wo_fs wo)" "reachable_db (wo_db wo)"
  shows "reachable_db (wo_db wo1)"
proof -
  obtain r wo0 where o: "openRuntime en cfg True wo = (r, wo0)" by (metis prod.exhaust)
  show ?thesis
  proof (cases r)
    case (Inl e)
    then show ?thesis using assms(1,5) o openRuntime_db [of en cfg True wo] by (simp add: start_service_def)
  next
    case (Inr opened)
    obtain raw lock where opened: "opened = (raw, lock)" by (cases opened)
    note ro = runtime_opened [OF o [unfolded Inr opened] assms(2-4)]
    obtain rcs where root: "rs_root raw = abs_path rcs" "\<forall>c \<in> set rcs. plain_comp c" using ro(3) by blast
    have db0: "reachable_db (wo_db wo0)" using ro(1) assms(5) by simp
    obtain rr fs' where rec: "reconcile_all en cfg raw wo0 = (rr, fs')" by (metis prod.exhaust)
    have "reachable_db (rr_db rr)" by (rule reconcile_reachable [OF rec ro(2) db0 root])
    with assms(1) o Inr opened rec db0 show ?thesis
      by (auto simp: start_service_def Let_def split: prod.splits option.splits sum.splits)
  qed
qed

lemma service_step_reachable: "service_step en cfg raw wo wo' \<Longrightarrow> reachable_db (wo_db wo) \<Longrightarrow> reachable_db (wo_db wo')"
proof (induction rule: service_step.induct)
  case (poll out source stream scheduled wo r)
  then show ?case using reachable_calls [OF fetch_calls_store [OF poll(1)]] by simp
next
  case (skip id_now random now src sm scheduled reason wo db' reported)
  then have "db' = wo_db wo \<or> (\<exists>t. RecordTick t (wo_db wo) = Inr db')"
    by (auto simp: recordSkip_def RecordTick_def split: sum.splits)
  then show ?case using skip(2) by (auto intro: reachable_call store_call.record_tick)
next
  case (maintain wo fs' db' w')
  then show ?case using reachable_calls [OF maintenance_calls_store [OF maintain(1) reachable_db_inv]] by simp
qed

lemma service_reachable: "(service_step en cfg raw)\<^sup>*\<^sup>* wo wo' \<Longrightarrow> reachable_db (wo_db wo) \<Longrightarrow> reachable_db (wo_db wo')"
  by (induction rule: rtranclp_induct) (auto intro: service_step_reachable)

text \<open>C2. Whatever command is run, also one that fails, and however long the service polls, skips, compacts,
  uploads, reconciles and cleans up: the database stays reachable by calls of the store, so that afterwards a
  revision marked published still owes nothing to a required destination.\<close>

theorem app_keeps_store:
  assumes "app_run en args wo out wo'" "env_ok en" "plain_fs (wo_fs wo)" "reachable_db (wo_db wo)"
  shows "reachable_db (wo_db wo') \<and> (\<forall>k \<in> set (db_compactions (wo_db wo')). cp_published k \<noteq> None \<longrightarrow> delivered k (wo_db wo'))"
proof -
  have "reachable_db (wo_db wo')" using assms(1)
  proof cases
    case (service rest)
    from service(2) show ?thesis
    proof cases
      case (not_started fl cfg)
      show ?thesis by (rule started_reachable [OF not_started(4) assms(2) loaded_abs [OF not_started(2)] assms(3,4)])
    next
      case (served fl cfg cfg' raw lock wo1 wo2 server_error stopped checkpoint_error)
      have "reachable_db (wo_db wo1)" by (rule started_reachable [OF served(6) assms(2) loaded_abs [OF served(4)] assms(3,4)])
      then show ?thesis using service_reachable [OF served(7)] served(2) by simp
    qed (use assms(4) in simp_all)
  next
    case other
    from keeps_storeD [OF run_command_keeps [OF assms(2)] assms(3,4), of args] other(2) show ?thesis by simp
  qed
  then show ?thesis using published_delivered by blast
qed

end
