(* ===== verification/Lock_Facts.thy ===== *)
theory Lock_Facts
  imports Raw_Store
begin

text \<open>
  A taken lock is held: opening a root, a database or a lock only adds entries to the file system, what
  resolved before resolves to the same place afterwards, and so the lock file of a root that was just
  locked is found locked by everybody else, whatever links lead to it.
\<close>

section \<open>A growing file system\<close>

definition grows :: "fs \<Rightarrow> fs \<Rightarrow> bool" where
  "grows fs fs' \<longleftrightarrow> map_of fs \<subseteq>\<^sub>m map_of fs' \<and> map_of fs' [] = map_of fs []"

lemma grows_refl [simp]: "grows fs fs"
  by (simp add: grows_def)

lemma grows_trans: "grows a b \<Longrightarrow> grows b c \<Longrightarrow> grows a c"
  unfolding grows_def by (metis map_le_trans)

lemma grows_put: "map_of fs p = None \<Longrightarrow> p \<noteq> [] \<Longrightarrow> grows fs (fs_put p n fs)"
  by (auto simp: grows_def map_le_def)

lemma grows_at: "grows fs fs' \<Longrightarrow> map_of fs p = Some n \<Longrightarrow> map_of fs' p = Some n"
  unfolding grows_def map_le_def by (metis domI)

lemma realpath_grows: "realpath n fs follow cur cs = Inr q \<Longrightarrow> grows fs fs' \<Longrightarrow> realpath n fs' follow cur cs = Inr q"
proof (induction n fs follow cur cs rule: realpath.induct)
  case (2 n fs follow cur c cs)
  then obtain x where "map_of fs (cur @ [c]) = Some x" by (cases "map_of fs (cur @ [c])") simp_all
  then show ?case using "2.prems" "2.IH" grows_at [OF "2.prems"(2)]
    by (cases x) (auto simp: Let_def split: if_splits nat.splits)
qed simp

lemma realpath_node: "realpath n fs follow cur cs = Inr q \<Longrightarrow> cs \<noteq> [] \<or> cur = [] \<or> map_of fs cur \<noteq> None \<Longrightarrow> q = [] \<or> map_of fs q \<noteq> None"
proof (induction n fs follow cur cs rule: realpath.induct)
  case (2 n fs follow cur c cs)
  then obtain x where "map_of fs (cur @ [c]) = Some x" by (cases "map_of fs (cur @ [c])") simp_all
  then show ?case using "2.prems" "2.IH" by (cases x) (auto simp: Let_def split: if_splits nat.splits)
qed auto

lemma node_at_grows: "grows fs fs' \<Longrightarrow> p = [] \<or> map_of fs p \<noteq> None \<Longrightarrow> node_at fs' p = node_at fs p"
  by (auto simp: node_at_def grows_at) (simp add: grows_def)

lemma realpath_snoc:
  "realpath n fs True cur xs = Inr d \<Longrightarrow> xs = [] \<or> node_at fs d = Directory \<Longrightarrow> \<exists>m. realpath n fs follow cur (xs @ [c]) = realpath m fs follow d [c]"
proof (induction n fs True cur xs rule: realpath.induct)
  case (2 n fs cur c' cs)
  then obtain x where x: "map_of fs (cur @ [c']) = Some x" by (cases "map_of fs (cur @ [c'])") simp_all
  show ?case
  proof (cases x)
    case (Reg b)
    then show ?thesis using "2.prems" x by (auto simp: node_at_def split: if_splits)
  next
    case Directory
    then show ?thesis using "2.prems" "2.hyps"(1) [OF refl x] x by (cases "cs = []") auto
  next
    case (Symlink t)
    then obtain m where m: "n = Suc m" using "2.prems" x by (auto split: nat.splits)
    show ?thesis using "2.prems" "2.hyps"(2) [OF refl x Symlink _ m] x m Symlink by auto
  qed
qed auto

text \<open>The parent of a new entry exists, so the entry is missing when it cannot be found.\<close>

lemma entry_missing:
  assumes "os_lstat fs p = Inl e" "entry_place fs p = Inr q"
  shows "map_of fs q = None \<and> q \<noteq> []"
proof -
  from assms(2) obtain d where cs: "comps p \<noteq> []" and d: "realpath link_limit fs True [] (butlast (comps p)) = Inr d"
      "node_at fs d = Directory" and q: "q = d @ [last (comps p)]"
    by (auto simp: entry_place_def Let_def bind_res_Inr split: if_splits)
  obtain m where "realpath link_limit fs False [] (comps p) = realpath m fs False d [last (comps p)]"
    using realpath_snoc [OF d(1), of False "last (comps p)"] d(2) cs by auto
  with assms(1) q show ?thesis
    by (cases "map_of fs q") (auto simp: os_lstat_def bind_res_def Let_def split: node.splits)
qed

lemma mkdirs_grows: "mkdirs cur cs fs = Inr fs' \<Longrightarrow> grows fs fs'"
proof (induction cur cs fs rule: mkdirs.induct)
  case (2 cur c cs fs)
  then obtain d where d: "realpath link_limit fs True [] cur = Inr d" by (auto simp: bind_res_Inr)
  show ?case
  proof (cases "map_of fs (d @ [c])")
    case None
    then show ?thesis using "2.prems" "2.IH"(1) [OF None] d grows_trans [OF grows_put [OF None]] by simp
  next
    case (Some x)
    then show ?thesis using "2.prems" "2.IH"(2) [OF Some] d by (auto simp: bind_res_Inr split: if_splits)
  qed
qed simp

lemma mkdirs_again:
  "mkdirs cur cs fs = Inr fs' \<Longrightarrow> grows fs' fs2 \<Longrightarrow> mkdirs cur cs fs2 = Inr fs2"
proof (induction cur cs fs rule: mkdirs.induct)
  case (2 cur c cs fs)
  obtain d where d: "realpath link_limit fs True [] cur = Inr d" using "2.prems"(1) by (auto simp: bind_res_Inr)
  have g: "grows fs fs2" by (rule grows_trans [OF mkdirs_grows [OF "2.prems"(1)] "2.prems"(2)])
  have d2: "realpath link_limit fs2 True [] cur = Inr d" by (rule realpath_grows [OF d g])
  show ?case
  proof (cases "map_of fs (d @ [c])")
    case None
    let ?made = "fs_put (d @ [c]) Directory fs"
    have rest: "mkdirs (d @ [c]) cs ?made = Inr fs'" using "2.prems"(1) d None by simp
    have "map_of fs2 (d @ [c]) = Some Directory"
      by (rule grows_at [OF grows_trans [OF mkdirs_grows [OF rest] "2.prems"(2)]]) simp
    then show ?thesis using "2.IH"(1) [OF None rest "2.prems"(2)] d2 by (simp add: node_at_def)
  next
    case (Some x)
    then obtain q where q: "realpath link_limit fs True d [c] = Inr q" "node_at fs q = Directory" "mkdirs q cs fs = Inr fs'"
      using "2.prems"(1) d by (auto simp: bind_res_Inr split: if_splits)
    have "node_at fs2 q = Directory" using node_at_grows [OF g realpath_node [OF q(1)]] q(2) by simp
    then show ?thesis using "2.IH"(2) [OF Some q(2,3) "2.prems"(2)] d2 grows_at [OF g Some] realpath_grows [OF q(1) g] by simp
  qed
qed simp

lemma entry_place_grows:
  assumes "entry_place fs p = Inr q" "grows fs fs'"
  shows "entry_place fs' p = Inr q"
proof -
  from assms(1) obtain d where d: "comps p \<noteq> []" "realpath link_limit fs True [] (butlast (comps p)) = Inr d"
      "node_at fs d = Directory" "q = d @ [last (comps p)]"
    by (auto simp: entry_place_def Let_def bind_res_Inr split: if_splits)
  then show ?thesis using realpath_grows [OF d(2) assms(2)] node_at_grows [OF assms(2) realpath_node [OF d(2)]]
    by (simp add: entry_place_def Let_def)
qed

lemma open_dirs_grows: "open_dirs rdir names fs = (r, fs') \<Longrightarrow> grows fs fs'"
proof (induction rdir names fs rule: open_dirs.induct)
  case (2 rdir name names fs)
  then show ?case
    by (auto simp: Let_def simp del: Join.simps split: sum.splits if_splits node.splits
        intro: grows_trans [OF grows_put] dest!: entry_missing)
qed simp

lemma Open_grows: "Open eval rdir fs = (r, fs') \<Longrightarrow> grows fs fs'"
  by (auto simp: Open_def os_mkdirall_def simp del: open_dirs.simps split: sum.splits prod.splits
      intro: mkdirs_grows grows_trans [OF mkdirs_grows open_dirs_grows])

section \<open>A taken lock\<close>

lemma AcquireLock_grows: "AcquireLock rdir locks fs = (r, locks', fs') \<Longrightarrow> grows fs fs'"
  by (auto simp: AcquireLock_def os_open_nofollow_def os_mkdirall_def entry_place_def Let_def bind_res_def simp del: Join.simps
      split: sum.splits if_splits option.splits node.splits intro: mkdirs_grows grows_trans [OF mkdirs_grows grows_put])

lemma lock_heldI:
  "os_mkdirall rdir fs = Inr fs \<Longrightarrow> entry_place fs (Join [rdir, ''lock'']) = Inr f \<Longrightarrow> map_of fs f = Some (Reg b) \<Longrightarrow> f \<in> set locks \<Longrightarrow>
    lock_held fs locks rdir"
  by (simp add: lock_held_def del: Join.simps)

lemma lock_heldE:
  assumes "lock_held fs locks rdir"
  obtains f b where "os_mkdirall rdir fs = Inr fs" "entry_place fs (Join [rdir, ''lock'']) = Inr f" "map_of fs f = Some (Reg b)" "f \<in> set locks"
  using assms by (auto simp: lock_held_def simp del: Join.simps split: sum.splits option.splits node.splits)

lemma lock_stays:
  assumes "lock_held fs locks rdir" "grows fs fs'"
  shows "lock_held fs' locks rdir"
  using assms(1)
proof (rule lock_heldE)
  fix f b
  assume l: "os_mkdirall rdir fs = Inr fs" "entry_place fs (Join [rdir, ''lock'']) = Inr f" "map_of fs f = Some (Reg b)" "f \<in> set locks"
  show ?thesis
    by (rule lock_heldI [OF _ entry_place_grows [OF l(2) assms(2)] grows_at [OF assms(2) l(3)] l(4)])
      (use mkdirs_again [OF l(1) [unfolded os_mkdirall_def] assms(2)] in \<open>simp add: os_mkdirall_def\<close>)
qed

lemma AcquireLock_holds:
  assumes "AcquireLock rdir locks fs = (Inr f, locks', fs')"
  shows "\<not> lock_held fs locks rdir" "lock_held fs' locks' rdir"
proof -
  show "\<not> lock_held fs locks rdir" using assms AcquireLock_held by fastforce
  obtain fs1 where m: "os_mkdirall rdir fs = Inr fs1" and o: "os_open_nofollow (Join [rdir, ''lock'']) fs1 = Inr (f, fs')"
    using AcquireLock_got(3) [OF assms] by blast
  from o have e: "entry_place fs1 (Join [rdir, ''lock'']) = Inr f" and g: "grows fs1 fs'" and r: "\<exists>b. map_of fs' f = Some (Reg b)"
    by (auto simp: os_open_nofollow_def bind_res_Inr entry_place_def Let_def simp del: Join.simps
        split: if_splits option.splits node.splits intro: grows_put)
  have "os_mkdirall rdir fs' = Inr fs'" using mkdirs_again [OF m [unfolded os_mkdirall_def] g] by (simp add: os_mkdirall_def)
  then show "lock_held fs' locks' rdir"
    using entry_place_grows [OF e g] r AcquireLock_got(2) [OF assms] by (auto simp del: Join.simps intro: lock_heldI)
qed

end
