(* ===== verification/App_Lock.thy ===== *)
theory App_Lock
  imports App_Props Lock_Facts
begin

text \<open>
  The lock of the data directory: what a command does while another process holds the lock of the root that its
  configuration names, and what the commands that take no lock leave alone.
\<close>

section \<open>The root a command names\<close>

text \<open>A command reads its flags and the configuration they name; the root is that of the configuration, and there
  is none when one of them is refused.\<close>

definition config_root :: "'w env \<Rightarrow> string \<Rightarrow> 'w world \<Rightarrow> string option" where
  "config_root en path wo = (case loadConfig en (wo_fs wo) path of Loaded cfg \<Rightarrow> Some (st_root (cf_storage cfg)) | _ \<Rightarrow> None)"

definition named_root :: "'w env \<Rightarrow> flag_set \<Rightarrow> string list \<Rightarrow> 'w world \<Rightarrow> string option" where
  "named_root en fs args wo =
     (case parse_flags (en_parse_int en) fs args of Inl e \<Rightarrow> None | Inr fl \<Rightarrow> config_root en (flag_string fl ''config'') wo)"

definition command_flags :: "string \<Rightarrow> flag_set" where
  "command_flags c = (''config'', StringFlag '''') #
     (if c = ''fetch-once'' then [(''source'', StringFlag ''''), (''stream'', StringFlag '''')]
      else if c = ''compact'' then [(''date'', StringFlag ''''), (''source'', StringFlag ''''), (''stream'', StringFlag ''''), (''revision'', IntFlag 0)]
      else if c = ''upload'' then [(''destination'', StringFlag '''')]
      else if c = ''retire-destination'' then [(''destination'', StringFlag ''''), (''reason'', StringFlag '''')]
      else [])"

definition command_root :: "'w env \<Rightarrow> string \<Rightarrow> string list \<Rightarrow> 'w world \<Rightarrow> string option" where
  "command_root en c args wo = named_root en (command_flags c) (if c = ''repair'' then tl args else args) wo"

definition writing_commands :: "string list" where
  "writing_commands = [''run'', ''fetch-once'', ''compact'', ''upload'', ''repair'', ''retire-destination'']"

section \<open>Commands refused while the lock is held\<close>

definition locked_out :: "('w world \<Rightarrow> string option) \<Rightarrow> ('w world \<Rightarrow> outcome \<times> 'w world) \<Rightarrow> bool" where
  "locked_out named body \<longleftrightarrow>
     (\<forall>wo. (\<forall>rdir. named wo = Some rdir \<longrightarrow> lock_held (wo_fs wo) (wo_locks wo) rdir) \<longrightarrow> snd (body wo) = wo \<and> fst (body wo) \<noteq> Exit_ok)"

lemma openRuntime_held:
  "lock_held (wo_fs wo) (wo_locks wo) (st_root (cf_storage cfg)) \<Longrightarrow>
    openRuntime en cfg True wo = (Inl (errors_New ''storage is already locked by another archiver''), wo)"
  by (simp add: openRuntime_def AcquireLock_held)

lemma locked_combinators:
  "(\<And>fl. locked_out (config_root en (flag_string fl ''config'')) (fbody fl)) \<Longrightarrow> locked_out (named_root en fs args) (flags_of en fs args fbody)"
  "(\<And>cfg. locked_out (\<lambda>_. Some (st_root (cf_storage cfg))) (cbody cfg)) \<Longrightarrow> locked_out (config_root en path) (with_config en path cbody)"
  "locked_out named body \<Longrightarrow> locked_out named (with_secrets en cfg body)"
  "locked_out (\<lambda>_. Some (st_root (cf_storage cfg))) (with_runtime en cfg True rbody)"
  "locked_out named body \<Longrightarrow> locked_out named (\<lambda>wo. if b then (Exit_error e, wo) else body wo)"
  "locked_out named body \<Longrightarrow> locked_out named (\<lambda>wo. case problem of Some e \<Rightarrow> (Exit_error e, wo) | None \<Rightarrow> body wo)"
  by (auto simp: locked_out_def flags_of_def with_config_def with_secrets_def with_runtime_def openRuntime_held config_root_def named_root_def
      split: sum.split load_outcome.split option.split)

lemma writers_locked_out:
  "locked_out (command_root en ''fetch-once'' args) (fetchOnce en args)"
  "locked_out (command_root en ''compact'' args) (compact_command en args)"
  "locked_out (command_root en ''upload'' args) (upload_command en args)"
  "locked_out (command_root en ''repair'' args) (repair_command en args)"
  "locked_out (command_root en ''retire-destination'' args) (retireDestination_command en args)"
  unfolding fetchOnce_def compact_command_def upload_command_def repair_command_def retireDestination_command_def Let_def
    command_root_def command_flags_def
  by (simp, intro locked_combinators)+

section \<open>Commands without the lock\<close>

text \<open>Such a command leaves the database and the locks as they are; opening the database may create its schema.\<close>

definition reads_only :: "'w env \<Rightarrow> ('w world \<Rightarrow> outcome \<times> 'w world) \<Rightarrow> bool" where
  "reads_only en body \<longleftrightarrow>
     (\<forall>wo. wo_db (snd (body wo)) = wo_db wo \<and> wo_locks (snd (body wo)) = wo_locks wo \<and>
        wo_migrations (snd (body wo)) \<in> {wo_migrations wo, initialize (en_opened en) (wo_migrations wo)})"

lemma reads_combinators:
  "(\<And>fl. reads_only en (fbody fl)) \<Longrightarrow> reads_only en (flags_of en fs args fbody)"
  "(\<And>cfg. reads_only en (cbody cfg)) \<Longrightarrow> reads_only en (with_config en path cbody)"
  "reads_only en body \<Longrightarrow> reads_only en (with_secrets en cfg body)"
  "reads_only en body \<Longrightarrow> reads_only en (\<lambda>wo. if b then (out, wo) else body wo)"
  by (auto simp: reads_only_def flags_of_def with_config_def with_secrets_def split: sum.split load_outcome.split)

text \<open>The bodies within a runtime do not touch the migrations at all.\<close>

definition looks_only :: "('w world \<Rightarrow> outcome \<times> 'w world) \<Rightarrow> bool" where
  "looks_only body \<longleftrightarrow>
     (\<forall>wo. wo_db (snd (body wo)) = wo_db wo \<and> wo_locks (snd (body wo)) = wo_locks wo \<and> wo_migrations (snd (body wo)) = wo_migrations wo)"

lemma openRuntime_reads:
  assumes "openRuntime en cfg False wo = (r, wo1)"
  shows "wo_db wo1 = wo_db wo" "wo_locks wo1 = wo_locks wo"
    "wo_migrations wo1 \<in> {wo_migrations wo, initialize (en_opened en) (wo_migrations wo)}"
    "r = Inr (raw, lock) \<Longrightarrow> lock = None"
  using assms by (auto simp: openRuntime_def state_Open_def close_runtime_def split: sum.splits option.splits prod.splits)

lemma reads_runtime:
  assumes "\<And>raw. looks_only (rbody raw)"
  shows "reads_only en (with_runtime en cfg False rbody)"
  unfolding reads_only_def
proof (rule allI)
  fix wo :: "'a world"
  obtain r wo1 where o: "openRuntime en cfg False wo = (r, wo1)" by (metis prod.exhaust)
  note kept = openRuntime_reads(1-3) [OF o]
  show "wo_db (snd (with_runtime en cfg False rbody wo)) = wo_db wo \<and> wo_locks (snd (with_runtime en cfg False rbody wo)) = wo_locks wo \<and>
      wo_migrations (snd (with_runtime en cfg False rbody wo)) \<in> {wo_migrations wo, initialize (en_opened en) (wo_migrations wo)}"
  proof (cases r)
    case (Inl e)
    then show ?thesis using kept by (simp add: with_runtime_def o)
  next
    case (Inr opened)
    obtain raw lock where opened: "opened = (raw, lock)" by (cases opened)
    have "lock = None" by (rule openRuntime_reads(4) [OF o]) (simp add: Inr opened)
    then have "snd (with_runtime en cfg False rbody wo) = snd (rbody raw wo1)"
      by (simp add: with_runtime_def o Inr opened close_runtime_def split: prod.split)
    then show ?thesis using kept assms [of raw, unfolded looks_only_def, rule_format, of wo1] by simp
  qed
qed

lemma readers_only:
  "reads_only en (validateConfig en args)" "reads_only en (verify_command en args)" "reads_only en (status_command en args)"
proof -
  show "reads_only en (validateConfig en args)" unfolding validateConfig_def
    by (intro reads_combinators) (auto simp: reads_only_def print_line_def split: prod.split option.split)
  show "reads_only en (verify_command en args)" unfolding verify_command_def
    by (intro reads_combinators reads_runtime) (auto simp: looks_only_def verify_each_same split: sum.split)
  show "reads_only en (status_command en args)" unfolding status_command_def
    by (intro reads_combinators reads_runtime) (auto simp: looks_only_def print_line_def split: sum.split)
qed

section \<open>The lock of an opened runtime\<close>

lemma state_Open_grows: "state_Open en path wo = (r, wo1) \<Longrightarrow> grows (wo_fs wo) (wo_fs wo1) \<and> wo_locks wo1 = wo_locks wo"
  by (auto simp: state_Open_def os_mkdirall_def split: sum.splits option.splits intro: mkdirs_grows)

lemma runtime_holds_lock:
  assumes "openRuntime en cfg True wo = (Inr (raw, lock), wo1)"
  shows "\<not> lock_held (wo_fs wo) (wo_locks wo) (st_root (cf_storage cfg)) \<and> lock_held (wo_fs wo1) (wo_locks wo1) (st_root (cf_storage cfg))"
proof -
  obtain r locks fs1 where a: "AcquireLock (st_root (cf_storage cfg)) (wo_locks wo) (wo_fs wo) = (r, locks, fs1)" by (metis prod.exhaust)
  then obtain f where r: "r = Inr f" using assms by (cases r) (auto simp: openRuntime_def)
  obtain o2 fs2 where o: "Open (en_eval_symlinks en) (st_root (cf_storage cfg)) fs1 = (o2, fs2)" by (metis prod.exhaust)
  obtain x wo3 where so: "state_Open en (st_state_db (cf_storage cfg)) (wo\<lparr>wo_locks := locks, wo_fs := fs2\<rparr>) = (x, wo3)"
    by (metis prod.exhaust)
  have "wo1 = wo3" using assms a r o so by (auto simp: openRuntime_def split: sum.splits option.splits)
  then have "grows fs1 (wo_fs wo1)" "wo_locks wo1 = locks"
    using state_Open_grows [OF so] grows_trans [OF Open_grows [OF o]] by simp_all
  then show ?thesis using AcquireLock_holds [OF a [unfolded r]] lock_stays by simp
qed

text \<open>C3. The lock is that of one root: while another process holds the lock of the root that a writing command's
  configuration names, the command fails, and the files, the locks, the database and the remotes stay as they
  are, and so does a command whose flags or configuration name no root. Opening the runtime for writing succeeds
  only while nobody else holds that lock, and afterwards it is held, whatever links lead to the root. The other
  commands never change a row of the database nor a lock; opening the database may record its migration. Roots
  that share a state database but not a lock file are not kept apart (\<open>nested_roots\<close> in App_Samples).\<close>

theorem exclusive_lock:
  assumes "app_run en (c # args) wo out wo'"
  shows "(c \<in> set writing_commands \<and> (\<forall>rdir. command_root en c args wo = Some rdir \<longrightarrow> lock_held (wo_fs wo) (wo_locks wo) rdir) \<longrightarrow>
      out \<noteq> Exit_ok \<and> wo' = wo) \<and>
    (\<forall>cfg raw lock wo1. openRuntime en cfg True wo = (Inr (raw, lock), wo1) \<longrightarrow>
      \<not> lock_held (wo_fs wo) (wo_locks wo) (st_root (cf_storage cfg)) \<and> lock_held (wo_fs wo1) (wo_locks wo1) (st_root (cf_storage cfg))) \<and>
    (c \<notin> set writing_commands \<longrightarrow>
      wo_db wo' = wo_db wo \<and> wo_locks wo' = wo_locks wo \<and>
      wo_migrations wo' \<in> {wo_migrations wo, initialize (en_opened en) (wo_migrations wo)})"
  using assms
proof cases
  case service
  have "out \<noteq> Exit_ok \<and> wo' = wo" if held: "\<forall>rdir. command_root en ''run'' args wo = Some rdir \<longrightarrow> lock_held (wo_fs wo) (wo_locks wo) rdir"
    using service(2) held
    by cases (auto simp: start_service_def openRuntime_held command_root_def command_flags_def named_root_def config_root_def split: load_outcome.splits)
  then show ?thesis using service(1) runtime_holds_lock [of en _ wo] by (simp add: writing_commands_def)
next
  case other
  have w: "locked_out named f \<Longrightarrow> f wo = (out, wo') \<Longrightarrow> (\<forall>rdir. named wo = Some rdir \<longrightarrow> lock_held (wo_fs wo) (wo_locks wo) rdir) \<Longrightarrow>
      out \<noteq> Exit_ok \<and> wo' = wo" for named and f :: "'a world \<Rightarrow> App.outcome \<times> 'a world"
    unfolding locked_out_def by (metis fst_conv snd_conv)
  have r: "reads_only en f \<Longrightarrow> f wo = (out, wo') \<Longrightarrow> wo_db wo' = wo_db wo \<and> wo_locks wo' = wo_locks wo \<and>
      wo_migrations wo' \<in> {wo_migrations wo, initialize (en_opened en) (wo_migrations wo)}" for f :: "'a world \<Rightarrow> App.outcome \<times> 'a world"
    unfolding reads_only_def by (metis snd_conv)
  have "(c \<in> set writing_commands \<and> (\<forall>rdir. command_root en c args wo = Some rdir \<longrightarrow> lock_held (wo_fs wo) (wo_locks wo) rdir) \<longrightarrow>
      out \<noteq> Exit_ok \<and> wo' = wo) \<and>
    (c \<notin> set writing_commands \<longrightarrow> wo_db wo' = wo_db wo \<and> wo_locks wo' = wo_locks wo \<and>
      wo_migrations wo' \<in> {wo_migrations wo, initialize (en_opened en) (wo_migrations wo)})"
    using other w [OF writers_locked_out(1)] w [OF writers_locked_out(2)] w [OF writers_locked_out(3)]
      w [OF writers_locked_out(4)] w [OF writers_locked_out(5)] r [OF readers_only(1)] r [OF readers_only(2)] r [OF readers_only(3)]
    by (auto simp: run_command_def writing_commands_def print_line_def split: if_splits)
  then show ?thesis using runtime_holds_lock [of en _ wo] by blast
qed

end
