(* ===== verification/Decode_Props.thy ===== *)
theory Decode_Props
  imports Decode
begin

text \<open>
  What Decode reports: the classification of a body, the validation flags as a sorted list without
  repetitions that is determined by the header and the entities, and the two flags about the feed
  timestamp, whose conversion to a time wraps near the upper end of int64.
\<close>

section \<open>unique\<close>

lemma unique_loop_spec:
  assumes "sorted vs" "sorted_wrt (<) out" "\<forall>x \<in> set out. \<forall>v \<in> set vs. x \<le> v"
  shows "sorted_wrt (<) (unique_loop out vs) \<and> set (unique_loop out vs) = set out \<union> set vs"
  using assms
proof (induction out vs rule: unique_loop.induct)
  case (1 out)
  then show ?case by simp
next
  case (2 out v vs)
  show ?case
  proof (cases "out = [] \<or> last out \<noteq> v")
    case True
    have lt: "x < v" if x: "x \<in> set out" for x
    proof -
      have "out \<noteq> []" using x by auto
      then have ne: "last out \<noteq> v" and mem: "last out \<in> set out" using True by auto
      then have "last out < v" using 2 by (simp add: order.strict_iff_order)
      moreover have "x \<le> last out"
      proof -
        have "sorted out" using 2 by (metis strict_sorted_imp_sorted)
        with x \<open>out \<noteq> []\<close> show ?thesis
          by (metis append_butlast_last_id in_set_conv_decomp insert_iff list.set(2) order_refl rotate1.simps(2) set_rotate1 sorted_append)
      qed
      ultimately show ?thesis by simp
    qed
    with 2 True show ?thesis by (auto simp: sorted_wrt_append)
  next
    case False
    then have "v \<in> set out" by (metis last_in_set)
    with 2 False show ?thesis by auto
  qed
qed

lemma unique_eq: "unique vs = sorted_list_of_set (set vs)"
proof -
  have "sorted_wrt (<) (unique vs) \<and> set (unique vs) = set vs"
    using unique_loop_spec [of "sort vs" "[]"] by (simp add: unique_def)
  then show ?thesis
    by (metis sorted_list_of_set.idem_if_sorted_distinct strict_sorted_iff)
qed

section \<open>Flags\<close>

definition entity_flags :: "string \<Rightarrow> pmsg \<Rightarrow> string list" where
  "entity_flags expectedKind entity =
     (if payloads entity > 1 then [''multiple_entity_payloads''] else []) @
     (if payloads entity = 0 \<and> \<not> GetIsDeleted entity then [''entity_without_payload''] else []) @
     (if expectedKind \<noteq> ''mixed'' \<and> expectedKind \<noteq> ''auto'' \<and> actual_kind entity \<noteq> ''unknown'' \<and>
         actual_kind entity \<noteq> expectedKind then [''unexpected_entity_kind''] else [])"

lemma decode_entities_eq: "decode_entities k es fl = fl @ concat (map (entity_flags k) es)"
  by (induction es arbitrary: fl) (simp_all add: entity_flags_def)

definition header_flags :: "pmsg \<Rightarrow> instant \<Rightarrow> string list" where
  "header_flags h t =
     (if \<not> IsValid h \<or> GetGtfsRealtimeVersion h = [] then []
      else (if Has h 2 \<and> GetIncrementality h = DIFFERENTIAL then [''differential_incrementality''] else []) @
        (if Has h 3
         then (if time_Unix (sint (GetTimestamp h)) > t + 5 * minute then [''feed_timestamp_future''] else []) @
              (if time_Unix (sint (GetTimestamp h)) < t - 24 * hour then [''feed_timestamp_stale''] else [])
         else [''missing_feed_timestamp'']))"

lemma decode_header_flags: "meta_flags (decode_header h t m) = meta_flags m @ header_flags h t"
  by (simp add: decode_header_def header_flags_def Let_def)

lemma decode_header_other:
  "meta_message (decode_header h t m) = meta_message m"
  "meta_entity_count (decode_header h t m) = meta_entity_count m"
  "meta_parse_status (decode_header h t m) =
     (if \<not> IsValid h \<or> GetGtfsRealtimeVersion h = [] then ''protobuf_required_field'' else meta_parse_status m)"
  "meta_parse_error (decode_header h t m) =
     (if \<not> IsValid h \<or> GetGtfsRealtimeVersion h = []
      then ''feed header or gtfs_realtime_version is absent'' else meta_parse_error m)"
  by (simp_all add: decode_header_def Let_def)

lemma decoded_flags:
  assumes "body \<noteq> []" "unmarshal dec body = Inr m"
  shows "meta_flags (Decode dec body k t) =
    sorted_list_of_set (set (header_flags (GetHeader m) t) \<union> (\<Union>e \<in> set (GetEntity m). set (entity_flags k e)))"
  using assms
  by (simp add: Decode_def Let_def unique_eq decode_entities_eq decode_header_flags split: option.splits)

lemma set_header_flags:
  "set (header_flags h t) \<subseteq> {''differential_incrementality'', ''feed_timestamp_future'',
     ''feed_timestamp_stale'', ''missing_feed_timestamp''}"
  by (auto simp: header_flags_def)

lemma set_entity_flags:
  "set (entity_flags k e) \<subseteq> {''multiple_entity_payloads'', ''entity_without_payload'', ''unexpected_entity_kind''}"
  by (auto simp: entity_flags_def)

lemma actual_kind_cases:
  "actual_kind e = (if IsValid (GetAlert e) then ''alert'' else if IsValid (GetVehicle e) then ''vehicle_position''
     else if IsValid (GetTripUpdate e) then ''trip_update'' else ''unknown'')"
  by (simp add: actual_kind_def)

text \<open>C22. The status of a body: an empty body, a body that does not unmarshal, a message without a
  required field or a feed version, and otherwise valid. The message is nil exactly for a body that
  does not unmarshal, entities are counted exactly for one that does, and the error kept is
  at most 160 bytes long and empty for a valid body.\<close>

theorem decode_classifies:
  "let d = Decode dec body k t in
     meta_parse_status d =
       (if body = [] then ''empty_body''
        else case unmarshal dec body of Inl _ \<Rightarrow> ''protobuf_decode''
          | Inr m \<Rightarrow> if check_initialized dec m = None \<and> IsValid (GetHeader m) \<and> GetGtfsRealtimeVersion (GetHeader m) \<noteq> []
                     then ''valid'' else ''protobuf_required_field'') \<and>
     (meta_message d = None) = (meta_parse_status d = ''protobuf_decode'') \<and>
     (meta_entity_count d = None) = (meta_parse_status d \<in> {''empty_body'', ''protobuf_decode''}) \<and>
     length (meta_parse_error d) \<le> 160 \<and>
     (meta_parse_status d = ''valid'' \<and> meta_parse_error d = [] \<or> meta_parse_status d \<noteq> ''valid'')"
  by (auto simp: Decode_def Let_def decode_header_other boundedError_def split: sum.splits option.splits)

text \<open>C23. The validation flags of a decoded body are sorted and without repetitions, and each of
  them is raised exactly by its cause: the header's incrementality and timestamp, an entity with
  several payloads, a live entity without one, an entity of another kind than the stream expects.\<close>

theorem decode_flags_exact:
  assumes "body \<noteq> []" "unmarshal dec body = Inr m"
  shows "let d = Decode dec body k t; h = GetHeader m in
    sorted (meta_flags d) \<and> distinct (meta_flags d) \<and>
    (''multiple_entity_payloads'' \<in> set (meta_flags d)) = (\<exists>e \<in> set (GetEntity m). payloads e > 1) \<and>
    (''entity_without_payload'' \<in> set (meta_flags d)) =
       (\<exists>e \<in> set (GetEntity m). payloads e = 0 \<and> \<not> GetIsDeleted e) \<and>
    (''unexpected_entity_kind'' \<in> set (meta_flags d)) =
       (k \<notin> {''mixed'', ''auto''} \<and> (\<exists>e \<in> set (GetEntity m). payloads e > 0 \<and> actual_kind e \<noteq> k)) \<and>
    (''differential_incrementality'' \<in> set (meta_flags d)) =
       (IsValid h \<and> GetGtfsRealtimeVersion h \<noteq> [] \<and> Has h 2 \<and> GetIncrementality h = DIFFERENTIAL) \<and>
    (''missing_feed_timestamp'' \<in> set (meta_flags d)) =
       (IsValid h \<and> GetGtfsRealtimeVersion h \<noteq> [] \<and> \<not> Has h 3)"
proof -
  define d h where "d = Decode dec body k t" and "h = GetHeader m"
  have fl: "meta_flags d = sorted_list_of_set (set (header_flags h t) \<union> (\<Union>e \<in> set (GetEntity m). set (entity_flags k e)))"
    unfolding d_def h_def by (rule decoded_flags [OF assms(1,2)])
  have kind: "actual_kind e \<noteq> ''unknown'' \<longleftrightarrow> payloads e > 0" for e
    by (simp add: actual_kind_cases payloads_def)
  have hd: "f \<notin> set (header_flags h t)"
    if "f \<in> {''multiple_entity_payloads'', ''entity_without_payload'', ''unexpected_entity_kind''}" for f
    using that set_header_flags [of h t] by auto
  have en: "f \<notin> (\<Union>e \<in> set (GetEntity m). set (entity_flags k e))"
    if "f \<in> {''differential_incrementality'', ''missing_feed_timestamp''}" for f
    using that set_entity_flags [of k] by auto
  have mem: "f \<in> set (meta_flags d) \<longleftrightarrow> f \<in> set (header_flags h t) \<or> (\<exists>e \<in> set (GetEntity m). f \<in> set (entity_flags k e))" for f
    by (simp add: fl)
  have "(f \<in> set (meta_flags d)) = (\<exists>e \<in> set (GetEntity m). f \<in> set (entity_flags k e))"
    if "f \<in> {''multiple_entity_payloads'', ''entity_without_payload'', ''unexpected_entity_kind''}" for f
    using hd [OF that] mem by blast
  moreover have "(f \<in> set (meta_flags d)) = (f \<in> set (header_flags h t))"
    if "f \<in> {''differential_incrementality'', ''missing_feed_timestamp''}" for f
    using en [OF that] mem by blast
  moreover have "sorted (meta_flags d) \<and> distinct (meta_flags d)" by (simp add: fl)
  ultimately show ?thesis
    unfolding d_def [symmetric] h_def [symmetric] Let_def
    by (auto simp: entity_flags_def header_flags_def kind)
qed

section \<open>The feed timestamp\<close>

lemma time_Unix_small: "0 \<le> s \<Longrightarrow> s < 2 ^ 63 - unix_to_internal \<Longrightarrow> time_Unix s = s * second"
  by (simp add: time_Unix_def unix_to_internal_def int64_id)

lemma time_Unix_wrap:
  assumes "2 ^ 63 - unix_to_internal \<le> uint v"
  shows "time_Unix (sint (v :: uint64)) < 0"
proof -
  have lt: "uint v < 2 ^ 64" using uint_lt2p [of v] by simp
  have sv: "sint v = int64 (uint v)" by (simp add: sint_uint int64_def)
  show ?thesis
  proof (cases "uint v < 2 ^ 63")
    case True
    then have "sint v = uint v" unfolding sv by (intro int64_nonneg) auto
    with True assms have "int64 (sint v + unix_to_internal) = uint v + unix_to_internal - 2 ^ 64"
      by (subst int64_over) (auto simp: unix_to_internal_def)
    with True show ?thesis by (simp add: time_Unix_def)
  next
    case False
    then have s: "sint v = uint v - 2 ^ 64" using sv lt by (simp add: int64_over)
    with False lt have "int64 (sint v + unix_to_internal) = sint v + unix_to_internal"
      by (intro int64_id) (auto simp: unix_to_internal_def)
    with s lt show ?thesis by (simp add: time_Unix_def)
  qed
qed

text \<open>C24. The flags about the feed timestamp: below the wrap of \<open>time.Unix\<close> a timestamp is in the
  future or stale exactly as its number of seconds says; a larger one is reported stale and never
  future, although it lies billions of years ahead.\<close>

theorem feed_time_flags:
  assumes "body \<noteq> []" "unmarshal dec body = Inr m" "IsValid (GetHeader m)"
    and "GetGtfsRealtimeVersion (GetHeader m) \<noteq> []" "Has (GetHeader m) 3" "24 * hour \<le> t"
  shows "let fl = set (meta_flags (Decode dec body k t)); v = uint (GetTimestamp (GetHeader m)) in
    if v < 2 ^ 63 - unix_to_internal
    then (''feed_timestamp_future'' \<in> fl) = (v * second > t + 5 * minute) \<and>
         (''feed_timestamp_stale'' \<in> fl) = (v * second < t - 24 * hour)
    else ''feed_timestamp_future'' \<notin> fl \<and> ''feed_timestamp_stale'' \<in> fl"
proof -
  define v where "v = GetTimestamp (GetHeader m)"
  have en: "f \<notin> (\<Union>e \<in> set (GetEntity m). set (entity_flags k e))"
    if "f \<in> {''feed_timestamp_future'', ''feed_timestamp_stale''}" for f
    using that set_entity_flags [of k] by auto
  have mem: "(f \<in> set (meta_flags (Decode dec body k t))) = (f \<in> set (header_flags (GetHeader m) t))"
    if "f \<in> {''feed_timestamp_future'', ''feed_timestamp_stale''}" for f
    using en [OF that] by (simp add: decoded_flags [OF assms(1,2)])
  have fut: "(''feed_timestamp_future'' \<in> set (meta_flags (Decode dec body k t))) =
      (time_Unix (sint v) > t + 5 * minute)"
    and stale: "(''feed_timestamp_stale'' \<in> set (meta_flags (Decode dec body k t))) =
      (time_Unix (sint v) < t - 24 * hour)"
    using assms(3-5) by (auto simp: mem header_flags_def v_def)
  have sv: "sint v = int64 (uint v)" by (simp add: sint_uint int64_def)
  show ?thesis
  proof (cases "uint v < 2 ^ 63 - unix_to_internal")
    case True
    then have "sint v = uint v" unfolding sv by (intro int64_nonneg) (auto simp: unix_to_internal_def)
    then have "time_Unix (sint v) = uint v * second" using True by (simp add: time_Unix_small)
    with True fut stale show ?thesis by (simp add: Let_def v_def)
  next
    case False
    then have "time_Unix (sint v) < 0" by (simp add: time_Unix_wrap)
    with False fut stale assms(6) show ?thesis by (simp add: Let_def v_def)
  qed
qed

end
