(* ===== verification/Layouts.thy ===== *)
theory Layouts
  imports Flatten_Props
begin

text \<open>
  The two Parquet layouts of a feed message: the nested one that projection_generated.go maps through
  descriptors, and the flattened one that trip_update_flatten.go fills through typed getters. A
  reference function rebuilds the flattened rows from the nested structs alone; the theorem says that
  it gives, row by row and column by column, what the program flattens from the message.
\<close>

section \<open>Messages that protoreflect can give\<close>

text \<open>Range and Has speak of the fields of the descriptor: no other field is ever set.\<close>

fun known_fields :: "pmsg \<Rightarrow> bool" and known_value :: "pval \<Rightarrow> bool" where
  "known_fields NilMessage = True"
| "known_fields (Message desc entries) = (\<forall>e \<in> set entries. fst e \<in> set desc \<and> known_value (snd e))"
| "known_value (PMessage m) = known_fields m"
| "known_value (PList ms) = (\<forall>m \<in> set ms. known_fields m)"
| "known_value (PString s) = True"
| "known_value (PBool b) = True"
| "known_value (PInt i) = True"
| "known_value (PUint u) = True"
| "known_value (PEnum e) = True"
| "known_value (PFloat x) = True"

lemma known_field: "known_fields m \<Longrightarrow> field_of m n = Some v \<Longrightarrow> ByNumber m n = Some n \<and> known_value v"
  by (cases m) (force simp: field_of_def ByNumber_def dest: map_of_SomeD)+

lemma known_message: "known_fields m \<Longrightarrow> known_fields (get_message m n)"
  using known_field [of m n] by (auto simp: get_message_def SubMessage_def split: option.splits pval.splits)

lemma known_list: "known_fields m \<Longrightarrow> x \<in> set (get_list m n) \<Longrightarrow> known_fields x"
  using known_field [of m n] by (cases "field_of m n") (auto simp: get_list_def Elements_def split: pval.splits)

text \<open>On such messages the reflective shapes of the mappers are the typed getters.\<close>

named_theorems typed_getters \<open>the three shapes of a mapper as typed getters\<close>

lemma optional_pointer [typed_getters]: "known_fields m \<Longrightarrow> optional m n conv = pointer conv m n"
  using known_field [of m n] by (cases "field_of m n") (auto simp: optional_def pointer_def Has_def)

lemma optional_message_get [typed_getters]:
  "known_fields m \<Longrightarrow> proj NilMessage = None \<Longrightarrow> optional_message m n proj = proj (get_message m n)"
  using known_field [of m n] by (cases "field_of m n") (auto simp: optional_message_def get_message_def Has_def)

lemma repeated_message_list [typed_getters]:
  "known_fields m \<Longrightarrow> repeated_message m n proj = map proj (get_list m n)"
  using known_field [of m n] by (cases "field_of m n") (auto simp: repeated_message_map get_list_def)

section \<open>The flattened rows from the nested structs\<close>

definition value_or :: "'a \<Rightarrow> 'a option \<Rightarrow> 'a" where
  "value_or d v = (case v of None \<Rightarrow> d | Some x \<Rightarrow> x)"

definition nested_base :: "TripUpdateProvenance \<Rightarrow> FeedHeader option \<Rightarrow> FeedEntity \<Rightarrow> TripUpdateStopRow" where
  "nested_base prov h en =
     (entity_row prov (value_or [] (Option.bind h header_gtfs_realtime_version)) (Option.bind h header_timestamp)
       (Option.bind h header_incrementality) NilMessage)
     \<lparr>row_entity_id := value_or [] (entity_id en), row_is_deleted := value_or False (entity_is_deleted en)\<rparr>"

definition nested_trip :: "TripUpdate \<Rightarrow> TripUpdateStopRow \<Rightarrow> TripUpdateStopRow" where
  "nested_trip tu r =
     (let r1 = (case update_trip tu of None \<Rightarrow> r
          | Some td \<Rightarrow> r\<lparr>row_trip_id := value_or [] (trip_trip_id td), row_route_id := value_or [] (trip_route_id td),
              row_direction_id := trip_direction_id td, row_start_time := value_or [] (trip_start_time td),
              row_start_date := value_or [] (trip_start_date td),
              row_schedule_relationship := value_or 0 (trip_schedule_relationship td)\<rparr>);
          r2 = (case update_vehicle tu of None \<Rightarrow> r1
          | Some vd \<Rightarrow> r1\<lparr>row_vehicle_id := value_or [] (vehicle_id vd), row_vehicle_label := value_or [] (vehicle_label vd),
              row_license_plate := vehicle_license_plate vd\<rparr>);
          r3 = r2\<lparr>row_trip_timestamp := update_timestamp tu, row_trip_delay := update_delay tu\<rparr>
      in case update_trip_properties tu of None \<Rightarrow> r3
         | Some tp \<Rightarrow> r3\<lparr>row_trip_properties_trip_id := tripprop_trip_id tp,
             row_trip_properties_start_date := tripprop_start_date tp, row_trip_properties_start_time := tripprop_start_time tp\<rparr>)"

definition nested_stop :: "TripUpdateStopRow \<Rightarrow> TripUpdate_StopTimeUpdate option \<Rightarrow> TripUpdateStopRow" where
  "nested_stop r s =
     (case s of None \<Rightarrow> r
      | Some stu \<Rightarrow>
         r\<lparr>row_stop_sequence := stop_stop_sequence stu, row_stop_id := stop_stop_id stu,
           row_stop_schedule_relationship := stop_schedule_relationship stu,
           row_arrival_delay := Option.bind (stop_arrival stu) event_delay,
           row_arrival_time := Option.bind (stop_arrival stu) event_time,
           row_arrival_uncertainty := Option.bind (stop_arrival stu) event_uncertainty,
           row_departure_delay := Option.bind (stop_departure stu) event_delay,
           row_departure_time := Option.bind (stop_departure stu) event_time,
           row_departure_uncertainty := Option.bind (stop_departure stu) event_uncertainty,
           row_assigned_stop_id := Option.bind (stop_stop_time_properties stu) stopprop_assigned_stop_id\<rparr>)"

definition nested_entity_rows :: "TripUpdateProvenance \<Rightarrow> FeedHeader option \<Rightarrow> FeedEntity option \<Rightarrow> TripUpdateStopRow list" where
  "nested_entity_rows prov h e =
     (case e of None \<Rightarrow> []
      | Some en \<Rightarrow> (case entity_trip_update en of None \<Rightarrow> []
         | Some tu \<Rightarrow> (let r = nested_trip tu (nested_base prov h en) in
             if update_stop_time_update tu = [] then [r] else map (nested_stop r) (update_stop_time_update tu))))"

definition flatten_nested :: "TripUpdateProvenance \<Rightarrow> FeedMessage \<Rightarrow> TripUpdateStopRow list" where
  "flatten_nested prov f = concat (map (nested_entity_rows prov (message_header f)) (message_entity f))"

definition nested_stops :: "FeedEntity option \<Rightarrow> nat" where
  "nested_stops e = (case e of None \<Rightarrow> 0 | Some en \<Rightarrow>
     (case entity_trip_update en of None \<Rightarrow> 0 | Some tu \<Rightarrow> length (update_stop_time_update tu)))"

section \<open>Agreement\<close>

lemma value_or_pointer: "value_or d (pointer conv m n) = get_scalar conv d m n"
  by (simp add: value_or_def pointer_def get_scalar_def split: option.splits)

lemma Has_pointer: "Has m n \<Longrightarrow> pointer conv m n = Some (get_scalar conv d m n)" "\<not> Has m n \<Longrightarrow> pointer conv m n = None"
  by (auto simp: Has_def pointer_def get_scalar_def)

lemma nil_fields [simp]: "pointer conv NilMessage n = None" "get_scalar conv d NilMessage n = d" "Has NilMessage n \<longleftrightarrow> False"
  by (simp_all add: pointer_def get_scalar_def Has_def field_of_def)

lemmas nested_nil [simp] = projectTripDescriptor_def [of NilMessage, simplified] projectVehicleDescriptor_def [of NilMessage, simplified]
  projectTripUpdate_TripProperties_def [of NilMessage, simplified] projectTripUpdate_StopTimeEvent_def [of NilMessage, simplified]
  projectTripUpdate_StopTimeUpdate_StopTimeProperties_def [of NilMessage, simplified] projectTripUpdate_def [of NilMessage, simplified]
  projectFeedHeader_def [of NilMessage, simplified] projectTripUpdate_StopTimeUpdate_def [of NilMessage, simplified]

lemma invalid_nil: "\<not> IsValid m \<longleftrightarrow> m = NilMessage"
  by (cases m) simp_all

lemma trip_agrees:
  assumes "known_fields tu" "projectTripUpdate tu = Some u"
  shows "trip_row tu r = nested_trip u r"
proof -
  have u: "u = \<lparr>update_trip = projectTripDescriptor (get_message tu 1), update_vehicle = projectVehicleDescriptor (get_message tu 3),
      update_stop_time_update = map projectTripUpdate_StopTimeUpdate (GetStopTimeUpdate tu),
      update_timestamp = pointer UintValue tu 4, update_delay = pointer int32_value tu 5,
      update_trip_properties = projectTripUpdate_TripProperties (get_message tu 6)\<rparr>"
    using assms by (auto simp: projectTripUpdate_def typed_getters split: if_splits)
  show ?thesis
    by (simp add: u trip_row_def nested_trip_def Let_def projectTripDescriptor_def projectVehicleDescriptor_def
        projectTripUpdate_TripProperties_def typed_getters known_message [OF assms(1)] value_or_pointer)
qed

lemma event_agrees:
  assumes "known_fields m"
  shows "Option.bind (projectTripUpdate_StopTimeEvent m) event_delay = pointer int32_value m 1"
    "Option.bind (projectTripUpdate_StopTimeEvent m) event_time = pointer IntValue m 2"
    "Option.bind (projectTripUpdate_StopTimeEvent m) event_uncertainty = pointer int32_value m 3"
  using assms by (auto simp: projectTripUpdate_StopTimeEvent_def typed_getters invalid_nil)

lemma properties_agree:
  "known_fields m \<Longrightarrow> Option.bind (projectTripUpdate_StopTimeUpdate_StopTimeProperties m) stopprop_assigned_stop_id = pointer StringValue m 1"
  by (auto simp: projectTripUpdate_StopTimeUpdate_StopTimeProperties_def typed_getters invalid_nil)

lemma stop_agrees:
  assumes "known_fields stu" "stop_columns r NilMessage"
  shows "stop_row r stu = nested_stop r (projectTripUpdate_StopTimeUpdate stu)"
proof (cases "IsValid stu")
  case False
  then have "stu = NilMessage" by (simp add: invalid_nil)
  then show ?thesis using assms(2) by (simp add: stop_row_def nested_stop_def Let_def stop_columns_def)
next
  case True
  then obtain v where v: "projectTripUpdate_StopTimeUpdate stu = Some v"
    "v = \<lparr>stop_stop_sequence = pointer uint32_value stu 1, stop_stop_id = pointer StringValue stu 4,
      stop_arrival = projectTripUpdate_StopTimeEvent (get_message stu 2), stop_departure = projectTripUpdate_StopTimeEvent (get_message stu 3),
      stop_schedule_relationship = pointer EnumValue stu 5,
      stop_stop_time_properties = projectTripUpdate_StopTimeUpdate_StopTimeProperties (get_message stu 6)\<rparr>"
    using assms(1) by (auto simp: projectTripUpdate_StopTimeUpdate_def typed_getters)
  have c: "stop_columns (stop_row r stu) stu" by (rule set_columns [OF assms(2)])
  have "stop_row r stu = nested_stop r (Some v)"
    using c unfolding stop_columns_def v(2)
    by (intro TripUpdateStopRow.equality)
      (simp_all add: nested_stop_def event_agrees properties_agree known_message [OF assms(1)], simp_all add: stop_row_def Let_def)
  then show ?thesis by (simp add: v(1))
qed

lemma header_agrees:
  assumes "known_fields m" "known_fields e" "projectFeedEntity narrow e = Some en"
  shows "header_row m prov e = nested_base prov (projectFeedHeader (GetHeader m)) en"
proof -
  have en: "entity_id en = pointer StringValue e 1" "entity_is_deleted en = pointer BoolValue e 2"
    using assms(2,3) by (auto simp: projectFeedEntity_def typed_getters split: if_splits)
  define H where "H = GetHeader m"
  have k: "known_fields H" unfolding H_def by (rule known_message [OF assms(1)])
  have h: "value_or [] (Option.bind (projectFeedHeader H) header_gtfs_realtime_version) = GetGtfsRealtimeVersion H"
    "Option.bind (projectFeedHeader H) header_timestamp = pointer UintValue H 3"
    "Option.bind (projectFeedHeader H) header_incrementality = pointer EnumValue H 2"
    using k by (auto simp: projectFeedHeader_def typed_getters value_or_pointer invalid_nil) (simp add: value_or_def)
  have "Has H 2 \<Longrightarrow> IsValid H" by (metis invalid_nil nil_fields(3))
  then have "header_row m prov e = entity_row prov (GetGtfsRealtimeVersion H) (pointer UintValue H 3) (pointer EnumValue H 2) e"
    unfolding header_row_def Let_def H_def [symmetric]
    by (cases "IsValid H"; cases "Has H 2") (simp_all add: Has_pointer(1) [where d = 0] Has_pointer(2) invalid_nil)
  then show ?thesis
    unfolding nested_base_def H_def [symmetric] h en by (simp add: entity_row_def value_or_pointer)
qed

lemma entity_agrees:
  assumes "known_fields m" "known_fields e"
  shows "entity_rows (header_row m prov) e = nested_entity_rows prov (projectFeedHeader (GetHeader m)) (projectFeedEntity narrow e)"
proof (cases "IsValid e")
  case False
  then have "e = NilMessage" by (simp add: invalid_nil)
  then show ?thesis by (simp add: entity_rows_def nested_entity_rows_def projectFeedEntity_def)
next
  case True
  then obtain en where en: "projectFeedEntity narrow e = Some en" by (simp add: projectFeedEntity_def)
  have tu: "entity_trip_update en = projectTripUpdate (GetTripUpdate e)"
    using en assms(2) by (auto simp: projectFeedEntity_def typed_getters split: if_splits)
  show ?thesis
  proof (cases "projectTripUpdate (GetTripUpdate e)")
    case None
    then have "\<not> IsValid (GetTripUpdate e)" by (auto simp: projectTripUpdate_def split: if_splits)
    then show ?thesis by (simp add: entity_rows_def nested_entity_rows_def en tu None)
  next
    case (Some u)
    have k: "known_fields (GetTripUpdate e)" by (rule known_message [OF assms(2)])
    have valid: "IsValid (GetTripUpdate e)" using Some by (auto simp: projectTripUpdate_def split: if_splits)
    have stops: "update_stop_time_update u = map projectTripUpdate_StopTimeUpdate (GetStopTimeUpdate (GetTripUpdate e))"
      using Some k by (auto simp: projectTripUpdate_def typed_getters split: if_splits)
    have base: "trip_row (GetTripUpdate e) (header_row m prov e) = nested_trip u (nested_base prov (projectFeedHeader (GetHeader m)) en)"
      using trip_agrees [OF k Some] header_agrees [OF assms en] by simp
    have cols: "stop_columns (trip_row (GetTripUpdate e) (header_row m prov e)) NilMessage"
      by (simp add: header_row_def Let_def base_columns)
    have "map (stop_row (trip_row (GetTripUpdate e) (header_row m prov e))) (GetStopTimeUpdate (GetTripUpdate e)) =
        map (nested_stop (trip_row (GetTripUpdate e) (header_row m prov e))) (update_stop_time_update u)"
      using stop_agrees [OF known_list [OF k] cols] by (simp add: stops)
    then show ?thesis using valid by (simp add: entity_rows_def nested_entity_rows_def en tu Some base Let_def stops)
  qed
qed

lemma count_stops_nested:
  assumes "\<forall>e \<in> set es. known_fields e"
  shows "count_stops es n = n + int (sum_list (map nested_stops (map (projectFeedEntity narrow) es)))"
  using assms
proof (induction es arbitrary: n)
  case (Cons e es)
  have k: "known_fields (GetTripUpdate e)" using Cons.prems by (simp add: known_message)
  have "nested_stops (projectFeedEntity narrow e) = (if IsValid (GetTripUpdate e) then length (GetStopTimeUpdate (GetTripUpdate e)) else 0)"
    using Cons.prems k
    by (cases "IsValid e") (auto simp: nested_stops_def projectFeedEntity_def projectTripUpdate_def typed_getters invalid_nil split: option.splits)
  with Cons show ?case by (simp add: Let_def)
qed simp

text \<open>C27. The two layouts agree: from the nested structs of a message alone, the reference function
  gives exactly the rows that the program flattens from the message, in every column, and the number of
  stop_time_updates that the program counts is the number the nested structs hold. The messages are
  those in which only fields of the descriptors are set.\<close>

theorem layouts_agree:
  assumes "known_fields m" "ProjectFeedMessage narrow m = Some f"
  shows "ProjectTripUpdateStops m prov = flatten_nested prov f \<and>
    CountStopTimeUpdates (Some m) = int (sum_list (map nested_stops (message_entity f)))"
proof -
  have f: "message_header f = projectFeedHeader (GetHeader m)" "message_entity f = map (projectFeedEntity narrow) (GetEntity m)"
    using assms by (auto simp: ProjectFeedMessage_def projectFeedMessage_def typed_getters split: if_splits)
  have k: "\<forall>e \<in> set (GetEntity m). known_fields e" using known_list [OF assms(1)] by blast
  have "map (entity_rows (header_row m prov)) (GetEntity m) =
      map (nested_entity_rows prov (message_header f)) (message_entity f)"
    using k by (simp add: f entity_agrees [OF assms(1), where narrow = narrow])
  then have "ProjectTripUpdateStops m prov = flatten_nested prov f"
    by (simp add: project_stops_eq flatten_nested_def)
  moreover have "CountStopTimeUpdates (Some m) = int (sum_list (map nested_stops (message_entity f)))"
    using count_stops_nested [OF k, of 0 narrow] by (simp add: CountStopTimeUpdates_def f)
  ultimately show ?thesis by simp
qed

end
