(* ===== verification/Feed_Samples.thy ===== *)
theory Feed_Samples
  imports Decode_Props Layouts
begin

text \<open>
  A feed message with a differential header, a trip update of two stops, a tombstone, a trip update
  without stops and a vehicle, on which the properties of decoding and flattening are evaluated.
\<close>

definition sample_header :: pmsg where
  "sample_header = Message [1, 2, 3] [(1, PString ''2.0''), (2, PEnum 1), (3, PUint 1700000000)]"

definition sample_stop :: "string \<Rightarrow> uint64 \<Rightarrow> pmsg" where
  "sample_stop s n = Message [1, 4, 2, 3, 5, 6]
     [(1, PUint n), (4, PString s), (2, PMessage (Message [1, 2, 3] [(1, PInt (- 30))]))]"

definition sample_trip :: "pmsg list \<Rightarrow> pmsg" where
  "sample_trip stops = Message [1, 3, 2, 4, 5, 6]
     [(1, PMessage (Message [1, 5, 6, 2, 3, 4] [(1, PString ''T1''), (5, PString ''R9'')])), (2, PList stops)]"

definition sample_entity :: "string \<Rightarrow> nat \<Rightarrow> pmsg \<Rightarrow> pmsg" where
  "sample_entity k n payload = Message [1, 2, 3, 4, 5] [(1, PString k), (n, PMessage payload)]"

definition sample_feed :: pmsg where
  "sample_feed = Message [1, 2] [(1, PMessage sample_header), (2, PList
     [sample_entity ''e1'' 3 (sample_trip [sample_stop ''S1'' 1, sample_stop ''S2'' 2]),
      Message [1, 2, 3, 4, 5] [(1, PString ''e2''), (2, PBool True)],
      sample_entity ''e3'' 3 (sample_trip []),
      sample_entity ''e4'' 4 (Message [] [])])]"

definition sample_decoder :: decoder where
  "sample_decoder = \<lparr>unmarshal = (\<lambda>b. if b = ''pb'' then Inr sample_feed else Inl ''*errors.prefixError''),
     check_initialized = (\<lambda>m. None)\<rparr>"

definition sample_prov :: TripUpdateProvenance where
  "sample_prov = \<lparr>prov_source_file = ''raw/x.pb'', prov_feed_url = ''https://feed'', prov_fetch_timestamp = 1700000005 * second,
     prov_scheduled_at = 1700000000 * second, prov_source_id = ''agency'', prov_stream_id = ''trips'',
     prov_capture_id = ''c1'', prov_archive_date = ''2023-11-14'', prov_archive_timezone = ''UTC'',
     prov_parse_status = ''valid'', prov_validation_flags = []\<rparr>"

lemmas sample_feed_defs = sample_feed_def sample_header_def sample_stop_def sample_trip_def sample_entity_def
  sample_decoder_def

lemma sample_unmarshal: "unmarshal sample_decoder ''pb'' = Inr sample_feed"
  by (simp add: sample_decoder_def)

lemma decode_classifies_witness:
  "meta_parse_status (Decode sample_decoder ''pb'' ''trip_update'' 0) = ''valid'' \<and>
   meta_parse_status (Decode sample_decoder ''x'' ''trip_update'' 0) = ''protobuf_decode''"
  using decode_classifies [of sample_decoder "''pb''" "''trip_update''" 0]
    decode_classifies [of sample_decoder "''x''" "''trip_update''" 0]
  by (simp add: Let_def sample_feed_defs get_message_def field_of_def get_scalar_def)

lemma decode_flags_exact_witness:
  "''unexpected_entity_kind'' \<in> set (meta_flags (Decode sample_decoder ''pb'' ''trip_update'' 0)) \<and>
   ''entity_without_payload'' \<notin> set (meta_flags (Decode sample_decoder ''pb'' ''trip_update'' 0)) \<and>
   ''differential_incrementality'' \<in> set (meta_flags (Decode sample_decoder ''pb'' ''trip_update'' 0))"
  using decode_flags_exact [OF _ sample_unmarshal, of "''trip_update''" 0]
  by (simp add: Let_def sample_feed_defs get_message_def field_of_def get_scalar_def get_list_def Has_def
      payloads_def actual_kind_def DIFFERENTIAL_def)

lemma feed_time_flags_witness:
  "''feed_timestamp_stale'' \<in> set (meta_flags (Decode sample_decoder ''pb'' ''mixed'' (1700090000 * second)))"
  using feed_time_flags [OF _ sample_unmarshal, of "1700090000 * second" "''mixed''"]
  by (simp add: Let_def sample_feed_defs get_message_def field_of_def get_scalar_def Has_def unix_to_internal_def)

lemma flatten_rows_witness:
  "\<exists>r \<in> set (ProjectTripUpdateStops sample_feed sample_prov).
     row_entity_id r = ''e1'' \<and> row_provenance r = sample_prov \<and> row_stop_id r = Some ''S2''"
proof -
  note all = flatten_rows [of sample_feed sample_prov]
  define e where "e = sample_entity ''e1'' 3 (sample_trip [sample_stop ''S1'' 1, sample_stop ''S2'' 2])"
  have e: "e \<in> set (GetEntity sample_feed)" "IsValid (GetTripUpdate e)"
    "sample_stop ''S2'' 2 \<in> set (GetStopTimeUpdate (GetTripUpdate e))" "get_scalar StringValue [] e 1 = ''e1''"
    by (simp_all add: e_def sample_feed_defs get_message_def field_of_def get_scalar_def get_list_def)
  from all e(1,2,3) obtain r where r: "r \<in> set (ProjectTripUpdateStops sample_feed sample_prov)"
    "row_entity_id r = get_scalar StringValue [] e 1" "stop_columns r (sample_stop ''S2'' 2)" by blast
  from all r(1) have "row_provenance r = sample_prov" by blast
  with r e(4) show ?thesis
    by (intro bexI [of _ r]) (auto simp: stop_columns_def pointer_def sample_stop_def field_of_def)
qed

lemma sample_feed_known: "known_fields sample_feed"
  by (simp add: sample_feed_defs)

lemma layouts_agree_witness:
  "\<exists>f. ProjectFeedMessage (\<lambda>x. 0) sample_feed = Some f \<and>
     map row_stop_id (flatten_nested sample_prov f) = [Some ''S1'', Some ''S2'', None]"
proof -
  obtain f where f: "ProjectFeedMessage (\<lambda>x. 0) sample_feed = Some f"
    by (simp add: ProjectFeedMessage_def projectFeedMessage_def sample_feed_def)
  have "flatten_nested sample_prov f = ProjectTripUpdateStops sample_feed sample_prov"
    using layouts_agree [OF sample_feed_known f] by simp
  moreover have "map row_stop_id (ProjectTripUpdateStops sample_feed sample_prov) = [Some ''S1'', Some ''S2'', None]"
    by (simp add: project_stops_eq entity_rows_def sample_feed_defs get_message_def field_of_def get_list_def row_columns
      pointer_def IsValid_def Has_def)
  ultimately show ?thesis using f by auto
qed

end
