(* ===== verification/State_Samples.thy ===== *)
theory State_Samples
  imports State_Props
begin

text \<open>
  A small database built by the store's own operations, at which the properties of the store are
  applied: one capture, compacted for a required destination \<open>a\<close>, whose upload is verified, and a
  later backfill to \<open>b\<close>.
\<close>

definition sample_tick :: "string \<Rightarrow> instant \<Rightarrow> tick" where
  "sample_tick i t = \<lparr>tick_id = i, tick_source = ''s'', tick_stream = ''v'', tick_scheduled = t,
     tick_started = Some t, tick_finished = Some t, tick_result = ''captured'', tick_skip_reason = '''',
     tick_error_category = '''', tick_error_detail = '''', tick_http_status = 200, tick_attempts = 1,
     tick_fingerprint = ''f''\<rparr>"

definition sample_capture :: "string \<Rightarrow> instant \<Rightarrow> string \<Rightarrow> capture" where
  "sample_capture i t date = \<lparr>cap_format = 1, cap_id = i, cap_tick_id = i, cap_source = ''s'', cap_stream = ''v'',
     cap_kind = ''auto'', cap_scheduled = t, cap_started = t, cap_completed = t, cap_archive_date = date,
     cap_timezone = ''UTC'', cap_url = ''https://h/'', cap_http_status = 200, cap_headers = [],
     cap_duration_ms = 5, cap_attempts = 1, cap_advertised_length = 2, cap_encoded_length = 2,
     cap_decoded_length = 2, cap_encoding = '''', cap_sha256 = ''h'', cap_raw_path = ''raw/'' @ i,
     cap_sidecar_path = ''side/'' @ i, cap_transport_complete = True, cap_parse_status = ''valid'',
     cap_parse_error = '''', cap_feed_version = ''2.0'', cap_incrementality = Some 0,
     cap_feed_timestamp = Some 7, cap_entity_count = Some 3, cap_flags = [], cap_fingerprint = ''f'',
     cap_app_version = ''1'', cap_protobuf_revision = ''p''\<rparr>"

definition sample_compaction :: "int \<Rightarrow> compaction" where
  "sample_compaction r = \<lparr>cp_id = 0, cp_source = ''s'', cp_stream = ''v'', cp_archive_date = ''1970-01-01'',
     cp_revision = r, cp_status = ''ready'', cp_directory = ''d'', cp_data_path = ''d/p'', cp_manifest_path = ''d/m'',
     cp_data_sha256 = ''h'', cp_data_bytes = 9, cp_rows = 1, cp_entities = 3, cp_excluded = 0, cp_required = [''a''],
     cp_created = 0, cp_published = None\<rparr>"

definition db_of :: "db result \<Rightarrow> db" where
  "db_of r = (case r of Inr d \<Rightarrow> d | Inl _ \<Rightarrow> empty_db)"

definition sample_day :: db where
  "sample_day = db_of (SaveCapture (sample_tick ''k'' 10) (sample_capture ''k'' 10 ''1970-01-01'') empty_db)"

definition sample_compacted :: db where
  "sample_compacted = db_of (map_sum id snd (SaveCompaction (sample_compaction 1) [''k''] [(''a'', True)] 20 sample_day))"

definition sample_published :: db where
  "sample_published = db_of (MarkUploadVerified 1 ''a:d'' 30 sample_compacted)"

definition sample_backfilled :: db where
  "sample_backfilled = snd (EnsureDestinationBackfill ''b'' 40 sample_published)"

definition sample_republished :: db where
  "sample_republished = db_of (MarkUploadVerified 2 ''b:d'' 50 sample_backfilled)"

lemma sample_day_eq: "SaveCapture (sample_tick ''k'' 10) (sample_capture ''k'' 10 ''1970-01-01'') empty_db = Inr sample_day"
  "db_captures sample_day = [capture_to_row (sample_capture ''k'' 10 ''1970-01-01'')]"
  "db_ticks sample_day = [tick_to_row (sample_tick ''k'' 10)]" "db_compactions sample_day = []" "db_uploads sample_day = []"
  "db_inputs sample_day = []" "db_compaction_seq sample_day = 0" "db_upload_seq sample_day = 0"
  by (simp_all add: sample_day_def db_of_def SaveCapture_def insert_capture_def unique_insert_def put_tick_def
      upsert_def empty_db_def sample_tick_def sample_capture_def)

definition sample_row :: compaction_row where
  "sample_row = compaction_to_row ((sample_compaction 1)\<lparr>cp_id := 1\<rparr>)"

lemma sample_compacted_eq:
  "SaveCompaction (sample_compaction 1) [''k''] [(''a'', True)] 20 sample_day =
    Inr ((sample_compaction 1)\<lparr>cp_id := 1\<rparr>, sample_compacted)"
  "db_compactions sample_compacted = [sample_row]" "db_inputs sample_compacted = [(1, ''k'')]"
  "db_uploads sample_compacted = [new_upload 1 1 ''a'' True 20]" "db_captures sample_compacted = db_captures sample_day"
  "db_upload_seq sample_compacted = 1"
  by (simp_all add: sample_compacted_def db_of_def SaveCompaction_def insert_compaction_def insert_input_def insert_upload_def
      unique_insert_def sample_day_eq sample_row_def Let_def) (simp_all add: sample_capture_def)

definition published_row :: "instant \<Rightarrow> compaction_row" where
  "published_row t = sample_row\<lparr>cp_status := ''published'', cp_published := Some (encodeTime t)\<rparr>"

definition verified_row :: "upload_row \<Rightarrow> string \<Rightarrow> instant \<Rightarrow> upload_row" where
  "verified_row u remote t = u\<lparr>up_status := ''verified'', up_error := '''', up_remote := remote, up_completed := Some (encodeTime t)\<rparr>"

lemma sample_row_fields [simp]: "cp_id sample_row = 1" "cp_manifest_path sample_row = ''d/m''" "cp_published sample_row = None"
  by (simp_all add: sample_row_def sample_compaction_def)

lemma sample_published_eq:
  "MarkUploadVerified 1 ''a:d'' 30 sample_compacted = Inr sample_published"
  "db_compactions sample_published = [published_row 30]"
  "db_uploads sample_published = [verified_row (new_upload 1 1 ''a'' True 20) ''a:d'' 30]"
  "db_inputs sample_published = [(1, ''k'')]" "db_captures sample_published = db_captures sample_day" "db_upload_seq sample_published = 1"
  by (simp_all add: sample_published_def db_of_def MarkUploadVerified_def sample_compacted_eq Let_def update_where_def
      blocking_def settled_def published_row_def verified_row_def)

lemma sample_backfilled_eq:
  "EnsureDestinationBackfill ''b'' 40 sample_published = (1, sample_backfilled)"
  "db_compactions sample_backfilled = [published_row 30]"
  "db_uploads sample_backfilled = [verified_row (new_upload 1 1 ''a'' True 20) ''a:d'' 30, new_upload 2 1 ''b'' False 40]"
  by (simp_all add: sample_backfilled_def EnsureDestinationBackfill_def sample_published_eq Let_def lacks_destination_def
      published_row_def verified_row_def)

lemma sample_republished_eq: "MarkUploadVerified 2 ''b:d'' 50 sample_backfilled = Inr sample_republished"
  by (simp add: sample_republished_def db_of_def MarkUploadVerified_def sample_backfilled_eq Let_def verified_row_def)

lemma sample_reachable: "reachable_db sample_day" "reachable_db sample_compacted" "reachable_db sample_published"
  "reachable_db sample_backfilled"
proof -
  show a: "reachable_db sample_day"
    by (rule reachable_call [OF reachable_empty save_capture [OF sample_day_eq(1)]])
  show b: "reachable_db sample_compacted"
    by (rule reachable_call [OF a save_compaction [OF sample_compacted_eq(1)]]) (simp add: saved_honestly_def sample_compaction_def)
  show c: "reachable_db sample_published"
    by (rule reachable_call [OF b upload_verified [OF sample_published_eq(1)]])
  show "reachable_db sample_backfilled"
    by (rule reachable_call [OF c backfill [OF sample_backfilled_eq(1)]])
qed

lemma first_days: "year_ok 0" "year_ok 1"
proof -
  have "civil_of_day 0 = (1970, 1, 1)" "civil_of_day 1 = (1970, 1, 2)" by code_simp+
  then show "year_ok 0" "year_ok 1" by (simp_all add: year_ok_def)
qed

lemma epoch_ok: "0 \<le> t \<Longrightarrow> t < 2 * 86400 * second \<Longrightarrow> stamp_ok t"
proof -
  assume t: "0 \<le> t" "t < 2 * 86400 * second"
  have "0 \<le> t div second div 86400" using t by (simp add: pos_imp_zdiv_nonneg_iff)
  moreover have "t div second div 86400 < 2"
  proof -
    define N :: int where "N = second * 86400"
    have "t div N * N + t mod N = t" "0 \<le> t mod N" by (simp_all add: N_def)
    then have "t div N < 2" using t unfolding N_def by linarith
    then show ?thesis by (simp add: N_def zdiv_zmult2_eq)
  qed
  ultimately have "t div second div 86400 = 0 \<or> t div second div 86400 = 1" by linarith
  then show "stamp_ok t" using first_days by (auto simp: stamp_ok_def)
qed

lemma published_means_delivered_witness:
  "up_status (verified_row (new_upload 1 1 ''a'' True 20) ''a:d'' 30) \<in> {''verified'', ''retired''}"
  using published_means_delivered [OF sample_reachable(3), of "published_row 30" "verified_row (new_upload 1 1 ''a'' True 20) ''a:d'' 30"]
  by (simp add: sample_published_eq published_row_def verified_row_def)

lemma sample_candidate:
  "RawRetentionCandidates 30 sample_published = [to_retention (capture_to_row (sample_capture ''k'' 10 ''1970-01-01''))]"
  by (simp add: RawRetentionCandidates_def sample_published_eq sample_day_eq compactions_of_capture_def published_row_def
      all_published_by_def retained_path_def to_lower_def)
    (simp add: sample_capture_def capture_to_row_def has_prefix_def lower_char_def less_eq_char_def)

lemma raw_retention_safe_witness:
  "\<exists>r \<in> set (RawRetentionCandidates 30 sample_published). rc_id r = ''k'' \<and>
    (\<exists>c \<in> set (db_compactions sample_published). (cp_id c, ''k'') \<in> set (db_inputs sample_published) \<and> cp_published c \<noteq> None)"
proof -
  let ?r = "to_retention (capture_to_row (sample_capture ''k'' 10 ''1970-01-01''))"
  have i: "rc_id ?r = ''k''" by (simp add: to_retention_def sample_capture_def capture_to_row_def)
  have m: "?r \<in> set (RawRetentionCandidates 30 sample_published)" by (simp add: sample_candidate)
  note safe = raw_retention_safe [OF sample_reachable(3) m, unfolded i]
  obtain c where "c \<in> set (db_compactions sample_published)" "(cp_id c, ''k'') \<in> set (db_inputs sample_published)"
    using conjunct1 [OF safe] by blast
  moreover from this have "cp_published c \<noteq> None" using conjunct2 [OF safe] by auto
  ultimately show ?thesis using i m by blast
qed

lemma late_verification_republishes_witness: "published_row 50 \<in> set (db_compactions sample_republished)"
  using late_verification_republishes [OF sample_reachable(4) _ _ _ _ _ sample_republished_eq,
      of "new_upload 2 1 ''b'' False 40" "published_row 30"]
  by (simp add: sample_backfilled_eq published_row_def)

lemma revisions_consecutive_witness:
  "NextRevision ''s'' ''v'' ''1970-01-01'' sample_compacted = 2"
  using revisions_consecutive [OF sample_compacted_eq(1), of "''x''" "''y''" "''z''" 0]
  by (simp add: sample_compaction_def NextRevision_def day_compactions_def sample_day_eq)

lemma save_capture_roundtrip_witness:
  "\<exists>cs. CapturesForDay ''s'' ''v'' ''1970-01-01'' sample_day = Inr cs \<and> sample_capture ''k'' 10 ''1970-01-01'' \<in> set cs"
proof -
  let ?c = "sample_capture ''k'' 10 ''1970-01-01''"
  have ok: "capture_times_ok ?c" "small_int (cap_incrementality ?c)" "small_int (cap_entity_count ?c)" "cap_format ?c = SidecarFormatVersion"
    by (simp_all add: sample_capture_def capture_times_ok_def small_int_def version_defs epoch_ok)
  have st: "stored_capture ?c = ?c" by (rule stored_capture_whole) (simp add: capture_text_ok_def sample_capture_def)
  have d: "CapturesForDay ''s'' ''v'' ''1970-01-01'' sample_day = Inr [?c]"
    using capture_roundtrip [OF ok] st by (simp add: CapturesForDay_def sample_day_eq in_day_def) (simp add: sample_capture_def)
  have "?c \<in> set [?c]"
    using save_capture_roundtrip [OF sample_day_eq(1) ok, of "[?c]"] d by (simp add: sample_capture_def)
  with d show ?thesis by blast
qed


text \<open>Midnight of 1970-01-02 and a tick half a second later.\<close>

definition early :: instant where
  "early = 86400 * second + 500000000"

definition early_db :: db where
  "early_db = db_of (SaveCapture (sample_tick ''e'' early)
     (sample_capture ''e'' early ''1970-01-02'') empty_db)"

lemma early_db_eq:
  "db_captures early_db = [capture_to_row (sample_capture ''e'' early ''1970-01-02'')]"
  "db_ticks early_db = [tick_to_row (sample_tick ''e'' early)]"
  by (simp_all add: early_db_def db_of_def SaveCapture_def insert_capture_def unique_insert_def put_tick_def
      upsert_def empty_db_def sample_tick_def sample_capture_def)

abbreviation early_tick :: tick_row where
  "early_tick \<equiv> tick_to_row (sample_tick ''e'' early)"

lemma early_tick_fields: "of_stream ''s'' ''v'' early_tick" "tick_scheduled early_tick = encodeTime early"
  by (simp_all add: of_stream_def tick_to_row_def sample_tick_def)

lemma window_selects_witness:
  "in_window ''s'' ''v'' 0 (86400 * second) early_tick"
  using window_selects [OF epoch_ok epoch_ok epoch_ok _ _ early_tick_fields(2,1), of 0 "86400 * second"] by (simp add: early_def)

lemma summarize_blocked_by_next_day_witness:
  "SummarizeDay ''s'' ''v'' ''1970-01-01'' 0 (86400 * second) 0 early_db \<noteq> Inr (True, empty_db)"
proof (rule summarize_blocked_by_next_day [OF epoch_ok epoch_ok epoch_ok])
  show "early_tick \<in> set (db_ticks early_db)" "of_stream ''s'' ''v'' early_tick"
    "tick_scheduled early_tick = encodeTime early"
    by (simp_all add: early_db_eq early_tick_fields)
  show "capture_to_row (sample_capture ''e'' early ''1970-01-02'') \<in> set (db_captures early_db)"
    by (simp add: early_db_eq)
qed (simp_all add: sample_capture_def sample_tick_def capture_to_row_def early_def)

end
