(* ===== verification/Raw_Samples.thy ===== *)
theory Raw_Samples
  imports Raw_Recovery State_Samples
begin

text \<open>A store below \<open>/d\<close>, a staged body and a capture, at which the properties of the raw store apply.\<close>

definition raw_fs :: fs where
  "raw_fs = [([''d''], Directory), ([''d'', ''staging''], Directory), ([''d'', ''raw''], Directory),
     ([''d'', ''staging'', ''t''], Reg ''body'')]"

definition raw_st :: raw_store where
  "raw_st = \<lparr>rs_root = ''/d'', rs_staging = ''/d/staging''\<rparr>"

definition raw_sha :: "bytes \<Rightarrow> string" where
  "raw_sha b = replicate 64 (CHR ''a'')"

definition raw_sg :: staged where
  "raw_sg = \<lparr>sg_path = ''/d/staging/t'', sg_size = 4, sg_sha256 = raw_sha ''body'', sg_too_large = False, sg_read_err = None\<rparr>"

definition raw_capture :: capture where
  "raw_capture = sample_capture ''k'' 10 ''1970-01-01''"

definition raw_encode :: "capture \<Rightarrow> bytes" where
  "raw_encode c = ''json of '' @ cap_id c"

definition raw_load :: "string \<Rightarrow> location result" where
  "raw_load name = Inr utc"

definition raw_result :: "commit_plan result \<times> fs" where
  "raw_result = plan_commit raw_encode raw_st raw_sg raw_capture utc raw_fs"

definition raw_plan :: commit_plan where
  "raw_plan = (case fst raw_result of Inr p \<Rightarrow> p | Inl _ \<Rightarrow> \<lparr>pl_capture = raw_capture, pl_raw = '''', pl_sidecar = '''', pl_sidecar_staged = '''', pl_writes = []\<rparr>)"

lemma raw_plan_ok: "is_ok (fst raw_result)"
  by code_simp

lemma raw_plan_eq: "plan_commit raw_encode raw_st raw_sg raw_capture utc raw_fs = (Inr raw_plan, snd raw_result)"
  using raw_plan_ok by (cases raw_result) (auto simp: raw_plan_def raw_result_def is_ok_iff)

definition raw_final :: capture where
  "raw_final = raw_capture\<lparr>cap_raw_path := ''raw/source=s/stream=v/date=1970-01-01/hour=00/k_aaaaaaaaaaaa.pb'',
     cap_sidecar_path := ''raw/source=s/stream=v/date=1970-01-01/hour=00/k_aaaaaaaaaaaa.json'',
     cap_sha256 := replicate 64 (CHR ''a''), cap_decoded_length := 4\<rparr>"

lemma raw_final_eq: "pl_capture raw_plan = raw_final"
  by code_simp

lemma raw_paths:
  "Join [capture_dir ''s'' ''v'' ''1970-01-01'' ''00'', capture_base ''k'' (replicate 64 (CHR ''a'')) @ ''.pb''] =
    ''raw/source=s/stream=v/date=1970-01-01/hour=00/k_aaaaaaaaaaaa.pb''"
  "Join [capture_dir ''s'' ''v'' ''1970-01-01'' ''00'', capture_base ''k'' (replicate 64 (CHR ''a'')) @ ''.json''] =
    ''raw/source=s/stream=v/date=1970-01-01/hour=00/k_aaaaaaaaaaaa.json''"
  by code_simp+

lemma raw_clock: "local_date utc 10 = ''1970-01-01''" "local_hour utc 10 = ''00''" "10 \<noteq> zero_time"
  by code_simp+

lemma raw_valid: "validateCapturePaths raw_load raw_final = Inr ()"
proof -
  have "is_hex (replicate 64 (CHR ''a''))" by (simp add: is_hex_def list_all_iff less_eq_char_def)
  moreover have "\<not> contains_any ''ksv'' identity_cutset" by code_simp
  ultimately show ?thesis
    using raw_paths raw_clock
    by (simp add: validateCapturePaths_def raw_final_def raw_capture_def sample_capture_def version_defs raw_load_def
        Let_def del: Join.simps)
qed

text \<open>The file system after the directory of the capture was made.\<close>

definition raw_fs1 :: fs where
  "raw_fs1 =
    [([''d'', ''raw'', ''source=s'', ''stream=v'', ''date=1970-01-01'', ''hour=00''], Directory),
     ([''d'', ''raw'', ''source=s'', ''stream=v'', ''date=1970-01-01''], Directory),
     ([''d'', ''raw'', ''source=s'', ''stream=v''], Directory), ([''d'', ''raw'', ''source=s''], Directory)] @ raw_fs"

lemma raw_fs1_eq: "snd raw_result = raw_fs1"
  by code_simp

lemma real_dirs_list: "real_dirs fs p \<longleftrightarrow> list_all (\<lambda>k. map_of fs (take k p) = Some Directory) [1..<Suc (length p)]"
  by (auto simp: real_dirs_def list_all_iff)

lemma raw_setting: "commit_setting raw_st [''d''] raw_sg ''t'' raw_final ''00'' ''body'' (snd raw_result)"
  unfolding raw_fs1_eq commit_setting_def store_at_def real_dirs_list
  by (simp add: raw_fs1_def raw_fs_def raw_st_def raw_sg_def raw_final_def raw_capture_def sample_capture_def at_defs
      dir_comps_def plain_comp_def abs_path_def raw_name_def sidecar_name_def capture_base_def upt_rec)

text \<open>The same commit for an identifier that NewID makes.\<close>

definition new_id :: string where
  "new_id = ''20240101T000000.000000000Z_72''"

lemma new_id_eq: "NewID (19723 * 86400 * second) (Some ''r'') = Inr new_id"
  by code_simp

definition new_result :: "commit_plan result \<times> fs" where
  "new_result = plan_commit raw_encode raw_st raw_sg (raw_capture\<lparr>cap_id := new_id\<rparr>) utc raw_fs"

definition new_plan :: commit_plan where
  "new_plan = (case fst new_result of Inr p \<Rightarrow> p | Inl _ \<Rightarrow> raw_plan)"

lemma new_plan_ok: "is_ok (fst new_result)"
  by code_simp

lemma new_plan_eq: "plan_commit raw_encode raw_st raw_sg (raw_capture\<lparr>cap_id := new_id\<rparr>) utc raw_fs = (Inr new_plan, snd new_result)"
  using new_plan_ok by (cases new_result) (auto simp: new_plan_def new_result_def is_ok_iff)

definition new_final :: capture where
  "new_final = raw_capture\<lparr>cap_id := new_id,
     cap_raw_path := ''raw/source=s/stream=v/date=1970-01-01/hour=00/20240101T000000.000000000Z_72_aaaaaaaaaaaa.pb'',
     cap_sidecar_path := ''raw/source=s/stream=v/date=1970-01-01/hour=00/20240101T000000.000000000Z_72_aaaaaaaaaaaa.json'',
     cap_sha256 := replicate 64 (CHR ''a''), cap_decoded_length := 4\<rparr>"

lemma new_final_eq: "pl_capture new_plan = new_final"
  by code_simp

lemma new_fs_eq: "snd new_result = raw_fs1"
  by code_simp

lemma new_setting: "commit_setting raw_st [''d''] raw_sg ''t'' new_final ''00'' ''body'' (snd new_result)"
  unfolding new_fs_eq commit_setting_def store_at_def real_dirs_list
  by (simp add: raw_fs1_def raw_fs_def raw_st_def raw_sg_def new_final_def new_id_def raw_capture_def sample_capture_def at_defs
      dir_comps_def plain_comp_def abs_path_def raw_name_def sidecar_name_def capture_base_def upt_rec)

lemma new_refused: "\<not> is_ok (validateCapturePaths raw_load new_final)"
proof -
  have "contains_any new_id identity_cutset" by code_simp
  then show ?thesis by (simp add: validateCapturePaths_def new_final_def is_ok_iff)
qed

lemma new_plain: "plain_capture new_final ''00''" and raw_plain: "plain_capture raw_final ''00''"
  by (simp_all add: plain_capture_def dir_comps_def plain_comp_def raw_name_def sidecar_name_def capture_base_def
      new_final_def raw_final_def new_id_def raw_capture_def sample_capture_def)

lemma crash_recovery_witness:
  "(\<exists>fs' fs''. do_writes (take 3 (pl_writes raw_plan)) (snd raw_result) = Inr fs' \<and>
     finish_entry raw_sha (\<lambda>_. Some raw_final) raw_load raw_st (''k.json.tmp'', Reg (raw_encode raw_final)) fs' = Passed fs'' \<and>
     pair_in_place [''d''] raw_final ''00'' ''body'' (raw_encode raw_final) fs'') \<and>
   (\<exists>fs'. do_writes (take 4 (pl_writes new_plan)) (snd new_result) = Inr fs' \<and>
     finish_entry raw_sha (\<lambda>_. Some new_final) raw_load raw_st (new_id @ ''.json.tmp'', Reg (raw_encode new_final)) fs' = Corrupt fs' \<and>
     map_of fs' (at_raw [''d''] new_final ''00'') = Some (Reg ''body''))"
proof
  have f: "cap_id raw_final = ''k''" "cap_scheduled raw_final = 10" "cap_sha256 raw_final = replicate 64 (CHR ''a'')"
    "cap_id new_final = new_id" "cap_scheduled new_final = 10" "cap_sha256 new_final = replicate 64 (CHR ''a'')"
    by (simp_all add: raw_final_def new_final_def raw_capture_def sample_capture_def)
  show "\<exists>fs' fs''. do_writes (take 3 (pl_writes raw_plan)) (snd raw_result) = Inr fs' \<and>
     finish_entry raw_sha (\<lambda>_. Some raw_final) raw_load raw_st (''k.json.tmp'', Reg (raw_encode raw_final)) fs' = Passed fs'' \<and>
     pair_in_place [''d''] raw_final ''00'' ''body'' (raw_encode raw_final) fs''"
    using crash_recovery [OF raw_plan_eq raw_final_eq [symmetric] raw_plain, where rcs = "[''d'']" and tmp = "''t''" and ll = raw_load
        and body = "''body''" and decode = "\<lambda>_. Some raw_final" and d = raw_final and sha = raw_sha and k = 3] raw_setting raw_clock f raw_valid
    by (auto simp: raw_load_def raw_sha_def is_ok_iff)
  show "\<exists>fs'. do_writes (take 4 (pl_writes new_plan)) (snd new_result) = Inr fs' \<and>
     finish_entry raw_sha (\<lambda>_. Some new_final) raw_load raw_st (new_id @ ''.json.tmp'', Reg (raw_encode new_final)) fs' = Corrupt fs' \<and>
     map_of fs' (at_raw [''d''] new_final ''00'') = Some (Reg ''body'')"
    using crash_recovery [OF new_plan_eq new_final_eq [symmetric] new_plain, where rcs = "[''d'']" and tmp = "''t''" and ll = raw_load
        and body = "''body''" and decode = "\<lambda>_. Some new_final" and d = new_final and sha = raw_sha and k = 4] new_setting raw_clock f new_refused
    by (auto simp: raw_load_def raw_sha_def)
qed

lemma safePath_confined_witness:
  "\<exists>p. safePath raw_fs ''/d'' ''raw/../raw/x'' = Inr p \<and> (\<exists>vs. vs \<noteq> [] \<and> p = abs_path (''d'' # vs))"
proof -
  have "is_ok (safePath raw_fs (abs_path [''d'']) ''raw/../raw/x'')" by code_simp
  then obtain p where p: "safePath raw_fs (abs_path [''d'']) ''raw/../raw/x'' = Inr p" by (auto simp: is_ok_iff)
  have "real_dirs raw_fs [''d'']" by (simp add: real_dirs_list raw_fs_def)
  with safePath_confined [OF _ _ p] obtain vs where "vs \<noteq> []" "p = abs_path (''d'' # vs)"
    by (auto simp: plain_comp_def)
  with p show ?thesis by (auto simp: abs_path_def)
qed

lemma new_ids_rejected_witness:
  "validateCapturePaths raw_load (raw_final\<lparr>cap_id := id_stamp (19723 * 86400 * second) @ hex_encode ''r''\<rparr>) =
    Inl (errors_New ''capture identity is invalid'')"
proof -
  have d: "civil_of_day 19723 = (2024, 1, 1)" by code_simp
  show ?thesis
    by (rule new_ids_rejected [of "19723 * 86400 * second" "Some ''r''" "id_stamp (19723 * 86400 * second) @ hex_encode ''r''"])
      (simp_all add: NewID_def d)
qed

end
