(* ===== verification/Compact_Samples.thy ===== *)
theory Compact_Samples
  imports Compact_Verified Feed_Samples Raw_Samples
begin

text \<open>
  One day of one stream with one capture, compacted under \<open>/d\<close>. The Parquet library of the sample
  keeps the capture ids of the rows and refuses ids that contain its separator.
\<close>

definition hash_char :: char where
  "hash_char = CHR ''#''"

definition join_ids :: "string list \<Rightarrow> string" where
  "join_ids ids = concat (map (\<lambda>i. i @ [hash_char]) ids)"

fun split_ids :: "string \<Rightarrow> string \<Rightarrow> string list" where
  "split_ids acc [] = []"
| "split_ids acc (c # cs) = (if c = hash_char then rev acc # split_ids [] cs else split_ids (c # acc) cs)"

lemma split_one: "hash_char \<notin> set i \<Longrightarrow> split_ids acc (i @ hash_char # s) = (rev acc @ i) # split_ids [] s"
  by (induction i arbitrary: acc) auto

lemma split_ids_join: "\<forall>i \<in> set ids. hash_char \<notin> set i \<Longrightarrow> split_ids [] (join_ids ids) = ids"
  by (induction ids) (simp_all add: join_ids_def split_one)

definition id_row :: "string \<Rightarrow> TripUpdateStopRow" where
  "id_row i = hd (ProjectTripUpdateStops sample_feed (sample_prov\<lparr>prov_capture_id := i\<rparr>))"

lemma id_row_id: "row_capture_id (id_row i) = i"
  by (simp add: id_row_def) code_simp

definition comp_env :: compact_env where
  "comp_env = \<lparr>ce_sha = (\<lambda>b. ''ab''), ce_decoder = sample_decoder, ce_narrow = ucast, ce_headers_json = (\<lambda>_. ''{}''),
     ce_write_nested = (\<lambda>_ _. Inl (errors_New ''not used'')), ce_read_nested = (\<lambda>_. ([], None)),
     ce_write_flat = (\<lambda>_ groups. let ids = map row_capture_id (concat groups) in
        if list_ex (\<lambda>i. hash_char \<in> set i) ids then Inl (errors_New ''id'') else Inr (join_ids ids)),
     ce_read_flat = (\<lambda>b. (map id_row (split_ids [] b), None)),
     ce_encode_manifest = (\<lambda>m. ''manifest''), ce_decode_manifest = (\<lambda>_. Inl (errors_New ''not used''))\<rparr>"

lemma comp_faithful: "parquet_faithful comp_env"
proof -
  have "map row_capture_id (map id_row (split_ids [] (join_ids (map row_capture_id rows)))) = map row_capture_id rows"
    if "\<not> list_ex (\<lambda>i. hash_char \<in> set i) (map row_capture_id rows)" for rows
  proof -
    have "split_ids [] (join_ids (map row_capture_id rows)) = map row_capture_id rows"
      by (rule split_ids_join) (use that in \<open>simp add: list_ex_iff\<close>)
    then show ?thesis by (simp add: id_row_id)
  qed
  then show ?thesis by (auto simp: parquet_faithful_def comp_env_def Let_def split: if_splits)
qed

definition comp_fs :: fs where
  "comp_fs = [([''d''], Directory), ([''d'', ''staging''], Directory), ([''d'', ''raw''], Directory), ([''d'', ''raw'', ''k''], Reg ''pb'')]"

definition comp_capture :: capture where
  "comp_capture = (sample_capture ''k'' 10 ''1970-01-01'')\<lparr>cap_sha256 := ''ab'', cap_kind := ''trip_update''\<rparr>"

definition comp_cfg :: config where
  "comp_cfg = sample_config\<lparr>cf_sources := [sample_source\<lparr>src_id := ''s'', src_location := Some utc,
     src_streams := [sample_stream\<lparr>sm_id := ''v'', sm_kind := ''trip_update''\<rparr>]\<rparr>],
     cf_destinations := [\<lparr>dst_id = ''a'', dst_remote = ''r:x'', dst_required = None\<rparr>]\<rparr>"

definition comp_co :: compactor where
  "comp_co = \<lparr>co_cfg = comp_cfg, co_raw = raw_st, co_env = comp_env, co_now = 90000 * second, co_save_time = 90001 * second,
     co_temp_name = ''w'', co_version = ''1'', co_protobuf = ''p'', co_fingerprint = (\<lambda>_. ''f''),
     co_load_location = raw_load, co_parse_url = (\<lambda>_. Some sample_url)\<rparr>"

definition comp_req :: compact_request where
  "comp_req = \<lparr>cr_source = ''s'', cr_stream = ''v'', cr_date = ''1970-01-02'', cr_revision = 0\<rparr>"

definition comp_run :: "compaction result \<times> fs \<times> db" where
  "comp_run = Compact comp_co (\<lambda>_. None) comp_req comp_fs empty_db"

lemma comp_run_ok: "is_ok (fst comp_run)"
  by code_simp

definition comp_row :: compaction where
  "comp_row = (case fst comp_run of Inr c \<Rightarrow> c | Inl _ \<Rightarrow> sample_compaction 1)"

lemma comp_run_eq: "Compact comp_co (\<lambda>_. None) comp_req comp_fs empty_db = (Inr comp_row, fst (snd comp_run), snd (snd comp_run))"
  using comp_run_ok by (cases comp_run) (auto simp: comp_row_def comp_run_def is_ok_iff)

lemma comp_config_ok: "config_ok comp_cfg"
proof -
  have "ValidID ''s''" "ValidID ''v''" "ValidID ''a''" "validHeader ''Accept''" "\<not> sensitiveName ''Accept''" "\<not> contains_any ''*'' newline_chars"
    "validKind ''trip_update''" by code_simp+
  then show ?thesis
    by (simp add: config_ok_def watermarks_ok_def source_ok_def stream_ok_def comp_cfg_def sample_config_def Defaults_def sample_source_def sample_stream_def)
qed

lemma comp_store: "store_at raw_st [''d''] comp_fs"
  unfolding store_at_def real_dirs_list by (simp add: comp_fs_def raw_st_def plain_comp_def abs_path_def upt_rec)

lemma comp_ready: "compact_ready comp_co [''d''] comp_fs empty_db"
proof -
  have "tree_fs comp_fs" by (auto simp: tree_fs_def comp_fs_def append_eq_Cons_conv split: if_splits)
  moreover have "is_hex ''ab''" by code_simp
  ultimately show ?thesis
    using comp_config_ok comp_store empty_db_inv
    by (simp add: compact_ready_def comp_co_def comp_env_def empty_db_def plain_comp_def)
qed

lemma compact_verifies_witness:
  "\<exists>env. VerifyDirectory env (fst (snd comp_run)) ''/d'' comp_row = Inr ()"
proof -
  have root: "rs_root (co_raw comp_co) = ''/d''" by (simp add: comp_co_def raw_st_def)
  obtain m where m: "\<forall>env. ce_sha env = ce_sha (co_env comp_co) \<and>
      ce_decode_manifest env (ce_encode_manifest (co_env comp_co) m) = Inr m \<longrightarrow>
      VerifyDirectory env (fst (snd comp_run)) (rs_root (co_raw comp_co)) comp_row = Inr ()"
    using compact_verifies [OF comp_run_eq comp_ready] by blast
  show ?thesis
    using m [unfolded root, rule_format, of "(co_env comp_co)\<lparr>ce_decode_manifest := \<lambda>_. Inr m\<rparr>"] by auto
qed

text \<open>The work directory of a compaction exists and the flattened file is written there.\<close>

definition comp_fs2 :: fs where
  "comp_fs2 = ([''d'', ''staging'', ''w''], Directory) # comp_fs"

definition comp_manifest :: manifest where
  "comp_manifest = initial_manifest comp_co (hd (cf_sources comp_cfg)) (hd (src_streams (hd (cf_sources comp_cfg)))) utc ''1970-01-01'' 1 0
     (86400 * second) [comp_capture] (DayStats ''s'' ''v'' 0 (86400 * second) empty_db)"

definition comp_write :: "TripUpdateStopRow write_state result \<times> fs" where
  "comp_write = writeTripUpdateParquet comp_env (cf_parquet comp_cfg) raw_st (\<lambda>_. None) ''/d/staging/w/x'' [comp_capture] comp_manifest comp_fs2"

lemma comp_write_ok: "case fst comp_write of Inr st \<Rightarrow> map cap_id (ws_included st) = [''k''] | Inl _ \<Rightarrow> False"
  by code_simp

lemma flat_write_validates_witness:
  "\<exists>st. map cap_id (ws_included st) = [''k''] \<and> fst comp_write = Inr st \<and>
     validateTripUpdateParquet comp_env raw_st (snd comp_write) ''/d/staging/w/x'' (ws_included st) = Inr ()"
proof -
  obtain st where st: "fst comp_write = Inr st" "map cap_id (ws_included st) = [''k'']"
    using comp_write_ok by (auto split: sum.splits)
  then have w: "writeTripUpdateParquet comp_env (cf_parquet comp_cfg) raw_st (\<lambda>_. None) ''/d/staging/w/x'' [comp_capture] comp_manifest comp_fs2 =
      (Inr st, snd comp_write)"
    by (cases comp_write) (auto simp: comp_write_def)
  have s: "store_at raw_st [''d''] comp_fs2" and r: "real_dirs comp_fs2 ([''d''] @ [''staging'', ''w''])"
    unfolding store_at_def real_dirs_list
    by (simp_all add: comp_fs2_def comp_fs_def raw_st_def plain_comp_def abs_path_def upt_rec)
  have c: "comps ''/d/staging/w/x'' = [''d''] @ [''staging'', ''w''] @ [''x'']" "comps ''raw/k'' = [''raw'', ''k'']" by code_simp+
  have b: "\<forall>c \<in> set [comp_capture]. below_raw c"
    by (simp add: below_raw_def comp_capture_def sample_capture_def c)
  from flat_write_validates [OF w s c(1) r comp_faithful b] st show ?thesis by (intro exI [of _ st] conjI) simp_all
qed

end
