(* ===== verification/Upload_Samples.thy ===== *)
theory Upload_Samples
  imports Upload_Props Compact_Samples
begin

text \<open>
  The properties of the upload worker at one revision with one artifact, queued for one destination,
  and an rclone over a remote that is an association list from paths to contents.
\<close>

definition up_cfg :: config where
  "up_cfg = comp_cfg\<lparr>cf_storage := (cf_storage comp_cfg)\<lparr>st_root := ''/d''\<rparr>\<rparr>"

definition up_manifest :: manifest where
  "up_manifest = \<lparr>man_version = 1, man_dataset_status = ''ready'', man_source = ''s'', man_stream = ''v'', man_registry = '''',
     man_kind = ''trip_update'', man_archive_date = ''1970-01-01'', man_timezone = ''UTC'', man_url = ''https://h/f'',
     man_day_start = 0, man_day_end = 0, man_format = 1, man_schema = 2, man_revision = 1, man_predecessor = None,
     man_app_version = '''', man_protobuf_revision = '''', man_fingerprint = '''', man_created = 0, man_scheduled_ticks = 1,
     man_skipped_ticks = 0, man_captured_responses = 1, man_valid_snapshots = 1, man_invalid_payloads = 0, man_http_failures = 0,
     man_network_failures = 0, man_failure_categories = Map.empty, man_entity_total = 3, man_stu_total = Some 1,
     man_earliest_capture = None, man_latest_capture = None, man_earliest_feed = None, man_latest_feed = None,
     man_largest_gap_ms = 0, man_parse_status_counts = Map.empty, man_flag_counts = Map.empty,
     man_files = [\<lparr>art_path = ''data-ab.parquet'', art_part = 0, art_bytes = 2, art_sha256 = ''ab'', art_rows = 1, art_entities = 3\<rparr>],
     man_inputs = [\<lparr>ic_id = ''k'', ic_sha256 = ''ab'', ic_bytes = 2\<rparr>], man_excluded = [], man_license = '''',
     man_attribution = '''', man_required_destinations = [''a''], man_destinations = [\<lparr>md_id = ''a'', md_required = True\<rparr>]\<rparr>"

definition up_env :: compact_env where
  "up_env = comp_env\<lparr>ce_decode_manifest := \<lambda>_. Inr up_manifest\<rparr>"

definition up_fs :: fs where
  "up_fs = [([''d''], Directory), ([''d'', ''d''], Directory), ([''d'', ''d'', ''m''], Reg ''mf''), ([''d'', ''d'', ''data-ab.parquet''], Reg ''pq'')]"

definition up_db :: db where
  "up_db = db_of (map_sum id snd (SaveCompaction ((sample_compaction 1)\<lparr>cp_data_path := ''d/data-ab.parquet'', cp_data_sha256 := ''ab'',
     cp_data_bytes := 2\<rparr>) [''k''] [(''a'', True)] 20 sample_day))"

text \<open>The processes: copyto stores a local file unless the object exists, the backend has no hashes, cat reads it.\<close>

definition exited :: "go_error option \<Rightarrow> bytes \<Rightarrow> process" where
  "exited e out = \<lparr>pr_pipe_error = False, pr_start_error = None, pr_stdout = [out], pr_read_error = False,
     pr_stderr = [], pr_wait_error = e, pr_expired = False\<rparr>"

fun up_exec :: "(string \<times> bytes) list rclone" where
  "up_exec (bin # command # x # y # rest) w =
     (if command = ''copyto'' then
        (case os_readfile up_fs x of
           Inr b \<Rightarrow> if map_of w y = None then (exited None [], (y, b) # w) else (exited (Some (errors_New ''exists'')) [], w)
         | Inl e \<Rightarrow> (exited (Some e) [], w))
      else if command = ''hashsum'' then
        (exited (Some (errors_New ''hash type not supported'')) [], w)
      else if command = ''cat'' then
        (case map_of w x of Some b \<Rightarrow> (exited None b, w) | None \<Rightarrow> (exited (Some (errors_New ''missing'')) [], w))
      else (exited None [], w))"
| "up_exec _ w = (exited None [], w)"

definition up_ul :: "(string \<times> bytes) list uploader" where
  "up_ul = \<lparr>ul_cfg = up_cfg, ul_env = up_env, ul_parse_url = (\<lambda>_. Some sample_url), ul_exec = up_exec, ul_ctx = (\<lambda>_. None),
     ul_attempt_at = (\<lambda>_. 40), ul_done_at = (\<lambda>_. 50), ul_local = utc, ul_draw = (\<lambda>_ n. n - 1)\<rparr>"

definition up_run :: "(string \<times> bytes) list upload_run" where
  "up_run = ProcessPending up_ul '''' 30 up_fs up_db []"

definition up_row :: compaction_row where
  "up_row = compaction_to_row ((sample_compaction 1)\<lparr>cp_id := 1, cp_data_path := ''d/data-ab.parquet'', cp_data_sha256 := ''ab'',
     cp_data_bytes := 2\<rparr>)"

lemma up_save: "SaveCompaction ((sample_compaction 1)\<lparr>cp_data_path := ''d/data-ab.parquet'', cp_data_sha256 := ''ab'', cp_data_bytes := 2\<rparr>)
    [''k''] [(''a'', True)] 20 sample_day = Inr ((sample_compaction 1)\<lparr>cp_id := 1, cp_data_path := ''d/data-ab.parquet'',
    cp_data_sha256 := ''ab'', cp_data_bytes := 2\<rparr>, up_db)"
  "db_compactions up_db = [up_row]" "db_uploads up_db = [new_upload 1 1 ''a'' True 20]"
  by (simp_all add: up_db_def db_of_def SaveCompaction_def insert_compaction_def insert_input_def insert_upload_def
      unique_insert_def sample_day_eq up_row_def Let_def)
    (simp_all add: sample_capture_def sample_compaction_def)

definition up_dir :: string where
  "up_dir = ''r:x/trip_updates/date=1970-01-01/base64url=aHR0cHM6Ly9oL2Y/revision=1''"

lemma up_prepare: "prepareRemoteDir up_ul up_fs (scanCompaction up_row) \<lparr>dst_id = ''a'', dst_remote = ''r:x'', dst_required = None\<rparr> =
    Inr (up_manifest, up_dir)"
proof -
  have "os_readfile up_fs ''/d/d/m'' = Inr ''mf''" "Join [''/d'', ''d/m''] = ''/d/d/m''" by code_simp+
  moreover have "hiveDir (\<lambda>_. Some sample_url) ''r:x'' up_manifest up_cfg = Inr up_dir" by code_simp
  ultimately show ?thesis
    by (simp add: prepareRemoteDir_def manifest_place_def up_ul_def up_env_def up_cfg_def scanCompaction_def up_row_def
        compaction_to_row_def sample_compaction_def del: Join.simps)
qed

lemma up_verify: "VerifyDirectory up_env up_fs ''/d'' ((sample_compaction 1)\<lparr>cp_id := 1, cp_data_path := ''d/data-ab.parquet'',
    cp_data_sha256 := ''ab'', cp_data_bytes := 2\<rparr>) = Inr ()"
  by code_simp

lemma json_a: "json_text ''a'' = ''a''"
  by code_simp

lemma up_scan: "scanCompaction up_row = (sample_compaction 1)\<lparr>cp_id := 1, cp_data_path := ''d/data-ab.parquet'', cp_data_sha256 := ''ab'', cp_data_bytes := 2\<rparr>"
  by (simp add: json_a parse_or_zero_def encodeTime_def parse_rfc3339_nano epoch_ok scanCompaction_def up_row_def compaction_to_row_def sample_compaction_def)

lemma up_fields: "ul_exec up_ul = up_exec" "ul_env up_ul = up_env" "ce_sha up_env b = ''ab''"
  by (simp_all add: up_ul_def up_env_def comp_env_def)

lemma up_copy: "os_readfile up_fs x = Inr b \<Longrightarrow> map_of w y = None \<Longrightarrow> copyAndVerify up_ul x y ''ab'' w = (None, (y, b) # w)"
  by (simp add: copyAndVerify_def runInto_def remoteHash_def cat_hash_def copy_args_def hashsum_args_def cat_args_def rclone_command_def config_args_def
      up_fields exited_def run_error_def equal_fold_def)

lemma up_places: "remoteJoin up_dir [Base ''data-ab.parquet''] = up_dir @ ''/data-ab.parquet''" "remoteJoin up_dir [''manifest.json''] = up_dir @ ''/manifest.json''"
  "Join [Dir ''/d/d/m'', Base ''data-ab.parquet''] = ''/d/d/data-ab.parquet''"
  by code_simp+

lemma up_copies:
  "publish_files up_ul ''/d/d/m'' up_dir (man_files up_manifest) [] = (None, [(up_dir @ ''/data-ab.parquet'', ''pq'')])"
  "fst (copyAndVerify up_ul ''/d/d/m'' (remoteJoin up_dir [''manifest.json'']) ''ab'' [(up_dir @ ''/data-ab.parquet'', ''pq'')]) = None"
proof -
  have f: "os_readfile up_fs ''/d/d/m'' = Inr ''mf''" "os_readfile up_fs ''/d/d/data-ab.parquet'' = Inr ''pq''" by code_simp+
  show "publish_files up_ul ''/d/d/m'' up_dir (man_files up_manifest) [] = (None, [(up_dir @ ''/data-ab.parquet'', ''pq'')])"
    using up_copy [OF f(2), of "[]" "up_dir @ ''/data-ab.parquet''"] by (simp add: up_manifest_def up_places del: Join.simps)
  show "fst (copyAndVerify up_ul ''/d/d/m'' (remoteJoin up_dir [''manifest.json'']) ''ab'' [(up_dir @ ''/data-ab.parquet'', ''pq'')]) = None"
    unfolding up_places using up_copy [OF f(1), of "[(up_dir @ ''/data-ab.parquet'', ''pq'')]" "up_dir @ ''/manifest.json''"] by simp
qed

lemma up_publish: "fst (publish up_ul up_fs (scanCompaction up_row) up_manifest up_dir []) = None"
proof -
  have j: "os_readfile up_fs ''/d/d/m'' = Inr ''mf''" "Join [''/d'', ''d/m''] = ''/d/d/m''" by code_simp+
  have "manifest_place up_ul (scanCompaction up_row) = ''/d/d/m''" "ul_env up_ul = up_env" "st_root (cf_storage (ul_cfg up_ul)) = ''/d''"
      "ce_sha up_env b = ''ab''" for b
    using j by (simp_all add: manifest_place_def up_ul_def up_cfg_def up_scan sample_compaction_def up_env_def comp_env_def del: Join.simps)
  with j up_verify up_copies show ?thesis by (simp add: publish_def up_scan)
qed

lemma up_times: "encodeTime 20 \<le> encodeTime 30"
  by code_simp

lemma up_pending: "PendingUploads '''' 30 up_db = [upload_from_row (new_upload 1 1 ''a'' True 20)]"
  using up_times by (simp add: PendingUploads_def up_save new_upload_def)

lemma up_run_ok: "ur_error up_run = None" "ur_processed up_run = 1"
  "db_uploads (ur_db up_run) = [(new_upload 1 1 ''a'' True 20)\<lparr>up_status := ''verified'', up_attempts := 1, up_remote := up_dir,
     up_next := encodeTime 40, up_completed := Some (encodeTime 50)\<rparr>]"
proof -
  obtain w where pub: "publish up_ul up_fs (scanCompaction up_row) up_manifest up_dir [] = (None, w)"
    using up_publish by (metis prod.collapse)
  have c: "CompactionByID 1 up_db = Inr (scanCompaction up_row)"
    by (simp add: CompactionByID_def up_save) (simp add: up_row_def compaction_to_row_def sample_compaction_def)
  have d: "findDestination (ul_cfg up_ul) ''a'' = Some \<lparr>dst_id = ''a'', dst_remote = ''r:x'', dst_required = None\<rparr>"
    by (simp add: findDestination_def up_ul_def up_cfg_def comp_cfg_def)
  have ids: "up_id (upload_from_row (new_upload 1 1 ''a'' True 20)) = 1" "up_compaction (upload_from_row (new_upload 1 1 ''a'' True 20)) = 1"
    "up_destination (upload_from_row (new_upload 1 1 ''a'' True 20)) = ''a''"
    by (simp_all add: upload_from_row_def new_upload_def)
  have t: "ul_attempt_at up_ul n = 40" "ul_done_at up_ul n = 50" "ul_ctx up_ul n = None" for n by (simp_all add: up_ul_def)
  have "\<exists>db2. MarkUploadVerified 1 up_dir 50 (MarkUploadAttempt 1 ''uploading'' '''' up_dir 40 up_db) = Inr db2 \<and>
      db_uploads db2 = [(new_upload 1 1 ''a'' True 20)\<lparr>up_status := ''verified'', up_attempts := 1, up_remote := up_dir,
        up_next := encodeTime 40, up_completed := Some (encodeTime 50)\<rparr>]"
    by (simp add: MarkUploadVerified_def MarkUploadAttempt_def up_save update_where_def new_upload_def Let_def)
  then obtain db2 where "MarkUploadVerified 1 up_dir 50 (MarkUploadAttempt 1 ''uploading'' '''' up_dir 40 up_db) = Inr db2"
      "db_uploads db2 = [(new_upload 1 1 ''a'' True 20)\<lparr>up_status := ''verified'', up_attempts := 1, up_remote := up_dir,
        up_next := encodeTime 40, up_completed := Some (encodeTime 50)\<rparr>]" by blast
  then show "ur_error up_run = None" "ur_processed up_run = 1"
    "db_uploads (ur_db up_run) = [(new_upload 1 1 ''a'' True 20)\<lparr>up_status := ''verified'', up_attempts := 1, up_remote := up_dir,
       up_next := encodeTime 40, up_completed := Some (encodeTime 50)\<rparr>]"
    by (simp_all add: up_run_def ProcessPending_def up_pending process_item_def ids t c d up_prepare pub)
qed

lemma up_honest: "honest_remote up_ul map_of"
proof -
  have "honest_hashsum up_ul map_of"
    unfolding honest_hashsum_def
    by (auto simp: up_ul_def hashsum_args_def rclone_command_def config_args_def exited_def limited_prefix up_env_def comp_env_def run_error_def split: option.splits)
  moreover have "honest_cat up_ul map_of"
    unfolding honest_cat_def
    by (auto simp: up_ul_def cat_args_def rclone_command_def config_args_def exited_def run_error_def split: option.splits)
  moreover have "honest_copyto up_ul map_of"
    unfolding honest_copyto_def keeps_def
    by (auto simp: up_ul_def copy_args_def rclone_command_def config_args_def exited_def split: option.splits sum.splits if_splits)
  moreover have "is_hex ''ab''" by code_simp
  ultimately show ?thesis by (simp add: honest_remote_def up_ul_def up_env_def comp_env_def)
qed

lemma up_inv: "db_inv up_db"
  by (rule reachable_db_inv, rule reachable_call [OF sample_reachable(1) save_compaction [OF up_save(1)]])
    (simp add: saved_honestly_def sample_compaction_def)

lemma upload_pass_completes_witness: "ur_processed up_run = length (PendingUploads '''' 30 up_db)"
  using upload_pass_completes [OF up_inv up_run_def [symmetric] up_run_ok(1)] by blast

lemma verified_means_stored_witness:
  "\<exists>x. map_of (ur_world up_run) (remoteJoin up_dir [''manifest.json'']) = Some x"
  using verified_means_stored [OF up_honest up_inv up_run_def [symmetric], unfolded up_run_ok(3),
      of "(new_upload 1 1 ''a'' True 20)\<lparr>up_status := ''verified'', up_attempts := 1, up_remote := up_dir,
        up_next := encodeTime 40, up_completed := Some (encodeTime 50)\<rparr>"]
  by (auto simp: up_save new_upload_def)

lemma hive_dir_exact_witness:
  "hiveDir (\<lambda>_. Some sample_url) ''r:x'' (up_manifest\<lparr>man_source := ''t''\<rparr>) up_cfg = Inr up_dir"
proof -
  have a: "hiveDir (\<lambda>_. Some sample_url) ''r:x'' up_manifest up_cfg = Inr up_dir" by code_simp
  have "is_ok (hiveDir (\<lambda>_. Some sample_url) ''r:x'' (up_manifest\<lparr>man_source := ''t''\<rparr>) up_cfg)" by code_simp
  then obtain e where e: "hiveDir (\<lambda>_. Some sample_url) ''r:x'' (up_manifest\<lparr>man_source := ''t''\<rparr>) up_cfg = Inr e"
    by (auto simp: is_ok_iff)
  from hive_dir_exact [OF a e] show ?thesis using e by (auto simp: manifest_url_def up_manifest_def)
qed

lemma hive_dir_type_witness:
  "\<exists>e. hiveDir (\<lambda>_. Some sample_url) ''r:x'' (up_manifest\<lparr>man_kind := ''bus''\<rparr>) up_cfg = Inl e \<and> feedTypeDir ''bus'' = None"
proof -
  have k: "feedTypeDir ''bus'' = None" by code_simp
  have "is_ok (manifest_url (\<lambda>_. Some sample_url) (up_manifest\<lparr>man_kind := ''bus''\<rparr>) up_cfg)" by (simp add: manifest_url_def up_manifest_def)
  with hive_dir_type [where parse_url = "\<lambda>_. Some sample_url" and base = "''r:x''" and m = "up_manifest\<lparr>man_kind := ''bus''\<rparr>" and cfg = up_cfg] k
  show ?thesis by (cases "hiveDir (\<lambda>_. Some sample_url) ''r:x'' (up_manifest\<lparr>man_kind := ''bus''\<rparr>) up_cfg") (auto simp: hiveDir_def)
qed

lemma failure_category_witness:
  "errorCategory (errors_New (''remote_verify: '' @ classifyError (errors_New ''exit status 1'') ''Forbidden'')) = ''permission''"
proof -
  have "classifyError (errors_New ''exit status 1'') ''Forbidden'' = ''permission''" by code_simp
  with failure_category [of "''remote_verify: ''" "errors_New ''exit status 1''" "''Forbidden''"] show ?thesis by simp
qed

lemma backoff_bounds_witness: "backoff (\<lambda>n. n - 1) 9 \<le> 320 * minute"
  using backoff_bounds [of "\<lambda>n. n - 1" 9] by simp

end
