(* ===== verification/Fetch_Samples.thy ===== *)
theory Fetch_Samples
  imports Fetch_Outcome Compact_Samples
begin

text \<open>The properties of a poll at a server that is busy once and then delivers the sample feed.\<close>

definition fet_cfg :: config where
  "fet_cfg = comp_cfg\<lparr>cf_http := (cf_http comp_cfg)\<lparr>ht_max_response_bytes := 100\<rparr>\<rparr>"

definition fet_f :: fetcher where
  "fet_f = \<lparr>fe_cfg = fet_cfg, fe_raw = raw_st, fe_fingerprint = ''f'', fe_version = ''1'', fe_protobuf = ''p'', fe_sha = raw_sha,
     fe_decoder = sample_decoder, fe_sidecar = raw_encode, fe_load_location = raw_load, fe_parse_url = (\<lambda>_. Some sample_url),
     fe_parse_error = (\<lambda>_. ''parse''), fe_url_string = (\<lambda>_. ''https://h/f''), fe_new_request = (\<lambda>_. True),
     fe_lookup_env = (\<lambda>_. None), fe_read_file = (\<lambda>_. Inl (errors_New ''none'')), fe_parse_http_time = (\<lambda>_. None),
     fe_media_type = Some, fe_gunzip = (\<lambda>_ _. NoGzipHeader (errors_New ''gzip'') 0)\<rparr>"

definition fet_busy :: http_response where
  "fet_busy = \<lparr>rsp_status = 503, rsp_header = [(''Retry-After'', ''1'')], rsp_content_length = 0, rsp_body = '''', rsp_body_err = None, rsp_url = ''https://h/f''\<rparr>"

definition fet_feed :: http_response where
  "fet_feed = \<lparr>rsp_status = 200, rsp_header = [(''Content-Type'', ''application/x-protobuf'')], rsp_content_length = 2, rsp_body = ''pb'',
     rsp_body_err = None, rsp_url = ''https://h/f''\<rparr>"

definition fet_out :: outside where
  "fet_out = \<lparr>ou_now = 20, ou_tick_random = Some ''t'', ou_do = (\<lambda>k _ _. Inr (if k = 1 then fet_busy else fet_feed)), ou_attempt_start = (\<lambda>k. 20 + k),
     ou_retry_now = (\<lambda>_. 21), ou_draw = (\<lambda>_ n. n - 1), ou_wait = (\<lambda>_ _. None), ou_temp_name = (\<lambda>_. ''body''), ou_completed = (\<lambda>k. 30 + k),
     ou_elapsed = (\<lambda>_. 10), ou_capture_random = (\<lambda>_. Some ''c''), ou_failed_at = 40\<rparr>"

definition fet_source :: source_cfg where
  "fet_source = hd (cf_sources comp_cfg)"

definition fet_stream :: stream_cfg where
  "fet_stream = hd (src_streams fet_source)"

definition fet_run :: "fetch_result result" where
  "fet_run = Fetch fet_f fet_out fet_source fet_stream 10 comp_fs empty_db"

lemma fet_f_sel [simp]: "re_attempts (ht_retry (cf_http (fe_cfg fet_f))) = 2" "fe_new_request fet_f u" "fe_parse_url fet_f u = Some sample_url"
  "fe_raw fet_f = raw_st" "fe_sha fet_f = raw_sha" "fe_decoder fet_f = sample_decoder" "fe_sidecar fet_f = raw_encode"
  by (simp_all add: fet_f_def fet_cfg_def comp_cfg_def sample_config_def Defaults_def)

lemma fet_out_sel [simp]: "ou_now fet_out = 20" "ou_tick_random fet_out = Some ''t''" "ou_do fet_out k u h = Inr (if k = 1 then fet_busy else fet_feed)"
  "ou_wait fet_out k d = None" "ou_temp_name fet_out k = ''body''" "ou_completed fet_out k = 30 + k" "ou_capture_random fet_out k = Some ''c''"
  by (simp_all add: fet_out_def)

lemma fet_stream_sel [simp]: "src_id fet_source = ''s''" "sm_id fet_stream = ''v''" "sm_kind fet_stream = ''trip_update''"
  "src_location fet_source = Some utc" "sm_timezone fet_stream = ''''" "sm_auth_query fet_stream = []" "sm_auth_headers fet_stream = []"
  "EffectiveMaxBytes fet_stream (cf_http (fe_cfg fet_f)) = 100"
  by (simp_all add: fet_source_def fet_stream_def comp_cfg_def sample_stream_def EffectiveMaxBytes_def fet_f_def fet_cfg_def)

lemma fet_resp_sel [simp]: "rsp_status fet_busy = 503" "rsp_status fet_feed = 200" "rsp_body fet_feed = ''pb''" "rsp_body_err fet_feed = None"
  "rsp_content_length fet_feed = 2"
  by (simp_all add: fet_busy_def fet_feed_def)

lemma fet_encoding: "to_lower (trim_space (header_Get (rsp_header fet_feed) ''Content-Encoding'')) = ''''"
  by code_simp

definition fet_cid :: string where
  "fet_cid = id_stamp 32 @ hex_encode ''c''"

lemma fet_ids: "NewID 32 (Some ''c'') = Inr fet_cid" "NewID 20 (Some ''t'') = Inr ''19700101T000000.000000020Z_74''"
  "fet_cid = ''19700101T000000.000000032Z_63''"
  by code_simp+

definition fet_sg :: staged where
  "fet_sg = \<lparr>sg_path = ''/d/staging/body'', sg_size = 2, sg_sha256 = raw_sha ''pb'', sg_too_large = False, sg_read_err = None\<rparr>"

definition fet_fs1 :: fs where
  "fet_fs1 = ([''d'', ''staging'', ''body''], Reg ''pb'') # comp_fs"

lemma fet_stage: "Stage raw_sha raw_st ''body'' ''pb'' None 100 comp_fs = Inr (fet_sg, fet_fs1)"
  by code_simp

lemma fet_read: "os_readfile fet_fs1 ''/d/staging/body'' = Inr ''pb''"
  by code_simp

lemma commit_same:
  assumes "cap_id c = cap_id c0" "cap_source c = cap_source c0" "cap_stream c = cap_stream c0" "cap_archive_date c = cap_archive_date c0"
    "cap_scheduled c = cap_scheduled c0"
  shows "is_ok (fst (Commit raw_encode s sg c loc fs)) = is_ok (fst (Commit raw_encode s sg c0 loc fs))"
  using assms
  by (simp add: Commit_def plan_commit_def Let_def raw_encode_def is_ok_def del: Join.simps split: sum.split prod.split option.split)

lemma fet_commit0: "is_ok (fst (Commit raw_encode raw_st fet_sg (raw_capture\<lparr>cap_id := ''19700101T000000.000000032Z_63''\<rparr>) utc fet_fs1))"
  by code_simp

lemma fet_c_fields:
  "cap_id (response_capture fet_f fet_out fet_source fet_stream t fet_feed 2 e w n b loc i u) = i"
    "cap_source (response_capture fet_f fet_out fet_source fet_stream t fet_feed 2 e w n b loc i u) = ''s''"
    "cap_stream (response_capture fet_f fet_out fet_source fet_stream t fet_feed 2 e w n b loc i u) = ''v''"
    "cap_archive_date (response_capture fet_f fet_out fet_source fet_stream t fet_feed 2 e w n b loc i u) = local_date loc (tick_scheduled t)"
    "cap_scheduled (response_capture fet_f fet_out fet_source fet_stream t fet_feed 2 e w n b loc i u) = tick_scheduled t"
  by (simp_all add: response_capture_def Let_def)

lemma fet_captured:
  assumes "tick_scheduled t = 10"
  shows "\<exists>c fs'. captureResponse fet_f fet_out fet_source fet_stream t fet_feed 2 comp_fs = (Inr c, fs')"
proof -
  have url: "\<exists>u. SanitizedStreamURL (fe_parse_url fet_f) x = Inr u" for x by (simp add: SanitizedStreamURL_def sample_url_def)
  have id: "NewID (ou_completed fet_out 2) (ou_capture_random fet_out 2) = Inr ''19700101T000000.000000032Z_63''" using fet_ids by simp
  have body: "decoded_body fet_f '''' fet_feed = (''pb'', None, None, 2)" by (simp add: decoded_body_def)
  have rd: "os_readfile fet_fs1 (sg_path fet_sg) = Inr ''pb''" using fet_read by (simp add: fet_sg_def)
  have small: "\<not> sg_too_large fet_sg" by (simp add: fet_sg_def)
  have ok: "\<exists>c fs'. Commit raw_encode raw_st fet_sg (response_capture fet_f fet_out fet_source fet_stream t fet_feed 2 e w n b utc
      ''19700101T000000.000000032Z_63'' u) utc fet_fs1 = (Inr c, fs')" for e w n b u
  proof -
    let ?c = "response_capture fet_f fet_out fet_source fet_stream t fet_feed 2 e w n b utc ''19700101T000000.000000032Z_63'' u"
    have "is_ok (fst (Commit raw_encode raw_st fet_sg ?c utc fet_fs1)) =
        is_ok (fst (Commit raw_encode raw_st fet_sg (raw_capture\<lparr>cap_id := ''19700101T000000.000000032Z_63''\<rparr>) utc fet_fs1))"
      by (rule commit_same) (simp_all add: fet_c_fields assms raw_clock raw_capture_def sample_capture_def)
    with fet_commit0 have "is_ok (fst (Commit raw_encode raw_st fet_sg ?c utc fet_fs1))" by simp
    then show ?thesis by (cases "Commit raw_encode raw_st fet_sg ?c utc fet_fs1") (auto simp: is_ok_iff)
  qed
  obtain u where u: "SanitizedStreamURL (fe_parse_url fet_f) (rsp_url fet_feed) = Inr u" using url by blast
  obtain c fs2 where c: "Commit raw_encode raw_st fet_sg (response_capture fet_f fet_out fet_source fet_stream t fet_feed 2 ''''
      (transport_complete fet_feed fet_sg None 2) 2 ''pb'' utc ''19700101T000000.000000032Z_63'' u) utc fet_fs1 = (Inr c, fs2)" using ok by blast
  obtain path where "capture_staged fet_f fet_out fet_source fet_stream t fet_feed 2 '''' None 2 fet_sg fet_fs1 = (Inr c, path, fs2)"
    using rd u id c by (simp add: capture_staged_def EffectiveLocation_def Let_def)
  then show ?thesis
    by (simp add: captureResponse_def fet_encoding body fet_stage small)
qed

lemma fet_runs:
  "\<exists>r c. fet_run = Inr r \<and> fr_capture r = Some c \<and> NewID (ou_now fet_out) (ou_tick_random fet_out) = Inr ''19700101T000000.000000020Z_74''"
proof -
  define t where "t = started_tick fet_f fet_out fet_source fet_stream ''19700101T000000.000000020Z_74'' 10"
  define h where "h = request_header fet_f fet_stream []"
  obtain v where v: "resolveRequest fet_f fet_stream = Inr (v, [])" by (simp add: resolveRequest_def)
  have run: "fet_run = Inr (fetch_attempts fet_f fet_out fet_source fet_stream (fe_url_string fet_f v) h 1 '''' 0 t comp_fs (put_tick t empty_db))"
    by (simp add: fet_run_def Fetch_def fet_ids RecordTick_def Let_def v flip: t_def h_def)
  have st: "tick_scheduled (t\<lparr>tick_attempts := 1, tick_attempts := 2\<rparr>) = 10" by (simp add: t_def started_tick_def)
  obtain c fs' where c: "captureResponse fet_f fet_out fet_source fet_stream (t\<lparr>tick_attempts := 2\<rparr>) fet_feed 2 comp_fs = (Inr c, fs')"
    using fet_captured [OF st] by auto
  have "fetch_attempts fet_f fet_out fet_source fet_stream u h 1 '''' 0 t comp_fs db =
      fetch_attempts fet_f fet_out fet_source fet_stream u h 2 '''' 503 (t\<lparr>tick_attempts := 1\<rparr>) comp_fs db" for u db
    by (subst fetch_attempts.simps) (simp add: retryableStatus_def Let_def)
  also have "fetch_attempts fet_f fet_out fet_source fet_stream u h 2 '''' 503 (t\<lparr>tick_attempts := 1\<rparr>) comp_fs db =
      finish_capture fet_f fet_out fet_source fet_stream (t\<lparr>tick_attempts := 2\<rparr>) fet_feed 2 comp_fs db" for u db
    by (subst fetch_attempts.simps) (simp add: Let_def)
  finally have "\<exists>r. fet_run = Inr r \<and> fr_capture r = Some c"
    unfolding run by (simp add: finish_capture_def c Let_def split: sum.split)
  then show ?thesis by (auto simp: fet_ids)
qed

lemma fet_setting: "fetch_setting fet_f fet_out fet_source fet_stream [''d''] comp_fs"
proof -
  have tree: "tree_fs comp_fs" using comp_ready by (simp add: compact_ready_def)
  have hex: "is_hex (raw_sha b)" for b by (simp add: raw_sha_def is_hex_def list_all_iff less_eq_char_def)
  have new: "\<not> has_prefix x i" if "NewID (30 + k) (Some ''c'') = Inr i" "length x < 20" for k i and x :: string
  proof -
    have "length i \<ge> 20" using that(1) by (auto simp: NewID_def id_stamp_def Let_def split: prod.split)
    then show ?thesis using that(2) by (auto simp: has_prefix_def)
  qed
  show ?thesis unfolding fetch_setting_def
    using comp_store tree hex new by (auto simp: plain_comp_def comp_fs_def split: if_splits)
qed

section \<open>The properties at the sample\<close>

lemma fetch_outcome_witness:
  "\<exists>r. fet_run = Inr r \<and> poll_recorded (started_tick fet_f fet_out fet_source fet_stream ''19700101T000000.000000020Z_74'' 10) empty_db r"
proof -
  obtain r where r: "fet_run = Inr r" using fet_runs by blast
  have "poll_recorded (started_tick fet_f fet_out fet_source fet_stream ''19700101T000000.000000020Z_74'' 10) empty_db r"
    by (rule fetch_outcome [OF r [unfolded fet_run_def]]) (simp_all add: fet_ids empty_db_def)
  with r show ?thesis by blast
qed

lemma captured_durable_witness:
  "\<exists>r c body. fet_run = Inr r \<and> fr_capture r = Some c \<and> map_of (fr_fs r) ([''d''] @ comps (cap_raw_path c)) = Some (Reg body) \<and>
     cap_sha256 c = raw_sha body"
proof -
  obtain r c where r: "fet_run = Inr r" "fr_capture r = Some c" using fet_runs by blast
  from captured_durable [OF r(1) [unfolded fet_run_def] r(2) fet_setting] r show ?thesis by fastforce
qed

lemma fetch_bounded_witness:
  "Fetch fet_f (fet_out\<lparr>ou_do := \<lambda>k t h. if k \<le> 2 then ou_do fet_out k t h else Inr fet_busy\<rparr>) fet_source fet_stream 10 comp_fs empty_db = fet_run"
  unfolding fet_run_def by (rule conjunct1 [OF fetch_bounded]) simp_all

lemma fetch_backoff_bounds_witness:
  "backoff_delay (\<lambda>n. n - 1) \<lparr>re_attempts = 100, re_initial_backoff = second, re_max_backoff = 5 * second\<rparr> 65 0 = 0 \<and>
   backoff_delay (\<lambda>n. n - 1) \<lparr>re_attempts = 100, re_initial_backoff = second, re_max_backoff = 5 * second\<rparr> 3 0 \<le> 4 * second"
proof -
  let ?r = "\<lparr>re_attempts = 100, re_initial_backoff = second, re_max_backoff = 5 * second\<rparr> :: retry_cfg"
  have d: "\<forall>n > 0. 0 \<le> n - 1 \<and> n - 1 < (n :: int)" by simp
  have b: "0 \<le> re_initial_backoff ?r" "re_initial_backoff ?r \<le> re_max_backoff ?r" by simp_all
  from fetch_backoff_bounds [OF d b, of 65 0] fetch_backoff_bounds [OF d b, of 3 0] show ?thesis by simp
qed

end
