(* ===== verification/Lifecycle_Samples.thy ===== *)
theory Lifecycle_Samples
  imports Adoption Retention Compact_Samples
begin

text \<open>The properties of reconciliation and retention at the sample compaction and the sample database.\<close>

lemma comp_revisions: "\<forall>k \<in> set (db_compactions empty_db). 0 \<le> cp_revision k"
  by (simp add: empty_db_def)

lemma compact_recovered_witness:
  "\<exists>env place b db''. visit_parquet env comp_cfg 0 raw_st (fst (snd comp_run)) (place, Reg b) empty_db = Adopted db'' \<and>
    db_compactions db'' = db_compactions (snd (snd comp_run))"
proof -
  obtain place m where m: "\<forall>env t. ce_sha env = ce_sha (co_env comp_co) \<and>
      ce_decode_manifest env (ce_encode_manifest (co_env comp_co) m) = Inr m \<longrightarrow>
      (\<exists>db''. visit_parquet env (co_cfg comp_co) t (co_raw comp_co) (fst (snd comp_run))
          (place, Reg (ce_encode_manifest (co_env comp_co) m)) empty_db = Adopted db'' \<and>
        db_compactions db'' = db_compactions (snd (snd comp_run)) \<and> db_inputs db'' = db_inputs (snd (snd comp_run)) \<and>
        db_captures db'' = db_captures (snd (snd comp_run)) \<and>
        upload_promise ` set (db_uploads db'') = upload_promise ` set (db_uploads (snd (snd comp_run))))"
    using compact_recovered [OF comp_run_eq comp_ready comp_revisions] by blast
  have "co_cfg comp_co = comp_cfg" "co_raw comp_co = raw_st" by (simp_all add: comp_co_def)
  with m [rule_format, of "(co_env comp_co)\<lparr>ce_decode_manifest := \<lambda>_. Inr m\<rparr>" 0] show ?thesis by fastforce
qed

definition clean_run :: cleanup_state where
  "clean_run = Cleanup raw_load comp_cfg raw_st 0 (30 + st_raw_retention (cf_storage comp_cfg)) comp_fs sample_published"

lemma clean_dirs: "real_dirs comp_fs [''d'']"
  by (simp add: real_dirs_list comp_fs_def)

text \<open>The two paths of the sample capture, then whatever follows: a file that is gone stays gone.\<close>

lemma clean_first: "case remove_paths raw_st [''raw/k'', ''side/k''] comp_fs of
    (n, bytes, fs1, err) \<Rightarrow> err = None \<and> map_of fs1 [''d'', ''raw'', ''k''] = None"
  by code_simp

lemma clean_run_removes: "map_of (cs_fs clean_run) [''d'', ''raw'', ''k''] = None"
proof -
  let ?b = "30 + st_raw_retention (cf_storage comp_cfg)"
  define s0 where "s0 = \<lparr>cs_result = nothing_cleaned, cs_fs = comp_fs, cs_db = sample_published, cs_error = None\<rparr>"
  define s1 where "s1 = clean_raw raw_st (RawRetentionCandidates 30 sample_published) s0"
  have root: "rs_root raw_st = abs_path [''d'']" "\<forall>c \<in> set [''d'']. plain_comp c" by (simp_all add: raw_st_def plain_comp_def abs_path_def)
  obtain n bytes fs1 where f: "remove_paths raw_st [''raw/k'', ''side/k''] comp_fs = (n, bytes, fs1, None)"
      "map_of fs1 [''d'', ''raw'', ''k''] = None"
    using clean_first by auto
  have r: "rc_raw_path (to_retention (capture_to_row (sample_capture ''k'' 10 ''1970-01-01''))) = ''raw/k''"
    "rc_sidecar_path (to_retention (capture_to_row (sample_capture ''k'' 10 ''1970-01-01''))) = ''side/k''"
    by (simp_all add: to_retention_def sample_capture_def capture_to_row_def)
  have s1: "cs_fs s1 = fs1"
    using f by (simp add: s1_def s0_def sample_candidate r Let_def split: sum.splits)
  have d0: "real_dirs (cs_fs s0) [''d'']" by (simp add: s0_def clean_dirs)
  have d1: "real_dirs (cs_fs s1) [''d'']"
    unfolding s1_def by (rule only_removed_dirs [OF conjunct1 [OF clean_raw_removes [OF root d0]] d0])
  define s2 where "s2 = clean_parquet raw_st (ParquetRetentionCandidates (?b - st_parquet_retention (cf_storage comp_cfg)) (cs_db s1)) s1"
  have s2: "map_of (cs_fs s2) [''d'', ''raw'', ''k''] = None"
    using clean_parquet_removes [OF root d1] f(2) s1 unfolding only_removed_def s2_def by metis
  define s3 where "s3 = clean_summaries raw_load comp_cfg 0 (SummaryCandidates (?b - st_metadata_retention (cf_storage comp_cfg)) (cs_db s2)) s2"
  have s3: "map_of (cs_fs s3) [''d'', ''raw'', ''k''] = None"
    using clean_summaries_keeps s2 unfolding s3_def by metis
  have h: "hasRequired comp_cfg" by (simp add: hasRequired_def comp_cfg_def IsRequired_def)
  have b: "?b - st_raw_retention (cf_storage comp_cfg) = 30" by simp
  have "cs_fs clean_run \<in> {cs_fs s1, cs_fs s2, cs_fs s3}"
    by (simp add: clean_run_def Cleanup_def h Let_def b del: add_diff_cancel_right' flip: s0_def)
      (simp add: flip: s1_def s2_def s3_def)
  then show ?thesis using s1 f(2) s2 s3 by auto
qed

lemma cleanup_removes_delivered_witness:
  "\<exists>c \<in> set (db_captures sample_published). \<forall>k \<in> set (compactions_of_capture (cap_id c) sample_published). delivered k sample_published"
proof -
  have g: "map_of (cs_fs clean_run) [''d'', ''raw'', ''k''] \<noteq> map_of comp_fs [''d'', ''raw'', ''k'']"
    unfolding clean_run_removes by (simp add: comp_fs_def)
  have n: "[''d'', ''raw'', ''k''] \<noteq> [''d''] @ comps ''d/p''" "[''d'', ''raw'', ''k''] \<noteq> [''d''] @ comps ''d/m''" by code_simp+
  have "cp_data_path (published_row 30) = ''d/p''" by (simp add: published_row_def sample_row_def sample_compaction_def compaction_to_row_def)
  moreover have "cp_manifest_path (published_row 30) = ''d/m''" by (simp add: published_row_def)
  ultimately show ?thesis
    using cleanup_removes_delivered [OF clean_run_def [symmetric] sample_reachable(3) _ _ clean_dirs g] n
    by (auto simp: raw_st_def plain_comp_def abs_path_def sample_published_eq)
qed

end
