(* ===== verification/App_Samples.thy ===== *)
theory App_Samples
  imports App_Lock Upload_Samples Fetch_Samples Lifecycle_Samples
begin

text \<open>The properties of the whole program at the sample configuration, and those of the maintenance at one job.\<close>

definition app_en :: "config \<Rightarrow> (string \<times> bytes) list env" where
  "app_en cfg = \<lparr>en_decode_yaml = (\<lambda>_ _. Inr cfg), en_next_yaml = (\<lambda>_. AtEOF), en_parse_url = (\<lambda>_. Some sample_url),
     en_load_location = (\<lambda>_. Inr utc), en_lookup_env = (\<lambda>_. None), en_parse_int = (\<lambda>_. None), en_eval_symlinks = (\<lambda>_ p. Inr (Clean p)),
     en_opened = 35, en_open_state = (\<lambda>_. None), en_integrity = None, en_mtime = (\<lambda>_. None), en_statfs = Inr (DiskUsage 100 50 1),
     en_decode_sidecar = (\<lambda>_. None), en_ctx = (\<lambda>_. None), en_now = (\<lambda>n. 40 + int n), en_fetcher = fet_f, en_outside = (\<lambda>_. fet_out),
     en_compactor = (\<lambda>_. comp_co), en_uploader = up_ul, en_fingerprint = (\<lambda>_. ''f''), en_version_json = ''{}'',
     en_status_json = (\<lambda>_ _. ''{}''), en_percent = (\<lambda>_. ''50.0'')\<rparr>"

text \<open>A root that an archiver has used before; its lock file, and that of the data directory beneath it, can be
  held by others.\<close>

definition app_wo :: "lock_place list \<Rightarrow> db \<Rightarrow> (string \<times> bytes) list world" where
  "app_wo locks db = \<lparr>wo_fs = [([''c''], Reg ''yaml''), ([''data''], Directory), ([''data'', ''lock''], Reg []),
       ([''data'', ''sub''], Directory), ([''data'', ''sub'', ''lock''], Reg [])],
     wo_db = db, wo_remote = [], wo_migrations = [], wo_locks = locks, wo_stdout = []\<rparr>"

definition app_args :: "string list" where
  "app_args = [''retire-destination'', ''-config'', ''/c'', ''--destination=a'', ''-reason'', ''gone'']"

lemma app_env_ok: "env_ok (app_en cfg)"
proof -
  have "Clean p = abs_path (comps p)" if "IsAbs p" for p
    using that by (auto simp: Clean_def unsplit_def abs_path_def IsAbs_def has_prefix_def)
  then show ?thesis unfolding env_ok_def using comps_rooted by (auto simp: app_en_def)
qed

lemma app_plain: "plain_fs (wo_fs (app_wo locks db))"
  by (simp add: plain_fs_def app_wo_def plain_comp_def)

lemma app_runs: "app_run en app_args wo (fst (run_command en app_args wo)) (snd (run_command en app_args wo))"
  by (rule app_run.other) (simp_all add: app_args_def)

lemma app_keeps_store_witness: "reachable_db (wo_db (snd (run_command (app_en sample_config) app_args (app_wo [] sample_published))))"
proof -
  have "reachable_db (wo_db (app_wo [] sample_published))" using sample_reachable(3) by (simp add: app_wo_def)
  from conjunct1 [OF app_keeps_store [OF app_runs app_env_ok app_plain this]] show ?thesis .
qed

lemma app_root: "command_root (app_en sample_config) ''retire-destination'' (tl app_args) (app_wo locks db) = Some ''/data''"
proof -
  have p: "parse_flags (\<lambda>_. None) (command_flags ''retire-destination'') (tl app_args) =
      Inr [(''config'', StringFlag ''/c''), (''destination'', StringFlag ''a''), (''reason'', StringFlag ''gone'')]"
    by code_simp
  have "Clean ''/c'' = ''/c''" "trim_space ''/c'' = ''/c''" "os_readfile (wo_fs (app_wo locks db)) ''/c'' = Inr ''yaml''"
    by (simp_all add: app_wo_def) code_simp+
  moreover have "st_state_db (cf_storage sample_config) = ''/data/state.sqlite''" "st_root (cf_storage sample_config) = ''/data''"
    by (simp_all add: sample_config_def Defaults_def)
  ultimately show ?thesis using p
    by (simp add: sample_accepted Let_def command_root_def named_root_def config_root_def loadConfig_def Load_def app_en_def flag_string_def)
qed

lemma app_locked: "lock_held (wo_fs (app_wo [[''data'', ''lock'']] db)) (wo_locks (app_wo [[''data'', ''lock'']] db)) ''/data''"
  unfolding app_wo_def by code_simp

lemma exclusive_lock_witness: "snd (run_command (app_en sample_config) app_args (app_wo [[''data'', ''lock'']] sample_published)) =
    app_wo [[''data'', ''lock'']] sample_published"
  using exclusive_lock [OF app_runs [of "app_en sample_config" "app_wo [[''data'', ''lock'']] sample_published", unfolded app_args_def], folded app_args_def]
    app_root [of "[[''data'', ''lock'']]" sample_published] app_locked [of sample_published]
  by (simp add: writing_commands_def app_args_def)

text \<open>Two configurations whose roots are nested can name one state database: both are accepted, and while one archiver
  holds the lock of the inner root, a command with the outer root changes the database.\<close>

definition nested_config :: "string \<Rightarrow> config" where
  "nested_config rdir = sample_config\<lparr>cf_storage := (cf_storage sample_config)\<lparr>st_root := rdir, st_state_db := ''/data/sub/state.sqlite''\<rparr>\<rparr>"

lemma nested_accepted:
  assumes "rdir \<in> set [''/data'', ''/data/sub'']"
  shows "Validate (\<lambda>_. Some sample_url) (\<lambda>_. Inr utc) (nested_config rdir) =
    Accepted ((nested_config rdir)\<lparr>cf_sources := [sample_source\<lparr>src_location := Some utc\<rparr>]\<rparr>)"
proof -
  have i: "ValidID ''demo''" "ValidID ''feed''" "validHeader ''Accept''" "\<not> sensitiveName ''Accept''" "\<not> contains_any ''*'' newline_chars"
    "validKind ''mixed''" "\<not> contains_any ''gtfs-rt-archiver/dev'' newline_chars" "\<not> escapes_parent ''state.sqlite''" "\<not> escapes_parent ''sub/state.sqlite''"
    by code_simp+
  have p: "Clean ''/data'' = ''/data''" "Clean ''/data/sub'' = ''/data/sub''" "Rel ''/data'' (Clean ''/data/sub/state.sqlite'') = Some ''sub/state.sqlite''"
    "Rel ''/data/sub'' (Clean ''/data/sub/state.sqlite'') = Some ''state.sqlite''" "IsAbs ''/data''" "IsAbs ''/data/sub''" "IsAbs ''/data/sub/state.sqlite''"
    by code_simp+
  show ?thesis using assms
    by (auto simp: nested_config_def Validate_def sample_config_def Defaults_def CurrentVersion_def global_problems_def p i Let_def
        problem_if_def stream_problems_def source_problems_def with_location_def sample_source_def sample_stream_def
        sample_url_def header_problems_def)
qed

lemma nested_roots:
  "lock_held (wo_fs (app_wo [[''data'', ''sub'', ''lock'']] db)) [[''data'', ''sub'', ''lock'']] ''/data/sub''"
  "fst (AcquireLock ''/data'' [[''data'', ''sub'', ''lock'']] (wo_fs (app_wo [[''data'', ''sub'', ''lock'']] db))) = Inr [''data'', ''lock'']"
  unfolding app_wo_def by code_simp+

lemma compaction_pool_witness:
  "\<exists>p. pool_step (\<lambda>_. comp_co) (\<lambda>_ _. None) False (start_pool comp_cfg [Job ''s'' ''v'' ''1970-01-02''] comp_fs empty_db) p \<and>
     (\<exists>p'. pool_step (\<lambda>_. comp_co) (\<lambda>_ _. None) False p p')"
proof -
  let ?j = "Job ''s'' ''v'' ''1970-01-02''" and ?step = "pool_step (\<lambda>_. comp_co) (\<lambda>_ _. None) False"
  let ?s = "start_pool comp_cfg [?j] comp_fs empty_db"
  have conc: "rt_compaction_concurrency (cf_runtime comp_cfg) = 1" by (simp add: comp_cfg_def sample_config_def Defaults_def)
  have w: "cw_workers ?s = [Idle]" "cw_queue ?s = [?j]" by (simp_all add: start_pool_def conc)
  have step: "?step ?s (?s\<lparr>cw_queue := [], cw_workers := (cw_workers ?s)[0 := Locking ?j]\<rparr>)"
    by (rule pool_step.hand_over) (simp_all add: w)
  then have "(?step ^^ 1) ?s (?s\<lparr>cw_queue := [], cw_workers := (cw_workers ?s)[0 := Locking ?j]\<rparr>)" by (simp only: relpowp_1)
  from compaction_pool [OF this] conc step show ?thesis by (auto simp: pool_finished_def w)
qed

end
