(* ===== verification/Spec2Isabelle.thy ===== *)
theory Spec2Isabelle
  imports App_Samples
begin

text \<open>
  A model of gtfs-rt-archiver and the theorems that make it correct. The program polls GTFS-Realtime
  feeds on a fixed grid, archives every response body in immutable files beside an SQLite database,
  compacts the captures of each closed local day into one Parquet revision, publishes revisions to
  remotes with rclone, and deletes local files once everything has been delivered and the retention has
  elapsed. Definitions are translated from the Go sources under src/; this file holds the guide.

  \<^bold>\<open>How the parts interact.\<close> \<open>app.Run\<close> parses a command and opens the data directory (the lock file of its
  root for the commands that write), the raw store and the database. The service runs three workers: the scheduler
  starts one goroutine per stream and calls \<open>fetch\<close> at its ticks, the maintenance loop compacts, uploads
  and cleans up, the monitor watches the disk and pauses polling. Fetch writes files through the raw
  store and rows through the state store; compaction reads captures, writes a revision directory and
  saves its row together with the queue of uploads; the uploader drains that queue and its success
  publishes a revision; retention deletes what the database says is published for long enough;
  reconciliation, at start-up, repairs the difference between files and rows that a crash leaves. The
  state database is the contract between all of them.

  \<^bold>\<open>Foundations.\<close>
  \<^item> \<open>Archiver_Prelude\<close>: Go strings and byte slices as char lists, the functions of package strings the
    sources use, decimal texts, wrap-around of int64, errors as a chain of texts and sentinels, results as
    \<open>go_error + 'a\<close>, generic lemmas and the collection \<open>str_simps\<close>.
  \<^item> \<open>Go_Time\<close>, \<open>Go_Time_Facts\<close>: instants, the civil calendar, the layouts RFC3339Nano and DateOnly, locations,
    AddDate and local midnights; round trips and the order of the texts.
  \<^item> \<open>Go_Json\<close>: what encoding/json keeps of strings and of maps of strings; \<open>Go_Float\<close>: a float64 with its
    infinities and NaN, under the comparisons of IEEE 754.
  \<^item> \<open>Go_Path\<close>, \<open>File_System\<close>: filepath and path on Unix, and the calls of package os over a tree of
    nodes with symbolic links. Path resolution follows at most forty links, as the kernel does.

  \<^bold>\<open>Components.\<close> (theory: source)
  \<^item> \<open>Records\<close>: internal/model/model.go. \<open>Config_Model\<close>, \<open>Config_Validate\<close>, \<open>Config_Facts\<close>: internal/config/config.go;
    \<open>config_ok\<close> is what an accepted configuration promises the other components.
  \<^item> \<open>Scheduler\<close> (phase and ticks), \<open>Scheduler_Loop\<close> (\<open>runStream\<close> of all streams as one step relation with
    the global and per-host semaphores), \<open>Scheduler_Record\<close> (\<open>recordSkip\<close>): internal/scheduler/scheduler.go.
    The interface \<open>semaphore\<close> is interpreted on both semaphores.
  \<^item> \<open>State_Rows\<close> (tables, encodings, keys), \<open>State_Store\<close> (one definition per operation), \<open>State_Inv\<close> (the
    invariant \<open>db_inv\<close>), \<open>State_Props\<close> (the relation \<open>calls\<close> of databases that honest callers reach, the
    interface \<open>revision_ledger\<close>): internal/state/store.go. A failed transaction gives an error and no
    database, so that the caller goes on with the old one, which is the rollback.
  \<^item> \<open>Raw_Store\<close>, \<open>Raw_Props\<close>, \<open>Raw_Recovery\<close>, \<open>Lock_Facts\<close>: internal/rawstore/store.go. A commit is a list of
    file-system writes; a crash is a prefix of that list. A held lock is the place of a root's lock file, so
    roots that reach the same file exclude each other and no others do.
  \<^item> \<open>Gtfs_Message\<close>, \<open>Projection\<close>: internal/projection/projection_generated.go; a message is the list of its set
    fields under the field numbers of gtfs-realtime.proto, which the getters of the bindings use too;
    \<open>Decode\<close>, \<open>Decode_Props\<close>: internal/gtfsrt/decode.go; \<open>Flatten\<close>, \<open>Flatten_Props\<close>:
    internal/projection/trip_update_flatten.go; \<open>Layouts\<close> compares the two layouts.
  \<^item> \<open>Compact_Parquet\<close> (writers, validators), \<open>Compact_Verify\<close> (VerifyDirectory), \<open>Compact\<close> (Compactor.Compact):
    internal/compact/compact.go, with \<open>Parquet_Props\<close> (the interface \<open>capture_writer\<close>), \<open>Written_Valid\<close>,
    \<open>Compact_Disk\<close>, \<open>Compact_Manifest\<close>, \<open>Compact_Props\<close> and \<open>Compact_Verified\<close> for the proof that a compaction
    leaves a revision that VerifyDirectory accepts.
  \<^item> \<open>Reconcile_All\<close>, \<open>Adoption\<close>, \<open>Plain_Names\<close>: internal/reconcile/reconcile.go.
    \<open>Retention\<close>: internal/lifecycle/retention.go.
  \<^item> \<open>Hive\<close>: internal/upload/hive.go. \<open>Upload\<close>, \<open>Upload_Props\<close>: internal/upload/upload.go.
  \<^item> \<open>Fetch\<close>, \<open>Fetch_Props\<close>, \<open>Fetch_Outcome\<close>: internal/fetch/fetch.go.
  \<^item> \<open>Observability\<close>: internal/observability/observability.go. \<open>Maintenance\<close>, \<open>Maintenance_Props\<close>:
    internal/service/maintenance.go.
  \<^item> \<open>App\<close> (flags, runtime, helpers), \<open>App_Commands\<close> (the commands and the service), \<open>App_Props\<close>
    (what they keep of the database), \<open>App_Lock\<close> (the lock): internal/app/app.go. A world has one state
    database, which configurations with different roots may share.
  \<^item> \<open>Raw_Samples\<close>, \<open>State_Samples\<close>, \<open>Feed_Samples\<close>, \<open>Compact_Samples\<close>, \<open>Lifecycle_Samples\<close>, \<open>Upload_Samples\<close>,
    \<open>Fetch_Samples\<close> and \<open>App_Samples\<close> apply the properties at concrete inputs.

  \<^bold>\<open>What the lemmas show.\<close>
  \<^item> The database. Every operation keeps \<open>db_inv\<close>; a published revision has all its required uploads
    verified or retired; nothing is offered for deletion that an unpublished revision still needs;
    captures are read back as saved, but for header bytes that JSON cannot hold; revisions of a day are consecutive. Every component (fetch,
    compaction, reconciliation, retention, uploads, maintenance), and with them every command and every
    run of the service, changes the database by honest calls of the store only, so these invariants hold
    of the program and not only of the store.
  \<^item> The files. Paths stay below the root; an interrupted commit is repaired when the identifier of its
    capture is one that validateCapturePaths accepts, and is left as it is and counted as corrupt when it is
    not, as with every identifier of this century; a captured response lies on
    disk under its hash; a successful compaction passes VerifyDirectory, and a crash after its rename is
    repaired by adoption with the row it would have had; retention deletes only what has been delivered.
  \<^item> The data. Classification, flags and timestamps of feeds; the flattened and the nested layout agree;
    a file that a writer produced is accepted by its validator.
  \<^item> The remotes. The directory of a revision is safe and determined by its manifest, a pass leaves no
    upload half done, and what is marked verified is stored at the remote with the recorded hash.
  \<^item> Concurrency and time. Ticks lie on the grid and are decided once, a stream can always proceed, both
    semaphores keep their bound, compaction workers exclude each other per stream and finish, the monitor
    has the hysteresis of its two thresholds, and the lock of a root keeps out every
    writing command that names the root.
\<close>

text \<open>
  \<^bold>\<open>Interfaces to the outside.\<close> Code that is not under src/ is an argument of the definitions that use it:
  SHA-256, the JSON codecs, url.Parse, the tz database, time.ParseDuration, the YAML decoder, gzip,
  mime.ParseMediaType, the protobuf decoder and its required-field check, the Parquet library, the rclone
  process (a function from an argument vector and the state of the remote to an outcome), HTTP exchanges,
  statfs, random draws, clocks and the names of temporary files. What a theorem needs of them (that a codec
  reads back what it wrote, that rclone reports honestly and that objects are immutable) is a named
  hypothesis of it, and its witness instantiates the argument with a concrete function.

  \<^bold>\<open>Bounds and fuel.\<close> Path resolution carries the kernel's limit of forty links, so that running out is the
  error of the system call and not a limit of the model. The search for days to compact has no bound in the
  code; it is a partial function whose value \<open>None\<close> means that it does not return, and \<open>eligible_days_exact\<close>
  shows that it returns where every day starts at midnight. The attempts of a poll recurse on the number of
  attempts left. The goroutines (scheduler, compaction pool, upload pool, service) are step relations: any
  interleaving of their steps is covered.

  \<^bold>\<open>Granularity.\<close> A call of the state store is one atomic step, as the single connection of the database makes
  it. In the composition of the service a poll, a compaction, an upload pass, a clean-up and a check of the
  monitor are one step each; the finer interleavings of their file operations are not considered, except
  for crashes inside a commit of the raw store and between a compaction's rename and its row. An error of
  the context is an argument where the code asks for it explicitly.
  Workers that outlive the shutdown timeout are not followed beyond the return of the command, which the
  end of the process follows.

  \<^bold>\<open>Not modelled.\<close>
  \<^item> src/internal/projection/gen/main.go and generate.go: a build-time program that prints
    projection_generated.go from protobuf descriptors. Its output is modelled.
  \<^item> src/internal/version and src/cmd/gtfs-rt-archiver/main.go: build-time strings, and the set-up of
    signals around \<open>app.Run\<close>.
  \<^item> Config.Fingerprint and MarshalJSON (a hash over JSON output; the fingerprint is an argument of
    compaction), the construction of the HTTP client, names and help texts of metrics, the HTTP server
    around the health endpoints, logging and usage texts.
  \<^item> Pragmas, schema statements and files of SQLite, Close, Checkpoint and IntegrityCheck. Opening
    and the integrity check either fail or give the stored tables; the row that opening inserts into
    schema_migrations is modelled. Failures of the database in the middle
    of its work, and of the devices below the file system, are left out; so are permissions and file modes.
  \<^item> Unicode beyond UTF-8 validity: \<open>to_lower\<close> and \<open>equal_fold\<close> fold ASCII letters only. They are applied to
    validated names, media types, encodings and hexadecimal hashes, on which that is exact, and to the
    texts of errors, where a letter such as the Kelvin sign would fold to ASCII in Go.
  \<^item> The rounding of floating-point arithmetic, as in the percentage of a disk.
  \<^item> Properties of the Parquet library and of rclone other than the hypotheses named above.
\<close>

end
